(* ===== verification/Prelude.thy ===== *)
theory Prelude
  imports Complex_Main "HOL-Library.AList" "HOL-Library.Multiset"
begin

text \<open>
  What every component shares: Go's maps and slices as HOL values, and the generic lemmas
  about folds and association lists that the component theories use.
\<close>

section \<open>Theorem collections\<close>

text \<open>
  \<open>frame_simps\<close> collects, for every operation of a component, the equations that say which
  fields of the state it leaves alone; \<open>step_defs\<close> the definitions a symbolic run unfolds.
\<close>

named_theorems frame_simps
named_theorems step_defs

section \<open>Go maps\<close>

text \<open>Reading a missing key of a Go map gives the zero value of the element type.\<close>

definition go_get :: "'v \<Rightarrow> ('k \<rightharpoonup> 'v) \<Rightarrow> 'k \<Rightarrow> 'v" where
  "go_get zero m k = (case m k of Some v \<Rightarrow> v | None \<Rightarrow> zero)"

lemma go_get_Some [simp]: "m k = Some v \<Longrightarrow> go_get z m k = v"
  by (simp add: go_get_def)

lemma go_get_upd [simp]: "go_get z (m(k \<mapsto> v)) k' = (if k' = k then v else go_get z m k')"
  by (simp add: go_get_def)

section \<open>Folds\<close>

text \<open>Invariant rule for a loop over a list.\<close>

lemma foldl_invariant:
  assumes "P s" and "\<And>s x. x \<in> set xs \<Longrightarrow> P s \<Longrightarrow> P (f s x)"
  shows "P (foldl f s xs)"
  using assms by (induction xs arbitrary: s) auto

lemma foldl_frame:
  assumes "\<And>s x. g (f s x) = g s"
  shows "g (foldl f s xs) = g s"
  using assms by (induction xs arbitrary: s) auto

end
