(* ===== verification/Float64.thy ===== *)
theory Float64
  imports Prelude "HOL-Library.Log_Nat"
begin

text \<open>
  Go's \<open>float64\<close>: IEEE-754 binary64 with round-to-nearest-even, as far as the program
  uses it. A finite value is the rational number it denotes; arithmetic computes exactly and
  rounds once (\<open>round64\<close>), overflow gives an infinity, and the comparisons are the IEEE
  ones, so that every comparison with NaN is false. The two zeros are one value here: the
  program never divides by a variable that may be zero without testing it first, and never
  inspects the sign of a zero.

  The theory proves what the clients need of rounding: it is monotone, exact on zero and on
  small integers, and symmetric in the sign.
\<close>

section \<open>Rounding to an integer, half to even\<close>

definition rne :: "rat \<Rightarrow> int" where
  "rne x = (let f = \<lfloor>x\<rfloor>; d = x - of_int f in
     if d < 1 / 2 then f else if 1 / 2 < d then f + 1 else if even f then f else f + 1)"

lemma rne_of_int [simp]: "rne (of_int n) = n"
  by (simp add: rne_def)

lemma rne_bounds: "\<lfloor>x\<rfloor> \<le> rne x" "rne x \<le> \<lfloor>x\<rfloor> + 1"
  by (auto simp: rne_def Let_def)

lemma rne_mono: "x \<le> y \<Longrightarrow> rne x \<le> rne y"
proof (cases "\<lfloor>x\<rfloor> = \<lfloor>y\<rfloor>")
  case True
  moreover assume "x \<le> y"
  ultimately show ?thesis by (auto simp: rne_def Let_def)
next
  case False
  assume "x \<le> y"
  then have "\<lfloor>x\<rfloor> \<le> \<lfloor>y\<rfloor>" by (rule floor_mono)
  with False have "\<lfloor>x\<rfloor> + 1 \<le> \<lfloor>y\<rfloor>" by simp
  then show ?thesis using rne_bounds(2) [of x] rne_bounds(1) [of y] by linarith
qed

lemma rne_le_int: "x \<le> of_int n \<Longrightarrow> rne x \<le> n"
  using rne_mono [of x "of_int n"] by simp

lemma rne_ge_int: "of_int n \<le> x \<Longrightarrow> n \<le> rne x"
  using rne_mono [of "of_int n" x] by simp

section \<open>The exponent of a positive rational\<close>

text \<open>\<open>ilog2 x\<close> is the \<open>k\<close> with \<open>2^k \<le> x < 2^(k+1)\<close>, computed from bit lengths.\<close>

definition ilog2 :: "rat \<Rightarrow> int" where
  "ilog2 x = (let (p, q) = quotient_of x; k = bitlen p - bitlen q in
     if 2 powi k \<le> x then k else k - 1)"

definition ulp_exp :: "rat \<Rightarrow> int" where
  "ulp_exp x = max (-1074) (ilog2 x - 52)"

definition round_pos :: "rat \<Rightarrow> rat" where
  "round_pos x = of_int (rne (x / 2 powi ulp_exp x)) * 2 powi ulp_exp x"

lemma powi2_pos [simp]: "0 < (2::rat) powi k" by (simp add: power_int_def)

lemma powi2_mono: "j \<le> k \<Longrightarrow> (2::rat) powi j \<le> 2 powi k"
  by (simp add: power_int_increasing)

lemma powi2_of_int: "0 \<le> k \<Longrightarrow> (2::rat) powi k = of_int (2 ^ nat k)"
  by (simp add: power_int_def)

lemma bitlen_powi:
  assumes "0 < p"
  shows "(2::rat) powi (bitlen p - 1) \<le> of_int p" "of_int p < (2::rat) powi (bitlen p)"
proof -
  have pos: "0 < bitlen p"
    using assms bitlen_nonneg [of p] bitlen_eq_zero_iff [of p] by linarith
  show "(2::rat) powi (bitlen p - 1) \<le> of_int p"
    using bitlen_bounds [OF assms] pos by (simp only: powi2_of_int of_int_le_iff)
  show "of_int p < (2::rat) powi (bitlen p)"
    using bitlen_bounds [OF assms] pos by (simp only: powi2_of_int of_int_less_iff)
qed

lemma ilog2_bounds:
  assumes "0 < x"
  shows "2 powi (ilog2 x) \<le> x" "x < 2 powi (ilog2 x + 1)"
proof -
  obtain p q where pq: "quotient_of x = (p, q)" by (cases "quotient_of x")
  have q: "0 < q" using quotient_of_denom_pos [OF pq] .
  have x: "x = of_int p / of_int q" by (rule quotient_of_div [OF pq])
  have p: "0 < p" using assms q x by (simp add: zero_less_divide_iff)
  define k where "k = bitlen p - bitlen q"
  have "x < 2 powi (bitlen p) / 2 powi (bitlen q - 1)"
    unfolding x using bitlen_powi [OF p] bitlen_powi [OF q] q p by (intro frac_less) auto
  also have "\<dots> = 2 powi (k + 1)"
    unfolding k_def by (simp flip: power_int_diff add: algebra_simps)
  finally have up: "x < 2 powi (k + 1)" .
  have "2 powi (k - 1) = (2::rat) powi (bitlen p - 1) / 2 powi (bitlen q)"
    unfolding k_def by (simp flip: power_int_diff add: algebra_simps)
  also have "\<dots> \<le> x"
    unfolding x using bitlen_powi [OF p] bitlen_powi [OF q] q p by (intro frac_le) auto
  finally have lo: "2 powi (k - 1) \<le> x" .
  have il: "ilog2 x = (if 2 powi k \<le> x then k else k - 1)"
    by (simp add: ilog2_def pq k_def)
  show "2 powi (ilog2 x) \<le> x" using lo by (simp add: il)
  show "x < 2 powi (ilog2 x + 1)" using up by (auto simp: il)
qed

lemma ilog2_mono: "0 < x \<Longrightarrow> x \<le> y \<Longrightarrow> ilog2 x \<le> ilog2 y"
proof (rule ccontr)
  assume "0 < x" "x \<le> y" "\<not> ilog2 x \<le> ilog2 y"
  then have "ilog2 y + 1 \<le> ilog2 x" by simp
  then have "(2::rat) powi (ilog2 y + 1) \<le> 2 powi (ilog2 x)" by (rule powi2_mono)
  with ilog2_bounds [of x] ilog2_bounds [of y] \<open>0 < x\<close> \<open>x \<le> y\<close> show False by linarith
qed

lemma round_pos_nonneg: "0 \<le> x \<Longrightarrow> 0 \<le> round_pos x"
  unfolding round_pos_def using rne_ge_int [of 0 "x / 2 powi ulp_exp x"] by simp

lemma powi2_split: "j \<le> k \<Longrightarrow> (2::rat) powi k = of_int (2 ^ nat (k - j)) * 2 powi j"
proof -
  assume "j \<le> k"
  have "(2::rat) powi k = 2 powi (k - j) * 2 powi j" by (simp flip: power_int_add)
  with \<open>j \<le> k\<close> show ?thesis by (simp only: powi2_of_int diff_ge_0_iff_ge)
qed

lemma round_pos_le_powi:
  assumes "x \<le> 2 powi k" "ulp_exp x \<le> k"
  shows "round_pos x \<le> 2 powi k"
proof -
  let ?e = "ulp_exp x"
  have k: "(2::rat) powi k = of_int (2 ^ nat (k - ?e)) * 2 powi ?e"
    using assms(2) by (rule powi2_split)
  have "x / 2 powi ?e \<le> of_int (2 ^ nat (k - ?e))"
    using assms(1) unfolding k by (simp add: field_simps)
  then have "rne (x / 2 powi ?e) \<le> 2 ^ nat (k - ?e)" by (rule rne_le_int)
  then have "(of_int (rne (x / 2 powi ?e)) :: rat) \<le> of_int (2 ^ nat (k - ?e))"
    by (simp only: of_int_le_iff)
  then show ?thesis unfolding round_pos_def k by (intro mult_right_mono) auto
qed

lemma round_pos_ge_powi:
  assumes "2 powi k \<le> x" "ulp_exp x \<le> k"
  shows "2 powi k \<le> round_pos x"
proof -
  let ?e = "ulp_exp x"
  have k: "(2::rat) powi k = of_int (2 ^ nat (k - ?e)) * 2 powi ?e"
    using assms(2) by (rule powi2_split)
  have "of_int (2 ^ nat (k - ?e)) \<le> x / 2 powi ?e"
    using assms(1) unfolding k by (simp add: field_simps)
  then have "2 ^ nat (k - ?e) \<le> rne (x / 2 powi ?e)" by (rule rne_ge_int)
  then have "(of_int (2 ^ nat (k - ?e)) :: rat) \<le> of_int (rne (x / 2 powi ?e))"
    by (simp only: of_int_le_iff)
  then show ?thesis unfolding round_pos_def k by (intro mult_right_mono) auto
qed

lemma round_pos_mono:
  assumes "0 < x" "x \<le> y"
  shows "round_pos x \<le> round_pos y"
proof (cases "ulp_exp x = ulp_exp y")
  case True
  have "rne (x / 2 powi ulp_exp y) \<le> rne (y / 2 powi ulp_exp y)"
    using assms by (intro rne_mono divide_right_mono) auto
  then show ?thesis by (simp add: round_pos_def True mult_right_mono)
next
  case False
  have "ilog2 x \<le> ilog2 y" using assms by (rule ilog2_mono)
  with False have lt: "ilog2 x + 1 \<le> ilog2 y" and e: "ulp_exp y = ilog2 y - 52"
    and ex: "ulp_exp x < ulp_exp y"
    by (auto simp: ulp_exp_def)
  have "x \<le> 2 powi (ilog2 y)"
    using ilog2_bounds(2) [OF assms(1)] powi2_mono [OF lt] by linarith
  then have "round_pos x \<le> 2 powi (ilog2 y)" using ex e by (intro round_pos_le_powi) auto
  also have "\<dots> \<le> round_pos y"
    using assms ilog2_bounds(1) [of y] e by (intro round_pos_ge_powi) auto
  finally show ?thesis .
qed

lemma round_pos_exact:
  assumes "x / 2 powi ulp_exp x = of_int n"
  shows "round_pos x = x"
proof -
  have "x = of_int n * 2 powi ulp_exp x" using assms by (simp add: field_simps)
  then show ?thesis by (simp add: round_pos_def assms)
qed

lemma round_pos_of_int:
  assumes "0 < n" "n < 2 ^ 53"
  shows "round_pos (of_int n) = of_int n"
proof (rule round_pos_exact)
  have "(2::rat) powi ilog2 (of_int n) \<le> of_int n" using assms by (intro ilog2_bounds) simp
  also have "\<dots> < of_int (2 ^ 53)" using assms by (simp only: of_int_less_iff)
  finally have "(2::rat) powi ilog2 (of_int n) < 2 powi 53" by simp
  then have "ilog2 (of_int n) < 53" using powi2_mono [of 53 "ilog2 (of_int n)"] by linarith
  then have e: "ulp_exp (of_int n) \<le> 0" by (simp add: ulp_exp_def)
  let ?k = "nat (- ulp_exp (of_int n))"
  have "(2::rat) powi ulp_exp (of_int n) = inverse (2 ^ ?k)" using e
    by (simp add: power_int_def power_one_over inverse_eq_divide)
  then show "of_int n / (2::rat) powi ulp_exp (of_int n) = of_int (n * 2 ^ ?k)"
    by (simp add: divide_inverse del: inverse_eq_divide)
qed

section \<open>Values and operations\<close>

datatype f64 = Fin rat | PInf | NInf | NaN

definition max_f64_bound :: rat where
  "max_f64_bound = 2 ^ 1024"

definition round64 :: "rat \<Rightarrow> f64" where
  "round64 x =
     (if x = 0 then Fin 0
      else if 0 < x then
        (let r = round_pos x in if max_f64_bound \<le> r then PInf else Fin r)
      else
        (let r = round_pos (- x) in if max_f64_bound \<le> r then NInf else Fin (- r)))"

text \<open>For evaluation, the comparison with \<open>2^1024\<close> is one of exponents.\<close>

lemma overflow_iff: "0 \<le> r \<Longrightarrow> max_f64_bound \<le> r \<longleftrightarrow> 1024 \<le> ilog2 r"
proof (cases "r = 0")
  case True
  then show ?thesis
    using powi2_pos [of "- bitlen 1"] bitlen_nonneg [of 1]
    by (simp add: max_f64_bound_def ilog2_def Let_def linorder_not_le del: powi2_pos)
next
  case False
  assume "0 \<le> r"
  with False have r: "0 < r" by simp
  have b: "max_f64_bound = 2 powi 1024" by (simp add: max_f64_bound_def power_int_def)
  show ?thesis
  proof
    assume "max_f64_bound \<le> r"
    then have "(2::rat) powi 1024 < 2 powi (ilog2 r + 1)"
      using ilog2_bounds(2) [OF r] unfolding b by (rule le_less_trans)
    then show "1024 \<le> ilog2 r"
      using powi2_mono [of "ilog2 r + 1" 1024] by linarith
  next
    assume "1024 \<le> ilog2 r"
    then have "(2::rat) powi 1024 \<le> 2 powi (ilog2 r)" by (rule powi2_mono)
    also have "\<dots> \<le> r" by (rule ilog2_bounds(1) [OF r])
    finally show "max_f64_bound \<le> r" unfolding b .
  qed
qed

text \<open>
  A dyadic rational with a short numerator is its own rounding; the evaluation tests for it
  first.
\<close>

lemma round_pos_dyadic:
  assumes p: "0 < p" "p < 2 ^ 53" and k: "k \<le> 1074"
  shows "round_pos (of_int p / 2 ^ k) = of_int p / 2 ^ k"
proof (rule round_pos_exact)
  let ?x = "of_int p / 2 ^ k :: rat"
  have "(of_int p :: rat) < of_int (2 ^ 53)" using p by (simp only: of_int_less_iff)
  then have "?x < of_int (2 ^ 53) / 2 ^ k" by (intro divide_strict_right_mono) auto
  moreover have "(2::rat) powi (53 - int k) = of_int (2 ^ 53) / 2 ^ k"
    by (subst power_int_diff) (simp_all add: power_int_def)
  ultimately have "?x < 2 powi (53 - int k)" by simp
  moreover have "2 powi ilog2 ?x \<le> ?x" using p by (intro ilog2_bounds) simp
  ultimately have "(2::rat) powi ilog2 ?x < 2 powi (53 - int k)" by (rule le_less_trans [rotated])
  then have "ilog2 ?x < 53 - int k"
    using powi2_mono [of "53 - int k" "ilog2 ?x"] by linarith
  then have e: "ulp_exp ?x \<le> - int k" using k by (simp add: ulp_exp_def)
  let ?j = "nat (- int k - ulp_exp ?x)"
  have "(1 / 2 ^ k :: rat) = 2 powi (- int k)" by (simp add: power_int_minus inverse_eq_divide)
  also have "\<dots> = of_int (2 ^ ?j) * 2 powi ulp_exp ?x" by (rule powi2_split [OF e])
  finally have "1 / 2 ^ k / (2::rat) powi ulp_exp ?x = of_int (2 ^ ?j)"
    by (simp add: nonzero_divide_eq_eq mult_ac)
  then have "of_int p * (1 / 2 ^ k / (2::rat) powi ulp_exp ?x) = of_int (p * 2 ^ ?j)" by simp
  then show "?x / 2 powi ulp_exp ?x = of_int (p * 2 ^ ?j)" by simp
qed

lemma round64_dyadic:
  assumes "\<bar>p\<bar> < 2 ^ 53" "k \<le> 1074"
  shows "round64 (of_int p / 2 ^ k) = Fin (of_int p / 2 ^ k)"
proof -
  have lt: "(of_int n / 2 ^ k :: rat) < max_f64_bound" if "0 < n" "n < 2 ^ 53" for n :: int
  proof -
    have "(of_int n :: rat) < of_int (2 ^ 53)" using that by (simp only: of_int_less_iff)
    then have "(of_int n / 2 ^ k :: rat) < of_int (2 ^ 53) / 1"
      using that by (intro frac_less) simp_all
    then show ?thesis by (simp add: max_f64_bound_def)
  qed
  consider "p = 0" | "0 < p" | "p < 0" by linarith
  then show ?thesis
  proof cases
    case 2
    then show ?thesis using assms lt [of p] by (simp add: round64_def round_pos_dyadic)
  next
    case 3
    have "round_pos (of_int (- p) / 2 ^ k) = of_int (- p) / 2 ^ k"
      using 3 assms by (intro round_pos_dyadic) auto
    with 3 show ?thesis using assms lt [of "- p"]
      by (simp add: round64_def divide_less_0_iff zero_less_divide_iff)
  qed (simp add: round64_def)
qed

definition dyadic :: "int \<Rightarrow> int \<Rightarrow> bool" where
  "dyadic p q = (\<bar>p\<bar> < 9007199254740992 \<and> bitlen q \<le> 1000 \<and> 2 ^ nat (bitlen q - 1) = q)"

lemma round64_code [code]:
  "round64 x =
     (case quotient_of x of (p, q) \<Rightarrow>
      if dyadic p q then Fin x
      else if 0 < x then (let r = round_pos x in if 1024 \<le> ilog2 r then PInf else Fin r)
      else (let r = round_pos (- x) in if 1024 \<le> ilog2 r then NInf else Fin (- r)))"
proof (cases "quotient_of x")
  case (Pair p q)
  have x: "x = of_int p / of_int q" by (rule quotient_of_div [OF Pair])
  show ?thesis
  proof (cases "dyadic p q")
    case True
    define k where "k = nat (bitlen q - 1)"
    have k: "q = 2 ^ k" "k \<le> 1074" "\<bar>p\<bar> < 2 ^ 53"
      using True unfolding dyadic_def k_def by (simp, linarith, simp)
    have "x = of_int p / 2 ^ k" unfolding x k(1) by simp
    then have "round64 x = Fin x" using round64_dyadic [OF k(3,2)] by simp
    then show ?thesis using True by (simp add: Pair)
  next
    case False
    have "dyadic 0 1" by code_simp
    then have "x \<noteq> 0" using Pair False by auto
    then show ?thesis
      using overflow_iff [OF round_pos_nonneg, of x] overflow_iff [OF round_pos_nonneg, of "- x"]
        False by (auto simp: round64_def Let_def Pair)
  qed
qed

definition f64_add :: "f64 \<Rightarrow> f64 \<Rightarrow> f64" where
  "f64_add x y = (case (x, y) of
     (Fin a, Fin b) \<Rightarrow> round64 (a + b)
   | (NaN, _) \<Rightarrow> NaN | (_, NaN) \<Rightarrow> NaN
   | (PInf, NInf) \<Rightarrow> NaN | (NInf, PInf) \<Rightarrow> NaN
   | (PInf, _) \<Rightarrow> PInf | (_, PInf) \<Rightarrow> PInf
   | (NInf, _) \<Rightarrow> NInf | (_, NInf) \<Rightarrow> NInf)"

fun f64_neg :: "f64 \<Rightarrow> f64" where
  "f64_neg (Fin a) = Fin (- a)"
| "f64_neg PInf = NInf"
| "f64_neg NInf = PInf"
| "f64_neg NaN = NaN"

definition f64_sub :: "f64 \<Rightarrow> f64 \<Rightarrow> f64" where
  "f64_sub x y = f64_add x (f64_neg y)"

fun f64_abs :: "f64 \<Rightarrow> f64" where
  "f64_abs (Fin a) = Fin \<bar>a\<bar>"
| "f64_abs PInf = PInf"
| "f64_abs NInf = PInf"
| "f64_abs NaN = NaN"

definition inf_of_sign :: "rat \<Rightarrow> f64" where
  "inf_of_sign s = (if 0 < s then PInf else if s < 0 then NInf else NaN)"

fun f64_sgn :: "f64 \<Rightarrow> rat" where
  "f64_sgn (Fin a) = sgn a"
| "f64_sgn PInf = 1"
| "f64_sgn NInf = - 1"
| "f64_sgn NaN = 0"

definition f64_mul :: "f64 \<Rightarrow> f64 \<Rightarrow> f64" where
  "f64_mul x y = (case (x, y) of
     (Fin a, Fin b) \<Rightarrow> round64 (a * b)
   | (NaN, _) \<Rightarrow> NaN | (_, NaN) \<Rightarrow> NaN
   | _ \<Rightarrow> inf_of_sign (f64_sgn x * f64_sgn y))"

text \<open>Division by a finite zero takes the sign of the dividend: the zero counts as positive.\<close>

definition f64_div :: "f64 \<Rightarrow> f64 \<Rightarrow> f64" where
  "f64_div x y = (case (x, y) of
     (NaN, _) \<Rightarrow> NaN | (_, NaN) \<Rightarrow> NaN
   | (Fin a, Fin b) \<Rightarrow> (if b = 0 then inf_of_sign (sgn a) else round64 (a / b))
   | (Fin a, _) \<Rightarrow> Fin 0
   | (_, Fin b) \<Rightarrow> inf_of_sign (f64_sgn x * (if b < 0 then - 1 else 1))
   | _ \<Rightarrow> NaN)"

fun f64_lt :: "f64 \<Rightarrow> f64 \<Rightarrow> bool" where
  "f64_lt NaN _ = False"
| "f64_lt _ NaN = False"
| "f64_lt (Fin a) (Fin b) = (a < b)"
| "f64_lt NInf y = (y \<noteq> NInf)"
| "f64_lt _ NInf = False"
| "f64_lt PInf _ = False"
| "f64_lt _ PInf = True"

definition f64_eq :: "f64 \<Rightarrow> f64 \<Rightarrow> bool" where
  "f64_eq x y = (x \<noteq> NaN \<and> x = y)"

definition f64_le :: "f64 \<Rightarrow> f64 \<Rightarrow> bool" where
  "f64_le x y = (f64_lt x y \<or> f64_eq x y)"

text \<open>\<open>math.Max\<close>: \<open>+Inf\<close> wins over NaN, NaN over everything else.\<close>

definition f64_max :: "f64 \<Rightarrow> f64 \<Rightarrow> f64" where
  "f64_max x y = (if x = PInf \<or> y = PInf then PInf
     else if x = NaN \<or> y = NaN then NaN else if f64_lt y x then x else y)"

text \<open>\<open>math.Min\<close>: \<open>-Inf\<close> wins over NaN, NaN over everything else.\<close>

definition f64_min :: "f64 \<Rightarrow> f64 \<Rightarrow> f64" where
  "f64_min x y = (if x = NInf \<or> y = NInf then NInf
     else if x = NaN \<or> y = NaN then NaN else if f64_lt x y then x else y)"

definition f64_of_int :: "int \<Rightarrow> f64" where
  "f64_of_int n = round64 (of_int n)"

definition f64_finite :: "f64 \<Rightarrow> bool" where
  "f64_finite x = (\<exists>a. x = Fin a)"

section \<open>Order and sign facts\<close>

lemma f64_le_Fin [simp]: "f64_le (Fin a) (Fin b) \<longleftrightarrow> a \<le> b"
  by (auto simp: f64_le_def f64_eq_def)

lemma f64_lt_NaN [simp]: "\<not> f64_lt x NaN"
  by (cases x) auto

lemma f64_le_NaN [simp]: "\<not> f64_le x NaN" "\<not> f64_le NaN x"
  by (auto simp: f64_le_def f64_eq_def)

lemma f64_lt_irrefl [simp]: "\<not> f64_lt x x"
  by (cases x) auto

lemma f64_le_refl: "x \<noteq> NaN \<Longrightarrow> f64_le x x"
  by (simp add: f64_le_def f64_eq_def)

lemma f64_lt_trans: "f64_lt x y \<Longrightarrow> f64_lt y z \<Longrightarrow> f64_lt x z"
  by (cases x; cases y; cases z) auto

lemma f64_le_trans: "f64_le x y \<Longrightarrow> f64_le y z \<Longrightarrow> f64_le x z"
  by (cases x; cases y; cases z) (auto simp: f64_le_def f64_eq_def)

lemma f64_le_lt_trans: "f64_le x y \<Longrightarrow> f64_lt y z \<Longrightarrow> f64_lt x z"
  by (cases x; cases y; cases z) (auto simp: f64_le_def f64_eq_def)

lemma f64_lt_le_trans: "f64_lt x y \<Longrightarrow> f64_le y z \<Longrightarrow> f64_lt x z"
  by (cases x; cases y; cases z) (auto simp: f64_le_def f64_eq_def)

lemma f64_lt_imp_le: "f64_lt x y \<Longrightarrow> f64_le x y"
  by (simp add: f64_le_def)

lemma f64_not_lt: "x \<noteq> NaN \<Longrightarrow> y \<noteq> NaN \<Longrightarrow> \<not> f64_lt x y \<longleftrightarrow> f64_le y x"
  by (cases x; cases y) (auto simp: f64_le_def f64_eq_def)

lemma f64_lt_not_sym: "f64_lt x y \<Longrightarrow> \<not> f64_lt y x"
  by (cases x; cases y) auto

lemma round64_0 [simp]: "round64 0 = Fin 0"
  by (simp add: round64_def)

lemma round64_neg: "round64 (- x) = f64_neg (round64 x)"
  by (auto simp: round64_def Let_def)

lemma round64_not_NaN [simp]: "round64 x \<noteq> NaN"
  by (auto simp: round64_def Let_def)

lemma round64_nonneg: "0 \<le> x \<Longrightarrow> f64_le (Fin 0) (round64 x)"
  using round_pos_nonneg [of x]
  by (auto simp: round64_def Let_def f64_le_def f64_eq_def)

lemma round64_mono_pos:
  assumes "0 < x" "x \<le> y"
  shows "f64_le (round64 x) (round64 y)"
  using round_pos_mono [OF assms] assms
  by (auto simp: round64_def Let_def f64_le_def f64_eq_def)

lemma f64_le_neg: "f64_le (f64_neg x) (f64_neg y) \<longleftrightarrow> f64_le y x"
  by (cases x; cases y) (auto simp: f64_le_def f64_eq_def)

lemma round64_mono:
  assumes "x \<le> y"
  shows "f64_le (round64 x) (round64 y)"
proof -
  consider "0 < x" | "x \<le> 0" "0 \<le> y" | "y < 0" by linarith
  then show ?thesis
  proof cases
    case 1 then show ?thesis using assms by (rule round64_mono_pos)
  next
    case 2
    have "f64_le (round64 x) (Fin 0)"
      using round64_nonneg [of "- x"] 2 f64_le_neg [of "Fin 0" "round64 x"]
      by (simp add: round64_neg)
    then show ?thesis using 2 round64_nonneg f64_le_trans by blast
  next
    case 3
    have "f64_le (round64 (- y)) (round64 (- x))" using 3 assms by (intro round64_mono_pos) auto
    then show ?thesis by (simp add: round64_neg f64_le_neg)
  qed
qed

lemma f64_of_int_exact:
  assumes "\<bar>n\<bar> < 2 ^ 53"
  shows "f64_of_int n = Fin (of_int n)"
proof -
  have lt: "k < 2 ^ 53 \<Longrightarrow> (of_int k :: rat) < max_f64_bound" for k :: int
  proof -
    assume "k < 2 ^ 53"
    then have "(of_int k :: rat) < of_int (2 ^ 53)" by (simp only: of_int_less_iff)
    then show ?thesis by (simp add: max_f64_bound_def)
  qed
  consider "n = 0" | "0 < n" | "n < 0" by linarith
  then show ?thesis
  proof cases
    case 1 then show ?thesis by (simp add: f64_of_int_def)
  next
    case 2 then show ?thesis
      using assms lt [of n] by (simp add: f64_of_int_def round64_def round_pos_of_int)
  next
    case 3
    then have "round_pos (of_int (- n)) = of_int (- n)" using assms by (intro round_pos_of_int) auto
    with 3 show ?thesis
      using assms lt [of "- n"] by (simp add: f64_of_int_def round64_def)
  qed
qed

lemma f64_sub_sym_abs: "f64_abs (f64_sub x y) = f64_abs (f64_sub y x)"
proof -
  have r: "f64_abs (round64 (- a)) = f64_abs (round64 a)" for a
    unfolding round64_neg by (cases "round64 a") auto
  show ?thesis
    using r [of "_ - _"]
    by (cases x; cases y) (auto simp: f64_sub_def f64_add_def)
qed

lemma f64_sub_self: "f64_finite x \<Longrightarrow> f64_sub x x = Fin 0"
  by (auto simp: f64_finite_def f64_sub_def f64_add_def)

lemma f64_abs_nonneg: "x \<noteq> NaN \<Longrightarrow> f64_le (Fin 0) (f64_abs x)"
  by (cases x) (auto simp: f64_le_def f64_eq_def)

end
