(* ===== verification/Domain.thy ===== *)
theory Domain
  imports Float64 "HOL-Library.List_Lexorder" "HOL-Library.Char_ord"
begin

text \<open>
  The domain types every pricing component shares: \<open>internal/models\<close> (the rows of the
  tables), \<open>scraper.ScrapedModel\<close> and \<open>webhooks.Payload\<close>. Strings are Go's byte
  strings, compared byte by byte (\<open>List_Lexorder\<close>); instants are nanoseconds on one
  time line.
\<close>

section \<open>Time\<close>

type_synonym instant = int
type_synonym duration = int

definition second :: duration where "second = 1000000000"
definition minute :: duration where "minute = 60 * second"
definition hour :: duration where "hour = 60 * minute"

section \<open>internal/models\<close>

text \<open>
  The string types of the source with their declared constants; \<open>PriceFieldOther\<close> is any
  other string a \<open>PriceField\<close> may hold, for which \<open>publish\<close> has its default branch.
\<close>

datatype price_field = PriceFieldInput | PriceFieldOutput | PriceFieldOther string

fun field_string :: "price_field \<Rightarrow> string" where
  "field_string PriceFieldInput = ''input_cost_per_token''"
| "field_string PriceFieldOutput = ''output_cost_per_token''"
| "field_string (PriceFieldOther s) = s"

datatype confidence = ConfidenceHigh | ConfidenceMedium | ConfidenceLow

datatype review_status = ReviewStatusPending | ReviewStatusResolved | ReviewStatusOverridden

definition DiscrepancyThreshold :: f64 where
  "DiscrepancyThreshold = round64 (5 / 100)"

lemma threshold_value [code]: "DiscrepancyThreshold = Fin (3602879701896397 / 72057594037927936)"
  unfolding DiscrepancyThreshold_def by code_simp

lemma threshold_not_NaN [simp]: "DiscrepancyThreshold \<noteq> NaN"
  by (subst threshold_value) simp

lemma threshold_pos: "f64_lt (Fin 0) DiscrepancyThreshold"
  by (subst threshold_value) simp

lemma threshold_lt_pos: "f64_lt DiscrepancyThreshold x \<Longrightarrow> f64_lt (Fin 0) x"
  using threshold_pos by (rule f64_lt_trans)

record Model =
  mdl_ID :: int
  mdl_Provider :: string
  mdl_Name :: string
  mdl_Slug :: string
  mdl_Modality :: string
  mdl_ContextWindow :: "int option"
  mdl_CreatedAt :: instant
  mdl_UpdatedAt :: instant

record Source =
  src_ID :: int
  src_Name :: string

record Price =
  prc_ID :: int
  prc_ModelID :: int
  prc_InputCostPerToken :: f64
  prc_OutputCostPerToken :: f64
  prc_SourceID :: int
  prc_ConfirmedAt :: instant
  prc_Confidence :: confidence
  prc_CreatedAt :: instant
  prc_LastVerifiedAt :: "instant option"

record PriceHistory =
  hst_ModelID :: int
  hst_InputCostPerToken :: f64
  hst_OutputCostPerToken :: f64
  hst_SourceID :: int
  hst_ConfirmedAt :: instant
  hst_RecordedAt :: instant

record ReviewQueueItem =
  rev_ID :: int
  rev_ModelID :: int
  rev_SourceAID :: int
  rev_SourceBID :: int
  rev_Field :: price_field
  rev_ValueA :: f64
  rev_ValueB :: f64
  rev_DeltaPct :: f64
  rev_Status :: review_status
  rev_CreatedAt :: instant
  rev_ResolvedAt :: "instant option"

section \<open>internal/scraper\<close>

record ScrapedModel =
  scr_Slug :: string
  scr_Provider :: string
  scr_InputCostPerToken :: f64
  scr_OutputCostPerToken :: f64
  scr_ContextWindow :: "int option"
  scr_Modality :: string
  scr_SourceName :: string
  scr_UnderlyingProvider :: string

section \<open>internal/webhooks\<close>

record WebhookRow =
  wh_ID :: string
  wh_APIKeyHash :: string
  wh_URL :: string
  wh_Secret :: string

record Payload =
  pl_ModelID :: int
  pl_Provider :: string
  pl_OldPriceInput :: f64
  pl_OldPriceOutput :: f64
  pl_NewPriceInput :: f64
  pl_NewPriceOutput :: f64
  pl_ConfirmedAt :: instant
  pl_Source :: string

record TaskPayload =
  tp_WebhookID :: string
  tp_URL :: string
  tp_Secret :: string
  tp_Event :: Payload

text \<open>
  \<open>encoding/json\<close> refuses the floats that are no JSON numbers; everything else in a payload
  can be marshalled.
\<close>

definition payload_marshals :: "Payload \<Rightarrow> bool" where
  "payload_marshals p \<longleftrightarrow>
     (\<forall>x \<in> set [pl_OldPriceInput p, pl_OldPriceOutput p, pl_NewPriceInput p, pl_NewPriceOutput p].
        x \<notin> {NaN, PInf, NInf})"

end
