(* ===== verification/Go_Text.thy ===== *)
theory Go_Text
  imports Domain
begin

text \<open>
  The functions of Go's packages \<open>strings\<close> and \<open>strconv\<close> that the components share, over byte
  strings. The case conversions act on the ASCII letters, which is Go's \<open>ToLower\<close> on the ASCII
  strings the program compares against.
\<close>

section \<open>Bytes\<close>

definition is_digit :: "char \<Rightarrow> bool" where
  "is_digit c = (CHR ''0'' \<le> c \<and> c \<le> CHR ''9'')"

definition is_upper :: "char \<Rightarrow> bool" where
  "is_upper c = (CHR ''A'' \<le> c \<and> c \<le> CHR ''Z'')"

definition is_lower :: "char \<Rightarrow> bool" where
  "is_lower c = (CHR ''a'' \<le> c \<and> c \<le> CHR ''z'')"

definition is_space :: "char \<Rightarrow> bool" where
  "is_space c = (c \<in> {CHR '' '', CHR 0x09, CHR 0x0A, CHR 0x0B, CHR 0x0C, CHR 0x0D})"

definition lower_char :: "char \<Rightarrow> char" where
  "lower_char c = (if is_upper c then char_of ((of_char c :: nat) + 32) else c)"

definition digit_value :: "char \<Rightarrow> int" where
  "digit_value c = of_char c - 48"

section \<open>Package strings\<close>

definition to_lower :: "string \<Rightarrow> string" where
  "to_lower = map lower_char"

fun index_byte :: "string \<Rightarrow> char \<Rightarrow> nat option" where
  "index_byte [] c = None"
| "index_byte (x # xs) c = (if x = c then Some 0 else map_option Suc (index_byte xs c))"

definition last_index_byte :: "string \<Rightarrow> char \<Rightarrow> nat option" where
  "last_index_byte s c = map_option (\<lambda>i. length s - 1 - i) (index_byte (rev s) c)"

fun has_prefix :: "string \<Rightarrow> string \<Rightarrow> bool" where
  "has_prefix s [] = True"
| "has_prefix [] (p # ps) = False"
| "has_prefix (x # xs) (p # ps) = (x = p \<and> has_prefix xs ps)"

definition has_suffix :: "string \<Rightarrow> string \<Rightarrow> bool" where
  "has_suffix s p = has_prefix (rev s) (rev p)"

fun contains :: "string \<Rightarrow> string \<Rightarrow> bool" where
  "contains [] p = (p = [])"
| "contains (x # xs) p = (has_prefix (x # xs) p \<or> contains xs p)"

definition trim_prefix :: "string \<Rightarrow> string \<Rightarrow> string" where
  "trim_prefix s p = (if has_prefix s p then drop (length p) s else s)"

definition trim_suffix :: "string \<Rightarrow> string \<Rightarrow> string" where
  "trim_suffix s p = (if has_suffix s p then take (length s - length p) s else s)"

definition trim_left_func :: "(char \<Rightarrow> bool) \<Rightarrow> string \<Rightarrow> string" where
  "trim_left_func = dropWhile"

definition trim_right_func :: "(char \<Rightarrow> bool) \<Rightarrow> string \<Rightarrow> string" where
  "trim_right_func f s = rev (dropWhile f (rev s))"

definition trim_space :: "string \<Rightarrow> string" where
  "trim_space s = trim_right_func is_space (trim_left_func is_space s)"

text \<open>\<open>strings.Split\<close> on a one-byte separator: always at least one piece.\<close>

fun split_byte :: "char \<Rightarrow> string \<Rightarrow> string list" where
  "split_byte c [] = [[]]"
| "split_byte c (x # xs) =
     (if x = c then [] # split_byte c xs
      else case split_byte c xs of [] \<Rightarrow> [[x]] | p # ps \<Rightarrow> (x # p) # ps)"

fun join :: "string \<Rightarrow> string list \<Rightarrow> string" where
  "join sep [] = []"
| "join sep [x] = x"
| "join sep (x # y # zs) = x @ sep @ join sep (y # zs)"

text \<open>\<open>strings.ReplaceAll\<close> of a non-empty pattern: left to right, no overlap.\<close>

function replace_all :: "string \<Rightarrow> string \<Rightarrow> string \<Rightarrow> string" where
  "replace_all s old new =
     (case s of [] \<Rightarrow> []
      | x # xs \<Rightarrow> if old \<noteq> [] \<and> has_prefix s old
                 then new @ replace_all (drop (length old) s) old new
                 else x # replace_all xs old new)"
  by pat_completeness auto
termination by (relation "measure (\<lambda>(s, _). length s)") auto

declare replace_all.simps [simp del]

section \<open>Package strconv\<close>

definition all_digits :: "string \<Rightarrow> bool" where
  "all_digits s = (s \<noteq> [] \<and> list_all is_digit s)"

definition digits_value :: "string \<Rightarrow> int" where
  "digits_value s = foldl (\<lambda>n c. 10 * n + digit_value c) 0 s"

text \<open>\<open>Atoi\<close>: an optional sign, at least one digit, and the value fits in 64 bits.\<close>

definition atoi :: "string \<Rightarrow> int option" where
  "atoi s =
     (let neg = (case s of c # _ \<Rightarrow> c = CHR ''-'' | [] \<Rightarrow> False);
          body = (case s of c # cs \<Rightarrow> if c = CHR ''-'' \<or> c = CHR ''+'' then cs else s | [] \<Rightarrow> s)
      in if \<not> all_digits body then None
         else let n = (if neg then - digits_value body else digits_value body)
              in if - (2 ^ 63) \<le> n \<and> n < 2 ^ 63 then Some n else None)"

text \<open>\<open>Itoa\<close>, and \<open>Sprintf\<close> with \<open>%d\<close>.\<close>

definition digit_char :: "nat \<Rightarrow> char" where
  "digit_char d = char_of (48 + int d)"

fun nat_digits :: "nat \<Rightarrow> string" where
  "nat_digits n = (if n < 10 then [digit_char n] else nat_digits (n div 10) @ [digit_char (n mod 10)])"

declare nat_digits.simps [simp del]

definition itoa :: "int \<Rightarrow> string" where
  "itoa n = (if n < 0 then CHR ''-'' # nat_digits (nat (- n)) else nat_digits (nat n))"

section \<open>Facts\<close>

lemma has_prefix_iff: "has_prefix s p \<longleftrightarrow> (\<exists>t. s = p @ t)"
  by (induction s p rule: has_prefix.induct) auto

lemma contains_iff: "contains s p \<longleftrightarrow> (\<exists>a b. s = a @ p @ b)"
proof (induction s)
  case (Cons x xs)
  show ?case
  proof
    assume "contains (x # xs) p"
    then consider "has_prefix (x # xs) p" | "contains xs p" by auto
    then show "\<exists>a b. x # xs = a @ p @ b"
    proof cases
      case 1
      then obtain b where "x # xs = p @ b" by (auto simp: has_prefix_iff)
      then have "x # xs = [] @ p @ b" by simp
      then show ?thesis by blast
    next
      case 2
      then obtain a b where "xs = a @ p @ b" using Cons.IH by blast
      then have "x # xs = (x # a) @ p @ b" by simp
      then show ?thesis by blast
    qed
  next
    assume "\<exists>a b. x # xs = a @ p @ b"
    then obtain a b where ab: "x # xs = a @ p @ b" by blast
    show "contains (x # xs) p"
    proof (cases a)
      case Nil
      then have "has_prefix (x # xs) p" using ab has_prefix_iff [of "x # xs" p] by auto
      then show ?thesis by simp
    next
      case (Cons y ys)
      then have "contains xs p" using ab Cons.IH by auto
      then show ?thesis by simp
    qed
  qed
qed auto

lemma split_byte_not_Nil [simp]: "split_byte c s \<noteq> []"
  by (induction s) (auto split: list.split)

lemma split_byte_no_sep: "p \<in> set (split_byte c s) \<Longrightarrow> c \<notin> set p"
  by (induction s arbitrary: p) (auto split: if_splits list.splits)

lemma join_cons: "xs \<noteq> [] \<Longrightarrow> join sep (x # xs) = x @ sep @ join sep xs"
  by (cases xs) auto

lemma join_split: "join [c] (split_byte c s) = s"
proof (induction s)
  case (Cons x xs)
  obtain p ps where p: "split_byte c xs = p # ps" by (cases "split_byte c xs") auto
  show ?case
    using Cons p by (cases ps) (auto simp: join_cons)
qed simp

lemma trim_left_idem [simp]: "trim_left_func f (trim_left_func f s) = trim_left_func f s"
  by (simp add: trim_left_func_def)

lemma dropWhile_rev_id: "s = [] \<or> \<not> f (hd s) \<Longrightarrow> dropWhile f s = s"
  by (cases s) auto

lemma trim_space_ends:
  assumes "trim_space s \<noteq> []"
  shows "\<not> is_space (hd (trim_space s)) \<and> \<not> is_space (last (trim_space s))"
proof -
  let ?l = "dropWhile is_space s"
  let ?r = "dropWhile is_space (rev ?l)"
  have t: "trim_space s = rev ?r" by (simp add: trim_space_def trim_left_func_def trim_right_func_def)
  have ne: "?r \<noteq> []" using assms t by simp
  then have last: "\<not> is_space (last (trim_space s))"
    using hd_dropWhile [OF ne] unfolding t by (subst last_rev) (use ne in simp_all)
  have "rev ?l = takeWhile is_space (rev ?l) @ ?r" by simp
  then have "?l = rev ?r @ rev (takeWhile is_space (rev ?l))" by (metis rev_append rev_rev_ident)
  then have "hd ?l = hd (rev ?r)" using ne by (metis hd_append2 rev_is_Nil_conv)
  moreover have "?l \<noteq> []" using ne by (metis dropWhile.simps(1) rev.simps(1))
  then have "\<not> is_space (hd ?l)" by (rule hd_dropWhile)
  ultimately show ?thesis using last t by simp
qed

lemma trim_space_idem [simp]: "trim_space (trim_space s) = trim_space s"
proof (cases "trim_space s = []")
  case True
  show ?thesis unfolding True by (simp add: trim_space_def trim_left_func_def trim_right_func_def)
next
  case False
  let ?t = "trim_space s"
  have "dropWhile is_space ?t = ?t"
    using trim_space_ends [OF False] by (intro dropWhile_rev_id) simp
  moreover have "dropWhile is_space (rev ?t) = rev ?t"
    using trim_space_ends [OF False] False by (intro dropWhile_rev_id) (simp add: hd_rev)
  ultimately show ?thesis
    by (simp add: trim_space_def [of ?t] trim_left_func_def trim_right_func_def)
qed

lemma lower_char_not_upper: "\<not> is_upper (lower_char c)"
proof (cases "is_upper c")
  case True
  then have b: "65 \<le> (of_char c :: nat)" "(of_char c :: nat) \<le> 90"
    by (simp_all add: is_upper_def less_eq_char_def)
  then have "(of_char (char_of ((of_char c :: nat) + 32)) :: nat) = of_char c + 32"
    by (simp add: take_bit_nat_eq_self of_char_of)
  then show ?thesis using True b by (simp add: lower_char_def is_upper_def less_eq_char_def)
qed (simp add: lower_char_def)

lemma to_lower_idem [simp]: "to_lower (to_lower s) = to_lower s"
proof -
  have "lower_char (lower_char c) = lower_char c" for c
    using lower_char_not_upper [of c] by (simp only: lower_char_def [of "lower_char c"] if_False)
  then show ?thesis by (simp add: to_lower_def)
qed

lemma length_to_lower [simp]: "length (to_lower s) = length s"
  by (simp add: to_lower_def)

section \<open>Printing and reading integers\<close>

lemma digit_char_table:
  "list_all (\<lambda>d. is_digit (digit_char d) \<and> digit_value (digit_char d) = int d) [0..<10]"
  by code_simp

lemma digit_char_facts [simp]:
  "d < 10 \<Longrightarrow> is_digit (digit_char d)" "d < 10 \<Longrightarrow> digit_value (digit_char d) = int d"
  using digit_char_table by (simp_all add: list_all_iff)

lemma digits_value_snoc: "digits_value (s @ [c]) = 10 * digits_value s + digit_value c"
  by (simp add: digits_value_def)

lemma nat_digits_facts: "all_digits (nat_digits n) \<and> digits_value (nat_digits n) = int n"
proof (induction n rule: nat_digits.induct)
  case (1 n)
  show ?case
  proof (cases "n < 10")
    case True
    then show ?thesis by (subst (1 2) nat_digits.simps) (simp add: all_digits_def digits_value_def)
  next
    case False
    then have "int n = 10 * int (n div 10) + int (n mod 10)" by presburger
    with False 1 show ?thesis
      by (subst (1 2) nat_digits.simps) (simp add: all_digits_def digits_value_snoc)
  qed
qed

lemma nat_digits_head: "nat_digits n \<noteq> [] \<and> is_digit (hd (nat_digits n))"
  using nat_digits_facts [of n] by (cases "nat_digits n") (auto simp: all_digits_def)

lemma atoi_itoa [simp]: "- (2 ^ 63) \<le> n \<Longrightarrow> n < 2 ^ 63 \<Longrightarrow> atoi (itoa n) = Some n"
proof -
  assume b: "- (2 ^ 63) \<le> n" "n < 2 ^ 63"
  have m: "\<not> is_digit (CHR ''-'')" "\<not> is_digit (CHR ''+'')" by (auto simp: is_digit_def less_eq_char_def)
  show ?thesis
  proof (cases "n < 0")
    case True
    then show ?thesis using b nat_digits_facts [of "nat (- n)"] by (simp add: itoa_def atoi_def Let_def)
  next
    case False
    obtain c cs where c: "nat_digits (nat n) = c # cs" "is_digit c"
      using nat_digits_head [of "nat n"] by (cases "nat_digits (nat n)") auto
    have "c \<noteq> CHR ''-''" "c \<noteq> CHR ''+''" using c(2) m by auto
    then show ?thesis using b False nat_digits_facts [of "nat n"] c(1)
      by (simp add: itoa_def atoi_def Let_def)
  qed
qed

end
