(* ===== verification/Go_Codec.thy ===== *)
theory Go_Codec
  imports Go_Text "HOL-Library.Word"
begin

text \<open>
  The packages \<open>encoding/hex\<close>, \<open>encoding/base64\<close> (\<open>RawURLEncoding\<close>), \<open>crypto/sha256\<close> and
  \<open>crypto/hmac\<close> over byte strings, as the signup, auth, webhook and middleware code uses them.
\<close>

section \<open>encoding/hex\<close>

definition hex_digits :: string where
  "hex_digits = ''0123456789abcdef''"

definition byte :: "char \<Rightarrow> nat" where
  "byte c = of_char c"

definition hex_encode :: "string \<Rightarrow> string" where
  "hex_encode s = concat (map (\<lambda>c. [hex_digits ! (byte c div 16), hex_digits ! (byte c mod 16)]) s)"

definition unhex :: "char \<Rightarrow> nat option" where
  "unhex c = (if is_digit c then Some (byte c - 48)
     else if CHR ''a'' \<le> c \<and> c \<le> CHR ''f'' then Some (byte c - 87)
     else if CHR ''A'' \<le> c \<and> c \<le> CHR ''F'' then Some (byte c - 55) else None)"

fun hex_decode :: "string \<Rightarrow> string option" where
  "hex_decode [] = Some []"
| "hex_decode [c] = None"
| "hex_decode (a # b # cs) =
     (case (unhex a, unhex b, hex_decode cs) of
        (Some x, Some y, Some s) \<Rightarrow> Some (char_of (16 * x + y) # s) | _ \<Rightarrow> None)"

section \<open>encoding/base64: RawURLEncoding\<close>

definition b64_digits :: string where
  "b64_digits = ''ABCDEFGHIJKLMNOPQRSTUVWXYZabcdefghijklmnopqrstuvwxyz0123456789-_''"

definition b64_digit :: "nat \<Rightarrow> char" where
  "b64_digit n = b64_digits ! n"

definition unb64 :: "char \<Rightarrow> nat option" where
  "unb64 c = index_byte b64_digits c"

fun b64_sextets :: "string \<Rightarrow> nat list" where
  "b64_sextets [] = []"
| "b64_sextets [a] = [byte a div 4, byte a mod 4 * 16]"
| "b64_sextets [a, b] = [byte a div 4, byte a mod 4 * 16 + byte b div 16, byte b mod 16 * 4]"
| "b64_sextets (a # b # c # s) =
     byte a div 4 # (byte a mod 4 * 16 + byte b div 16) # (byte b mod 16 * 4 + byte c div 64) #
     byte c mod 64 # b64_sextets s"

definition b64_encode :: "string \<Rightarrow> string" where
  "b64_encode s = map b64_digit (b64_sextets s)"

text \<open>Line breaks are skipped, and the unused low bits of the last digit are ignored.\<close>

fun b64_quads :: "nat list \<Rightarrow> string option" where
  "b64_quads [] = Some []"
| "b64_quads [x] = None"
| "b64_quads [x, y] = Some [char_of (x * 4 + y div 16)]"
| "b64_quads [x, y, z] = Some [char_of (x * 4 + y div 16), char_of (y mod 16 * 16 + z div 4)]"
| "b64_quads (x # y # z # w # r) =
     map_option (\<lambda>s. char_of (x * 4 + y div 16) # char_of (y mod 16 * 16 + z div 4) #
       char_of (z mod 4 * 64 + w) # s) (b64_quads r)"

definition b64_decode :: "string \<Rightarrow> string option" where
  "b64_decode s =
     (let ds = map unb64 (filter (\<lambda>c. c \<noteq> CHR 0x0A \<and> c \<noteq> CHR 0x0D) s)
      in if None \<in> set ds then None else b64_quads (map the ds))"

section \<open>crypto/sha256\<close>

type_synonym u32 = "32 word"

text \<open>
  The constants as the standard defines them: the first 32 bits of the fractional parts of the cube
  roots and the square roots of the first primes, found bit by bit.
\<close>

definition sha_primes :: "nat list" where
  "sha_primes = [
     2, 3, 5, 7, 11, 13, 17, 19, 23, 29, 31, 37, 41, 43, 47, 53,
     59, 61, 67, 71, 73, 79, 83, 89, 97, 101, 103, 107, 109, 113, 127, 131,
     137, 139, 149, 151, 157, 163, 167, 173, 179, 181, 191, 193, 197, 199, 211, 223,
     227, 229, 233, 239, 241, 251, 257, 263, 269, 271, 277, 281, 283, 293, 307, 311]"

fun root_below :: "nat \<Rightarrow> nat \<Rightarrow> nat \<Rightarrow> nat \<Rightarrow> nat" where
  "root_below k m 0 a = a"
| "root_below k m (Suc i) a = root_below k m i (if (a + 2 ^ i) ^ k \<le> m then a + 2 ^ i else a)"

definition frac_root :: "nat \<Rightarrow> nat \<Rightarrow> u32" where
  "frac_root k p = word_of_nat (root_below k (p * 2 ^ (32 * k)) 36 0)"

definition sha_K :: "u32 list" where
  "sha_K = map (frac_root 3) sha_primes"

definition sha_H0 :: "u32 list" where
  "sha_H0 = map (frac_root 2) (take 8 sha_primes)"

definition sha_s0 :: "u32 \<Rightarrow> u32" where
  "sha_s0 x = xor (xor (word_rotr 7 x) (word_rotr 18 x)) (drop_bit 3 x)"

definition sha_s1 :: "u32 \<Rightarrow> u32" where
  "sha_s1 x = xor (xor (word_rotr 17 x) (word_rotr 19 x)) (drop_bit 10 x)"

definition sha_S0 :: "u32 \<Rightarrow> u32" where
  "sha_S0 x = xor (xor (word_rotr 2 x) (word_rotr 13 x)) (word_rotr 22 x)"

definition sha_S1 :: "u32 \<Rightarrow> u32" where
  "sha_S1 x = xor (xor (word_rotr 6 x) (word_rotr 11 x)) (word_rotr 25 x)"

definition sha_round :: "u32 list \<Rightarrow> u32 \<times> u32 \<Rightarrow> u32 list" where
  "sha_round v kw = (case (v, kw) of
     ([a, b, c, d, e, f, g, h], (k, w)) \<Rightarrow>
        (let t1 = h + sha_S1 e + xor (and e f) (and (not e) g) + k + w;
             t2 = sha_S0 a + xor (xor (and a b) (and a c)) (and b c)
         in [t1 + t2, a, b, c, d + t1, e, f, g])
   | _ \<Rightarrow> v)"

text \<open>The message schedule, newest word first.\<close>

fun sha_schedule :: "nat \<Rightarrow> u32 list \<Rightarrow> u32 list" where
  "sha_schedule 0 ws = rev ws"
| "sha_schedule (Suc n) ws =
     sha_schedule n ((sha_s1 (ws ! 1) + ws ! 6 + sha_s0 (ws ! 14) + ws ! 15) # ws)"

definition be32 :: "string \<Rightarrow> u32" where
  "be32 s = word_of_nat (foldl (\<lambda>n c. 256 * n + byte c) 0 s)"

fun chunks :: "nat \<Rightarrow> nat \<Rightarrow> 'a list \<Rightarrow> 'a list list" where
  "chunks 0 n xs = []"
| "chunks (Suc fuel) n xs = (if xs = [] then [] else take n xs # chunks fuel n (drop n xs))"

definition sha_block :: "u32 list \<Rightarrow> string \<Rightarrow> u32 list" where
  "sha_block h b =
     (let ws = sha_schedule 48 (rev (map be32 (chunks 16 4 b)))
      in map (\<lambda>(x, y). x + y) (zip h (foldl sha_round h (zip sha_K ws))))"

definition be_bytes :: "nat \<Rightarrow> nat \<Rightarrow> string" where
  "be_bytes n x = map (\<lambda>i. char_of (x div 256 ^ (n - 1 - i) mod 256)) [0..<n]"

definition sha_pad :: "string \<Rightarrow> string" where
  "sha_pad s =
     s @ [char_of (128 :: nat)] @ replicate ((119 - length s mod 64) mod 64) (char_of (0 :: nat)) @
     be_bytes 8 (8 * length s)"

definition sha256 :: "string \<Rightarrow> string" where
  "sha256 s =
     (let p = sha_pad s
      in concat (map (\<lambda>w. be_bytes 4 (unat w)) (foldl sha_block sha_H0 (chunks (length p) 64 p))))"

section \<open>crypto/hmac\<close>

definition xor_byte :: "nat \<Rightarrow> char \<Rightarrow> char" where
  "xor_byte n c = char_of (xor n (byte c))"

definition hmac_sha256 :: "string \<Rightarrow> string \<Rightarrow> string" where
  "hmac_sha256 key msg =
     (let k = (if 64 < length key then sha256 key else key);
          k' = k @ replicate (64 - length k) (char_of (0 :: nat))
      in sha256 (map (xor_byte 0x5c) k' @ sha256 (map (xor_byte 0x36) k' @ msg)))"

section \<open>Facts\<close>

lemma byte_bound [simp]: "byte c < 256"
  by (simp add: byte_def)

lemma char_byte [simp]: "char_of (byte c) = c"
  by (simp add: byte_def)

lemma unhex_table: "list_all (\<lambda>n. unhex (hex_digits ! n) = Some n) [0..<16]"
  by code_simp

lemma unhex_digit [simp]: "n < 16 \<Longrightarrow> unhex (hex_digits ! n) = Some n"
  using unhex_table by (simp add: list_all_iff)

lemma hex_roundtrip [simp]: "hex_decode (hex_encode s) = Some s"
proof (induction s)
  case (Cons c s)
  have "byte c div 16 < 16" using byte_bound [of c] by (simp add: less_mult_imp_div_less)
  moreover have "16 * (byte c div 16) + byte c mod 16 = byte c" by simp
  ultimately show ?case using Cons by (simp add: hex_encode_def)
qed (simp add: hex_encode_def)

lemma unb64_table: "list_all (\<lambda>n. unb64 (b64_digit n) = Some n) [0..<64]"
  by code_simp

lemma unb64_digit [simp]: "n < 64 \<Longrightarrow> unb64 (b64_digit n) = Some n"
  using unb64_table by (simp add: list_all_iff)

lemma six_bits:
  "byte a div 4 < 64" "byte a mod 4 * 16 + byte b div 16 < 64" "byte b mod 16 * 4 + byte c div 64 < 64"
  "byte c mod 64 < 64" "byte a mod 4 * 16 < 64" "byte b mod 16 * 4 < 64"
  using byte_bound [of a] byte_bound [of b] byte_bound [of c] by linarith+

lemma b64_sextets_bound: "\<forall>n \<in> set (b64_sextets s). n < 64"
  by (induction s rule: b64_sextets.induct) (simp_all add: six_bits)

lemma sextet_split:
  fixes x y k :: nat
  assumes "y < k"
  shows "(x * k + y) div k = x" "(x * k + y) mod k = y"
  using assms by simp_all

lemma byte_quot: "byte c div 16 < 16" "byte c div 64 < 4" "byte c div 4 < 64"
  using byte_bound [of c] by linarith+

lemma sextet_bytes:
  "byte a div 4 * 4 + (byte a mod 4 * 16 + byte b div 16) div 16 = byte a"
  "byte a div 4 * 4 + byte a mod 4 * 16 div 16 = byte a"
  "(byte a mod 4 * 16 + byte b div 16) mod 16 * 16 + (byte b mod 16 * 4 + byte c div 64) div 4 = byte b"
  "(byte a mod 4 * 16 + byte b div 16) mod 16 * 16 + byte b mod 16 * 4 div 4 = byte b"
  "(byte b mod 16 * 4 + byte c div 64) mod 4 * 64 + byte c mod 64 = byte c"
  using byte_quot [of b] byte_quot [of c] by (simp_all only: sextet_split) simp_all

lemma b64_quads_sextets: "b64_quads (b64_sextets s) = Some s"
  by (induction s rule: b64_sextets.induct) (simp_all only: b64_sextets.simps b64_quads.simps
      sextet_bytes char_byte option.map)

lemma b64_digit_printable: "n < 64 \<Longrightarrow> b64_digit n \<noteq> CHR 0x0A \<and> b64_digit n \<noteq> CHR 0x0D \<and> b64_digit n \<noteq> CHR ''.''"
proof -
  have "list_all (\<lambda>n. b64_digit n \<noteq> CHR 0x0A \<and> b64_digit n \<noteq> CHR 0x0D \<and> b64_digit n \<noteq> CHR ''.'') [0..<64]"
    by code_simp
  then show "n < 64 \<Longrightarrow> ?thesis" by (simp add: list_all_iff)
qed

lemma b64_roundtrip [simp]: "b64_decode (b64_encode s) = Some s"
proof -
  let ?ns = "b64_sextets s"
  have b: "\<forall>n \<in> set ?ns. n < 64" by (rule b64_sextets_bound)
  then have "filter (\<lambda>c. c \<noteq> CHR 0x0A \<and> c \<noteq> CHR 0x0D) (map b64_digit ?ns) = map b64_digit ?ns"
    using b64_digit_printable by (auto simp: filter_id_conv)
  moreover have "map unb64 (map b64_digit ?ns) = map Some ?ns" using b by simp
  ultimately show ?thesis
    using b by (auto simp: b64_decode_def b64_encode_def Let_def comp_def b64_quads_sextets
        cong: map_cong)
qed

lemma b64_no_dot: "CHR ''.'' \<notin> set (b64_encode s)"
proof
  assume "CHR ''.'' \<in> set (b64_encode s)"
  then obtain n where "n \<in> set (b64_sextets s)" "b64_digit n = CHR ''.''"
    by (auto simp: b64_encode_def)
  then show False using b64_sextets_bound [of s] b64_digit_printable [of n] by blast
qed

lemma hex_no_dot: "CHR ''.'' \<notin> set (hex_encode s)"
proof -
  have "list_all (\<lambda>n. hex_digits ! n \<noteq> CHR ''.'') [0..<16]" by code_simp
  then have d: "n < 16 \<Longrightarrow> hex_digits ! n \<noteq> CHR ''.''" for n by (simp add: list_all_iff)
  show ?thesis
  proof
    assume "CHR ''.'' \<in> set (hex_encode s)"
    then obtain c where c: "CHR ''.'' = hex_digits ! (byte c div 16) \<or> CHR ''.'' = hex_digits ! (byte c mod 16)"
      by (auto simp: hex_encode_def)
    have "byte c div 16 < 16" using byte_bound [of c] by (simp add: less_mult_imp_div_less)
    then show False using c d [of "byte c div 16"] d [of "byte c mod 16"] by auto
  qed
qed

lemma length_sha_round: "length (sha_round v kw) = length v"
  by (auto simp: sha_round_def Let_def split: prod.split list.split)

lemma length_sha_block: "length (sha_block h b) = length h"
proof -
  have "length (foldl sha_round h kws) = length h" for kws
    by (induction kws arbitrary: h) (simp_all add: length_sha_round)
  then show ?thesis by (simp add: sha_block_def Let_def)
qed

lemma length_sha256 [simp]: "length (sha256 s) = 32"
proof -
  have f: "length (foldl sha_block h bs) = length h" for h bs
    by (induction bs arbitrary: h) (simp_all add: length_sha_block)
  have c: "length (concat (map (\<lambda>w. be_bytes 4 (unat (w :: u32))) ws)) = 4 * length ws" for ws
    by (induction ws) (simp_all add: be_bytes_def)
  show ?thesis by (simp add: sha256_def Let_def c f sha_H0_def sha_primes_def)
qed

lemma length_hmac [simp]: "length (hmac_sha256 k m) = 32"
  by (simp add: hmac_sha256_def Let_def)

lemma length_hex [simp]: "length (hex_encode s) = 2 * length s"
  by (induction s) (simp_all add: hex_encode_def)

end
