(* ===== verification/Go_Json.thy ===== *)
theory Go_Json
  imports Go_Codec
begin

text \<open>
  The package \<open>encoding/json\<close>: \<open>Marshal\<close> on values built from objects, arrays, strings, integers
  and booleans, the parser behind \<open>Unmarshal\<close>, and the assignment of object members to the fields
  of a struct. Strings are bytes; a byte that is not valid UTF-8 becomes the replacement character
  in both directions, as in Go. A number is kept as its literal. The nesting limit of 10000 is not
  modelled, and member names are matched up to the case of ASCII letters.
\<close>

section \<open>UTF-8\<close>

definition cont_byte :: "nat \<Rightarrow> bool" where
  "cont_byte b = (128 \<le> b \<and> b < 192)"

text \<open>The width of the valid encoding at the head of a string, 0 when there is none.\<close>

definition rune_width :: "string \<Rightarrow> nat" where
  "rune_width s = (case map byte (take 4 s) of
     [] \<Rightarrow> 0
   | a # r \<Rightarrow>
       if a < 128 then 1 else
       (case r of [] \<Rightarrow> 0 | b # r2 \<Rightarrow>
          if 194 \<le> a \<and> a \<le> 223 then (if cont_byte b then 2 else 0) else
          (case r2 of [] \<Rightarrow> 0 | c # r3 \<Rightarrow>
             if 224 \<le> a \<and> a \<le> 239
             then (if cont_byte b \<and> (a = 224 \<longrightarrow> 160 \<le> b) \<and> (a = 237 \<longrightarrow> b < 160) \<and> cont_byte c
                   then 3 else 0)
             else (case r3 of [] \<Rightarrow> 0 | d # _ \<Rightarrow>
               if 240 \<le> a \<and> a \<le> 244
               then (if cont_byte b \<and> (a = 240 \<longrightarrow> 144 \<le> b) \<and> (a = 244 \<longrightarrow> b < 144) \<and> cont_byte c \<and>
                        cont_byte d then 4 else 0)
               else 0))))"

definition utf8 :: "nat \<Rightarrow> string" where
  "utf8 n = map char_of
     (if n < 128 then [n]
      else if n < 2048 then [192 + n div 64, 128 + n mod 64]
      else if n < 65536 then [224 + n div 4096, 128 + n div 64 mod 64, 128 + n mod 64]
      else [240 + n div 262144, 128 + n div 4096 mod 64, 128 + n div 64 mod 64, 128 + n mod 64])"

abbreviation (input) "QUOTE \<equiv> CHR 0x22"
abbreviation (input) "BACKSLASH \<equiv> CHR 0x5C"

section \<open>Printing\<close>

datatype json = JNull | JBool bool | JNum string | JStr string | JArr "json list"
  | JObj "(string \<times> json) list"

definition escape_byte :: "char \<Rightarrow> string" where
  "escape_byte c =
     (if c = QUOTE \<or> c = BACKSLASH then [BACKSLASH, c]
      else if c = CHR 0x08 then [BACKSLASH, CHR ''b'']
      else if c = CHR 0x0C then [BACKSLASH, CHR ''f'']
      else if c = CHR 0x0A then [BACKSLASH, CHR ''n'']
      else if c = CHR 0x0D then [BACKSLASH, CHR ''r'']
      else if c = CHR 0x09 then [BACKSLASH, CHR ''t'']
      else if byte c < 32 \<or> c = CHR ''<'' \<or> c = CHR ''>'' \<or> c = CHR ''&''
      then BACKSLASH # ''u00'' @ [hex_digits ! (byte c div 16), hex_digits ! (byte c mod 16)]
      else [c])"

function escape :: "string \<Rightarrow> string" where
  "escape s = (case s of
     [] \<Rightarrow> []
   | c # cs \<Rightarrow>
       if byte c < 128 then escape_byte c @ escape cs
       else let w = rune_width s in
         if w = 0 then BACKSLASH # ''ufffd'' @ escape cs
         else (if take w s = map char_of [0xE2, 0x80, 0xA8 :: nat] then BACKSLASH # ''u2028''
               else if take w s = map char_of [0xE2, 0x80, 0xA9 :: nat] then BACKSLASH # ''u2029''
               else take w s) @ escape (drop w s))"
  by pat_completeness auto
termination by (relation "measure length") auto

declare escape.simps [simp del]

definition quote :: "string \<Rightarrow> string" where
  "quote s = QUOTE # escape s @ [QUOTE]"

fun json_print :: "json \<Rightarrow> string" and print_elems :: "json list \<Rightarrow> string"
  and print_members :: "(string \<times> json) list \<Rightarrow> string" where
  "json_print JNull = ''null''"
| "json_print (JBool b) = (if b then ''true'' else ''false'')"
| "json_print (JNum n) = n"
| "json_print (JStr s) = quote s"
| "json_print (JArr vs) = (if vs = [] then ''[]'' else CHR ''['' # print_elems vs)"
| "json_print (JObj ms) = (if ms = [] then ''{}'' else CHR ''{'' # print_members ms)"
| "print_elems [] = []"
| "print_elems (v # vs) = json_print v @ (if vs = [] then '']'' else CHR '','' # print_elems vs)"
| "print_members [] = []"
| "print_members ((k, v) # ms) =
     quote k @ CHR '':'' # json_print v @ (if ms = [] then ''}'' else CHR '','' # print_members ms)"

section \<open>Parsing\<close>

definition json_space :: "char \<Rightarrow> bool" where
  "json_space c = (c \<in> {CHR '' '', CHR 0x09, CHR 0x0A, CHR 0x0D})"

definition skip_ws :: "string \<Rightarrow> string" where
  "skip_ws = dropWhile json_space"

text \<open>The text after the next mark, when the mark is there.\<close>

definition after :: "char \<Rightarrow> string \<Rightarrow> string option" where
  "after c s = (case skip_ws s of x # r \<Rightarrow> if x = c then Some r else None | [] \<Rightarrow> None)"

definition hex4 :: "string \<Rightarrow> nat option" where
  "hex4 s = (case map unhex (take 4 s) of
     [Some a, Some b, Some c, Some d] \<Rightarrow> Some (4096 * a + 256 * b + 16 * c + d) | _ \<Rightarrow> None)"

definition unescape :: "char \<Rightarrow> char option" where
  "unescape c = map_of [(QUOTE, QUOTE), (BACKSLASH, BACKSLASH), (CHR ''/'', CHR ''/''),
     (CHR ''b'', CHR 0x08), (CHR ''f'', CHR 0x0C), (CHR ''n'', CHR 0x0A), (CHR ''r'', CHR 0x0D),
     (CHR ''t'', CHR 0x09)] c"

definition push :: "string \<Rightarrow> (string \<times> string) option \<Rightarrow> (string \<times> string) option" where
  "push p = map_option (\<lambda>(s, r). (p @ s, r))"

text \<open>The body of a string, after its opening quote, and what follows its closing quote.\<close>

function parse_str :: "string \<Rightarrow> (string \<times> string) option" where
  "parse_str s = (case s of
     [] \<Rightarrow> None
   | c # cs \<Rightarrow>
       if c = QUOTE then Some ([], cs)
       else if byte c < 32 then None
       else if c = BACKSLASH then
         (case cs of
            [] \<Rightarrow> None
          | e # r \<Rightarrow>
              if e = CHR ''u'' then
                (case hex4 r of
                   None \<Rightarrow> None
                 | Some n \<Rightarrow>
                     if 0xD800 \<le> n \<and> n < 0xE000 then
                       (let r2 = drop 4 r; lo = (if has_prefix r2 (BACKSLASH # ''u'') then hex4 (drop 2 r2) else None)
                        in case lo of
                             Some m \<Rightarrow>
                               if n < 0xDC00 \<and> 0xDC00 \<le> m \<and> m < 0xE000
                               then push (utf8 (0x10000 + (n - 0xD800) * 1024 + (m - 0xDC00))) (parse_str (drop 6 r2))
                               else push (utf8 0xFFFD) (parse_str r2)
                           | None \<Rightarrow> push (utf8 0xFFFD) (parse_str r2))
                     else push (utf8 n) (parse_str (drop 4 r)))
              else (case unescape e of None \<Rightarrow> None | Some x \<Rightarrow> push [x] (parse_str r)))
       else if byte c < 128 then push [c] (parse_str cs)
       else (let w = rune_width s in
             if w = 0 then push (utf8 0xFFFD) (parse_str cs)
             else push (take w s) (parse_str (drop w s))))"
  by pat_completeness auto
termination by (relation "measure length") (auto split: if_splits)

declare parse_str.simps [simp del]

definition parse_frac :: "string \<Rightarrow> (string \<times> string) option" where
  "parse_frac s = (case s of
     c # r \<Rightarrow>
       if c \<noteq> CHR ''.'' then Some ([], s)
       else if takeWhile is_digit r = [] then None
       else Some (c # takeWhile is_digit r, dropWhile is_digit r)
   | [] \<Rightarrow> Some ([], s))"

definition parse_exp :: "string \<Rightarrow> (string \<times> string) option" where
  "parse_exp s = (case s of
     e # r \<Rightarrow>
       if e = CHR ''e'' \<or> e = CHR ''E'' then
         (let sign = takeWhile (\<lambda>c. c = CHR ''+'' \<or> c = CHR ''-'') (take 1 r); r' = drop (length sign) r
          in if takeWhile is_digit r' = [] then None
             else Some (e # sign @ takeWhile is_digit r', dropWhile is_digit r'))
       else Some ([], s)
   | [] \<Rightarrow> Some ([], s))"

definition parse_nat :: "string \<Rightarrow> (string \<times> string) option" where
  "parse_nat s = (case s of
     [] \<Rightarrow> None
   | c # r \<Rightarrow> if c = CHR ''0'' then Some (''0'', r)
              else if is_digit c then Some (takeWhile is_digit s, dropWhile is_digit s) else None)"

definition parse_num :: "string \<Rightarrow> (string \<times> string) option" where
  "parse_num s =
     (let sign = takeWhile (\<lambda>c. c = CHR ''-'') (take 1 s)
      in case parse_nat (drop (length sign) s) of
           None \<Rightarrow> None
         | Some (i, r1) \<Rightarrow>
             (case parse_frac r1 of None \<Rightarrow> None | Some (f, r2) \<Rightarrow>
             (case parse_exp r2 of None \<Rightarrow> None | Some (e, r3) \<Rightarrow> Some (sign @ i @ f @ e, r3))))"

definition literal :: "string \<Rightarrow> json \<Rightarrow> string \<Rightarrow> (json \<times> string) option" where
  "literal l v s = (if has_prefix s l then Some (v, drop (length l) s) else None)"

fun parse_val :: "nat \<Rightarrow> string \<Rightarrow> (json \<times> string) option"
  and parse_elems :: "nat \<Rightarrow> string \<Rightarrow> (json list \<times> string) option"
  and parse_members :: "nat \<Rightarrow> string \<Rightarrow> ((string \<times> json) list \<times> string) option" where
  "parse_val 0 s = None"
| "parse_val (Suc n) s = (case skip_ws s of
     [] \<Rightarrow> None
   | c # cs \<Rightarrow>
       if c = CHR ''{'' then
         (case after (CHR ''}'') cs of
            Some r \<Rightarrow> Some (JObj [], r)
          | None \<Rightarrow> map_option (\<lambda>(ms, r). (JObj ms, r)) (parse_members n cs))
       else if c = CHR ''['' then
         (case after (CHR '']'') cs of
            Some r \<Rightarrow> Some (JArr [], r)
          | None \<Rightarrow> map_option (\<lambda>(vs, r). (JArr vs, r)) (parse_elems n cs))
       else if c = QUOTE then map_option (\<lambda>(x, r). (JStr x, r)) (parse_str cs)
       else if c = CHR ''t'' then literal ''true'' (JBool True) (c # cs)
       else if c = CHR ''f'' then literal ''false'' (JBool False) (c # cs)
       else if c = CHR ''n'' then literal ''null'' JNull (c # cs)
       else map_option (\<lambda>(x, r). (JNum x, r)) (parse_num (c # cs)))"
| "parse_elems 0 s = None"
| "parse_elems (Suc n) s = (case parse_val n s of
     None \<Rightarrow> None
   | Some (v, r) \<Rightarrow>
       (case after (CHR '','') r of
          Some r' \<Rightarrow> map_option (\<lambda>(vs, r''). (v # vs, r'')) (parse_elems n r')
        | None \<Rightarrow> map_option (\<lambda>r'. ([v], r')) (after (CHR '']'') r)))"
| "parse_members 0 s = None"
| "parse_members (Suc n) s =
     (case Option.bind (after QUOTE s) parse_str of
        None \<Rightarrow> None
      | Some (k, r) \<Rightarrow>
          (case Option.bind (after (CHR '':'') r) (parse_val n) of
             None \<Rightarrow> None
           | Some (v, r2) \<Rightarrow>
               (case after (CHR '','') r2 of
                  Some r' \<Rightarrow> map_option (\<lambda>(ms, r''). ((k, v) # ms, r'')) (parse_members n r')
                | None \<Rightarrow> map_option (\<lambda>r'. ([(k, v)], r')) (after (CHR ''}'') r2))))"

text \<open>Every value consumes at least one byte, so its length is fuel enough.\<close>

definition json_parse :: "string \<Rightarrow> json option" where
  "json_parse s = (case parse_val (Suc (length s)) s of
     Some (v, r) \<Rightarrow> if skip_ws r = [] then Some v else None | None \<Rightarrow> None)"

section \<open>Members and fields\<close>

text \<open>
  \<open>Unmarshal\<close> assigns the members in order, each to the field whose name it matches; \<open>null\<close> leaves
  a field as it is, and a value of another type is an error.
\<close>

definition field_values :: "string \<Rightarrow> (string \<times> json) list \<Rightarrow> json list" where
  "field_values name ms = map snd (filter (\<lambda>(k, v). to_lower k = to_lower name \<and> v \<noteq> JNull) ms)"

definition str_field :: "string \<Rightarrow> (string \<times> json) list \<Rightarrow> string option" where
  "str_field name ms = foldl (\<lambda>acc v. case (acc, v) of (Some _, JStr s) \<Rightarrow> Some s | _ \<Rightarrow> None)
     (Some []) (field_values name ms)"

definition int_field :: "string \<Rightarrow> (string \<times> json) list \<Rightarrow> int option" where
  "int_field name ms = foldl (\<lambda>acc v. case (acc, v) of (Some _, JNum n) \<Rightarrow> atoi n | _ \<Rightarrow> None)
     (Some 0) (field_values name ms)"

definition bool_field :: "string \<Rightarrow> (string \<times> json) list \<Rightarrow> bool option" where
  "bool_field name ms = foldl (\<lambda>acc v. case (acc, v) of (Some _, JBool b) \<Rightarrow> Some b | _ \<Rightarrow> None)
     (Some False) (field_values name ms)"

text \<open>The members a struct is read from; \<open>null\<close> reads as no members.\<close>

definition struct_members :: "string \<Rightarrow> (string \<times> json) list option" where
  "struct_members s = (case json_parse s of
     Some (JObj ms) \<Rightarrow> Some ms | Some JNull \<Rightarrow> Some [] | _ \<Rightarrow> None)"

section \<open>Printed text is read back\<close>

text \<open>Valid UTF-8: a run of well-formed encodings.\<close>

function valid_utf8 :: "string \<Rightarrow> bool" where
  "valid_utf8 s = (if s = [] then True else if rune_width s = 0 then False
     else valid_utf8 (drop (rune_width s) s))"
  by pat_completeness auto
termination by (relation "measure length") auto

declare valid_utf8.simps [simp del]

lemma rune_width_ascii: "byte c < 128 \<Longrightarrow> rune_width (c # s) = 1"
  by (simp add: rune_width_def)

lemma rune_width_take:
  assumes "rune_width s = w" "w \<noteq> 0"
  shows "rune_width (take w s @ t) = w \<and> w \<le> length s"
proof -
  consider "s = []" | a where "s = [a]" | a b where "s = [a, b]" | a b c where "s = [a, b, c]"
    | a b c d u where "s = a # b # c # d # u"
    by (metis list.exhaust)
  then show ?thesis
    using assms by cases (auto simp: rune_width_def split: if_splits)
qed

lemma parse_str_plain:
  assumes "byte c < 128" "32 \<le> byte c" "c \<noteq> QUOTE" "c \<noteq> BACKSLASH"
  shows "parse_str (c # t) = push [c] (parse_str t)"
  using assms by (subst parse_str.simps) simp

lemma parse_str_escape:
  assumes "e \<noteq> CHR ''u''" "unescape e = Some c"
  shows "parse_str (BACKSLASH # e # t) = push [c] (parse_str t)"
  using assms by (subst parse_str.simps) (simp add: byte_def)

lemma hex4_byte:
  assumes "byte c < 128"
  shows "hex4 (CHR ''0'' # CHR ''0'' # hex_digits ! (byte c div 16) # hex_digits ! (byte c mod 16) # t) = Some (byte c)"
proof -
  have "byte c div 16 < 16" using byte_bound [of c] by (simp add: less_mult_imp_div_less)
  then have u: "unhex (CHR ''0'') = Some 0" "unhex (hex_digits ! (byte c div 16)) = Some (byte c div 16)"
    "unhex (hex_digits ! (byte c mod 16)) = Some (byte c mod 16)"
    by (code_simp, simp_all)
  have "take 4 (CHR ''0'' # CHR ''0'' # x # y # t) = [CHR ''0'', CHR ''0'', x, y]" for x y by simp
  then show ?thesis by (simp add: hex4_def u)
qed

lemma parse_str_control:
  assumes "byte c < 128"
  shows "parse_str (BACKSLASH # ''u00'' @ [hex_digits ! (byte c div 16), hex_digits ! (byte c mod 16)] @ t) =
    push [c] (parse_str t)"
proof -
  have "byte BACKSLASH = 92" by (simp add: byte_def)
  moreover have "utf8 (byte c) = [c]" using assms by (simp add: utf8_def)
  moreover have "\<not> 55296 \<le> byte c" using assms by simp
  ultimately show ?thesis
    using hex4_byte [OF assms, of t] by (subst parse_str.simps) simp
qed

lemma escape_byte_cases:
  obtains (plain) "escape_byte c = [c]" "c \<noteq> QUOTE" "c \<noteq> BACKSLASH" "32 \<le> byte c"
  | (short) e where "escape_byte c = [BACKSLASH, e]" "e \<noteq> CHR ''u''" "unescape e = Some c"
  | (control) "escape_byte c = BACKSLASH # ''u00'' @ [hex_digits ! (byte c div 16), hex_digits ! (byte c mod 16)]"
proof -
  consider "c = QUOTE" | "c = BACKSLASH" | "c = CHR 0x08" | "c = CHR 0x0C" | "c = CHR 0x0A"
    | "c = CHR 0x0D" | "c = CHR 0x09" | "c \<notin> {QUOTE, BACKSLASH, CHR 0x08, CHR 0x0C, CHR 0x0A, CHR 0x0D, CHR 0x09}"
    by blast
  then show thesis
  proof cases
    case 1
    show ?thesis by (rule short [of QUOTE]) (simp_all add: 1 escape_byte_def unescape_def)
  next
    case 2
    show ?thesis by (rule short [of BACKSLASH]) (simp_all add: 2 escape_byte_def unescape_def)
  next
    case 3
    show ?thesis by (rule short [of "CHR ''b''"]) (simp_all add: 3 escape_byte_def unescape_def)
  next
    case 4
    show ?thesis by (rule short [of "CHR ''f''"]) (simp_all add: 4 escape_byte_def unescape_def)
  next
    case 5
    show ?thesis by (rule short [of "CHR ''n''"]) (simp_all add: 5 escape_byte_def unescape_def)
  next
    case 6
    show ?thesis by (rule short [of "CHR ''r''"]) (simp_all add: 6 escape_byte_def unescape_def)
  next
    case 7
    show ?thesis by (rule short [of "CHR ''t''"]) (simp_all add: 7 escape_byte_def unescape_def)
  next
    case 8
    show ?thesis
    proof (cases "byte c < 32 \<or> c = CHR ''<'' \<or> c = CHR ''>'' \<or> c = CHR ''&''")
      case True
      then show ?thesis using 8 by (intro control) (auto simp: escape_byte_def)
    next
      case False
      then show ?thesis using 8 by (intro plain) (auto simp: escape_byte_def)
    qed
  qed
qed

lemma parse_escape_byte:
  assumes "byte c < 128"
  shows "parse_str (escape_byte c @ t) = push [c] (parse_str t)"
proof (cases rule: escape_byte_cases [of c])
  case plain
  then show ?thesis using parse_str_plain [OF assms] by simp
next
  case (short e)
  then show ?thesis using parse_str_escape by simp
next
  case control
  then show ?thesis using parse_str_control [OF assms, of t] by simp
qed

lemma push_Some [simp]: "push p (Some (s, r)) = Some (p @ s, r)"
  by (simp add: push_def)

lemma parse_str_rune:
  assumes "w = rune_width s" "w \<noteq> 0" "128 \<le> byte (hd s)" "s \<noteq> []"
  shows "parse_str (take w s @ t) = push (take w s) (parse_str t)"
proof -
  have w: "rune_width (take w s @ t) = w" "w \<le> length s"
    using rune_width_take [of s w t] assms(1,2) by simp_all
  obtain c cs where c: "take w s @ t = c # cs" "128 \<le> byte c"
    using assms(2-4) by (cases s; cases w) auto
  have "c \<noteq> QUOTE" "c \<noteq> BACKSLASH" using c(2) by (auto simp: byte_def)
  moreover have "take w (c # cs) = take w s" "drop w (c # cs) = t"
    using w(2) by (simp_all flip: c(1))
  ultimately show ?thesis
    using c(2) w(1) assms(2) unfolding c(1) by (subst parse_str.simps) (simp add: Let_def)
qed

lemma parse_line_separator:
  "parse_str (BACKSLASH # ''u2028'' @ t) = push (map char_of [0xE2, 0x80, 0xA8 :: nat]) (parse_str t)"
  "parse_str (BACKSLASH # ''u2029'' @ t) = push (map char_of [0xE2, 0x80, 0xA9 :: nat]) (parse_str t)"
proof -
  have h: "hex4 (''2028'' @ t) = Some 0x2028" "hex4 (''2029'' @ t) = Some 0x2029"
  proof -
    have "unhex (CHR ''2'') = Some 2" "unhex (CHR ''0'') = Some 0" "unhex (CHR ''8'') = Some 8"
      "unhex (CHR ''9'') = Some 9" by code_simp+
    then show "hex4 (''2028'' @ t) = Some 0x2028" "hex4 (''2029'' @ t) = Some 0x2029"
      by (simp_all add: hex4_def)
  qed
  have "byte BACKSLASH = 92" by (simp add: byte_def)
  moreover have "utf8 0x2028 = map char_of [0xE2, 0x80, 0xA8 :: nat]" "utf8 0x2029 = map char_of [0xE2, 0x80, 0xA9 :: nat]"
    by (simp_all add: utf8_def)
  ultimately show
    "parse_str (BACKSLASH # ''u2028'' @ t) = push (map char_of [0xE2, 0x80, 0xA8 :: nat]) (parse_str t)"
    "parse_str (BACKSLASH # ''u2029'' @ t) = push (map char_of [0xE2, 0x80, 0xA9 :: nat]) (parse_str t)"
    using h by (subst parse_str.simps, simp)+
qed

lemma escape_ascii: "byte c < 128 \<Longrightarrow> escape (c # cs) = escape_byte c @ escape cs"
  by (subst escape.simps) simp

lemma parse_escape_rune:
  assumes "128 \<le> byte c" "rune_width (c # cs) = w" "w \<noteq> 0"
    "parse_str (escape (drop w (c # cs)) @ t) = Some (drop w (c # cs), r)"
  shows "parse_str (escape (c # cs) @ t) = Some (c # cs, r)"
proof -
  have t: "take w (c # cs) @ drop w (c # cs) = c # cs" by (rule append_take_drop_id)
  have "\<not> byte c < 128" using assms(1) by simp
  then show ?thesis
    using assms(2-) parse_line_separator parse_str_rune [of w "c # cs"] assms(1) t
    by (subst escape.simps) (auto simp: Let_def simp del: append_take_drop_id)
qed

lemma parse_escape:
  "valid_utf8 s \<Longrightarrow> parse_str (escape s @ QUOTE # t) = Some (s, t)"
proof (induction s rule: valid_utf8.induct)
  case (1 s)
  show ?case
  proof (cases s)
    case Nil
    have "parse_str (QUOTE # t) = Some ([], t)" by (subst parse_str.simps) simp
    then show ?thesis using Nil by (simp add: escape.simps)
  next
    case (Cons c cs)
    have w: "rune_width s \<noteq> 0" "valid_utf8 (drop (rune_width s) s)"
      using 1(2) Cons by (simp_all add: valid_utf8.simps [of "c # cs"] split: if_splits)
    then have IH: "parse_str (escape (drop (rune_width s) s) @ QUOTE # t) = Some (drop (rune_width s) s, t)"
      using 1(1) Cons by simp
    show ?thesis
    proof (cases "byte c < 128")
      case True
      then show ?thesis
        using IH Cons rune_width_ascii [OF True, of cs] parse_escape_byte [OF True, of "escape cs @ QUOTE # t"]
        by (simp add: escape_ascii)
    next
      case False
      then show ?thesis using parse_escape_rune [of c cs "rune_width s"] w(1) IH Cons by simp
    qed
  qed
qed

text \<open>Integer literals, and the characters that may follow a number.\<close>

definition int_literal :: "string \<Rightarrow> bool" where
  "int_literal n = (case atoi n of Some i \<Rightarrow> n = itoa i | None \<Rightarrow> False)"

definition number_ends :: "string \<Rightarrow> bool" where
  "number_ends r = (case r of [] \<Rightarrow> True | c # _ \<Rightarrow> \<not> is_digit c \<and> c \<notin> {CHR ''.'', CHR ''e'', CHR ''E''})"

lemma digit_char_0: "d < 10 \<Longrightarrow> digit_char d = CHR ''0'' \<Longrightarrow> d = 0"
proof -
  have "list_all (\<lambda>d. digit_char d = CHR ''0'' \<longrightarrow> d = 0) [0..<10]" by code_simp
  then show "d < 10 \<Longrightarrow> digit_char d = CHR ''0'' \<Longrightarrow> d = 0" by (simp add: list_all_iff)
qed

lemma nat_digits_lead: "0 < n \<Longrightarrow> hd (nat_digits n) \<noteq> CHR ''0''"
proof (induction n rule: nat_digits.induct)
  case (1 n)
  show ?case
  proof (cases "n < 10")
    case True
    then show ?thesis using 1(2) digit_char_0 by (subst nat_digits.simps) auto
  next
    case False
    have "nat_digits (n div 10) \<noteq> []" using nat_digits_head by blast
    then show ?thesis using 1(1) False by (subst nat_digits.simps) simp
  qed
qed

lemma takeWhile_digits:
  assumes "all_digits s" "number_ends r"
  shows "takeWhile is_digit (s @ r) = s" "dropWhile is_digit (s @ r) = r"
proof -
  have s: "\<forall>c \<in> set s. is_digit c" using assms(1) by (simp add: all_digits_def list_all_iff)
  have r: "r = [] \<or> \<not> is_digit (hd r)" using assms(2) by (cases r) (auto simp: number_ends_def)
  have "takeWhile is_digit r = []" "dropWhile is_digit r = r"
    using r by (cases r; simp)+
  then show "takeWhile is_digit (s @ r) = s" "dropWhile is_digit (s @ r) = r"
    using s by (simp_all add: takeWhile_append dropWhile_append)
qed

lemma parse_nat_digits:
  assumes "number_ends r"
  shows "parse_nat (nat_digits n @ r) = Some (nat_digits n, r)"
proof (cases "n = 0")
  case True
  have "nat_digits 0 = ''0''" by (subst nat_digits.simps) (code_simp)
  then show ?thesis using True by (simp add: parse_nat_def)
next
  case False
  obtain c cs where c: "nat_digits n = c # cs" "is_digit c" "c \<noteq> CHR ''0''"
    using nat_digits_head [of n] nat_digits_lead [of n] False by (cases "nat_digits n") auto
  have "all_digits (nat_digits n)" using nat_digits_facts by blast
  from takeWhile_digits [OF this assms] show ?thesis
    using c by (simp add: parse_nat_def)
qed

lemma parse_num_int:
  assumes "int_literal n" "number_ends r"
  shows "parse_num (n @ r) = Some (n, r)"
proof -
  obtain i where i: "n = itoa i" using assms(1) by (auto simp: int_literal_def split: option.splits)
  have m: "\<not> is_digit (CHR ''-'')" by (simp add: is_digit_def less_eq_char_def)
  have tail: "parse_frac r = Some ([], r)" "parse_exp r = Some ([], r)"
    using assms(2) by (auto simp: parse_frac_def parse_exp_def number_ends_def split: list.splits)
  show ?thesis
  proof (cases "i < 0")
    case True
    then show ?thesis
      using parse_nat_digits [OF assms(2)] tail by (simp add: i itoa_def parse_num_def Let_def)
  next
    case False
    obtain c cs where c: "nat_digits (nat i) = c # cs" "is_digit c"
      using nat_digits_head [of "nat i"] by (cases "nat_digits (nat i)") auto
    then have "c \<noteq> CHR ''-''" using m by auto
    then show ?thesis
      using parse_nat_digits [OF assms(2), of "nat i"] tail False c(1)
      by (simp add: i itoa_def parse_num_def Let_def)
  qed
qed

text \<open>A number of JSON's grammar; it is read back before any text that does not continue it.\<close>

definition num_literal :: "string \<Rightarrow> bool" where
  "num_literal n = (parse_num n = Some (n, []))"

lemma digits_append:
  assumes "number_ends r"
  shows "takeWhile is_digit (s @ r) = takeWhile is_digit s" "dropWhile is_digit (s @ r) = dropWhile is_digit s @ r"
  using assms by (induction s) (auto simp: number_ends_def split: list.splits)

lemma parse_nat_append: "parse_nat s = Some (i, t) \<Longrightarrow> number_ends r \<Longrightarrow> parse_nat (s @ r) = Some (i, t @ r)"
  using digits_append [of r s] by (cases s) (auto simp: parse_nat_def split: if_splits)

lemma parse_frac_append: "parse_frac s = Some (f, t) \<Longrightarrow> number_ends r \<Longrightarrow> parse_frac (s @ r) = Some (f, t @ r)"
  by (cases s; cases r) (auto simp: parse_frac_def number_ends_def digits_append split: if_splits)

lemma parse_exp_append:
  assumes "parse_exp s = Some (e, t)" "number_ends r"
  shows "parse_exp (s @ r) = Some (e, t @ r)"
proof (cases s)
  case Nil
  then show ?thesis using assms by (cases r) (auto simp: parse_exp_def number_ends_def)
next
  case (Cons c u)
  then show ?thesis using assms digits_append [OF assms(2)]
    by (cases u) (auto simp: parse_exp_def Let_def split: if_splits)
qed

lemma parse_num_append:
  assumes "num_literal n" "number_ends r"
  shows "parse_num (n @ r) = Some (n, r)"
proof (cases n)
  case Nil
  then show ?thesis using assms(1) by (simp add: num_literal_def parse_num_def parse_nat_def)
next
  case (Cons c u)
  let ?sign = "takeWhile (\<lambda>c. c = CHR ''-'') [c]"
  obtain i r1 f r2 e where p: "parse_nat (drop (length ?sign) n) = Some (i, r1)" "parse_frac r1 = Some (f, r2)"
    "parse_exp r2 = Some (e, [])" "?sign @ i @ f @ e = n"
    using assms(1) Cons by (cases "c = CHR ''-''") (auto simp: num_literal_def parse_num_def Let_def split: option.splits)
  have "drop (length ?sign) (n @ r) = drop (length ?sign) n @ r" "take 1 (n @ r) = [c]" using Cons by simp_all
  then have "parse_num (n @ r) = Some (?sign @ i @ f @ e, r)"
    using parse_nat_append [OF p(1) assms(2)] parse_frac_append [OF p(2) assms(2)] parse_exp_append [OF p(3) assms(2)]
    by (simp add: parse_num_def Let_def)
  then show ?thesis using p(4) by simp
qed

lemma num_literal_int: "int_literal n \<Longrightarrow> num_literal n"
  using parse_num_int [of n "[]"] by (simp add: num_literal_def number_ends_def)

section \<open>Round trip\<close>

fun json_wf :: "json \<Rightarrow> bool" where
  "json_wf JNull = True"
| "json_wf (JBool _) = True"
| "json_wf (JNum n) = num_literal n"
| "json_wf (JStr s) = valid_utf8 s"
| "json_wf (JArr vs) = list_all json_wf vs"
| "json_wf (JObj ms) = list_all (\<lambda>(k, v). valid_utf8 k \<and> json_wf v) ms"

lemma skip_ws_stop [simp]: "\<not> json_space c \<Longrightarrow> skip_ws (c # s) = c # s"
  by (simp add: skip_ws_def)

lemma space_table [simp]:
  "\<not> json_space (CHR ''{'')" "\<not> json_space (CHR ''['')" "\<not> json_space (CHR ''}'')" "\<not> json_space (CHR '']'')"
  "\<not> json_space QUOTE" "\<not> json_space (CHR '','')" "\<not> json_space (CHR '':'')" "\<not> json_space (CHR ''t'')"
  "\<not> json_space (CHR ''f'')" "\<not> json_space (CHR ''n'')"
  by (simp_all add: json_space_def)

lemma after_hit [simp]: "\<not> json_space c \<Longrightarrow> after c (c # s) = Some s"
  by (simp add: after_def)

lemma after_miss [simp]: "\<not> json_space x \<Longrightarrow> x \<noteq> c \<Longrightarrow> after c (x # s) = None"
  by (simp add: after_def)

lemma num_literal_head:
  assumes "num_literal n"
  obtains c cs where "n = c # cs" "is_digit c \<or> c = CHR ''-''"
  using assms
  by (cases n) (auto simp: num_literal_def parse_num_def parse_nat_def Let_def is_digit_def split: if_splits option.splits)

lemma digit_not_mark:
  assumes "is_digit c \<or> c = CHR ''-''"
  shows "\<not> json_space c" "c \<notin> {CHR ''{'', CHR ''['', CHR ''}'', CHR '']'', QUOTE, CHR ''t'', CHR ''f'', CHR ''n''}"
proof -
  have "c = CHR ''-'' \<or> (48 \<le> (of_char c :: nat) \<and> (of_char c :: nat) \<le> 57)"
    using assms by (auto simp: is_digit_def less_eq_char_def)
  then show "\<not> json_space c" "c \<notin> {CHR ''{'', CHR ''['', CHR ''}'', CHR '']'', QUOTE, CHR ''t'', CHR ''f'', CHR ''n''}"
    by (auto simp: json_space_def)
qed

lemma print_head:
  assumes "json_wf v"
  obtains c cs where "json_print v = c # cs" "\<not> json_space c" "c \<notin> {CHR ''}'', CHR '']''}"
proof -
  have "json_print v \<noteq> [] \<and> \<not> json_space (hd (json_print v)) \<and>
      hd (json_print v) \<notin> {CHR ''}'', CHR '']''}"
  proof (cases v)
    case (JNum n)
    then obtain c cs where "n = c # cs" "is_digit c \<or> c = CHR ''-''"
      using assms num_literal_head [of n] by auto
    then show ?thesis using digit_not_mark [of c] JNum by simp
  qed (simp_all add: quote_def)
  then show thesis using that by (cases "json_print v") auto
qed

lemma parse_val_scalar:
  "parse_val (Suc n) (''null'' @ r) = Some (JNull, r)"
  "parse_val (Suc n) (''true'' @ r) = Some (JBool True, r)"
  "parse_val (Suc n) (''false'' @ r) = Some (JBool False, r)"
  "valid_utf8 s \<Longrightarrow> parse_val (Suc n) (quote s @ r) = Some (JStr s, r)"
  "num_literal l \<Longrightarrow> number_ends r \<Longrightarrow> parse_val (Suc n) (l @ r) = Some (JNum l, r)"
proof -
  show "parse_val (Suc n) (''null'' @ r) = Some (JNull, r)"
    "parse_val (Suc n) (''true'' @ r) = Some (JBool True, r)"
    "parse_val (Suc n) (''false'' @ r) = Some (JBool False, r)"
    by (simp_all add: literal_def)
  show "valid_utf8 s \<Longrightarrow> parse_val (Suc n) (quote s @ r) = Some (JStr s, r)"
    by (simp add: quote_def parse_escape)
  assume l: "num_literal l" "number_ends r"
  then obtain c cs where c: "l = c # cs" "is_digit c \<or> c = CHR ''-''"
    using num_literal_head by blast
  then show "parse_val (Suc n) (l @ r) = Some (JNum l, r)"
    using parse_num_append [OF l] digit_not_mark [OF c(2)] by simp
qed

lemma json_roundtrip_aux:
  shows "json_wf v \<Longrightarrow> number_ends r \<Longrightarrow> length (json_print v) \<le> n \<Longrightarrow>
      parse_val n (json_print v @ r) = Some (v, r)"
    and "vs \<noteq> [] \<Longrightarrow> list_all json_wf vs \<Longrightarrow> length (print_elems vs) \<le> n \<Longrightarrow>
      parse_elems n (print_elems vs @ r) = Some (vs, r)"
    and "ms \<noteq> [] \<Longrightarrow> list_all (\<lambda>(k, v). valid_utf8 k \<and> json_wf v) ms \<Longrightarrow> length (print_members ms) \<le> n \<Longrightarrow>
      parse_members n (print_members ms @ r) = Some (ms, r)"
proof (induction v and vs and ms arbitrary: n r and n r and n r
    rule: json_print_print_elems_print_members.induct)
  case 1
  then show ?case using parse_val_scalar(1) [of "n - 1" r] by (cases n) auto
next
  case (2 b)
  then show ?case using parse_val_scalar(2,3) [of "n - 1" r] by (cases b; cases n) auto
next
  case (3 l)
  obtain m where "n = Suc m" using 3 num_literal_head [of l] by (cases n) auto
  then show ?case using 3 parse_val_scalar(5) by simp
next
  case (4 s)
  then obtain m where "n = Suc m" by (cases n) (auto simp: quote_def)
  then show ?case using 4 parse_val_scalar(4) by simp
next
  case (5 vs)
  then obtain m where n: "n = Suc m" by (cases n) (auto split: if_splits)
  show ?case
  proof (cases vs)
    case (Cons v vs')
    obtain c cs where c: "json_print v = c # cs" "\<not> json_space c" "c \<notin> {CHR ''}'', CHR '']''}"
      using 5(2) Cons print_head [of v] by auto
    have "parse_elems m (print_elems vs @ r) = Some (vs, r)"
      using 5 Cons n by simp
    moreover obtain t where "print_elems vs @ r = c # t" using c(1) Cons by simp
    ultimately show ?thesis using c Cons n by simp
  qed (use n in simp)
next
  case (6 ms)
  then obtain m where n: "n = Suc m" by (cases n) (auto split: if_splits)
  show ?case
  proof (cases ms)
    case (Cons kv ms')
    obtain t where t: "print_members ms @ r = QUOTE # t" using Cons by (cases kv) (simp add: quote_def)
    have "parse_members m (print_members ms @ r) = Some (ms, r)"
      using 6 Cons n by simp
    then show ?thesis using t Cons n by simp
  qed (use n in simp)
next
  case 7
  then show ?case by simp
next
  case (8 v vs)
  then obtain m where n: "n = Suc m" by (cases n) (auto split: if_splits)
  let ?t = "(if vs = [] then '']'' else CHR '','' # print_elems vs) @ r"
  have "number_ends ?t" by (simp add: number_ends_def is_digit_def less_eq_char_def)
  then have v: "parse_val m (json_print v @ ?t) = Some (v, ?t)"
    using 8 n by (intro 8(1)) (auto split: if_splits)
  show ?case
  proof (cases "vs = []")
    case True
    then show ?thesis using v n by simp
  next
    case False
    then have "parse_elems m (print_elems vs @ r) = Some (vs, r)" using 8 n by simp
    then show ?thesis using v n False by simp
  qed
next
  case 9
  then show ?case by simp
next
  case (10 k v ms)
  then obtain m where n: "n = Suc m" by (cases n) (auto split: if_splits)
  let ?t = "(if ms = [] then ''}'' else CHR '','' # print_members ms) @ r"
  have "number_ends ?t" by (simp add: number_ends_def is_digit_def less_eq_char_def)
  then have v: "parse_val m (json_print v @ ?t) = Some (v, ?t)"
    using 10 n by (intro 10(1)) (auto split: if_splits)
  have k: "parse_str (escape k @ QUOTE # t) = Some (k, t)" for t
    using 10 parse_escape by simp
  show ?case
  proof (cases "ms = []")
    case True
    then show ?thesis using v n k by (simp add: quote_def)
  next
    case False
    then have "parse_members m (print_members ms @ r) = Some (ms, r)" using 10 n by simp
    then show ?thesis using v n False k by (simp add: quote_def)
  qed
qed

lemma json_roundtrip: "json_wf v \<Longrightarrow> json_parse (json_print v) = Some v"
  using json_roundtrip_aux(1) [of v "[]" "Suc (length (json_print v))"]
  by (simp add: json_parse_def number_ends_def skip_ws_def)

lemma num_literal_itoa: "- (2 ^ 63) \<le> i \<Longrightarrow> i < 2 ^ 63 \<Longrightarrow> num_literal (itoa i)"
  by (simp add: int_literal_def num_literal_int)

end
