(* ===== verification/Problem_Detail.thy ===== *)
theory Problem_Detail
  imports Go_Json
begin

text \<open>
  Responses and errors of the HTTP layer: \<open>internal/api/problem.go\<close>. A handler leaves a response
  and may return an error; Fiber hands the error to \<open>ErrorHandler\<close>, which writes RFC 7807 problem
  details over the response. A value of \<open>Extensions\<close> that \<open>encoding/json\<close> refuses is \<open>None\<close>.
\<close>

section \<open>Responses\<close>

record Cookie =
  ck_Name :: string
  ck_Value :: string
  ck_Path :: string
  ck_MaxAge :: int
  ck_Secure :: bool
  ck_HTTPOnly :: bool
  ck_SameSite :: string

record response =
  rs_Status :: int
  rs_Headers :: "string \<rightharpoonup> string"
  rs_Cookies :: "Cookie list"
  rs_Body :: string

definition new_response :: response where
  "new_response = \<lparr> rs_Status = 200, rs_Headers = Map.empty, rs_Cookies = [], rs_Body = [] \<rparr>"

definition set_header :: "string \<Rightarrow> string \<Rightarrow> response \<Rightarrow> response" where
  "set_header k v r = r\<lparr> rs_Headers := (rs_Headers r)(k \<mapsto> v) \<rparr>"

definition send_json :: "json \<Rightarrow> response \<Rightarrow> response" where
  "send_json v r = set_header ''Content-Type'' ''application/json'' (r\<lparr> rs_Body := json_print v \<rparr>)"

definition redirect :: "string \<Rightarrow> response \<Rightarrow> response" where
  "redirect url r = set_header ''Location'' url (r\<lparr> rs_Status := 302 \<rparr>)"

section \<open>Problem details\<close>

record ProblemDetail =
  pd_Type :: string
  pd_Title :: string
  pd_Status :: int
  pd_Detail :: string
  pd_Instance :: string
  pd_Extensions :: "(string \<times> json option) list"

definition problemTypeBase :: string where
  "problemTypeBase = ''https://llmrates.live/problems/''"

definition new_problem :: "string \<Rightarrow> string \<Rightarrow> int \<Rightarrow> string \<Rightarrow> ProblemDetail" where
  "new_problem kind title status detail =
     \<lparr> pd_Type = problemTypeBase @ kind, pd_Title = title, pd_Status = status, pd_Detail = detail,
       pd_Instance = [], pd_Extensions = [] \<rparr>"

definition NewUnauthorized :: "string \<Rightarrow> ProblemDetail" where
  "NewUnauthorized = new_problem ''unauthorized'' ''Unauthorized'' 401"

definition NewForbidden :: "string \<Rightarrow> ProblemDetail" where
  "NewForbidden = new_problem ''forbidden'' ''Forbidden'' 403"

definition NewNotFound :: "string \<Rightarrow> ProblemDetail" where
  "NewNotFound = new_problem ''not-found'' ''Not Found'' 404"

definition NewBadRequest :: "string \<Rightarrow> ProblemDetail" where
  "NewBadRequest = new_problem ''bad-request'' ''Bad Request'' 400"

definition NewTooManyRequests :: "string \<Rightarrow> ProblemDetail" where
  "NewTooManyRequests = new_problem ''too-many-requests'' ''Too Many Requests'' 429"

definition NewConflict :: "string \<Rightarrow> ProblemDetail" where
  "NewConflict = new_problem ''conflict'' ''Conflict'' 409"

definition NewGone :: "string \<Rightarrow> ProblemDetail" where
  "NewGone = new_problem ''gone'' ''Gone'' 410"

definition NewServiceUnavailable :: "string \<Rightarrow> ProblemDetail" where
  "NewServiceUnavailable = new_problem ''service-unavailable'' ''Service Unavailable'' 503"

definition NewInternalError :: "string \<Rightarrow> ProblemDetail" where
  "NewInternalError = new_problem ''internal-server-error'' ''Internal Server Error'' 500"

lemmas problem_constructors = NewUnauthorized_def NewForbidden_def NewNotFound_def NewBadRequest_def
  NewTooManyRequests_def NewConflict_def NewGone_def NewServiceUnavailable_def NewInternalError_def

text \<open>\<open>json.Marshal\<close> with the struct's tags: a map is written in the order of its keys.\<close>

definition omit_empty :: "string \<Rightarrow> string \<Rightarrow> (string \<times> json) list" where
  "omit_empty name s = (if s = [] then [] else [(name, JStr s)])"

definition extension_members :: "(string \<times> json option) list \<Rightarrow> (string \<times> json) list option" where
  "extension_members xs =
     (if list_all (\<lambda>x. snd x \<noteq> None) xs then Some (map (\<lambda>(k, v). (k, the v)) (sort_key fst xs)) else None)"

definition problem_json :: "ProblemDetail \<Rightarrow> json option" where
  "problem_json p = map_option (\<lambda>ext. JObj
     ([(''type'', JStr (pd_Type p)), (''title'', JStr (pd_Title p)), (''status'', JNum (itoa (pd_Status p)))] @
      omit_empty ''detail'' (pd_Detail p) @ omit_empty ''instance'' (pd_Instance p) @
      (if ext = [] then [] else [(''extensions'', JObj ext)])))
     (extension_members (pd_Extensions p))"

section \<open>The error handler\<close>

text \<open>
  The errors it tells apart: an expired deadline anywhere in the chain, a problem, an error of
  Fiber's own with its code and message, and the rest.
\<close>

datatype http_error = DeadlineExceeded | Problem ProblemDetail | FiberError int string | OtherError

type_synonym outcome = "http_error option \<times> response"

definition problem_of :: "http_error \<Rightarrow> ProblemDetail" where
  "problem_of e = (case e of
     DeadlineExceeded \<Rightarrow> NewServiceUnavailable ''request timed out''
   | Problem p \<Rightarrow> p
   | FiberError code msg \<Rightarrow>
       (if code = 401 then NewUnauthorized msg
        else if code = 403 then NewForbidden msg
        else if code = 404 then NewNotFound msg
        else if code = 429 then NewTooManyRequests msg
        else if code = 400 then NewBadRequest msg
        else NewInternalError ''an unexpected error occurred'')
   | OtherError \<Rightarrow> NewInternalError ''an unexpected error occurred'')"

definition ErrorHandler :: "string \<Rightarrow> http_error \<Rightarrow> response \<Rightarrow> response" where
  "ErrorHandler path err r =
     (let p = problem_of err; p = (if pd_Instance p = [] then p\<lparr> pd_Instance := path \<rparr> else p) in
      case problem_json p of
        None \<Rightarrow> set_header ''Content-Type'' ''text/plain'' r\<lparr> rs_Status := 500, rs_Body := ''internal server error'' \<rparr>
      | Some v \<Rightarrow> (set_header ''Content-Type'' ''application/problem+json'' r)
                   \<lparr> rs_Status := pd_Status p, rs_Body := json_print v \<rparr>)"

definition serve :: "string \<Rightarrow> outcome \<Rightarrow> response" where
  "serve path res = (case res of (None, r) \<Rightarrow> r | (Some e, r) \<Rightarrow> ErrorHandler path e r)"

definition problem :: "ProblemDetail \<Rightarrow> outcome" where
  "problem p = (Some (Problem p), new_response)"

section \<open>What the client reads\<close>

definition http_status :: "int \<Rightarrow> bool" where
  "http_status n = (n \<in> {400, 401, 403, 404, 409, 410, 429, 500, 503})"

text \<open>A problem as the constructors make it, with text that is UTF-8.\<close>

definition problem_ok :: "ProblemDetail \<Rightarrow> bool" where
  "problem_ok p \<longleftrightarrow> http_status (pd_Status p) \<and> valid_utf8 (pd_Type p) \<and> valid_utf8 (pd_Title p) \<and>
     valid_utf8 (pd_Detail p) \<and> valid_utf8 (pd_Instance p) \<and> pd_Type p \<noteq> [] \<and>
     (case extension_members (pd_Extensions p) of None \<Rightarrow> False | Some ext \<Rightarrow> json_wf (JObj ext))"

definition error_ok :: "http_error \<Rightarrow> bool" where
  "error_ok e = (case e of Problem p \<Rightarrow> problem_ok p | FiberError code msg \<Rightarrow> valid_utf8 msg | _ \<Rightarrow> True)"

lemma problem_texts:
  "valid_utf8 (problemTypeBase @ ''unauthorized'')" "valid_utf8 ''Unauthorized''"
  "valid_utf8 (problemTypeBase @ ''forbidden'')" "valid_utf8 ''Forbidden''"
  "valid_utf8 (problemTypeBase @ ''not-found'')" "valid_utf8 ''Not Found''"
  "valid_utf8 (problemTypeBase @ ''bad-request'')" "valid_utf8 ''Bad Request''"
  "valid_utf8 (problemTypeBase @ ''too-many-requests'')" "valid_utf8 ''Too Many Requests''"
  "valid_utf8 (problemTypeBase @ ''conflict'')" "valid_utf8 ''Conflict''"
  "valid_utf8 (problemTypeBase @ ''gone'')" "valid_utf8 ''Gone''"
  "valid_utf8 (problemTypeBase @ ''service-unavailable'')" "valid_utf8 ''Service Unavailable''"
  "valid_utf8 (problemTypeBase @ ''internal-server-error'')" "valid_utf8 ''Internal Server Error''"
  "valid_utf8 ''request timed out''" "valid_utf8 ''an unexpected error occurred''" "valid_utf8 []"
  by code_simp+

lemma no_extensions: "extension_members [] = Some []" "json_wf (JObj [])"
  by (simp_all add: extension_members_def)

lemma constructed_ok:
  assumes "valid_utf8 d"
  shows "problem_ok (NewUnauthorized d)" "problem_ok (NewForbidden d)" "problem_ok (NewNotFound d)"
    "problem_ok (NewBadRequest d)" "problem_ok (NewTooManyRequests d)" "problem_ok (NewConflict d)"
    "problem_ok (NewGone d)" "problem_ok (NewServiceUnavailable d)" "problem_ok (NewInternalError d)"
  using assms by (simp_all add: problem_constructors new_problem_def problem_ok_def http_status_def
      problem_texts no_extensions)

lemma problem_of_ok: "error_ok e \<Longrightarrow> problem_ok (problem_of e)"
  by (cases e) (simp_all add: error_ok_def problem_of_def constructed_ok problem_texts)


lemma problem_json_ok:
  assumes "problem_ok p" "valid_utf8 path"
  shows "\<exists>ms. problem_json (if pd_Instance p = [] then p\<lparr> pd_Instance := path \<rparr> else p) = Some (JObj ms) \<and>
    json_wf (JObj ms) \<and> map_of ms ''status'' = Some (JNum (itoa (pd_Status p))) \<and>
    map_of ms ''type'' = Some (JStr (pd_Type p))"
proof -
  obtain ext where ext: "extension_members (pd_Extensions p) = Some ext" "json_wf (JObj ext)"
    using assms(1) by (auto simp: problem_ok_def split: option.splits)
  have "num_literal (itoa (pd_Status p))"
    using assms(1) by (intro num_literal_itoa) (auto simp: problem_ok_def http_status_def)
  moreover have "valid_utf8 ''type''" "valid_utf8 ''title''" "valid_utf8 ''status''" "valid_utf8 ''detail''"
    "valid_utf8 ''instance''" "valid_utf8 ''extensions''" by code_simp+
  ultimately show ?thesis
    using assms ext by (auto simp: problem_json_def problem_ok_def omit_empty_def)
qed

text \<open>
  C22. Every error becomes one well-formed answer: whatever a handler returned, as long as its texts
  are UTF-8 and a problem of its own carries one of the API's statuses, the client gets
  \<open>application/problem+json\<close> whose body is a JSON object that names the very status of the response,
  an error status, with the headers set before kept; an expired deadline is a 503, and an error of
  unknown origin shows the same body whatever it was.
\<close>

theorem error_reply_wellformed:
  assumes "error_ok e" and "valid_utf8 path"
  shows "let r' = ErrorHandler path e r in
    rs_Headers r' = (rs_Headers r)(''Content-Type'' \<mapsto> ''application/problem+json'') \<and>
    http_status (rs_Status r') \<and>
    (\<exists>ms. json_parse (rs_Body r') = Some (JObj ms) \<and>
      map_of ms ''status'' = Some (JNum (itoa (rs_Status r'))) \<and>
      map_of ms ''type'' = Some (JStr (pd_Type (problem_of e)))) \<and>
    rs_Status (ErrorHandler path DeadlineExceeded r) = 503 \<and>
    ErrorHandler path (FiberError 502 msg) r = ErrorHandler path OtherError r"
proof -
  let ?p = "problem_of e"
  obtain ms where ms: "problem_json (if pd_Instance ?p = [] then ?p\<lparr> pd_Instance := path \<rparr> else ?p) = Some (JObj ms)"
    "json_wf (JObj ms)" "map_of ms ''status'' = Some (JNum (itoa (pd_Status ?p)))"
    "map_of ms ''type'' = Some (JStr (pd_Type ?p))"
    using problem_json_ok [OF problem_of_ok [OF assms(1)] assms(2)] by blast
  have status: "pd_Status (if pd_Instance ?p = [] then ?p\<lparr> pd_Instance := path \<rparr> else ?p) = pd_Status ?p" by simp
  have "http_status (pd_Status ?p)" using problem_of_ok [OF assms(1)] by (simp add: problem_ok_def)
  moreover have "json_parse (json_print (JObj ms)) = Some (JObj ms)" using ms(2) by (rule json_roundtrip)
  moreover have "rs_Status (ErrorHandler path DeadlineExceeded r) = 503"
    by (simp add: ErrorHandler_def problem_of_def problem_constructors new_problem_def Let_def
        problem_json_def extension_members_def)
  moreover have "ErrorHandler path (FiberError 502 msg) r = ErrorHandler path OtherError r"
    by (simp add: ErrorHandler_def problem_of_def)
  ultimately show ?thesis
    using ms status by (simp add: ErrorHandler_def Let_def set_header_def del: json_print.simps)
qed

theorem error_reply_wellformed_witness:
  "\<exists>ms. json_parse (rs_Body (ErrorHandler ''/v1/x'' (FiberError 404 ''Cannot GET /v1/x'') new_response)) = Some (JObj ms) \<and>
    map_of ms ''type'' = Some (JStr ''https://llmrates.live/problems/not-found'')"
proof -
  have "error_ok (FiberError 404 ''Cannot GET /v1/x'')" "valid_utf8 ''/v1/x''" by code_simp+
  from error_reply_wellformed [OF this, of new_response] show ?thesis
    by (auto simp: Let_def problem_of_def problem_constructors new_problem_def problemTypeBase_def)
qed

end
