(* ===== verification/Price_Diff.thy ===== *)
theory Price_Diff
  imports Domain
begin

text \<open>
  The diff engine, \<open>internal/diff/diff.go\<close>: a pure function from the stored prices of one
  source and a scrape to the list of detected changes.
\<close>

section \<open>The engine\<close>

record PriceDiff =
  ModelSlug :: string
  Field :: price_field
  OldValue :: f64
  NewValue :: f64
  PctChange :: f64
  DiffSource :: string
  UnderlyingProvider :: string
  NeedsReview :: bool

definition diff_epsilon :: f64 where
  "diff_epsilon = round64 (1 / 10 ^ 12)"

lemma diff_epsilon_value [code]: "diff_epsilon = Fin (4951760157141521 / 4951760157141521099596496896)"
  unfolding diff_epsilon_def by code_simp

definition newModelDiff ::
  "string \<Rightarrow> string \<Rightarrow> string \<Rightarrow> price_field \<Rightarrow> f64 \<Rightarrow> PriceDiff" where
  "newModelDiff slug source underlyingProvider field newVal =
     \<lparr> ModelSlug = slug, Field = field, OldValue = Fin 0, NewValue = newVal, PctChange = Fin 1,
       DiffSource = source, UnderlyingProvider = underlyingProvider, NeedsReview = False \<rparr>"

definition fieldDiff ::
  "string \<Rightarrow> string \<Rightarrow> string \<Rightarrow> price_field \<Rightarrow> f64 \<Rightarrow> f64 \<Rightarrow> PriceDiff option" where
  "fieldDiff slug source underlyingProvider field oldVal newVal =
     (if f64_lt (f64_abs (f64_sub newVal oldVal)) diff_epsilon then None
      else
        let pct = (if f64_lt (f64_abs oldVal) diff_epsilon then Fin 1
                   else f64_div (f64_sub newVal oldVal) oldVal)
        in Some \<lparr> ModelSlug = slug, Field = field, OldValue = oldVal, NewValue = newVal,
                  PctChange = pct, DiffSource = source, UnderlyingProvider = underlyingProvider,
                  NeedsReview = f64_lt DiscrepancyThreshold (f64_abs pct) \<rparr>)"

text \<open>The slug-to-price index; a later row for the same key overwrites an earlier one.\<close>

definition id_to_slug :: "Model list \<Rightarrow> int \<rightharpoonup> string" where
  "id_to_slug storedModels = foldl (\<lambda>m x. m(mdl_ID x \<mapsto> mdl_Slug x)) Map.empty storedModels"

definition slug_to_price :: "Price list \<Rightarrow> Model list \<Rightarrow> string \<rightharpoonup> Price" where
  "slug_to_price stored storedModels =
     (if stored \<noteq> [] \<and> storedModels \<noteq> []
      then foldl (\<lambda>m p. case id_to_slug storedModels (prc_ModelID p) of
                          Some slug \<Rightarrow> m(slug \<mapsto> p) | None \<Rightarrow> m) Map.empty stored
      else Map.empty)"

definition diff_one :: "(string \<rightharpoonup> Price) \<Rightarrow> ScrapedModel \<Rightarrow> PriceDiff list" where
  "diff_one slugToPrice s =
     (case slugToPrice (scr_Slug s) of
        None \<Rightarrow>
          (if f64_lt diff_epsilon (scr_InputCostPerToken s)
           then [newModelDiff (scr_Slug s) (scr_SourceName s) (scr_UnderlyingProvider s)
                   PriceFieldInput (scr_InputCostPerToken s)] else []) @
          (if f64_lt diff_epsilon (scr_OutputCostPerToken s)
           then [newModelDiff (scr_Slug s) (scr_SourceName s) (scr_UnderlyingProvider s)
                   PriceFieldOutput (scr_OutputCostPerToken s)] else [])
      | Some current \<Rightarrow>
          (case fieldDiff (scr_Slug s) (scr_SourceName s) (scr_UnderlyingProvider s) PriceFieldInput
                  (prc_InputCostPerToken current) (scr_InputCostPerToken s)
           of Some d \<Rightarrow> [d] | None \<Rightarrow> []) @
          (case fieldDiff (scr_Slug s) (scr_SourceName s) (scr_UnderlyingProvider s) PriceFieldOutput
                  (prc_OutputCostPerToken current) (scr_OutputCostPerToken s)
           of Some d \<Rightarrow> [d] | None \<Rightarrow> []))"

definition Diff :: "Price list \<Rightarrow> Model list \<Rightarrow> ScrapedModel list \<Rightarrow> PriceDiff list" where
  "Diff stored storedModels incoming =
     concat (map (diff_one (slug_to_price stored storedModels)) incoming)"

end
