(* ===== verification/Reconciler.thy ===== *)
theory Reconciler
  imports Price_Diff
begin

text \<open>
  The reconciliation engine, \<open>internal/reconciler\<close> (\<open>reconciler.go\<close>, \<open>pending.go\<close>,
  \<open>event.go\<close> and the interface \<open>Store\<close> of \<open>store.go\<close>).

  The engine talks to a database through the interface \<open>Store\<close>: here a record of
  operations \<open>'s store_ops\<close> over an abstract database state \<open>'s\<close>. What Redis and the task
  queue answer is read from an environment; what is sent to them is appended to the output log
  of the engine's state, in order, with the outcome of each command. The order in which Go
  ranges over the map of groups is unspecified: the environment ranks the groups.
\<close>

section \<open>The interface Store\<close>

text \<open>Go's \<open>(T, error)\<close> is an option; every operation may change the state it is given.\<close>

record 's store_ops =
  LookupSourceID :: "string \<Rightarrow> 's \<Rightarrow> int option \<times> 's"
  LookupSourceName :: "int \<Rightarrow> 's \<Rightarrow> string option \<times> 's"
  LookupModelID :: "string \<Rightarrow> 's \<Rightarrow> int option \<times> 's"
  LookupModelProvider :: "int \<Rightarrow> 's \<Rightarrow> string option \<times> 's"
  LookupCurrentPrice :: "int \<Rightarrow> int \<Rightarrow> 's \<Rightarrow> (f64 \<times> f64 \<times> bool) option \<times> 's"
  PublishPrice ::
    "int \<Rightarrow> int \<Rightarrow> f64 \<Rightarrow> f64 \<Rightarrow> confidence \<Rightarrow> string \<Rightarrow> 's \<Rightarrow> unit option \<times> 's"
  FlagDiscrepancy ::
    "int \<Rightarrow> int \<Rightarrow> int \<Rightarrow> price_field \<Rightarrow> f64 \<Rightarrow> f64 \<Rightarrow> f64 \<Rightarrow> 's \<Rightarrow> unit option \<times> 's"
  ListActiveWebhooks :: "'s \<Rightarrow> WebhookRow list option \<times> 's"

section \<open>State, environment and output\<close>

definition epsilon :: f64 where
  "epsilon = round64 (1 / 10 ^ 12)"

lemma epsilon_value [code]: "epsilon = Fin (4951760157141521 / 4951760157141521099596496896)"
  unfolding epsilon_def by code_simp

definition pendingTTL :: duration where
  "pendingTTL = 72 * hour"

definition redisBufferMaxSize :: int where
  "redisBufferMaxSize = 1000"

definition redisBufferTTL :: duration where
  "redisBufferTTL = 24 * hour"

record pendingChange =
  pc_value :: f64
  pc_source :: string
  pc_fetchCount :: int
  pc_lastSeen :: instant

text \<open>\<open>pendingEntry\<close> has the same four fields, with JSON tags.\<close>

type_synonym pendingEntry = pendingChange

record SSEEvent =
  ev_Payload :: Payload
  ev_EventID :: int

datatype redis_cmd =
    HGETALL_pending
  | HSET_pending string pendingEntry
  | EXPIRE_pending duration
  | HDEL_pending "string list"
  | INCR_seq
  | PUBLISH_changes SSEEvent
  | ZADD_buffer int SSEEvent
  | ZREMRANGEBYRANK_buffer int int
  | EXPIRE_buffer duration

datatype effect =
    Redis redis_cmd bool
  | Enqueue TaskPayload bool
  | Metric string

record rec_env =
  now_at :: "nat \<Rightarrow> instant"
  redis_ok :: "nat \<Rightarrow> bool"
  incr_reply :: "nat \<Rightarrow> int"
  hgetall_reply :: "(string \<times> pendingEntry option) list"
  enqueue_ok :: "nat \<Rightarrow> bool"
  group_rank :: "string \<times> price_field \<Rightarrow> nat"

record 's reconciler =
  rc_store :: 's
  rc_pending :: "(string \<times> pendingChange) list"
  rc_pendingLoaded :: bool
  rc_asynq :: bool
  rc_redis :: bool
  rc_tick :: nat
  rc_out :: "effect list"

definition NewWithStore :: "'s \<Rightarrow> 's reconciler" where
  "NewWithStore s = \<lparr> rc_store = s, rc_pending = [], rc_pendingLoaded = False, rc_asynq = False,
     rc_redis = False, rc_tick = 0, rc_out = [] \<rparr>"

definition SetAsynqClient :: "bool \<Rightarrow> 's reconciler \<Rightarrow> 's reconciler" where
  "SetAsynqClient c r = r\<lparr> rc_asynq := c \<rparr>"

definition SetRedisClient :: "bool \<Rightarrow> 's reconciler \<Rightarrow> 's reconciler" where
  "SetRedisClient c r = r\<lparr> rc_redis := c \<rparr>"

text \<open>Every interaction with the environment takes the next index of its streams.\<close>

definition tick :: "'s reconciler \<Rightarrow> 's reconciler" where
  "tick r = r\<lparr> rc_tick := Suc (rc_tick r) \<rparr>"

definition emit :: "effect \<Rightarrow> 's reconciler \<Rightarrow> 's reconciler" where
  "emit e r = r\<lparr> rc_out := rc_out r @ [e] \<rparr>"

definition read_clock :: "rec_env \<Rightarrow> 's reconciler \<Rightarrow> instant \<times> 's reconciler" where
  "read_clock env r = (now_at env (rc_tick r), tick r)"

definition redis_do :: "rec_env \<Rightarrow> redis_cmd \<Rightarrow> 's reconciler \<Rightarrow> bool \<times> 's reconciler" where
  "redis_do env c r =
     (let ok = redis_ok env (rc_tick r) in (ok, tick (emit (Redis c ok) r)))"

text \<open>A call of the store: its result, and the engine with the store's new state.\<close>

definition on_store :: "('s \<Rightarrow> 'a \<times> 's) \<Rightarrow> 's reconciler \<Rightarrow> 'a \<times> 's reconciler" where
  "on_store f r = (let (x, s) = f (rc_store r) in (x, r\<lparr> rc_store := s \<rparr>))"

section \<open>pending.go\<close>

definition entry_marshals :: "pendingEntry \<Rightarrow> bool" where
  "entry_marshals e \<longleftrightarrow> pc_value e \<notin> {NaN, PInf, NInf}"

definition deletePendingFromRedis ::
  "rec_env \<Rightarrow> string list \<Rightarrow> 's reconciler \<Rightarrow> 's reconciler" where
  "deletePendingFromRedis env keys r =
     (if \<not> rc_redis r \<or> keys = [] then r else snd (redis_do env (HDEL_pending keys) r))"

definition persistPending ::
  "rec_env \<Rightarrow> string \<Rightarrow> pendingEntry \<Rightarrow> 's reconciler \<Rightarrow> 's reconciler" where
  "persistPending env key e r =
     (if \<not> rc_redis r then r
      else if \<not> entry_marshals e then r
      else let (ok, r1) = redis_do env (HSET_pending key e) r in
           if \<not> ok then r1 else snd (redis_do env (EXPIRE_pending pendingTTL) r1))"

definition load_entry ::
  "instant \<Rightarrow> (string \<times> pendingChange) list \<Rightarrow> string \<times> pendingEntry option
    \<Rightarrow> (string \<times> pendingChange) list" where
  "load_entry cutoff pending kr =
     (case snd kr of
        None \<Rightarrow> pending
      | Some pe \<Rightarrow>
          if pc_lastSeen pe < cutoff then pending
          else if map_of pending (fst kr) \<noteq> None then pending
          else AList.update (fst kr) pe pending)"

definition loadPendingFromRedis :: "rec_env \<Rightarrow> 's reconciler \<Rightarrow> 's reconciler" where
  "loadPendingFromRedis env r =
     (if \<not> rc_redis r then r
      else if rc_pendingLoaded r then r
      else let (ok, r1) = redis_do env HGETALL_pending r in
        if \<not> ok then r1
        else let (now, r2) = read_clock env r1; cutoff = now - pendingTTL in
          r2\<lparr> rc_pending := foldl (load_entry cutoff) (rc_pending r2) (hgetall_reply env),
              rc_pendingLoaded := True \<rparr>)"

definition sweepStalePending :: "rec_env \<Rightarrow> 's reconciler \<Rightarrow> 's reconciler" where
  "sweepStalePending env r =
     (let (now, r1) = read_clock env r; cutoff = now - pendingTTL;
          swept = map fst (filter (\<lambda>(k, e). pc_lastSeen e < cutoff) (rc_pending r1))
      in deletePendingFromRedis env swept
           (r1\<lparr> rc_pending := filter (\<lambda>(k, e). \<not> pc_lastSeen e < cutoff) (rc_pending r1) \<rparr>))"

section \<open>event.go\<close>

definition publishEvent :: "rec_env \<Rightarrow> SSEEvent \<Rightarrow> 's reconciler \<Rightarrow> 's reconciler" where
  "publishEvent env event r =
     (if \<not> rc_redis r then r
      else let eventID = incr_reply env (rc_tick r); (ok, r1) = redis_do env INCR_seq r in
      if \<not> ok then r1
      else let event' = event\<lparr> ev_EventID := eventID \<rparr> in
      if \<not> payload_marshals (ev_Payload event') then r1
      else let (_, r2) = redis_do env (PUBLISH_changes event') r1;
               (zok, r3) = redis_do env (ZADD_buffer eventID event') r2 in
      if \<not> zok then r3
      else let (_, r4) = redis_do env (ZREMRANGEBYRANK_buffer 0 (- (redisBufferMaxSize + 1))) r3
      in snd (redis_do env (EXPIRE_buffer redisBufferTTL) r4))"

section \<open>Publishing\<close>

definition enqueue_one :: "rec_env \<Rightarrow> Payload \<Rightarrow> 's reconciler \<Rightarrow> WebhookRow \<Rightarrow> 's reconciler" where
  "enqueue_one env event r wh =
     (if \<not> payload_marshals event then r
      else let task = \<lparr> tp_WebhookID = wh_ID wh, tp_URL = wh_URL wh, tp_Secret = wh_Secret wh,
                        tp_Event = event \<rparr>
           in tick (emit (Enqueue task (enqueue_ok env (rc_tick r))) r))"

definition enqueueWebhooksWithEvent ::
  "rec_env \<Rightarrow> Payload \<Rightarrow> WebhookRow list \<Rightarrow> 's reconciler \<Rightarrow> 's reconciler" where
  "enqueueWebhooksWithEvent env event activeWebhooks r =
     foldl (enqueue_one env event) r activeWebhooks"

text \<open>The two prices a publish would write; None is the default branch of the switch.\<close>

fun publish_prices ::
  "price_field \<Rightarrow> f64 \<Rightarrow> f64 \<Rightarrow> f64 \<Rightarrow> f64 \<Rightarrow> (f64 \<times> f64) option" where
  "publish_prices PriceFieldInput newValue currInput currOutput siblingValue =
     Some (newValue, if f64_le currOutput (Fin 0) then siblingValue else currOutput)"
| "publish_prices PriceFieldOutput newValue currInput currOutput siblingValue =
     Some (if f64_le currInput (Fin 0) then siblingValue else currInput, newValue)"
| "publish_prices (PriceFieldOther _) newValue currInput currOutput siblingValue = None"

text \<open>What follows a successful write: names for the payload, webhooks, then the event.\<close>

definition fan_out ::
  "'s store_ops \<Rightarrow> rec_env \<Rightarrow> int \<Rightarrow> int \<Rightarrow> f64 \<Rightarrow> f64 \<Rightarrow> f64 \<Rightarrow> f64 \<Rightarrow> WebhookRow list
    \<Rightarrow> 's reconciler \<Rightarrow> 's reconciler" where
  "fan_out ops env modelID sourceID currInput currOutput input output activeWebhooks r =
     (if \<not> rc_asynq r \<and> \<not> rc_redis r then r
      else
        let (sn, r1) = on_store (LookupSourceName ops sourceID) r;
            sourceName = (case sn of Some n \<Rightarrow> n | None \<Rightarrow> []);
            (pr, r2) = on_store (LookupModelProvider ops modelID) r1;
            provider = (case pr of Some p \<Rightarrow> p | None \<Rightarrow> []);
            (now, r3) = read_clock env r2;
            event = \<lparr> pl_ModelID = modelID, pl_Provider = provider, pl_OldPriceInput = currInput,
                      pl_OldPriceOutput = currOutput, pl_NewPriceInput = input,
                      pl_NewPriceOutput = output, pl_ConfirmedAt = now, pl_Source = sourceName \<rparr>;
            r4 = (if rc_asynq r3 \<and> activeWebhooks \<noteq> []
                  then enqueueWebhooksWithEvent env event activeWebhooks r3 else r3)
        in publishEvent env \<lparr> ev_Payload = event, ev_EventID = 0 \<rparr> r4)"

definition publish ::
  "'s store_ops \<Rightarrow> rec_env \<Rightarrow> int \<Rightarrow> int \<Rightarrow> price_field \<Rightarrow> f64 \<Rightarrow> confidence \<Rightarrow> string
    \<Rightarrow> WebhookRow list \<Rightarrow> f64 \<Rightarrow> 's reconciler \<Rightarrow> 's reconciler" where
  "publish ops env modelID sourceID field newValue conf underlyingProvider activeWebhooks
     siblingValue r =
     (let (cur, r1) = on_store (LookupCurrentPrice ops modelID sourceID) r;
          (currInput, currOutput) =
            (case cur of Some (i, out, _) \<Rightarrow> (i, out) | None \<Rightarrow> (Fin 0, Fin 0))
      in case publish_prices field newValue currInput currOutput siblingValue of
           None \<Rightarrow> r1
         | Some (input, output) \<Rightarrow>
             if f64_le input (Fin 0) \<or> f64_le output (Fin 0) then r1
             else let (res, r2) =
                    on_store (PublishPrice ops modelID sourceID input output conf
                                underlyingProvider) r1
                  in case res of
                       None \<Rightarrow> r2
                     | Some _ \<Rightarrow>
                         fan_out ops env modelID sourceID currInput currOutput input output
                           activeWebhooks (emit (Metric ''price_published'') r2))"

section \<open>One group of diffs\<close>

definition effectiveProvider :: "PriceDiff \<Rightarrow> string" where
  "effectiveProvider d =
     (if UnderlyingProvider d \<noteq> [] then UnderlyingProvider d else DiffSource d)"

fun otherField :: "price_field \<Rightarrow> price_field" where
  "otherField PriceFieldInput = PriceFieldOutput"
| "otherField _ = PriceFieldInput"

definition pendingKey :: "string \<Rightarrow> price_field \<Rightarrow> PriceDiff \<Rightarrow> string" where
  "pendingKey slug field d = slug @ '':'' @ field_string field @ '':'' @ effectiveProvider d"

text \<open>
  The decision taken under the mutex: what to publish, what to mirror to Redis, and the new
  pending map. The clock is read in the two branches that stamp an entry.
\<close>

datatype decision = ImmediatePublish | ConfirmedPublish | Hold

definition decide_single ::
  "bool \<Rightarrow> instant \<Rightarrow> string \<Rightarrow> PriceDiff \<Rightarrow> (string \<times> pendingChange) list
    \<Rightarrow> decision \<times> pendingEntry option \<times> bool \<times> (string \<times> pendingChange) list" where
  "decide_single found now key d pending =
     (case map_of pending key of
        None \<Rightarrow>
          if \<not> found then (ImmediatePublish, None, False, pending)
          else let e = \<lparr> pc_value = NewValue d, pc_source = DiffSource d, pc_fetchCount = 1,
                         pc_lastSeen = now \<rparr>
               in (Hold, Some e, False, AList.update key e pending)
      | Some entry \<Rightarrow>
          if f64_lt (f64_abs (f64_sub (pc_value entry) (NewValue d))) epsilon
          then let e = entry\<lparr> pc_fetchCount := pc_fetchCount entry + 1, pc_lastSeen := now \<rparr>
               in if 2 \<le> pc_fetchCount e
                  then (ConfirmedPublish, None, True, AList.delete key pending)
                  else (Hold, Some e, False, AList.update key e pending)
          else let e = \<lparr> pc_value = NewValue d, pc_source = DiffSource d, pc_fetchCount = 1,
                         pc_lastSeen = now \<rparr>
               in (Hold, Some e, False, AList.update key e pending))"

text \<open>The default branch of the switch counts a pending change; the other two do not.\<close>

definition counts_as_seen ::
  "bool \<Rightarrow> string \<Rightarrow> PriceDiff \<Rightarrow> (string \<times> pendingChange) list \<Rightarrow> bool" where
  "counts_as_seen found key d pending =
     (case map_of pending key of
        None \<Rightarrow> found
      | Some entry \<Rightarrow> \<not> f64_lt (f64_abs (f64_sub (pc_value entry) (NewValue d))) epsilon)"

text \<open>The part between \<open>Lock\<close> and \<open>Unlock\<close>, and the mirroring to Redis after it.\<close>

definition single_locked ::
  "rec_env \<Rightarrow> bool \<Rightarrow> string \<Rightarrow> PriceDiff \<Rightarrow> 's reconciler
    \<Rightarrow> (decision \<times> pendingEntry option \<times> bool) \<times> 's reconciler" where
  "single_locked env found key d r =
     (let (now, r1) = (if map_of (rc_pending r) key = None \<and> \<not> found then (0, r)
                       else read_clock env r);
          r2 = (if counts_as_seen found key d (rc_pending r1)
                then emit (Metric ''pending_change_seen'') r1 else r1);
          (dec, persistSnapshot, deleteKey, pending') =
            decide_single found now key d (rc_pending r2)
      in ((dec, persistSnapshot, deleteKey), r2\<lparr> rc_pending := pending' \<rparr>))"

definition mirror_pending ::
  "rec_env \<Rightarrow> string \<Rightarrow> pendingEntry option \<Rightarrow> bool \<Rightarrow> 's reconciler \<Rightarrow> 's reconciler" where
  "mirror_pending env key persistSnapshot deleteKey r =
     (let r1 = (case persistSnapshot of Some e \<Rightarrow> persistPending env key e r | None \<Rightarrow> r)
      in if deleteKey then deletePendingFromRedis env [key] r1 else r1)"

definition processSingleSource ::
  "'s store_ops \<Rightarrow> rec_env \<Rightarrow> string \<Rightarrow> price_field \<Rightarrow> int \<Rightarrow> PriceDiff
    \<Rightarrow> (string \<rightharpoonup> int) \<Rightarrow> WebhookRow list \<Rightarrow> f64 \<Rightarrow> 's reconciler \<Rightarrow> 's reconciler" where
  "processSingleSource ops env slug field modelID d sourceIDs activeWebhooks siblingValue r =
     (let key = pendingKey slug field d;
          sourceID = go_get 0 sourceIDs (DiffSource d);
          (cur, r1) = on_store (LookupCurrentPrice ops modelID sourceID) r;
          found = (case cur of Some (_, _, f) \<Rightarrow> f | None \<Rightarrow> True);
          ((dec, persistSnapshot, deleteKey), r2) = single_locked env found key d r1;
          r3 = mirror_pending env key persistSnapshot deleteKey r2
      in case dec of
           ImmediatePublish \<Rightarrow>
             publish ops env modelID sourceID field (NewValue d) ConfidenceLow
               (UnderlyingProvider d) activeWebhooks siblingValue
               (emit (Metric ''first_seen_published'') r3)
         | ConfirmedPublish \<Rightarrow>
             publish ops env modelID sourceID field (NewValue d) ConfidenceMedium
               (UnderlyingProvider d) activeWebhooks siblingValue r3
         | Hold \<Rightarrow> r3)"

text \<open>
  \<open>slices.SortFunc\<close> by source name: insertion sort, hence stable, up to twelve elements, which
  bounds the number of sources; \<open>sort_key\<close> is the stable sort.
\<close>

definition sort_by_source :: "PriceDiff list \<Rightarrow> PriceDiff list" where
  "sort_by_source ds = sort_key DiffSource ds"

type_synonym valuediff = "f64 \<times> int"

definition close_to :: "f64 \<Rightarrow> f64 \<Rightarrow> bool" where
  "close_to ref v = (\<not> f64_lt epsilon (f64_abs (f64_sub v ref)))"

definition within_eps :: "f64 \<Rightarrow> f64 \<Rightarrow> bool" where
  "within_eps v ref = f64_le (f64_abs (f64_sub v ref)) epsilon"

definition cluster_size :: "valuediff list \<Rightarrow> f64 \<Rightarrow> int" where
  "cluster_size vs x = int (length (filter (\<lambda>(v, _). within_eps v x) vs))"

text \<open>The largest consensus cluster: size, value and source; the first of the largest wins.\<close>

definition consensus :: "valuediff list \<Rightarrow> int \<times> f64 \<times> int" where
  "consensus vs =
     foldl (\<lambda>(sz, val, src) (v, s).
              if sz < cluster_size vs v then (cluster_size vs v, v, s) else (sz, val, src))
       (0, Fin 0, 0) vs"

text \<open>The pairs \<open>i < j\<close> in the order of the two loops.\<close>

fun pairs :: "'a list \<Rightarrow> ('a \<times> 'a) list" where
  "pairs [] = []"
| "pairs (x # xs) = map (Pair x) xs @ pairs xs"

definition rel_delta :: "f64 \<Rightarrow> f64 \<Rightarrow> f64" where
  "rel_delta a b = f64_div (f64_abs (f64_sub a b)) (f64_max a b)"

definition worst_step ::
  "f64 \<times> valuediff \<times> valuediff \<Rightarrow> valuediff \<times> valuediff \<Rightarrow> f64 \<times> valuediff \<times> valuediff" where
  "worst_step acc p =
     (case (acc, p) of ((maxDelta, wa, wb), (a, b)) \<Rightarrow>
        if f64_lt (f64_max (fst a) (fst b)) epsilon then (maxDelta, wa, wb)
        else let delta = rel_delta (fst a) (fst b) in
          if f64_lt maxDelta delta then (delta, a, b) else (maxDelta, wa, wb))"

definition worst_pair :: "valuediff list \<Rightarrow> f64 \<times> valuediff \<times> valuediff" where
  "worst_pair vs = foldl worst_step (Fin 0, (Fin 0, 0), (Fin 0, 0)) (pairs vs)"

text \<open>What a group of values calls for, before any effect.\<close>

datatype verdict =
    Agree f64 int
  | Discrepancy f64 valuediff valuediff "(f64 \<times> int) option"
  | Minor f64 int

definition judge :: "valuediff list \<Rightarrow> verdict" where
  "judge values =
     (let ref = fst (hd values) in
      if list_all (\<lambda>v. close_to ref (fst v)) (tl values) then Agree ref (snd (hd values))
      else
        let (consensusSize, consensusValue, consensusSourceID) = consensus values;
            (maxDelta, a, b) = worst_pair values
        in if f64_lt DiscrepancyThreshold maxDelta
           then Discrepancy maxDelta a b
                  (if 2 \<le> consensusSize then Some (consensusValue, consensusSourceID) else None)
           else Minor ref (snd (hd values)))"

definition processMultiSource ::
  "'s store_ops \<Rightarrow> rec_env \<Rightarrow> string \<Rightarrow> price_field \<Rightarrow> int \<Rightarrow> PriceDiff list
    \<Rightarrow> (string \<rightharpoonup> int) \<Rightarrow> WebhookRow list \<Rightarrow> f64 \<Rightarrow> 's reconciler \<Rightarrow> 's reconciler" where
  "processMultiSource ops env slug field modelID groupDiffs sourceIDs activeWebhooks
     siblingValue r =
     (let ds = sort_by_source groupDiffs;
          values = map (\<lambda>d. (NewValue d, go_get 0 sourceIDs (DiffSource d))) ds;
          up = UnderlyingProvider (hd ds)
      in case judge values of
           Agree v src \<Rightarrow>
             publish ops env modelID src field v ConfidenceHigh up activeWebhooks siblingValue r
         | Discrepancy maxDelta a b cons \<Rightarrow>
             (let r1 = emit (Metric ''discrepancy_flagged'') r;
                  (_, r2) = on_store (FlagDiscrepancy ops modelID (snd a) (snd b) field
                                        (fst a) (fst b) maxDelta) r1
              in case cons of
                   Some (cv, csrc) \<Rightarrow>
                     publish ops env modelID csrc field cv ConfidenceHigh up activeWebhooks
                       siblingValue r2
                 | None \<Rightarrow> r2)
         | Minor v src \<Rightarrow>
             publish ops env modelID src field v ConfidenceMedium up activeWebhooks
               siblingValue r)"

section \<open>Reconcile\<close>

text \<open>Source IDs, resolved once per name; \<open>-1\<close> marks a source that did not resolve.\<close>

definition resolve_one ::
  "'s store_ops \<Rightarrow> (string \<rightharpoonup> int) \<times> 's reconciler \<Rightarrow> PriceDiff
    \<Rightarrow> (string \<rightharpoonup> int) \<times> 's reconciler" where
  "resolve_one ops acc d =
     (case acc of (ids, r) \<Rightarrow>
        if ids (DiffSource d) \<noteq> None then (ids, r)
        else let (res, r1) = on_store (LookupSourceID ops (DiffSource d)) r
             in (ids(DiffSource d \<mapsto> (case res of Some i \<Rightarrow> i | None \<Rightarrow> - 1)), r1))"

definition resolve_sources ::
  "'s store_ops \<Rightarrow> PriceDiff list \<Rightarrow> 's reconciler \<Rightarrow> (string \<rightharpoonup> int) \<times> 's reconciler" where
  "resolve_sources ops batch r = foldl (resolve_one ops) (Map.empty, r) batch"

type_synonym groupKey = "string \<times> price_field"

definition diff_key :: "PriceDiff \<Rightarrow> groupKey" where
  "diff_key d = (ModelSlug d, Field d)"

definition group_step ::
  "(string \<rightharpoonup> int) \<Rightarrow> (groupKey \<times> PriceDiff list) list \<Rightarrow> PriceDiff
    \<Rightarrow> (groupKey \<times> PriceDiff list) list" where
  "group_step ids groups d =
     (if go_get 0 ids (DiffSource d) < 0 then groups
      else AList.map_default (diff_key d) [d] (\<lambda>ds. ds @ [d]) groups)"

definition group_diffs ::
  "(string \<rightharpoonup> int) \<Rightarrow> PriceDiff list \<Rightarrow> (groupKey \<times> PriceDiff list) list" where
  "group_diffs ids batch = foldl (group_step ids) [] batch"

definition cycle_vals :: "(string \<rightharpoonup> int) \<Rightarrow> PriceDiff list \<Rightarrow> groupKey \<rightharpoonup> f64" where
  "cycle_vals ids batch =
     foldl (\<lambda>m d. if go_get 0 ids (DiffSource d) < 0 then m else m(diff_key d \<mapsto> NewValue d))
       Map.empty batch"

definition process_group ::
  "'s store_ops \<Rightarrow> rec_env \<Rightarrow> (string \<rightharpoonup> int) \<Rightarrow> (groupKey \<rightharpoonup> f64) \<Rightarrow> WebhookRow list
    \<Rightarrow> 's reconciler \<Rightarrow> groupKey \<times> PriceDiff list \<Rightarrow> 's reconciler" where
  "process_group ops env ids cyc hooks r g =
     (case g of ((slug, field), groupDiffs) \<Rightarrow>
        let (mid, r1) = on_store (LookupModelID ops slug) r in
        case mid of
          None \<Rightarrow> r1
        | Some modelID \<Rightarrow>
            let siblingValue = go_get (Fin 0) cyc (slug, otherField field) in
            if 2 \<le> length groupDiffs
            then let ds = sort_by_source groupDiffs in
                 if length (remdups (map effectiveProvider ds)) < 2
                 then processSingleSource ops env slug field modelID (hd ds) ids hooks
                        siblingValue r1
                 else processMultiSource ops env slug field modelID ds ids hooks siblingValue r1
            else processSingleSource ops env slug field modelID (hd groupDiffs) ids hooks
                   siblingValue r1)"

definition Reconcile ::
  "'s store_ops \<Rightarrow> rec_env \<Rightarrow> PriceDiff list \<Rightarrow> 's reconciler \<Rightarrow> 's reconciler" where
  "Reconcile ops env batch r =
     (if batch = [] then emit (Metric ''no_change'') r
      else
        let r1 = sweepStalePending env (loadPendingFromRedis env r);
            (ids, r2) = resolve_sources ops batch r1;
            groups = group_diffs ids batch;
            cyc = cycle_vals ids batch;
            (hooks, r3) =
              (if rc_asynq r2
               then let (res, r') = on_store (ListActiveWebhooks ops) r2
                    in (case res of Some ws \<Rightarrow> ws | None \<Rightarrow> [], r')
               else ([], r2))
        in foldl (process_group ops env ids cyc hooks) r3 (sort_key (group_rank env \<circ> fst) groups))"

end
