(* ===== verification/Reconciler_Contract.thy ===== *)
theory Reconciler_Contract
  imports Reconciler
begin

text \<open>
  What the reconciler relies on in its \<open>Store\<close> (the locale \<open>price_store\<close>), and what it
  guarantees over every store that keeps these laws: each call of \<open>Reconcile\<close> acts on the
  prices as a sequence of complete, positive writes.
\<close>

section \<open>Frame equations\<close>

lemma tick_frame [frame_simps]:
  "rc_store (tick r) = rc_store r" "rc_pending (tick r) = rc_pending r"
  "rc_pendingLoaded (tick r) = rc_pendingLoaded r" "rc_asynq (tick r) = rc_asynq r"
  "rc_redis (tick r) = rc_redis r" "rc_out (tick r) = rc_out r" "rc_tick (tick r) = Suc (rc_tick r)"
  by (simp_all add: tick_def)

lemma emit_frame [frame_simps]:
  "rc_store (emit e r) = rc_store r" "rc_pending (emit e r) = rc_pending r"
  "rc_pendingLoaded (emit e r) = rc_pendingLoaded r" "rc_asynq (emit e r) = rc_asynq r"
  "rc_redis (emit e r) = rc_redis r" "rc_tick (emit e r) = rc_tick r"
  "rc_out (emit e r) = rc_out r @ [e]"
  by (simp_all add: emit_def)

lemma read_clock_frame [frame_simps]:
  "rc_store (snd (read_clock env r)) = rc_store r"
  "rc_pending (snd (read_clock env r)) = rc_pending r"
  "rc_out (snd (read_clock env r)) = rc_out r"
  "rc_redis (snd (read_clock env r)) = rc_redis r"
  "rc_asynq (snd (read_clock env r)) = rc_asynq r"
  "rc_pendingLoaded (snd (read_clock env r)) = rc_pendingLoaded r"
  by (simp_all add: read_clock_def frame_simps)

lemma redis_do_frame [frame_simps]:
  "rc_store (snd (redis_do env c r)) = rc_store r"
  "rc_pending (snd (redis_do env c r)) = rc_pending r"
  "rc_redis (snd (redis_do env c r)) = rc_redis r"
  "rc_asynq (snd (redis_do env c r)) = rc_asynq r"
  "rc_pendingLoaded (snd (redis_do env c r)) = rc_pendingLoaded r"
  by (simp_all add: redis_do_def Let_def frame_simps)

lemma on_store_frame [frame_simps]:
  "rc_pending (snd (on_store f r)) = rc_pending r"
  "rc_out (snd (on_store f r)) = rc_out r"
  "rc_redis (snd (on_store f r)) = rc_redis r"
  "rc_asynq (snd (on_store f r)) = rc_asynq r"
  "rc_tick (snd (on_store f r)) = rc_tick r"
  "rc_pendingLoaded (snd (on_store f r)) = rc_pendingLoaded r"
  "rc_store (snd (on_store f r)) = snd (f (rc_store r))"
  "fst (on_store f r) = fst (f (rc_store r))"
  by (simp_all add: on_store_def split: prod.split)

lemma deletePending_frame [frame_simps]:
  "rc_store (deletePendingFromRedis env ks r) = rc_store r"
  "rc_pending (deletePendingFromRedis env ks r) = rc_pending r"
  "rc_redis (deletePendingFromRedis env ks r) = rc_redis r"
  "rc_asynq (deletePendingFromRedis env ks r) = rc_asynq r"
  by (simp_all add: deletePendingFromRedis_def frame_simps)

lemma persistPending_frame [frame_simps]:
  "rc_store (persistPending env k e r) = rc_store r"
  "rc_pending (persistPending env k e r) = rc_pending r"
  "rc_redis (persistPending env k e r) = rc_redis r"
  "rc_asynq (persistPending env k e r) = rc_asynq r"
  by (simp_all add: persistPending_def Let_def frame_simps case_prod_beta)

lemma load_frame [frame_simps]:
  "rc_store (loadPendingFromRedis env r) = rc_store r"
  "rc_redis (loadPendingFromRedis env r) = rc_redis r"
  "rc_asynq (loadPendingFromRedis env r) = rc_asynq r"
  by (simp_all add: loadPendingFromRedis_def Let_def frame_simps case_prod_beta)

lemma sweep_frame [frame_simps]:
  "rc_store (sweepStalePending env r) = rc_store r"
  "rc_redis (sweepStalePending env r) = rc_redis r"
  "rc_asynq (sweepStalePending env r) = rc_asynq r"
  by (simp_all add: sweepStalePending_def Let_def frame_simps case_prod_beta)

lemma publishEvent_frame [frame_simps]:
  "rc_store (publishEvent env ev r) = rc_store r"
  "rc_pending (publishEvent env ev r) = rc_pending r"
  "rc_redis (publishEvent env ev r) = rc_redis r"
  "rc_asynq (publishEvent env ev r) = rc_asynq r"
  by (simp_all add: publishEvent_def Let_def frame_simps case_prod_beta)

lemma enqueue_one_frame [frame_simps]:
  "rc_store (enqueue_one env ev r w) = rc_store r"
  "rc_pending (enqueue_one env ev r w) = rc_pending r"
  "rc_redis (enqueue_one env ev r w) = rc_redis r"
  "rc_asynq (enqueue_one env ev r w) = rc_asynq r"
  by (simp_all add: enqueue_one_def Let_def frame_simps)

lemma enqueue_frame [frame_simps]:
  "rc_store (enqueueWebhooksWithEvent env ev ws r) = rc_store r"
  "rc_pending (enqueueWebhooksWithEvent env ev ws r) = rc_pending r"
  "rc_redis (enqueueWebhooksWithEvent env ev ws r) = rc_redis r"
  "rc_asynq (enqueueWebhooksWithEvent env ev ws r) = rc_asynq r"
  unfolding enqueueWebhooksWithEvent_def
  by (rule foldl_frame; simp add: frame_simps)+

lemma fan_out_frame [frame_simps]:
  "rc_pending (fan_out ops env m s ci co i out ws r) = rc_pending r"
  "rc_redis (fan_out ops env m s ci co i out ws r) = rc_redis r"
  "rc_asynq (fan_out ops env m s ci co i out ws r) = rc_asynq r"
  by (simp_all add: fan_out_def Let_def frame_simps case_prod_beta)

lemma publish_frame [frame_simps]:
  "rc_pending (publish ops env m s f v c u ws sib r) = rc_pending r"
  "rc_redis (publish ops env m s f v c u ws sib r) = rc_redis r"
  "rc_asynq (publish ops env m s f v c u ws sib r) = rc_asynq r"
  by (simp_all add: publish_def Let_def frame_simps case_prod_beta split: option.split)

lemma single_locked_frame [frame_simps]:
  "rc_store (snd (single_locked env found key d r)) = rc_store r"
  "rc_redis (snd (single_locked env found key d r)) = rc_redis r"
  "rc_asynq (snd (single_locked env found key d r)) = rc_asynq r"
  by (simp_all add: single_locked_def Let_def frame_simps case_prod_beta)

lemma mirror_pending_frame [frame_simps]:
  "rc_store (mirror_pending env key ps dk r) = rc_store r"
  "rc_pending (mirror_pending env key ps dk r) = rc_pending r"
  "rc_redis (mirror_pending env key ps dk r) = rc_redis r"
  "rc_asynq (mirror_pending env key ps dk r) = rc_asynq r"
  by (simp_all add: mirror_pending_def Let_def frame_simps split: option.split)

lemma processMulti_frame [frame_simps]:
  "rc_pending (processMultiSource ops env slug f m ds ids ws sib r) = rc_pending r"
  by (simp add: processMultiSource_def Let_def frame_simps case_prod_beta
      split: verdict.split option.split)

section \<open>The contract of the store\<close>

text \<open>
  A write is what one successful \<open>PublishPrice\<close> does: the pair (model, source), the two
  prices and the confidence. \<open>col\<close> is what the price columns make of a float.
\<close>

type_synonym price_key = "int \<times> int"
type_synonym price_write = "price_key \<times> f64 \<times> f64 \<times> confidence"

definition apply_write ::
  "(f64 \<Rightarrow> f64) \<Rightarrow> (price_key \<rightharpoonup> f64 \<times> f64 \<times> confidence) \<Rightarrow> price_write
    \<Rightarrow> (price_key \<rightharpoonup> f64 \<times> f64 \<times> confidence)" where
  "apply_write col f w = (case w of (k, i, out, c) \<Rightarrow> f(k \<mapsto> (col i, col out, c)))"

definition history_entry :: "(f64 \<Rightarrow> f64) \<Rightarrow> price_write \<Rightarrow> price_key \<times> f64 \<times> f64" where
  "history_entry col w = (case w of (k, i, out, c) \<Rightarrow> (k, col i, col out))"

definition complete_write :: "price_write \<Rightarrow> bool" where
  "complete_write w = (case w of (k, i, out, c) \<Rightarrow>
     \<not> f64_le i (Fin 0) \<and> \<not> f64_le out (Fin 0))"

definition write_confidence :: "price_write \<Rightarrow> confidence" where
  "write_confidence w = snd (snd (snd w))"

locale price_store =
  fixes ops :: "'s store_ops"
    and valid :: "'s \<Rightarrow> bool"
    and col :: "f64 \<Rightarrow> f64"
    and price_of :: "'s \<Rightarrow> price_key \<rightharpoonup> f64 \<times> f64 \<times> confidence"
    and history_of :: "'s \<Rightarrow> (price_key \<times> f64 \<times> f64) list"
    and flags_of :: "'s \<Rightarrow> (int \<times> price_field) list"
    and same_view :: "'s \<Rightarrow> 's \<Rightarrow> bool"
  assumes same_view: "same_view s s' \<Longrightarrow>
      price_of s' = price_of s \<and> history_of s' = history_of s \<and> flags_of s' = flags_of s \<and>
      (valid s \<longrightarrow> valid s')"
    and lookups: "same_view s (snd (LookupSourceID ops name s))"
      "same_view s (snd (LookupSourceName ops src s))"
      "same_view s (snd (LookupModelID ops name s))"
      "same_view s (snd (LookupModelProvider ops m s))"
      "same_view s (snd (LookupCurrentPrice ops m src s))"
      "same_view s (snd (ListActiveWebhooks ops s))"
    and lookup_current: "fst (LookupCurrentPrice ops m src s) = Some (i, out, found) \<Longrightarrow>
      (case price_of s (m, src) of
         None \<Rightarrow> (i, out, found) = (Fin 0, Fin 0, False)
       | Some (i', out', c) \<Rightarrow> (i, out, found) = (i', out', True))"
    and publish_ok: "valid s \<Longrightarrow> PublishPrice ops m src i out c u s = (Some x, s') \<Longrightarrow>
      price_of s' = apply_write col (price_of s) ((m, src), i, out, c) \<and>
      history_of s' = history_of s @ [history_entry col ((m, src), i, out, c)] \<and>
      flags_of s' = flags_of s \<and> valid s'"
    and publish_err: "PublishPrice ops m src i out c u s = (None, s') \<Longrightarrow> same_view s s'"
    and flag_frame: "FlagDiscrepancy ops m a b f va vb d s = (res, s') \<Longrightarrow>
      price_of s' = price_of s \<and> history_of s' = history_of s \<and> (valid s \<longrightarrow> valid s')"
begin

text \<open>
  \<open>evolves C flag s s'\<close>: the store went from \<open>s\<close> to \<open>s'\<close> by complete writes with a
  confidence in \<open>C\<close>; the history grew by exactly these writes and the current prices are the
  old ones with the writes replayed; without \<open>flag\<close> the review queue is untouched.
\<close>

definition evolves :: "confidence set \<Rightarrow> bool \<Rightarrow> 's \<Rightarrow> 's \<Rightarrow> bool" where
  "evolves C flag s s' \<longleftrightarrow> (valid s \<longrightarrow> valid s' \<and>
     (\<exists>ws. history_of s' = history_of s @ map (history_entry col) ws \<and>
        price_of s' = foldl (apply_write col) (price_of s) ws \<and>
        list_all complete_write ws \<and> write_confidence ` set ws \<subseteq> C) \<and>
     (\<not> flag \<longrightarrow> flags_of s' = flags_of s))"

lemma evolves_view: "same_view s s' \<Longrightarrow> evolves C flag s s'"
  unfolding evolves_def using same_view [of s s'] by (auto intro!: exI [of _ "[]"])

lemma evolves_refl: "evolves C flag s s"
  unfolding evolves_def by (auto intro!: exI [of _ "[]"])

lemma evolves_trans:
  assumes "evolves C flag s1 s2" "evolves C flag s2 s3"
  shows "evolves C flag s1 s3"
proof (unfold evolves_def, intro impI conjI)
  assume v: "valid s1"
  from assms(1) v obtain ws where 1: "valid s2"
    "history_of s2 = history_of s1 @ map (history_entry col) ws"
    "price_of s2 = foldl (apply_write col) (price_of s1) ws"
    "list_all complete_write ws" "write_confidence ` set ws \<subseteq> C"
    "\<not> flag \<longrightarrow> flags_of s2 = flags_of s1"
    unfolding evolves_def by blast
  from assms(2) 1(1) obtain ws' where 2: "valid s3"
    "history_of s3 = history_of s2 @ map (history_entry col) ws'"
    "price_of s3 = foldl (apply_write col) (price_of s2) ws'"
    "list_all complete_write ws'" "write_confidence ` set ws' \<subseteq> C"
    "\<not> flag \<longrightarrow> flags_of s3 = flags_of s2"
    unfolding evolves_def by blast
  show "valid s3" by fact
  show "\<exists>ws. history_of s3 = history_of s1 @ map (history_entry col) ws \<and>
    price_of s3 = foldl (apply_write col) (price_of s1) ws \<and>
    list_all complete_write ws \<and> write_confidence ` set ws \<subseteq> C"
    using 1 2 by (intro exI [of _ "ws @ ws'"]) auto
  show "flags_of s3 = flags_of s1" if "\<not> flag" using 1 2 that by simp
qed

lemma evolves_weaken:
  assumes "evolves C flag s s'" "C \<subseteq> C'" "flag \<Longrightarrow> flag'"
  shows "evolves C' flag' s s'"
  unfolding evolves_def
proof (intro impI)
  assume "valid s"
  then obtain ws where ws: "valid s'" "history_of s' = history_of s @ map (history_entry col) ws"
    "price_of s' = foldl (apply_write col) (price_of s) ws" "list_all complete_write ws"
    "write_confidence ` set ws \<subseteq> C" "\<not> flag \<longrightarrow> flags_of s' = flags_of s"
    using assms(1) unfolding evolves_def by blast
  have "write_confidence ` set ws \<subseteq> C'" using ws(5) assms(2) by blast
  then show "valid s' \<and>
     (\<exists>ws. history_of s' = history_of s @ map (history_entry col) ws \<and>
        price_of s' = foldl (apply_write col) (price_of s) ws \<and>
        list_all complete_write ws \<and> write_confidence ` set ws \<subseteq> C') \<and>
     (\<not> flag' \<longrightarrow> flags_of s' = flags_of s)"
    using ws assms(3) by blast
qed

lemma evolves_fan_out:
  "evolves C flag (rc_store r) (rc_store (fan_out ops env m src ci co i out ws r))"
proof -
  let ?s1 = "snd (LookupSourceName ops src (rc_store r))"
  let ?s2 = "snd (LookupModelProvider ops m ?s1)"
  have "evolves C flag (rc_store r) ?s2"
    by (rule evolves_trans [OF evolves_view [OF lookups(2)] evolves_view [OF lookups(4)]])
  then show ?thesis
    by (simp add: fan_out_def Let_def case_prod_beta frame_simps evolves_refl)
qed

lemma evolves_PublishPrice:
  assumes "\<not> f64_le i (Fin 0)" "\<not> f64_le out (Fin 0)" "c \<in> C"
  shows "evolves C flag s (snd (PublishPrice ops m src i out c u s))"
proof (cases "fst (PublishPrice ops m src i out c u s)")
  case None
  then have "same_view s (snd (PublishPrice ops m src i out c u s))"
    by (metis publish_err prod.collapse)
  then show ?thesis by (rule evolves_view)
next
  case (Some x)
  then have p: "PublishPrice ops m src i out c u s = (Some x, snd (PublishPrice ops m src i out c u s))"
    by (metis prod.collapse)
  show ?thesis unfolding evolves_def
    using publish_ok [OF _ p] assms
    by (auto simp: complete_write_def write_confidence_def
        intro!: exI [of _ "[((m, src), i, out, c)]"])
qed

lemma evolves_publish:
  assumes "c \<in> C"
  shows "evolves C flag (rc_store r)
    (rc_store (publish ops env m src f v c u hooks sib r))"
proof -
  let ?s1 = "snd (LookupCurrentPrice ops m src (rc_store r))"
  have 1: "evolves C flag (rc_store r) ?s1" by (rule evolves_view [OF lookups(5)])
  have 2: "\<not> f64_le i (Fin 0) \<Longrightarrow> \<not> f64_le out (Fin 0) \<Longrightarrow>
      evolves C flag (rc_store r) (snd (PublishPrice ops m src i out c u ?s1))" for i out
    by (rule evolves_trans [OF 1 evolves_PublishPrice [OF _ _ assms]])
  obtain ci co where cc: "(case fst (LookupCurrentPrice ops m src (rc_store r)) of
      Some (i, out, _) \<Rightarrow> (i, out) | None \<Rightarrow> (Fin 0, Fin 0)) = (ci, co)" by fastforce
  show ?thesis
  proof (cases "publish_prices f v ci co sib")
    case None
    then show ?thesis by (simp add: publish_def case_prod_beta frame_simps cc 1)
  next
    case (Some io)
    obtain i out where io: "io = (i, out)" by (cases io)
    show ?thesis
    proof (cases "f64_le i (Fin 0) \<or> f64_le out (Fin 0)")
      case True
      then show ?thesis by (simp add: publish_def case_prod_beta frame_simps cc Some io 1)
    next
      case False
      note ev = 2 [of i out] False
      show ?thesis
      proof (cases "fst (PublishPrice ops m src i out c u ?s1)")
        case None
        with ev show ?thesis by (simp add: publish_def case_prod_beta frame_simps cc Some io)
      next
        case (Some x)
        define r2 where "r2 = emit (Metric ''price_published'') (snd (on_store
          (PublishPrice ops m src i out c u) (snd (on_store (LookupCurrentPrice ops m src) r))))"
        have "publish ops env m src f v c u hooks sib r =
            fan_out ops env m src ci co i out hooks r2"
          using False Some \<open>publish_prices f v ci co sib = Some io\<close>
          by (simp add: publish_def case_prod_beta frame_simps cc io r2_def)
        moreover have "evolves C flag (rc_store r) (rc_store r2)"
          using ev by (simp add: r2_def frame_simps)
        ultimately show ?thesis using evolves_trans [OF _ evolves_fan_out] by simp
      qed
    qed
  qed
qed

lemma evolves_single:
  assumes "ConfidenceLow \<in> C" "ConfidenceMedium \<in> C"
  shows "evolves C flag (rc_store r)
    (rc_store (processSingleSource ops env slug f m d ids hooks sib r))"
proof -
  have 1: "evolves C flag (rc_store r)
      (snd (LookupCurrentPrice ops m src (rc_store r)))" for src
    by (rule evolves_view [OF lookups(5)])
  have 2: "evolves C flag (rc_store r) (rc_store r') \<Longrightarrow> c \<in> C \<Longrightarrow>
      evolves C flag (rc_store r) (rc_store (publish ops env m src f v c u hooks sib r'))"
    for r' c u v src by (rule evolves_trans [OF _ evolves_publish])
  show ?thesis
    using assms
    by (simp add: processSingleSource_def Let_def case_prod_beta frame_simps 1 2
        split: decision.split)
qed

lemma evolves_multi:
  assumes "ConfidenceHigh \<in> C" "ConfidenceMedium \<in> C"
  shows "evolves C True (rc_store r)
    (rc_store (processMultiSource ops env slug f m ds ids hooks sib r))"
proof -
  have flag: "evolves C True (rc_store r)
      (snd (FlagDiscrepancy ops m a b fl va vb dl (rc_store r)))" for a b fl va vb dl
    unfolding evolves_def
    by (metis append_Nil2 empty_subsetI flag_frame foldl_Nil image_empty list.map(1)
        list.pred_inject(1) list.set(1) prod.collapse)
  have 2: "evolves C True (rc_store r) (rc_store r') \<Longrightarrow> c \<in> C \<Longrightarrow>
      evolves C True (rc_store r) (rc_store (publish ops env m src f v c u hooks sib r'))"
    for r' c u v src by (rule evolves_trans [OF _ evolves_publish])
  show ?thesis
    using assms
    by (simp add: processMultiSource_def Let_def case_prod_beta frame_simps flag evolves_refl 2
        split: verdict.split option.split)
qed

text \<open>Resolving the source names and fetching the webhooks only reads.\<close>

lemma evolves_resolve_one:
  "evolves C flag (rc_store (snd acc)) (rc_store (snd (resolve_one ops acc d)))"
  by (cases acc) (auto simp: resolve_one_def Let_def case_prod_beta frame_simps evolves_refl
      intro: evolves_view lookups)

lemma evolves_foldl:
  assumes "\<And>acc x. x \<in> set xs \<Longrightarrow> evolves C flag (g acc) (g (f acc x))"
  shows "evolves C flag (g acc) (g (foldl f acc xs))"
  by (rule foldl_invariant [where P = "\<lambda>s. evolves C flag (g acc) (g s)"])
     (rule evolves_refl, erule evolves_trans, rule assms)

lemma evolves_resolve:
  "evolves C flag (rc_store r) (rc_store (snd (resolve_sources ops batch r)))"
  unfolding resolve_sources_def
  using evolves_foldl [where g = "\<lambda>acc. rc_store (snd acc)" and acc = "(Map.empty, r)"
      and f = "resolve_one ops" and xs = batch, OF evolves_resolve_one]
  by simp

text \<open>
  A group whose diffs trace back to one provider takes the single-source path, whatever its
  length.
\<close>

lemma evolves_group:
  assumes C: "ConfidenceLow \<in> C" "ConfidenceMedium \<in> C"
    and multi: "length (remdups (map effectiveProvider (snd g))) < 2 \<or>
      ConfidenceHigh \<in> C \<and> flag"
  shows "evolves C flag (rc_store r) (rc_store (process_group ops env ids cyc hooks r g))"
proof -
  obtain slug f ds where g: "g = ((slug, f), ds)" by (cases g) auto
  obtain mid r1 where r1: "on_store (LookupModelID ops slug) r = (mid, r1)" by fastforce
  have "rc_store r1 = snd (LookupModelID ops slug (rc_store r))"
    using on_store_frame(7) [of "LookupModelID ops slug" r] by (simp add: r1)
  then have 1: "evolves C flag (rc_store r) (rc_store r1)" by (simp add: evolves_view lookups)
  have single: "evolves C flag (rc_store r)
      (rc_store (processSingleSource ops env slug f m d ids hooks sib r1))" for m d sib
    by (rule evolves_trans [OF 1 evolves_single [OF C]])
  have eff: "set (map effectiveProvider (sort_by_source ds)) = set (map effectiveProvider ds)"
    by (simp add: sort_by_source_def)
  have len: "length (remdups (map effectiveProvider (sort_by_source ds))) =
      length (remdups (map effectiveProvider ds))"
    unfolding length_remdups_card_conv eff ..
  have multi': "evolves C flag (rc_store r)
      (rc_store (processMultiSource ops env slug f m ds' ids hooks sib r1))"
    if "ConfidenceHigh \<in> C" "flag" for m ds' sib
    using evolves_trans [OF 1] evolves_multi [of C] that C by simp
  show ?thesis
    using multi 1 single multi'
    by (auto simp: g process_group_def Let_def r1 len split: option.split)
qed

lemma evolves_Reconcile:
  assumes C: "ConfidenceLow \<in> C" "ConfidenceMedium \<in> C"
    and multi: "(\<forall>ids. \<forall>g \<in> set (group_diffs ids batch).
        length (remdups (map effectiveProvider (snd g))) < 2) \<or> ConfidenceHigh \<in> C \<and> flag"
  shows "evolves C flag (rc_store r) (rc_store (Reconcile ops env batch r))"
proof (cases "batch = []")
  case True
  then show ?thesis by (simp add: Reconcile_def frame_simps evolves_refl)
next
  case False
  define r1 where "r1 = sweepStalePending env (loadPendingFromRedis env r)"
  obtain ids r2 where r2: "resolve_sources ops batch r1 = (ids, r2)" by fastforce
  obtain hooks r3 where r3: "(if rc_asynq r2
        then let (res, r') = on_store (ListActiveWebhooks ops) r2
             in (case res of Some ws \<Rightarrow> ws | None \<Rightarrow> [], r')
        else ([], r2)) = (hooks, r3)" by fastforce
  let ?gs = "sort_key (group_rank env \<circ> fst) (group_diffs ids batch)"
  have "rc_store r1 = rc_store r" by (simp add: r1_def frame_simps)
  then have "evolves C flag (rc_store r) (rc_store r2)"
    using evolves_resolve [of C flag r1 batch] by (simp add: r2)
  moreover have "evolves C flag (rc_store r2) (rc_store r3)"
  proof (cases "rc_asynq r2")
    case True
    have "r3 = snd (on_store (ListActiveWebhooks ops) r2)"
      using r3 True by (auto simp: case_prod_beta)
    then show ?thesis by (simp add: frame_simps evolves_view lookups)
  next
    case False
    then show ?thesis using r3 by (simp add: evolves_refl)
  qed
  moreover have "evolves C flag (rc_store r3)
      (rc_store (foldl (process_group ops env ids (cycle_vals ids batch) hooks) r3 ?gs))"
    by (rule evolves_foldl, rule evolves_group [OF C]) (use multi in auto)
  moreover have "Reconcile ops env batch r =
      foldl (process_group ops env ids (cycle_vals ids batch) hooks) r3 ?gs"
    using False r2 r3 by (simp add: Reconcile_def Let_def r1_def)
  ultimately show ?thesis by (metis evolves_trans)
qed

end

section \<open>Groups\<close>

text \<open>The members of a group are diffs of the batch with the group's key, in batch order.\<close>

lemma map_of_map_default:
  "map_of (AList.map_default k v f al) =
     (map_of al)(k \<mapsto> (case map_of al k of None \<Rightarrow> v | Some e \<Rightarrow> f e))"
  by (induction al) (auto simp: fun_eq_iff)

lemma distinct_map_default:
  "distinct (map fst al) \<Longrightarrow> distinct (map fst (AList.map_default k v f al))"
proof (induction al)
  case (Cons a al)
  have "fst ` set (AList.map_default k v f xs) = insert k (fst ` set xs)" for xs
    using dom_map_of_conv_image_fst [of "AList.map_default k v f xs"]
      dom_map_of_conv_image_fst [of xs] by (auto simp: map_of_map_default split: if_splits)
  with Cons show ?case by (cases a) auto
qed simp

definition grouped :: "(string \<rightharpoonup> int) \<Rightarrow> groupKey \<Rightarrow> PriceDiff list \<Rightarrow> PriceDiff list" where
  "grouped ids k batch =
     filter (\<lambda>d. diff_key d = k \<and> \<not> go_get 0 ids (DiffSource d) < 0) batch"

lemma group_diffs_snoc:
  "group_diffs ids (batch @ [d]) = group_step ids (group_diffs ids batch) d"
  by (simp add: group_diffs_def)

lemma group_diffs_distinct: "distinct (map fst (group_diffs ids batch))"
proof (induction batch rule: rev_induct)
  case Nil
  show ?case by (simp add: group_diffs_def)
next
  case (snoc d batch)
  then show ?case
    by (simp add: group_diffs_snoc group_step_def distinct_map_default)
qed

lemma group_diffs_lookup:
  "map_of (group_diffs ids batch) k =
     (if grouped ids k batch = [] then None else Some (grouped ids k batch))"
proof (induction batch rule: rev_induct)
  case Nil
  show ?case by (simp add: group_diffs_def grouped_def)
next
  case (snoc d batch)
  have "grouped ids k (batch @ [d]) =
      (if diff_key d = k \<and> \<not> go_get 0 ids (DiffSource d) < 0
       then grouped ids k batch @ [d] else grouped ids k batch)"
    by (simp add: grouped_def)
  with snoc show ?case
    by (simp add: group_diffs_snoc group_step_def map_of_map_default
        del: map_of_eq_Some_iff)
qed

lemma group_diffs_mem:
  assumes "(k, ds) \<in> set (group_diffs ids batch)"
  shows "ds = grouped ids k batch" "ds \<noteq> []"
proof -
  have "map_of (group_diffs ids batch) k = Some ds"
    using assms by (simp add: group_diffs_distinct)
  then have "grouped ids k batch \<noteq> [] \<and> grouped ids k batch = ds"
    unfolding group_diffs_lookup by (metis option.distinct(1) option.inject)
  then show "ds = grouped ids k batch" "ds \<noteq> []" by auto
qed

lemma group_diffs_subset:
  "g \<in> set (group_diffs ids batch) \<Longrightarrow> set (snd g) \<subseteq> set batch"
  using group_diffs_mem(1) [of "fst g" "snd g"] by (auto simp: grouped_def)

lemma one_provider:
  assumes "\<forall>x \<in> set xs. h x = p"
  shows "length (remdups (map h xs)) < 2"
proof -
  have "set (map h xs) \<subseteq> {p}" using assms by auto
  then have "card (set (map h xs)) \<le> card {p}" by (intro card_mono) auto
  then show ?thesis by (simp add: length_remdups_card_conv)
qed

end
