(* ===== verification/Price_Tables.thy ===== *)
theory Price_Tables
  imports Reconciler_Contract
begin

text \<open>
  The pricing tables and the SQL that the Go code runs against them: \<open>pgxStore\<close> of
  \<open>internal/reconciler/store.go\<close> and \<open>pgxWorkerStore\<close> of \<open>internal/worker/store.go\<close>,
  over the tables of the migrations 2 to 7 and 12 to 18; the rows of the benchmark and of the
  identity tables are declared here, too, and used by the intelligence and signup components.
  Text columns are ordered byte by byte (the C collation), and \<open>pg_uuid\<close> is what
  \<open>gen_random_uuid()\<close> returns.

  A statement either runs on the tables or fails: by a fault of the connection, which a
  parameter of the database decides for the n-th statement, or by a constraint of the schema.
  A transaction that does not commit leaves the tables as they were (the sequences behind the
  serial keys are rolled back with them here, which only changes the gaps between keys). How a \<open>float64\<close> comes
  back from a \<open>NUMERIC\<close> column of a given scale is the driver's doing and a parameter, too.
\<close>

section \<open>Tables\<close>

record model_row =
  mr_id :: int
  mr_provider :: string
  mr_name :: string
  mr_slug :: string
  mr_modality :: string
  mr_context_window :: "int option"
  mr_created_at :: instant
  mr_updated_at :: instant

record price_row =
  pr_id :: int
  pr_model_id :: int
  pr_input :: f64
  pr_output :: f64
  pr_source_id :: int
  pr_confirmed_at :: instant
  pr_confidence :: confidence
  pr_created_at :: instant
  pr_underlying :: "string option"
  pr_last_verified_at :: "instant option"

record history_row =
  hr_model_id :: int
  hr_input :: f64
  hr_output :: f64
  hr_source_id :: int
  hr_confirmed_at :: instant
  hr_recorded_at :: instant
  hr_underlying :: "string option"

record review_row =
  rq_id :: int
  rq_model_id :: int
  rq_source_a :: int
  rq_source_b :: int
  rq_field :: price_field
  rq_value_a :: f64
  rq_value_b :: f64
  rq_delta_pct :: f64
  rq_status :: review_status
  rq_created_at :: instant
  rq_resolved_at :: "instant option"

record hook_row =
  hk_row :: WebhookRow
  hk_deleted_at :: "instant option"

record benchmark_row =
  bm_id :: string
  bm_name :: string

record score_row =
  sr_id :: string
  sr_model_id :: int
  sr_benchmark_id :: string
  sr_raw_score :: "f64 option"
  sr_normalized_score :: "f64 option"
  sr_benchmark_version :: string
  sr_source_url :: string
  sr_source_model_name :: "string option"
  sr_source_entry_name :: "string option"
  sr_confidence :: string
  sr_evaluated_at :: instant
  sr_ingested_at :: instant
  sr_last_observed_at :: instant

record capability_row =
  cr_id :: string
  cr_model_id :: int
  cr_dimension :: string
  cr_score :: "f64 option"
  cr_confidence :: string
  cr_benchmark_count :: int
  cr_freshness :: string
  cr_computed_at :: instant

record identity_row =
  id_id :: string
  id_email :: string
  id_email_verified_at :: "instant option"
  id_ip_hash :: "string option"
  id_ua_hash :: "string option"
  id_created_at :: instant
  id_updated_at :: instant

record token_row =
  tk_id :: string
  tk_identity_id :: string
  tk_token_hash :: string
  tk_expires_at :: instant
  tk_used_at :: "instant option"
  tk_created_at :: instant

record key_row =
  ky_id :: string
  ky_identity_id :: string
  ky_provider_key_id :: string
  ky_status :: string
  ky_created_at :: instant
  ky_revoked_at :: "instant option"

record tables =
  t_sources :: "(int \<times> string) list"
  t_models :: "model_row list"
  t_prices :: "price_row list"
  t_history :: "history_row list"
  t_review :: "review_row list"
  t_webhooks :: "hook_row list"
  t_price_serial :: int
  t_review_serial :: int
  t_model_serial :: int
  t_benchmarks :: "benchmark_row list"
  t_scores :: "score_row list"
  t_capabilities :: "capability_row list"
  t_identities :: "identity_row list"
  t_tokens :: "token_row list"
  t_keys :: "key_row list"

record pg =
  pg_tables :: tables
  pg_count :: nat
  pg_fault :: "nat \<Rightarrow> bool"
  pg_now :: "nat \<Rightarrow> instant"
  pg_numeric :: "nat \<Rightarrow> f64 \<Rightarrow> f64"
  pg_uuid :: "nat \<Rightarrow> string"

section \<open>Statements and transactions\<close>

text \<open>
  The failures of the driver, then the sentinel errors of the packages \<open>review\<close> and \<open>signup\<close>
  and their other refusals. Wrapping with \<open>%w\<close> keeps what \<open>errors.Is\<close> sees, so an error is
  modelled by its innermost cause; \<open>DbUnique\<close> names the violated unique index.
\<close>

datatype db_error = DbFault | DbConstraint | DbUnique string | DbNoRows
  | ErrNotPending | ErrUnknownField
  | ErrNotFound | ErrTokenConsumed | ErrTokenExpired | ErrDuplicateActiveKey | ErrEmpty

type_synonym 'a db = "pg \<Rightarrow> (db_error + 'a) \<times> pg"

definition pg_tick :: "pg \<Rightarrow> pg" where
  "pg_tick db = db\<lparr> pg_count := Suc (pg_count db) \<rparr>"

definition stmt :: "(tables \<Rightarrow> db_error + ('a \<times> tables)) \<Rightarrow> 'a db" where
  "stmt f db =
     (if pg_fault db (pg_count db) then (Inl DbFault, pg_tick db)
      else case f (pg_tables db) of
             Inl e \<Rightarrow> (Inl e, pg_tick db)
           | Inr (x, t) \<Rightarrow> (Inr x, (pg_tick db)\<lparr> pg_tables := t \<rparr>))"

definition db_return :: "'a \<Rightarrow> 'a db" where
  "db_return x db = (Inr x, db)"

definition db_throw :: "db_error \<Rightarrow> 'a db" where
  "db_throw e db = (Inl e, db)"

definition db_bind :: "'a db \<Rightarrow> ('a \<Rightarrow> 'b db) \<Rightarrow> 'b db" where
  "db_bind m f db = (case m db of (Inl e, db') \<Rightarrow> (Inl e, db') | (Inr x, db') \<Rightarrow> f x db')"

definition db_time :: "instant db" where
  "db_time db = (Inr (pg_now db (pg_count db)), pg_tick db)"

text \<open>\<open>clock_timestamp()\<close> is the wall clock at the statement.\<close>

definition at_clock :: "(instant \<Rightarrow> 'a db) \<Rightarrow> 'a db" where
  "at_clock f db = f (pg_now db (pg_count db)) db"

text \<open>Inside a transaction \<open>NOW()\<close> is the instant at which it began.\<close>

definition transaction :: "(instant \<Rightarrow> 'a db) \<Rightarrow> 'a db" where
  "transaction body db =
     (case stmt (\<lambda>t. Inr ((), t)) db of
        (Inl e, db1) \<Rightarrow> (Inl e, db1)
      | (Inr _, db1) \<Rightarrow>
          (case body (pg_now db (pg_count db)) db1 of
             (Inl e, db2) \<Rightarrow> (Inl e, db2\<lparr> pg_tables := pg_tables db \<rparr>)
           | (Inr x, db2) \<Rightarrow>
               (case stmt (\<lambda>t. Inr ((), t)) db2 of
                  (Inl e, db3) \<Rightarrow> (Inl e, db3\<lparr> pg_tables := pg_tables db \<rparr>)
                | (Inr _, db3) \<Rightarrow> (Inr x, db3))))"

text \<open>The driver refuses, with an error of its own, a number outside the range of an \<open>INTEGER\<close> column.\<close>

definition int4 :: "int \<Rightarrow> bool" where
  "int4 i \<longleftrightarrow> - (2 ^ 31) \<le> i \<and> i < 2 ^ 31"

text \<open>\<open>QueryRow(...).Scan\<close>: the first row, or \<open>pgx.ErrNoRows\<close>.\<close>

definition first_row :: "'a list \<Rightarrow> db_error + 'a" where
  "first_row rows = (case rows of [] \<Rightarrow> Inl DbNoRows | x # _ \<Rightarrow> Inr x)"

definition select1 :: "(tables \<Rightarrow> 'a list) \<Rightarrow> 'a db" where
  "select1 q = stmt (\<lambda>t. case first_row (q t) of Inl e \<Rightarrow> Inl e | Inr x \<Rightarrow> Inr (x, t))"

definition select :: "(tables \<Rightarrow> 'a list) \<Rightarrow> 'a list db" where
  "select q = stmt (\<lambda>t. Inr (q t, t))"

text \<open>Another computation in place of \<open>pgx.ErrNoRows\<close>.\<close>

definition db_on_no_rows :: "'a db \<Rightarrow> 'a db \<Rightarrow> 'a db" where
  "db_on_no_rows alt m db =
     (case m db of (Inl DbNoRows, db') \<Rightarrow> alt db' | (Inl e, db') \<Rightarrow> (Inl e, db')
      | (Inr x, db') \<Rightarrow> (Inr x, db'))"

text \<open>A caller's translation of an error.\<close>

definition db_map_error :: "(db_error \<Rightarrow> db_error) \<Rightarrow> 'a db \<Rightarrow> 'a db" where
  "db_map_error h m db = (case m db of (Inl e, db') \<Rightarrow> (Inl (h e), db') | (Inr x, db') \<Rightarrow> (Inr x, db'))"

text \<open>Go's result pair as the interface of the reconciler sees it.\<close>

definition to_go :: "'a db \<Rightarrow> pg \<Rightarrow> 'a option \<times> pg" where
  "to_go m db = (case m db of (Inl _, db') \<Rightarrow> (None, db') | (Inr x, db') \<Rightarrow> (Some x, db'))"

section \<open>Constraints of the schema\<close>

definition has_model :: "tables \<Rightarrow> int \<Rightarrow> bool" where
  "has_model t i = (i \<in> set (map mr_id (t_models t)))"

definition has_source :: "tables \<Rightarrow> int \<Rightarrow> bool" where
  "has_source t i = (i \<in> set (map fst (t_sources t)))"

definition same_price_key :: "int \<Rightarrow> int \<Rightarrow> price_row \<Rightarrow> bool" where
  "same_price_key m s p = (pr_model_id p = m \<and> pr_source_id p = s)"

definition current_rows :: "tables \<Rightarrow> int \<Rightarrow> int \<Rightarrow> price_row list" where
  "current_rows t m s = filter (same_price_key m s) (t_prices t)"

section \<open>reconciler/store.go\<close>

definition pgx_LookupSourceID :: "string \<Rightarrow> int db" where
  "pgx_LookupSourceID name =
     select1 (\<lambda>t. map fst (filter (\<lambda>r. snd r = name) (t_sources t)))"

definition pgx_LookupSourceName :: "int \<Rightarrow> string db" where
  "pgx_LookupSourceName i =
     select1 (\<lambda>t. map snd (filter (\<lambda>r. fst r = i) (t_sources t)))"

definition pgx_LookupModelID :: "string \<Rightarrow> int db" where
  "pgx_LookupModelID slug =
     select1 (\<lambda>t. map mr_id (filter (\<lambda>r. mr_slug r = slug) (t_models t)))"

definition pgx_LookupModelProvider :: "int \<Rightarrow> string db" where
  "pgx_LookupModelProvider i =
     select1 (\<lambda>t. map mr_provider (filter (\<lambda>r. mr_id r = i) (t_models t)))"

text \<open>A missing row is no error here: it is \<open>(0, 0, false)\<close>.\<close>

definition pgx_LookupCurrentPrice :: "int \<Rightarrow> int \<Rightarrow> (f64 \<times> f64 \<times> bool) db" where
  "pgx_LookupCurrentPrice modelID sourceID db =
     (case select1 (\<lambda>t. map (\<lambda>p. (pr_input p, pr_output p)) (current_rows t modelID sourceID)) db
      of (Inl DbNoRows, db') \<Rightarrow> (Inr (Fin 0, Fin 0, False), db')
       | (Inl e, db') \<Rightarrow> (Inl e, db')
       | (Inr (i, out), db') \<Rightarrow> (Inr (i, out, True), db'))"

definition insert_history :: "history_row \<Rightarrow> tables \<Rightarrow> db_error + (int \<times> tables)" where
  "insert_history h t =
     (if \<not> has_model t (hr_model_id h) \<or> \<not> has_source t (hr_source_id h) then Inl DbConstraint
      else if \<exists>g \<in> set (t_history t).
             hr_model_id g = hr_model_id h \<and> hr_source_id g = hr_source_id h \<and>
             hr_confirmed_at g = hr_confirmed_at h \<and> hr_recorded_at g = hr_recorded_at h
      then Inr (0, t)
      else Inr (1, t\<lparr> t_history := t_history t @ [h] \<rparr>))"

text \<open>
  \<open>INSERT INTO prices ... ON CONFLICT (model_id, source_id) DO UPDATE\<close>: the new row of the
  insert, or the assignments of the update on the row in conflict.
\<close>

definition upsert_price ::
  "price_row \<Rightarrow> (price_row \<Rightarrow> price_row) \<Rightarrow> tables \<Rightarrow> db_error + (unit \<times> tables)" where
  "upsert_price new upd t =
     (let m = pr_model_id new; s = pr_source_id new in
      if \<not> has_model t m \<or> \<not> has_source t s then Inl DbConstraint
      else if current_rows t m s = []
      then Inr ((), t\<lparr> t_prices := t_prices t @ [new\<lparr> pr_id := t_price_serial t \<rparr>],
                       t_price_serial := t_price_serial t + 1 \<rparr>)
      else Inr ((), t\<lparr> t_prices :=
                         map (\<lambda>p. if same_price_key m s p then upd p else p) (t_prices t),
                       t_price_serial := t_price_serial t + 1 \<rparr>))"

definition publish_tx ::
  "int \<Rightarrow> int \<Rightarrow> f64 \<Rightarrow> f64 \<Rightarrow> confidence \<Rightarrow> string \<Rightarrow> instant \<Rightarrow> instant \<Rightarrow> unit db" where
  "publish_tx modelID sourceID i out conf underlyingProvider now begun =
     db_bind (stmt (insert_history
         \<lparr> hr_model_id = modelID, hr_input = i, hr_output = out, hr_source_id = sourceID,
           hr_confirmed_at = now, hr_recorded_at = now,
           hr_underlying = Some underlyingProvider \<rparr>))
     (\<lambda>_. stmt (upsert_price
         \<lparr> pr_id = 0, pr_model_id = modelID, pr_input = i, pr_output = out,
           pr_source_id = sourceID, pr_confirmed_at = now, pr_confidence = conf,
           pr_created_at = begun, pr_underlying = Some underlyingProvider,
           pr_last_verified_at = Some now \<rparr>
         (\<lambda>p. p\<lparr> pr_input := i, pr_output := out, pr_confirmed_at := now,
                 pr_confidence := conf, pr_underlying := Some underlyingProvider,
                 pr_last_verified_at := Some now \<rparr>)))"

definition pgx_PublishPrice ::
  "int \<Rightarrow> int \<Rightarrow> f64 \<Rightarrow> f64 \<Rightarrow> confidence \<Rightarrow> string \<Rightarrow> unit db" where
  "pgx_PublishPrice modelID sourceID input output conf underlyingProvider db =
     db_bind db_time (\<lambda>now.
       transaction (publish_tx modelID sourceID (pg_numeric db 10 input)
         (pg_numeric db 10 output) conf underlyingProvider now)) db"

definition insert_review :: "review_row \<Rightarrow> tables \<Rightarrow> db_error + (unit \<times> tables)" where
  "insert_review q t =
     (if \<not> has_model t (rq_model_id q) \<or> \<not> has_source t (rq_source_a q) \<or>
         \<not> has_source t (rq_source_b q) \<or>
         rq_field q \<notin> {PriceFieldInput, PriceFieldOutput} then Inl DbConstraint
      else if \<exists>g \<in> set (t_review t). rq_status g = ReviewStatusPending \<and>
                rq_model_id g = rq_model_id q \<and> rq_field g = rq_field q
      then Inr ((), t\<lparr> t_review_serial := t_review_serial t + 1 \<rparr>)
      else Inr ((), t\<lparr> t_review := t_review t @ [q\<lparr> rq_id := t_review_serial t \<rparr>],
                       t_review_serial := t_review_serial t + 1 \<rparr>))"

definition pgx_FlagDiscrepancy ::
  "int \<Rightarrow> int \<Rightarrow> int \<Rightarrow> price_field \<Rightarrow> f64 \<Rightarrow> f64 \<Rightarrow> f64 \<Rightarrow> unit db" where
  "pgx_FlagDiscrepancy modelID sourceAID sourceBID field valueA valueB deltaPct db =
     stmt (insert_review
       \<lparr> rq_id = 0, rq_model_id = modelID, rq_source_a = sourceAID, rq_source_b = sourceBID,
         rq_field = field, rq_value_a = pg_numeric db 10 valueA,
         rq_value_b = pg_numeric db 10 valueB,
         rq_delta_pct = pg_numeric db 4 (f64_abs deltaPct), rq_status = ReviewStatusPending,
         rq_created_at = pg_now db (pg_count db), rq_resolved_at = None \<rparr>) db"

definition pgx_ListActiveWebhooks :: "WebhookRow list db" where
  "pgx_ListActiveWebhooks =
     select (\<lambda>t. map hk_row (filter (\<lambda>h. hk_deleted_at h = None) (t_webhooks t)))"

definition pgx_ops :: "pg store_ops" where
  "pgx_ops = \<lparr>
     LookupSourceID = (\<lambda>n. to_go (pgx_LookupSourceID n)),
     LookupSourceName = (\<lambda>i. to_go (pgx_LookupSourceName i)),
     LookupModelID = (\<lambda>s. to_go (pgx_LookupModelID s)),
     LookupModelProvider = (\<lambda>i. to_go (pgx_LookupModelProvider i)),
     LookupCurrentPrice = (\<lambda>m s. to_go (pgx_LookupCurrentPrice m s)),
     PublishPrice = (\<lambda>m s i out c u. to_go (pgx_PublishPrice m s i out c u)),
     FlagDiscrepancy = (\<lambda>m a b f va vb d. to_go (pgx_FlagDiscrepancy m a b f va vb d)),
     ListActiveWebhooks = to_go pgx_ListActiveWebhooks \<rparr>"

section \<open>The tables keep the contract of the reconciler\<close>

definition pg_frame :: "pg \<Rightarrow> pg \<Rightarrow> bool" where
  "pg_frame db db' \<longleftrightarrow> pg_fault db' = pg_fault db \<and> pg_now db' = pg_now db \<and>
     pg_numeric db' = pg_numeric db \<and> pg_uuid db' = pg_uuid db \<and> pg_count db \<le> pg_count db'"

definition pg_same :: "pg \<Rightarrow> pg \<Rightarrow> bool" where
  "pg_same db db' \<longleftrightarrow> pg_tables db' = pg_tables db \<and> pg_frame db db'"

definition price_of :: "pg \<Rightarrow> price_key \<rightharpoonup> f64 \<times> f64 \<times> confidence" where
  "price_of db = (\<lambda>(m, s). case current_rows (pg_tables db) m s of
     [] \<Rightarrow> None | p # _ \<Rightarrow> Some (pr_input p, pr_output p, pr_confidence p))"

definition history_of :: "pg \<Rightarrow> (price_key \<times> f64 \<times> f64) list" where
  "history_of db = map (\<lambda>h. ((hr_model_id h, hr_source_id h), hr_input h, hr_output h))
     (t_history (pg_tables db))"

definition flags_of :: "pg \<Rightarrow> (int \<times> price_field) list" where
  "flags_of db = map (\<lambda>q. (rq_model_id q, rq_field q))
     (filter (\<lambda>q. rq_status q = ReviewStatusPending) (t_review (pg_tables db)))"

text \<open>
  The clock moves on between two readings and is ahead of every recorded history row; the
  price columns read back as \<open>col\<close> says.
\<close>

definition pg_valid :: "(f64 \<Rightarrow> f64) \<Rightarrow> pg \<Rightarrow> bool" where
  "pg_valid col db \<longleftrightarrow> strict_mono (pg_now db) \<and> pg_numeric db 10 = col \<and>
     (\<forall>h \<in> set (t_history (pg_tables db)). hr_recorded_at h < pg_now db (pg_count db))"

lemma pg_frame_refl [simp]: "pg_frame db db"
  by (simp add: pg_frame_def)

lemma pg_frame_trans: "pg_frame a b \<Longrightarrow> pg_frame b c \<Longrightarrow> pg_frame a c"
  by (simp add: pg_frame_def)

lemma pg_tick_frame [simp]:
  "pg_frame db (pg_tick db)" "pg_tables (pg_tick db) = pg_tables db"
  "pg_frame db (db\<lparr>pg_tables := t\<rparr>)" "pg_frame db (db'\<lparr>pg_tables := t\<rparr>) = pg_frame db db'"
  by (simp_all add: pg_frame_def pg_tick_def)

lemma pg_same_view:
  assumes "pg_same db db'"
  shows "price_of db' = price_of db \<and> history_of db' = history_of db \<and>
    flags_of db' = flags_of db \<and> (pg_valid col db \<longrightarrow> pg_valid col db')"
proof -
  have "pg_valid col db'" if "pg_valid col db"
    unfolding pg_valid_def
  proof (intro conjI ballI)
    have "pg_now db (pg_count db) \<le> pg_now db (pg_count db')"
      using assms that by (auto simp: pg_same_def pg_frame_def pg_valid_def
          intro: strict_mono_leD)
    then show "hr_recorded_at h < pg_now db' (pg_count db')"
      if "h \<in> set (t_history (pg_tables db'))" for h
      using assms that \<open>pg_valid col db\<close>
      by (fastforce simp: pg_same_def pg_frame_def pg_valid_def)
  qed (use assms that in \<open>auto simp: pg_same_def pg_frame_def pg_valid_def\<close>)
  then show ?thesis
    using assms by (auto simp: pg_same_def price_of_def history_of_def flags_of_def)
qed

lemma pg_sameI: "pg_tables db' = pg_tables db \<Longrightarrow> pg_frame db db' \<Longrightarrow> pg_same db db'"
  by (simp add: pg_same_def)

lemma select_same: "pg_same db (snd (select q db))"
  by (auto simp: select_def stmt_def pg_same_def)

lemma select1_same: "pg_same db (snd (select1 q db))"
  by (auto simp: select1_def stmt_def pg_same_def split: sum.split)

lemma to_go_snd [simp]: "snd (to_go m db) = snd (m db)"
  by (auto simp: to_go_def split: prod.split sum.split)

lemma to_go_Some: "to_go m db = (Some x, db') \<longleftrightarrow> m db = (Inr x, db')"
  by (auto simp: to_go_def split: prod.split sum.split)

lemma to_go_None: "to_go m db = (None, db') \<longleftrightarrow> (\<exists>e. m db = (Inl e, db'))"
  by (auto simp: to_go_def split: prod.split sum.split)

lemma stmt_frame: "stmt f db = (r, db') \<Longrightarrow> pg_frame db db'"
  by (auto simp: stmt_def split: if_splits sum.splits)

lemma stmt_Inl: "stmt f db = (Inl e, db') \<Longrightarrow> pg_same db db'"
  by (auto simp: stmt_def pg_same_def split: if_splits sum.splits)

lemma stmt_Inr: "stmt f db = (Inr x, db') \<Longrightarrow>
    f (pg_tables db) = Inr (x, pg_tables db') \<and> pg_frame db db' \<and> pg_count db' = Suc (pg_count db)"
  by (auto simp: stmt_def pg_tick_def pg_frame_def split: if_splits sum.splits)

lemma lookup_current_same: "pg_same db (snd (pgx_LookupCurrentPrice m s db))"
proof -
  let ?q = "select1 (\<lambda>t. map (\<lambda>p. (pr_input p, pr_output p)) (current_rows t m s)) db"
  have "snd (pgx_LookupCurrentPrice m s db) = snd ?q"
    by (auto simp: pgx_LookupCurrentPrice_def split: prod.split sum.split db_error.split)
  then show ?thesis by (simp add: select1_same)
qed

lemma lookup_current_value:
  assumes "fst (to_go (pgx_LookupCurrentPrice m s) db) = Some (i, out, found)"
  shows "case price_of db (m, s) of
      None \<Rightarrow> (i, out, found) = (Fin 0, Fin 0, False)
    | Some (i', out', c) \<Rightarrow> (i, out, found) = (i', out', True)"
  using assms
  by (auto simp: to_go_def pgx_LookupCurrentPrice_def select1_def stmt_def first_row_def
      price_of_def split: prod.splits sum.splits if_splits list.splits db_error.splits)

text \<open>A transaction either commits its body's tables or leaves the old ones.\<close>

lemma transaction_Inl:
  assumes "transaction body db = (Inl e, db')"
    and "\<And>now d r d'. body now d = (r, d') \<Longrightarrow> pg_frame d d'"
  shows "pg_same db db'"
  using assms
  by (fastforce simp: transaction_def pg_same_def stmt_def pg_tick_def pg_frame_def
      split: prod.splits sum.splits if_splits)

lemma transaction_Inr:
  assumes "transaction body db = (Inr x, db')"
  obtains d1 d2 where "pg_same db d1" "body (pg_now db (pg_count db)) d1 = (Inr x, d2)"
    "pg_same d2 db'"
proof -
  obtain d1 where d1: "stmt (\<lambda>t. Inr ((), t)) db = (Inr (), d1)"
    and "\<exists>d2. body (pg_now db (pg_count db)) d1 = (Inr x, d2) \<and>
      stmt (\<lambda>t. Inr ((), t)) d2 = (Inr (), db')"
    using assms by (auto simp: transaction_def split: prod.splits sum.splits)
  then obtain d2 where d2: "body (pg_now db (pg_count db)) d1 = (Inr x, d2)"
    "stmt (\<lambda>t. Inr ((), t)) d2 = (Inr (), db')" by blast
  show thesis
    using that [OF _ d2(1)] stmt_Inr [OF d1] stmt_Inr [OF d2(2)] by (simp add: pg_same_def)
qed

lemma db_bind_Inr:
  "db_bind m f db = (Inr x, db') \<longleftrightarrow> (\<exists>y d. m db = (Inr y, d) \<and> f y d = (Inr x, db'))"
  by (auto simp: db_bind_def split: prod.splits sum.splits)

lemma db_bind_frame:
  assumes "\<And>r d. m db = (r, d) \<Longrightarrow> pg_frame db d"
    and "\<And>y d r d'. m db = (Inr y, d) \<Longrightarrow> f y d = (r, d') \<Longrightarrow> pg_frame d d'"
    and "db_bind m f db = (r, db')"
  shows "pg_frame db db'"
  using assms by (fastforce simp: db_bind_def split: prod.splits sum.splits
      intro: pg_frame_trans)

section \<open>Publishing\<close>

lemma price_of_upsert:
  assumes "upsert_price new upd (pg_tables db) = Inr (x, pg_tables db')"
    and "\<And>p. same_price_key (pr_model_id new) (pr_source_id new) p \<Longrightarrow>
        pr_input (upd p) = pr_input new \<and> pr_output (upd p) = pr_output new \<and>
        pr_confidence (upd p) = pr_confidence new"
    and "\<And>p. pr_model_id (upd p) = pr_model_id p \<and> pr_source_id (upd p) = pr_source_id p"
  shows "price_of db' = (price_of db)((pr_model_id new, pr_source_id new) \<mapsto>
    (pr_input new, pr_output new, pr_confidence new))"
proof
  fix k :: price_key
  obtain m s where k: "k = (m, s)" by (cases k)
  let ?M = "pr_model_id new" and ?S = "pr_source_id new"
  let ?u = "\<lambda>p. if same_price_key ?M ?S p then upd p else p"
  have key: "same_price_key m s (?u p) = same_price_key m s p" for p
    using assms(3) by (simp add: same_price_key_def)
  have fm: "filter (same_price_key m s) (map ?u ps) = map ?u (filter (same_price_key m s) ps)" for ps
    by (induction ps) (auto simp: same_price_key_def assms(3))
  have other: "map ?u (filter (same_price_key m s) ps) = filter (same_price_key m s) ps"
    if "(m, s) \<noteq> (?M, ?S)" for ps
    using that by (induction ps) (auto simp: same_price_key_def)
  show "price_of db' k = ((price_of db)((?M, ?S) \<mapsto>
      (pr_input new, pr_output new, pr_confidence new))) k"
  proof (cases "current_rows (pg_tables db) ?M ?S")
    case Nil
    then have t: "t_prices (pg_tables db') =
        t_prices (pg_tables db) @ [new\<lparr> pr_id := t_price_serial (pg_tables db) \<rparr>]"
      using assms(1) by (auto simp: upsert_price_def Let_def split: if_splits
          dest!: arg_cong [where f = t_prices])
    show ?thesis
      using Nil by (auto simp: k price_of_def current_rows_def t same_price_key_def
          split: list.split)
  next
    case (Cons p ps)
    then have t: "t_prices (pg_tables db') = map ?u (t_prices (pg_tables db))"
      using assms(1) by (auto simp: upsert_price_def Let_def split: if_splits
          dest!: arg_cong [where f = t_prices])
    have "p \<in> set (filter (same_price_key ?M ?S) (t_prices (pg_tables db)))"
      using Cons by (simp add: current_rows_def)
    then have "same_price_key ?M ?S p" by simp
    then show ?thesis
      using Cons assms(2) [of p] fm [of "t_prices (pg_tables db)"]
        other [of "t_prices (pg_tables db)"]
      by (auto simp: k price_of_def current_rows_def t)
  qed
qed

lemma upsert_price_frame:
  "upsert_price new upd t = Inr (x, t') \<Longrightarrow>
     t_history t' = t_history t \<and> t_review t' = t_review t \<and> t_models t' = t_models t \<and>
     t_sources t' = t_sources t \<and> t_webhooks t' = t_webhooks t"
  by (auto simp: upsert_price_def Let_def split: if_splits)

lemma insert_history_frame:
  "insert_history h t = Inr (x, t') \<Longrightarrow>
     t_prices t' = t_prices t \<and> t_review t' = t_review t \<and> t_models t' = t_models t \<and>
     t_sources t' = t_sources t \<and> t_webhooks t' = t_webhooks t"
  by (auto simp: insert_history_def split: if_splits)

text \<open>A history row followed by the price row, as every publisher writes them.\<close>

lemma history_then_price:
  assumes h: "stmt (insert_history h) d1 = (Inr x, d2)"
    and u: "stmt (upsert_price new upd) d2 = (Inr (), d3)"
    and fresh: "\<forall>g \<in> set (t_history (pg_tables d1)). hr_recorded_at g < hr_recorded_at h"
    and new: "pr_model_id new = hr_model_id h" "pr_source_id new = hr_source_id h"
      "pr_input new = hr_input h" "pr_output new = hr_output h"
    and upd: "\<And>p. pr_input (upd p) = hr_input h \<and> pr_output (upd p) = hr_output h \<and>
        pr_confidence (upd p) = pr_confidence new"
      "\<And>p. pr_model_id (upd p) = pr_model_id p \<and> pr_source_id (upd p) = pr_source_id p"
  shows "price_of d3 = (price_of d1)((hr_model_id h, hr_source_id h) \<mapsto>
        (hr_input h, hr_output h, pr_confidence new)) \<and>
    t_history (pg_tables d3) = t_history (pg_tables d1) @ [h] \<and>
    t_review (pg_tables d3) = t_review (pg_tables d1) \<and>
    t_review_serial (pg_tables d3) = t_review_serial (pg_tables d1) \<and> pg_frame d1 d3"
proof -
  note i2 = stmt_Inr [OF h] and i3 = stmt_Inr [OF u]
  have t2: "pg_tables d2 = (pg_tables d1)\<lparr> t_history := t_history (pg_tables d1) @ [h] \<rparr>"
    using i2 fresh by (auto simp: insert_history_def split: if_splits)
  have "price_of d3 = (price_of d2)((hr_model_id h, hr_source_id h) \<mapsto>
      (hr_input h, hr_output h, pr_confidence new))"
    using price_of_upsert [of new upd d2 "()" d3] i3 new upd by simp
  moreover have "price_of d2 = price_of d1" by (simp add: price_of_def t2 current_rows_def)
  moreover have "t_history (pg_tables d3) = t_history (pg_tables d2) \<and>
      t_review (pg_tables d3) = t_review (pg_tables d2)"
    using i3 upsert_price_frame by blast
  moreover have "t_review_serial (pg_tables d3) = t_review_serial (pg_tables d2)"
    using i3 by (auto simp: upsert_price_def Let_def split: if_splits dest!: arg_cong [where f = t_review_serial])
  ultimately show ?thesis using t2 i2 i3 by (auto intro: pg_frame_trans)
qed


lemma pgx_PublishPrice_ok:
  assumes valid: "pg_valid col db"
    and pub: "pgx_PublishPrice m s i out c u db = (Inr (), db')"
  shows "price_of db' = apply_write col (price_of db) ((m, s), i, out, c)"
    and "history_of db' = history_of db @ [history_entry col ((m, s), i, out, c)]"
    and "flags_of db' = flags_of db"
    and "pg_valid col db'"
    and "t_review (pg_tables db') = t_review (pg_tables db)"
    and "t_review_serial (pg_tables db') = t_review_serial (pg_tables db)"
proof -
  let ?now = "pg_now db (pg_count db)"
  define h where "h = \<lparr> hr_model_id = m, hr_input = col i, hr_output = col out, hr_source_id = s,
    hr_confirmed_at = ?now, hr_recorded_at = ?now, hr_underlying = Some u \<rparr>"
  have hist: "hr_model_id h = m" "hr_source_id h = s" "hr_input h = col i"
    "hr_output h = col out" "hr_recorded_at h = ?now"
    by (simp_all add: h_def)
  have col: "pg_numeric db 10 = col" using valid by (simp add: pg_valid_def)
  obtain d1 d2 d3 new upd where d:
    "pg_same (pg_tick db) d1" "stmt (insert_history h) d1 = (Inr d3, d2)" and
    up: "\<exists>d4. stmt (upsert_price new upd) d2 = (Inr (), d4) \<and> pg_same d4 db'" and
    new: "pr_model_id new = m" "pr_source_id new = s" "pr_input new = col i"
      "pr_output new = col out" "pr_confidence new = c" and
    upd: "\<And>p. pr_input (upd p) = col i \<and> pr_output (upd p) = col out \<and> pr_confidence (upd p) = c"
      "\<And>p. pr_model_id (upd p) = pr_model_id p \<and> pr_source_id (upd p) = pr_source_id p"
    using pub unfolding pgx_PublishPrice_def col
    by (auto simp: db_bind_Inr db_time_def h_def publish_tx_def elim!: transaction_Inr) (fastforce simp: pg_tick_def)
  obtain d4 where d4: "stmt (upsert_price new upd) d2 = (Inr (), d4)" "pg_same d4 db'"
    using up by blast
  have tb: "pg_tables d1 = pg_tables db" "pg_tables db' = pg_tables d4"
    using d(1) d4(2) by (simp_all add: pg_same_def)
  have fresh: "\<forall>g \<in> set (t_history (pg_tables db)). hr_recorded_at g < ?now"
    using valid by (simp add: pg_valid_def)
  have w: "price_of d4 = (price_of d1)((m, s) \<mapsto> (col i, col out, c)) \<and>
    t_history (pg_tables d4) = t_history (pg_tables db) @ [h] \<and>
    t_review (pg_tables d4) = t_review (pg_tables db) \<and>
    t_review_serial (pg_tables d4) = t_review_serial (pg_tables db) \<and> pg_frame d1 d4"
    using history_then_price [OF d(2) d4(1)] fresh new upd hist tb(1) by simp
  show "price_of db' = apply_write col (price_of db) ((m, s), i, out, c)"
  proof -
    have "price_of db' = price_of d4" "price_of d1 = price_of db" by (simp_all add: price_of_def tb)
    then show ?thesis using w by (simp add: apply_write_def)
  qed
  show "history_of db' = history_of db @ [history_entry col ((m, s), i, out, c)]"
    "flags_of db' = flags_of db" "t_review (pg_tables db') = t_review (pg_tables db)"
    "t_review_serial (pg_tables db') = t_review_serial (pg_tables db)"
    using w by (simp_all add: history_of_def flags_of_def tb(2) hist history_entry_def)
  have fr: "pg_frame (pg_tick db) db'"
    using d(1) w d4(2) by (meson pg_same_def pg_frame_trans)
  then have now: "?now < pg_now db' (pg_count db')" "pg_now db' = pg_now db"
    "pg_numeric db' = pg_numeric db"
    using valid by (auto simp: pg_frame_def pg_tick_def pg_valid_def strict_mono_def)
  show "pg_valid col db'"
    using valid fresh now w unfolding pg_valid_def by (auto simp: tb(2) hist)
qed

lemma publish_tx_frame: "publish_tx m s i out c u now begun d = (r, d') \<Longrightarrow> pg_frame d d'"
  unfolding publish_tx_def by (erule db_bind_frame [rotated 2]) (auto dest: stmt_frame)

lemma pgx_PublishPrice_err:
  assumes "pgx_PublishPrice m s i out c u db = (Inl e, db')"
  shows "pg_same db db'"
proof -
  have "transaction (publish_tx m s (pg_numeric db 10 i) (pg_numeric db 10 out) c u
      (pg_now db (pg_count db))) (pg_tick db) = (Inl e, db')"
    using assms by (simp add: pgx_PublishPrice_def db_bind_def db_time_def)
  then have "pg_same (pg_tick db) db'"
    by (rule transaction_Inl) (rule publish_tx_frame)
  then show ?thesis using pg_frame_trans [of db "pg_tick db" db'] by (simp add: pg_same_def)
qed

lemma pgx_FlagDiscrepancy_frame:
  assumes "pgx_FlagDiscrepancy m a b f va vb d db = (r, db')"
  shows "price_of db' = price_of db \<and> history_of db' = history_of db \<and>
    (pg_valid col db \<longrightarrow> pg_valid col db')"
proof -
  have fr: "pg_frame db db'"
    using assms unfolding pgx_FlagDiscrepancy_def by (rule stmt_frame)
  have t: "t_prices (pg_tables db') = t_prices (pg_tables db) \<and>
      t_history (pg_tables db') = t_history (pg_tables db)"
    using assms by (auto simp: pgx_FlagDiscrepancy_def stmt_def insert_review_def
        split: if_splits sum.splits)
  have "pg_valid col db'" if v: "pg_valid col db"
  proof -
    have "pg_now db (pg_count db) \<le> pg_now db (pg_count db')"
      using fr v by (auto simp: pg_frame_def pg_valid_def intro: strict_mono_leD)
    then show ?thesis using v fr t by (fastforce simp: pg_valid_def pg_frame_def)
  qed
  then show ?thesis using t by (simp add: price_of_def history_of_def current_rows_def)
qed

interpretation pg: price_store pgx_ops "pg_valid col" col price_of history_of flags_of pg_same
  for col
proof
  fix db db' :: pg and name and m src :: int and i out c u f a b va vb d x found
    and res :: "unit option"
  show "pg_same db db' \<Longrightarrow> price_of db' = price_of db \<and> history_of db' = history_of db \<and>
      flags_of db' = flags_of db \<and> (pg_valid col db \<longrightarrow> pg_valid col db')"
    by (rule pg_same_view)
  show "pg_same db (snd (LookupSourceID pgx_ops name db))"
    "pg_same db (snd (LookupSourceName pgx_ops src db))"
    "pg_same db (snd (LookupModelID pgx_ops name db))"
    "pg_same db (snd (LookupModelProvider pgx_ops m db))"
    "pg_same db (snd (LookupCurrentPrice pgx_ops m src db))"
    "pg_same db (snd (ListActiveWebhooks pgx_ops db))"
    by (simp_all add: pgx_ops_def pgx_LookupSourceID_def pgx_LookupSourceName_def
        pgx_LookupModelID_def pgx_LookupModelProvider_def pgx_ListActiveWebhooks_def
        select1_same select_same lookup_current_same)
  show "fst (LookupCurrentPrice pgx_ops m src db) = Some (i, out, found) \<Longrightarrow>
      (case price_of db (m, src) of
         None \<Rightarrow> (i, out, found) = (Fin 0, Fin 0, False)
       | Some (i', out', c) \<Rightarrow> (i, out, found) = (i', out', True))"
    by (simp add: pgx_ops_def lookup_current_value)
  show "pg_valid col db \<Longrightarrow> PublishPrice pgx_ops m src i out c u db = (Some x, db') \<Longrightarrow>
      price_of db' = apply_write col (price_of db) ((m, src), i, out, c) \<and>
      history_of db' = history_of db @ [history_entry col ((m, src), i, out, c)] \<and>
      flags_of db' = flags_of db \<and> pg_valid col db'"
    using pgx_PublishPrice_ok [of col db m src i out c u db']
    by (simp add: pgx_ops_def to_go_Some)
  show "PublishPrice pgx_ops m src i out c u db = (None, db') \<Longrightarrow> pg_same db db'"
    using pgx_PublishPrice_err by (auto simp: pgx_ops_def to_go_None)
  show "FlagDiscrepancy pgx_ops m a b f va vb d db = (res, db') \<Longrightarrow>
      price_of db' = price_of db \<and> history_of db' = history_of db \<and>
      (pg_valid col db \<longrightarrow> pg_valid col db')"
    using pgx_FlagDiscrepancy_frame
    by (cases res) (auto simp: pgx_ops_def to_go_None to_go_Some)
qed

end
