(* ===== verification/Signup_Store.thy ===== *)
theory Signup_Store
  imports Price_Tables Go_Codec
begin

text \<open>
  The store of the signup flow, \<open>internal/signup/store.go\<close>, on the tables of migration 12:
  identities by e-mail, one-time tokens by hash, and the registry of issued keys, with their
  constraints. The row lock that \<open>ConsumeToken\<close> takes makes it one step of the tables. A UUID is
  its text; \<open>NOW()\<close> is the instant of the statement, or of the transaction it is in.
\<close>

section \<open>Rows\<close>

record Identity =
  idn_ID :: string
  idn_Email :: string
  idn_EmailVerifiedAt :: "instant option"
  idn_IPHash :: string
  idn_UAHash :: string
  idn_CreatedAt :: instant
  idn_UpdatedAt :: instant

record MagicLinkToken =
  mlt_ID :: string
  mlt_IdentityID :: string
  mlt_TokenHash :: string
  mlt_ExpiresAt :: instant
  mlt_UsedAt :: "instant option"
  mlt_CreatedAt :: instant

record KeyRecord =
  kr_ID :: string
  kr_IdentityID :: string
  kr_ProviderKeyID :: string
  kr_Status :: string
  kr_CreatedAt :: instant
  kr_RevokedAt :: "instant option"

definition nullStr :: "string \<Rightarrow> string option" where
  "nullStr s = (if s = [] then None else Some s)"

definition or_empty :: "string option \<Rightarrow> string" where
  "or_empty s = (case s of None \<Rightarrow> [] | Some x \<Rightarrow> x)"

definition scanIdentity :: "identity_row \<Rightarrow> Identity" where
  "scanIdentity r = \<lparr> idn_ID = id_id r, idn_Email = id_email r,
     idn_EmailVerifiedAt = id_email_verified_at r, idn_IPHash = or_empty (id_ip_hash r),
     idn_UAHash = or_empty (id_ua_hash r), idn_CreatedAt = id_created_at r,
     idn_UpdatedAt = id_updated_at r \<rparr>"

definition scanToken :: "token_row \<Rightarrow> MagicLinkToken" where
  "scanToken r = \<lparr> mlt_ID = tk_id r, mlt_IdentityID = tk_identity_id r,
     mlt_TokenHash = tk_token_hash r, mlt_ExpiresAt = tk_expires_at r, mlt_UsedAt = tk_used_at r,
     mlt_CreatedAt = tk_created_at r \<rparr>"

definition scanKey :: "key_row \<Rightarrow> KeyRecord" where
  "scanKey r = \<lparr> kr_ID = ky_id r, kr_IdentityID = ky_identity_id r,
     kr_ProviderKeyID = ky_provider_key_id r, kr_Status = ky_status r,
     kr_CreatedAt = ky_created_at r, kr_RevokedAt = ky_revoked_at r \<rparr>"

definition normalizeEmail :: "string \<Rightarrow> string" where
  "normalizeEmail email = to_lower (trim_space email)"

definition HashToken :: "string \<Rightarrow> string" where
  "HashToken raw = hex_encode (sha256 raw)"

section \<open>Constraints\<close>

definition btrim :: "string \<Rightarrow> string" where
  "btrim s = trim_right_func (\<lambda>c. c = CHR '' '') (trim_left_func (\<lambda>c. c = CHR '' '') s)"

definition email_check :: "string \<Rightarrow> bool" where
  "email_check e = (e = to_lower (btrim e) \<and> btrim e \<noteq> [])"

definition one_active_index :: string where
  "one_active_index = ''idx_api_keys_registry_one_active_per_identity''"

definition isPgDuplicateActiveKey :: "db_error \<Rightarrow> bool" where
  "isPgDuplicateActiveKey e = (e = DbUnique one_active_index)"

definition has_identity :: "tables \<Rightarrow> string \<Rightarrow> bool" where
  "has_identity t i = (i \<in> set (map id_id (t_identities t)))"

definition is_active :: "string \<Rightarrow> key_row \<Rightarrow> bool" where
  "is_active identityID k = (ky_identity_id k = identityID \<and> ky_status k = ''active'')"

section \<open>Identities\<close>

definition upsert_identity :: "identity_row \<Rightarrow> instant \<Rightarrow> tables \<Rightarrow> db_error + (identity_row \<times> tables)" where
  "upsert_identity new now t =
     (if \<not> email_check (id_email new) then Inl DbConstraint
      else case filter (\<lambda>r. id_email r = id_email new) (t_identities t) of
             r # _ \<Rightarrow> Inr (r\<lparr> id_updated_at := now \<rparr>,
               t\<lparr> t_identities := map (\<lambda>x. if id_email x = id_email new then x\<lparr> id_updated_at := now \<rparr> else x)
                    (t_identities t) \<rparr>)
           | [] \<Rightarrow>
               if has_identity t (id_id new) then Inl (DbUnique ''api_identities_pkey'')
               else Inr (new, t\<lparr> t_identities := t_identities t @ [new] \<rparr>))"

definition UpsertIdentity :: "string \<Rightarrow> string \<Rightarrow> string \<Rightarrow> Identity db" where
  "UpsertIdentity email ipHash uaHash db =
     (let email = normalizeEmail email; now = pg_now db (pg_count db) in
      if email = [] then (Inl ErrEmpty, db)
      else db_bind (stmt (upsert_identity
             \<lparr> id_id = pg_uuid db (pg_count db), id_email = email, id_email_verified_at = None,
               id_ip_hash = nullStr ipHash, id_ua_hash = nullStr uaHash,
               id_created_at = now, id_updated_at = now \<rparr> now))
           (\<lambda>r. db_return (scanIdentity r)) db)"

definition GetIdentityByEmail :: "string \<Rightarrow> Identity db" where
  "GetIdentityByEmail email =
     db_on_no_rows (db_throw ErrNotFound)
       (select1 (\<lambda>t. map scanIdentity
          (filter (\<lambda>r. id_email r = normalizeEmail email) (t_identities t))))"

definition GetIdentityByID :: "string \<Rightarrow> Identity db" where
  "GetIdentityByID i =
     db_on_no_rows (db_throw ErrNotFound)
       (select1 (\<lambda>t. map scanIdentity (filter (\<lambda>r. id_id r = i) (t_identities t))))"

definition verify_email :: "string \<Rightarrow> instant \<Rightarrow> tables \<Rightarrow> db_error + (nat \<times> tables)" where
  "verify_email i now t =
     Inr (length (filter (\<lambda>r. id_id r = i) (t_identities t)),
          t\<lparr> t_identities := map (\<lambda>r. if id_id r = i
             then r\<lparr> id_email_verified_at := (case id_email_verified_at r of None \<Rightarrow> Some now | Some v \<Rightarrow> Some v),
                     id_updated_at := now \<rparr>
             else r) (t_identities t) \<rparr>)"

definition MarkEmailVerified :: "string \<Rightarrow> unit db" where
  "MarkEmailVerified identityID db =
     db_bind (stmt (verify_email identityID (pg_now db (pg_count db))))
       (\<lambda>affected. if affected = 0 then db_throw ErrNotFound else db_return ()) db"

section \<open>Tokens\<close>

definition insert_token :: "token_row \<Rightarrow> tables \<Rightarrow> db_error + (token_row \<times> tables)" where
  "insert_token new t =
     (if btrim (tk_token_hash new) = [] then Inl DbConstraint
      else if tk_id new \<in> set (map tk_id (t_tokens t)) then Inl (DbUnique ''magic_link_tokens_pkey'')
      else if tk_token_hash new \<in> set (map tk_token_hash (t_tokens t))
      then Inl (DbUnique ''magic_link_tokens_hash_unique'')
      else if \<not> has_identity t (tk_identity_id new) then Inl DbConstraint
      else Inr (new, t\<lparr> t_tokens := t_tokens t @ [new] \<rparr>))"

definition InsertToken :: "string \<Rightarrow> string \<Rightarrow> instant \<Rightarrow> MagicLinkToken db" where
  "InsertToken identityID tokenHash expiresAt db =
     (if tokenHash = [] then (Inl ErrEmpty, db)
      else db_bind (stmt (insert_token
             \<lparr> tk_id = pg_uuid db (pg_count db), tk_identity_id = identityID,
               tk_token_hash = tokenHash, tk_expires_at = expiresAt, tk_used_at = None,
               tk_created_at = pg_now db (pg_count db) \<rparr>))
           (\<lambda>r. db_return (scanToken r)) db)"

text \<open>
  The \<open>UPDATE ... RETURNING used_at\<close> of \<open>ConsumeToken\<close>; no row updated is \<open>pgx.ErrNoRows\<close>.
\<close>

definition usable :: "string \<Rightarrow> instant \<Rightarrow> token_row \<Rightarrow> bool" where
  "usable i now r = (tk_id r = i \<and> tk_used_at r = None \<and> now < tk_expires_at r)"

definition mark_used :: "string \<Rightarrow> instant \<Rightarrow> tables \<Rightarrow> db_error + (instant \<times> tables)" where
  "mark_used i now t =
     (if filter (usable i now) (t_tokens t) = [] then Inl DbNoRows
      else Inr (now, t\<lparr> t_tokens :=
             map (\<lambda>r. if usable i now r then r\<lparr> tk_used_at := Some now \<rparr> else r) (t_tokens t) \<rparr>))"

definition disambiguate :: "string \<Rightarrow> 'a db" where
  "disambiguate i =
     db_bind (db_on_no_rows (db_throw ErrNotFound)
       (select1 (\<lambda>t. map (\<lambda>r. (tk_used_at r, tk_expires_at r))
          (filter (\<lambda>r. tk_id r = i) (t_tokens t)))))
     (\<lambda>(usedAt, _). db_throw (if usedAt \<noteq> None then ErrTokenConsumed else ErrTokenExpired))"

definition consume_tx :: "string \<Rightarrow> instant \<Rightarrow> MagicLinkToken db" where
  "consume_tx tokenHash begun =
     db_bind (db_on_no_rows (db_throw ErrNotFound)
       (at_clock (\<lambda>now. select1 (\<lambda>t. map (\<lambda>r. (r, now))
          (filter (\<lambda>r. tk_token_hash r = tokenHash) (t_tokens t))))))
     (\<lambda>(r, serverNow).
       if tk_used_at r \<noteq> None then db_throw ErrTokenConsumed
       else if \<not> serverNow < tk_expires_at r then db_throw ErrTokenExpired
       else db_bind (db_on_no_rows (disambiguate (tk_id r))
              (at_clock (\<lambda>now. stmt (mark_used (tk_id r) now))))
            (\<lambda>usedAt. db_return ((scanToken r)\<lparr> mlt_UsedAt := Some usedAt \<rparr>)))"

definition ConsumeToken :: "string \<Rightarrow> MagicLinkToken db" where
  "ConsumeToken tokenHash =
     (if tokenHash = [] then db_throw ErrNotFound else transaction (consume_tx tokenHash))"

definition prune_tokens :: "instant \<Rightarrow> tables \<Rightarrow> db_error + (nat \<times> tables)" where
  "prune_tokens now t =
     (let dead = (\<lambda>r. tk_expires_at r \<le> now \<and> tk_used_at r = None)
      in Inr (length (filter dead (t_tokens t)),
              t\<lparr> t_tokens := filter (\<lambda>r. \<not> dead r) (t_tokens t) \<rparr>))"

definition DeleteExpiredTokens :: "nat db" where
  "DeleteExpiredTokens db = stmt (prune_tokens (pg_now db (pg_count db))) db"

section \<open>Key registry\<close>

definition GetActiveKey :: "string \<Rightarrow> KeyRecord db" where
  "GetActiveKey identityID =
     db_on_no_rows (db_throw ErrNotFound)
       (select1 (\<lambda>t. map scanKey (filter (is_active identityID) (t_keys t))))"

definition insert_key :: "key_row \<Rightarrow> tables \<Rightarrow> db_error + (key_row \<times> tables)" where
  "insert_key new t =
     (if btrim (ky_provider_key_id new) = [] then Inl DbConstraint
      else if ky_id new \<in> set (map ky_id (t_keys t)) then Inl (DbUnique ''api_keys_registry_pkey'')
      else if ky_provider_key_id new \<in> set (map ky_provider_key_id (t_keys t))
      then Inl (DbUnique ''api_keys_registry_provider_key_unique'')
      else if filter (is_active (ky_identity_id new)) (t_keys t) \<noteq> []
      then Inl (DbUnique one_active_index)
      else if \<not> has_identity t (ky_identity_id new) then Inl DbConstraint
      else Inr (new, t\<lparr> t_keys := t_keys t @ [new] \<rparr>))"

text \<open>The insert with the defaults of the columns, and its error as the callers report it.\<close>

definition add_key :: "string \<Rightarrow> string \<Rightarrow> instant \<Rightarrow> KeyRecord db" where
  "add_key identityID providerKeyID now db =
     db_map_error (\<lambda>e. if isPgDuplicateActiveKey e then ErrDuplicateActiveKey else e)
       (db_bind (stmt (insert_key
          \<lparr> ky_id = pg_uuid db (pg_count db), ky_identity_id = identityID,
            ky_provider_key_id = providerKeyID, ky_status = ''active'', ky_created_at = now,
            ky_revoked_at = None \<rparr>))
        (\<lambda>r. db_return (scanKey r))) db"

definition InsertKey :: "string \<Rightarrow> string \<Rightarrow> KeyRecord db" where
  "InsertKey identityID providerKeyID =
     (let providerKeyID = trim_space providerKeyID in
      if providerKeyID = [] then db_throw ErrEmpty
      else at_clock (add_key identityID providerKeyID))"

definition revoke_key :: "string \<Rightarrow> string \<Rightarrow> instant \<Rightarrow> tables \<Rightarrow> db_error + (nat \<times> tables)" where
  "revoke_key identityID providerKeyID now t =
     (let hit = (\<lambda>k. is_active identityID k \<and> ky_provider_key_id k = providerKeyID)
      in Inr (length (filter hit (t_keys t)),
              t\<lparr> t_keys := map (\<lambda>k. if hit k then k\<lparr> ky_status := ''revoked'', ky_revoked_at := Some now \<rparr>
                               else k) (t_keys t) \<rparr>))"

definition RevokeKey :: "string \<Rightarrow> string \<Rightarrow> unit db" where
  "RevokeKey identityID providerKeyID db =
     (let providerKeyID = trim_space providerKeyID in
      if providerKeyID = [] then (Inl ErrEmpty, db)
      else db_bind (stmt (revoke_key identityID providerKeyID (pg_now db (pg_count db))))
             (\<lambda>affected. if affected = 0 then db_throw ErrNotFound else db_return ()) db)"

definition replace_tx :: "string \<Rightarrow> string \<Rightarrow> string \<Rightarrow> instant \<Rightarrow> KeyRecord db" where
  "replace_tx identityID oldProviderKeyID newProviderKeyID begun =
     db_bind (if oldProviderKeyID = [] then db_return 0
              else stmt (revoke_key identityID oldProviderKeyID begun))
       (\<lambda>_. add_key identityID newProviderKeyID begun)"

definition RevokeAndInsertKey :: "string \<Rightarrow> string \<Rightarrow> string \<Rightarrow> KeyRecord db" where
  "RevokeAndInsertKey identityID oldProviderKeyID newProviderKeyID =
     (let newProviderKeyID = trim_space newProviderKeyID in
      if newProviderKeyID = [] then db_throw ErrEmpty
      else transaction (replace_tx identityID oldProviderKeyID newProviderKeyID))"

end
