(* ===== verification/Session_Token.thy ===== *)
theory Session_Token
  imports Signup_Store Go_Json
begin

text \<open>
  The signed session cookie of \<open>internal/signup/token.go\<close>: base64url of the JSON payload, a dot,
  and the hex HMAC-SHA256 of the first part. \<open>Codec\<close> is the interface of \<open>json.go\<close>; its contract is
  the locale \<open>codec\<close>, and \<open>defaultCodec\<close>, over \<open>encoding/json\<close>, keeps it.
\<close>

section \<open>Payload and codec\<close>

record SessionPayload =
  sp_IdentityID :: string
  sp_Email :: string
  sp_IssuedAt :: int
  sp_ExpiresAt :: int

record 'p Codec =
  Marshal :: "'p \<Rightarrow> string option"
  Unmarshal :: "string \<Rightarrow> 'p option"

definition payload_json :: "SessionPayload \<Rightarrow> json" where
  "payload_json p = JObj [(''identity_id'', JStr (sp_IdentityID p)), (''email'', JStr (sp_Email p)),
     (''iat'', JNum (itoa (sp_IssuedAt p))), (''exp'', JNum (itoa (sp_ExpiresAt p)))]"

definition payload_of :: "(string \<times> json) list \<Rightarrow> SessionPayload option" where
  "payload_of ms =
     (case (str_field ''identity_id'' ms, str_field ''email'' ms, int_field ''iat'' ms, int_field ''exp'' ms) of
        (Some i, Some e, Some a, Some x) \<Rightarrow>
          Some \<lparr> sp_IdentityID = i, sp_Email = e, sp_IssuedAt = a, sp_ExpiresAt = x \<rparr>
      | _ \<Rightarrow> None)"

definition defaultCodec :: "SessionPayload Codec" where
  "defaultCodec = \<lparr> Marshal = (\<lambda>p. Some (json_print (payload_json p))),
     Unmarshal = (\<lambda>b. Option.bind (struct_members b) payload_of) \<rparr>"

definition encodePayload :: "'p Codec \<Rightarrow> 'p \<Rightarrow> string option" where
  "encodePayload codec p = map_option b64_encode (Marshal codec p)"

definition decodePayload :: "'p Codec \<Rightarrow> string \<Rightarrow> 'p option" where
  "decodePayload codec encoded = Option.bind (b64_decode encoded) (Unmarshal codec)"

section \<open>Signing and verifying\<close>

text \<open>\<open>lastDot\<close>: the loop counts down from the end of the string.\<close>

fun last_dot_below :: "nat \<Rightarrow> string \<Rightarrow> int" where
  "last_dot_below 0 s = - 1"
| "last_dot_below (Suc i) s = (if s ! i = CHR ''.'' then int i else last_dot_below i s)"

definition lastDot :: "string \<Rightarrow> int" where
  "lastDot s = last_dot_below (length s) s"

datatype session_error = EmptySecret | EncodeFailed | MalformedCookie | BadSignatureFormat
  | InvalidSignature | DecodeFailed | SessionExpired

definition SignSession :: "SessionPayload Codec \<Rightarrow> string \<Rightarrow> SessionPayload \<Rightarrow> session_error + string" where
  "SignSession codec secret p =
     (if secret = [] then Inl EmptySecret
      else case encodePayload codec p of
             None \<Rightarrow> Inl EncodeFailed
           | Some data \<Rightarrow> Inr (data @ ''.'' @ hex_encode (hmac_sha256 secret data)))"

text \<open>\<open>now\<close> is the reading of the clock that the last check makes, as Unix seconds.\<close>

definition VerifySession :: "SessionPayload Codec \<Rightarrow> string \<Rightarrow> string \<Rightarrow> int \<Rightarrow> session_error + SessionPayload" where
  "VerifySession codec secret cookieValue now =
     (if secret = [] then Inl EmptySecret
      else let dot = lastDot cookieValue in
      if dot < 0 then Inl MalformedCookie
      else let data = take (nat dot) cookieValue; sigHex = drop (nat dot + 1) cookieValue in
      case hex_decode sigHex of
        None \<Rightarrow> Inl BadSignatureFormat
      | Some sig \<Rightarrow>
          if length sig \<noteq> 32 then Inl BadSignatureFormat
          else if sig \<noteq> hmac_sha256 secret data then Inl InvalidSignature
          else case decodePayload codec data of
                 None \<Rightarrow> Inl DecodeFailed
               | Some p \<Rightarrow> if sp_ExpiresAt p \<le> now then Inl SessionExpired else Inr p)"

section \<open>The contract of a codec\<close>

locale codec =
  fixes c :: "SessionPayload Codec" and ok :: "SessionPayload \<Rightarrow> bool"
  assumes decode_encode: "ok p \<Longrightarrow> \<exists>b. Marshal c p = Some b \<and> Unmarshal c b = Some p"

lemma last_dot_split: "CHR ''.'' \<notin> set b \<Longrightarrow> lastDot (a @ ''.'' @ b) = int (length a)"
proof -
  assume b: "CHR ''.'' \<notin> set b"
  have "k \<le> length b \<Longrightarrow> last_dot_below (Suc (length a) + k) (a @ ''.'' @ b) = int (length a)" for k
  proof (induction k)
    case (Suc k)
    then have "(a @ ''.'' @ b) ! (Suc (length a) + k) = b ! k" by (simp add: nth_append)
    moreover have "b ! k \<noteq> CHR ''.''" using b Suc.prems by (metis Suc_le_lessD nth_mem)
    ultimately show ?case using Suc by simp
  qed (simp add: nth_append)
  from this [of "length b"] show ?thesis by (simp add: lastDot_def)
qed

lemma last_dot_bound: "lastDot s = int i \<Longrightarrow> i < length s \<and> s ! i = CHR ''.''"
proof -
  have "last_dot_below n s = int i \<Longrightarrow> i < n \<and> s ! i = CHR ''.''" for n
    by (induction n) (auto split: if_splits)
  then show "lastDot s = int i \<Longrightarrow> ?thesis" by (simp add: lastDot_def)
qed

lemma cookie_parts:
  assumes "lastDot s = int i"
  shows "s = take i s @ ''.'' @ drop (Suc i) s"
  using last_dot_bound [OF assms] by (simp add: Cons_nth_drop_Suc flip: id_take_nth_drop)
    (metis Cons_nth_drop_Suc append_take_drop_id)

context codec
begin

lemma verify_sign:
  assumes "ok p" "secret \<noteq> []"
  shows "\<exists>cookie. SignSession c secret p = Inr cookie \<and>
    VerifySession c secret cookie now = (if sp_ExpiresAt p \<le> now then Inl SessionExpired else Inr p)"
proof -
  obtain b where b: "Marshal c p = Some b" "Unmarshal c b = Some p"
    using decode_encode [OF assms(1)] by blast
  let ?data = "b64_encode b" and ?sig = "hex_encode (hmac_sha256 secret (b64_encode b))"
  have "lastDot (?data @ ''.'' @ ?sig) = int (length ?data)"
    using last_dot_split [OF hex_no_dot] .
  then show ?thesis
    using assms(2) b
    by (simp add: SignSession_def VerifySession_def encodePayload_def decodePayload_def Let_def)
qed

end

lemma verify_only_signed:
  assumes "VerifySession cd secret cookie now = Inr p"
  obtains data sigHex where "cookie = data @ ''.'' @ sigHex"
    "hex_decode sigHex = Some (hmac_sha256 secret data)" "decodePayload cd data = Some p"
    "now < sp_ExpiresAt p" "secret \<noteq> []"
proof -
  have s: "secret \<noteq> []" and d: "\<not> lastDot cookie < 0"
    using assms by (auto simp: VerifySession_def Let_def split: if_splits)
  then obtain i where i: "lastDot cookie = int i" by (metis nat_0_le linorder_not_less)
  have c: "cookie = take i cookie @ ''.'' @ drop (Suc i) cookie" by (rule cookie_parts [OF i])
  show thesis
  proof (rule that [OF c])
    show "hex_decode (drop (Suc i) cookie) = Some (hmac_sha256 secret (take i cookie))"
      "decodePayload cd (take i cookie) = Some p" "now < sp_ExpiresAt p" "secret \<noteq> []"
      using assms i by (auto simp: VerifySession_def Let_def split: if_splits option.splits)
  qed
qed

section \<open>\<open>encoding/json\<close> keeps the contract\<close>

definition payload_ok :: "SessionPayload \<Rightarrow> bool" where
  "payload_ok p = (valid_utf8 (sp_IdentityID p) \<and> valid_utf8 (sp_Email p) \<and>
     - (2 ^ 63) \<le> sp_IssuedAt p \<and> sp_IssuedAt p < 2 ^ 63 \<and>
     - (2 ^ 63) \<le> sp_ExpiresAt p \<and> sp_ExpiresAt p < 2 ^ 63)"

lemma key_names:
  "valid_utf8 ''identity_id''" "valid_utf8 ''email''" "valid_utf8 ''iat''" "valid_utf8 ''exp''"
  by code_simp+

lemma payload_roundtrip:
  assumes "payload_ok p"
  shows "payload_of [(''identity_id'', JStr (sp_IdentityID p)), (''email'', JStr (sp_Email p)),
     (''iat'', JNum (itoa (sp_IssuedAt p))), (''exp'', JNum (itoa (sp_ExpiresAt p)))] = Some p"
proof -
  have n: "to_lower ''identity_id'' = ''identity_id''" "to_lower ''email'' = ''email''"
    "to_lower ''iat'' = ''iat''" "to_lower ''exp'' = ''exp''" by code_simp+
  show ?thesis
    using assms by (simp add: payload_of_def str_field_def int_field_def field_values_def n payload_ok_def)
qed

interpretation std: codec defaultCodec payload_ok
proof
  fix p
  assume ok: "payload_ok p"
  then have "json_wf (payload_json p)"
    using num_literal_itoa by (simp add: payload_json_def payload_ok_def key_names)
  then have "json_parse (json_print (payload_json p)) = Some (payload_json p)" by (rule json_roundtrip)
  then show "\<exists>b. Marshal defaultCodec p = Some b \<and> Unmarshal defaultCodec b = Some p"
    using payload_roundtrip [OF ok] by (simp add: defaultCodec_def struct_members_def payload_json_def)
qed

section \<open>Properties\<close>

text \<open>
  C18. A session cookie is read back exactly: for every payload whose strings are UTF-8 and whose
  times fit 64 bits, and every non-empty secret, signing succeeds, and verifying what it made gives
  the payload back until the second in which it expires, and from then on says that it expired.
\<close>

theorem session_roundtrip:
  assumes "payload_ok p" and "secret \<noteq> []"
  shows "\<exists>cookie. SignSession defaultCodec secret p = Inr cookie \<and>
    VerifySession defaultCodec secret cookie now =
      (if sp_ExpiresAt p \<le> now then Inl SessionExpired else Inr p)"
  using assms by (rule std.verify_sign)

text \<open>
  C19. Only signed and live sessions are accepted: whatever the cookie of a request holds, when it is
  verified then it ends in a dot and the hexadecimal HMAC of everything before that dot under the
  server's secret, that part decodes to the payload, and the payload has not expired.
\<close>

theorem session_needs_signature:
  assumes "VerifySession defaultCodec secret cookie now = Inr p"
  shows "\<exists>data sigHex. cookie = data @ ''.'' @ sigHex \<and>
    hex_decode sigHex = Some (hmac_sha256 secret data) \<and>
    decodePayload defaultCodec data = Some p \<and> now < sp_ExpiresAt p \<and> secret \<noteq> []"
  using verify_only_signed [OF assms] by metis

definition demo_payload :: SessionPayload where
  "demo_payload = \<lparr> sp_IdentityID = ''i1'', sp_Email = ''a@b.c'', sp_IssuedAt = 100, sp_ExpiresAt = 200 \<rparr>"

theorem session_roundtrip_witness:
  "\<exists>cookie. SignSession defaultCodec ''s'' demo_payload = Inr cookie \<and>
    VerifySession defaultCodec ''s'' cookie 150 = Inr demo_payload"
proof -
  have "payload_ok demo_payload" by code_simp
  from session_roundtrip [OF this, of "''s''" 150] show ?thesis by (simp add: demo_payload_def)
qed

theorem session_needs_signature_witness:
  "\<exists>cookie data sigHex. VerifySession defaultCodec ''s'' cookie 150 = Inr demo_payload \<and>
    cookie = data @ ''.'' @ sigHex \<and> hex_decode sigHex = Some (hmac_sha256 ''s'' data)"
proof -
  have "payload_ok demo_payload" by code_simp
  from std.verify_sign [OF this, of "''s''" 150]
  obtain cookie where "VerifySession defaultCodec ''s'' cookie 150 = Inr demo_payload"
    by (auto simp: demo_payload_def)
  then show ?thesis using session_needs_signature by metis
qed

end
