(* ===== verification/Redis_Keys.thy ===== *)
theory Redis_Keys
  imports Go_Text
begin

text \<open>
  The part of Redis that the API keeps its counters, cooldowns and caches in: string keys with a
  value and an expiry, and the commands \<open>INCR\<close>, \<open>DECR\<close>, \<open>EXPIRE\<close>, \<open>EXPIREAT\<close>, \<open>GET\<close>, \<open>SET\<close>,
  \<open>SET NX\<close> and \<open>DEL\<close> as the client library issues them. A command runs atomically at the
  instant \<open>rd_now\<close> gives for it. The connection may lose it: a command that is \<open>Lost\<close> never
  reached the server, one with \<open>NoReply\<close> was executed but its reply did not come back; the caller
  sees an error, \<open>None\<close>, either way.
\<close>

section \<open>State\<close>

datatype redis_value = RInt int | RStr string

record rentry =
  re_value :: redis_value
  re_expires :: "instant option"

type_synonym keyspace = "string \<rightharpoonup> rentry"

datatype link = Up | Lost | NoReply

record redis =
  rd_keys :: keyspace
  rd_count :: nat
  rd_link :: "nat \<Rightarrow> link"
  rd_now :: "nat \<Rightarrow> instant"

definition expired :: "instant \<Rightarrow> rentry \<Rightarrow> bool" where
  "expired now e = (case re_expires e of None \<Rightarrow> False | Some t \<Rightarrow> t < now)"

text \<open>A key whose time has passed does not exist for a command.\<close>

definition live :: "instant \<Rightarrow> keyspace \<Rightarrow> keyspace" where
  "live now ks = (\<lambda>k. case ks k of None \<Rightarrow> None | Some e \<Rightarrow> if expired now e then None else Some e)"

definition command :: "(instant \<Rightarrow> keyspace \<Rightarrow> 'a option \<times> keyspace) \<Rightarrow> redis \<Rightarrow> 'a option \<times> redis" where
  "command f r =
     (let i = rd_count r; (res, ks) = f (rd_now r i) (live (rd_now r i) (rd_keys r));
          r' = r\<lparr> rd_count := Suc i \<rparr>
      in case rd_link r i of
           Up \<Rightarrow> (res, r'\<lparr> rd_keys := ks \<rparr>)
         | Lost \<Rightarrow> (None, r')
         | NoReply \<Rightarrow> (None, r'\<lparr> rd_keys := ks \<rparr>))"

section \<open>Commands\<close>

definition counter_value :: "redis_value \<Rightarrow> int option" where
  "counter_value v = (case v of RInt n \<Rightarrow> Some n | RStr s \<Rightarrow> atoi s)"

text \<open>\<open>INCRBY\<close>: a missing key counts from 0, the expiry stays, and the sum must fit 64 bits.\<close>

definition incr_by :: "int \<Rightarrow> string \<Rightarrow> instant \<Rightarrow> keyspace \<Rightarrow> int option \<times> keyspace" where
  "incr_by d k now ks =
     (case ks k of
        None \<Rightarrow> (Some d, ks(k \<mapsto> \<lparr> re_value = RInt d, re_expires = None \<rparr>))
      | Some e \<Rightarrow>
          (case counter_value (re_value e) of
             None \<Rightarrow> (None, ks)
           | Some n \<Rightarrow>
               if n + d < - (2 ^ 63) \<or> 2 ^ 63 \<le> n + d then (None, ks)
               else (Some (n + d), ks(k \<mapsto> e\<lparr> re_value := RInt (n + d) \<rparr>))))"

definition expire_at :: "string \<Rightarrow> instant \<Rightarrow> instant \<Rightarrow> keyspace \<Rightarrow> bool option \<times> keyspace" where
  "expire_at k t now ks =
     (case ks k of
        None \<Rightarrow> (Some False, ks)
      | Some e \<Rightarrow> (Some True, if t \<le> now then ks(k := None) else ks(k \<mapsto> e\<lparr> re_expires := Some t \<rparr>)))"

definition set_ex :: "string \<Rightarrow> string \<Rightarrow> duration \<Rightarrow> instant \<Rightarrow> keyspace \<Rightarrow> unit option \<times> keyspace" where
  "set_ex k v ttl now ks =
     (Some (), ks(k \<mapsto> \<lparr> re_value = RStr v, re_expires = if 0 < ttl then Some (now + ttl) else None \<rparr>))"

definition INCR :: "string \<Rightarrow> redis \<Rightarrow> int option \<times> redis" where
  "INCR k = command (incr_by 1 k)"

definition DECR :: "string \<Rightarrow> redis \<Rightarrow> int option \<times> redis" where
  "DECR k = command (incr_by (- 1) k)"

definition EXPIREAT :: "string \<Rightarrow> instant \<Rightarrow> redis \<Rightarrow> bool option \<times> redis" where
  "EXPIREAT k t = command (expire_at k t)"

definition EXPIRE :: "string \<Rightarrow> duration \<Rightarrow> redis \<Rightarrow> bool option \<times> redis" where
  "EXPIRE k d = command (\<lambda>now. expire_at k (now + d) now)"

definition SET :: "string \<Rightarrow> string \<Rightarrow> duration \<Rightarrow> redis \<Rightarrow> unit option \<times> redis" where
  "SET k v ttl = command (set_ex k v ttl)"

definition SETNX :: "string \<Rightarrow> string \<Rightarrow> duration \<Rightarrow> redis \<Rightarrow> bool option \<times> redis" where
  "SETNX k v ttl = command (\<lambda>now ks.
     if ks k = None then (Some True, snd (set_ex k v ttl now ks)) else (Some False, ks))"

text \<open>\<open>GET\<close>: \<open>Some None\<close> is the reply \<open>redis.Nil\<close>.\<close>

definition GET :: "string \<Rightarrow> redis \<Rightarrow> string option option \<times> redis" where
  "GET k = command (\<lambda>now ks. (Some (map_option (\<lambda>e. case re_value e of RStr v \<Rightarrow> v | RInt n \<Rightarrow> itoa n) (ks k)), ks))"

definition DEL :: "string \<Rightarrow> redis \<Rightarrow> unit option \<times> redis" where
  "DEL k = command (\<lambda>now ks. (Some (), ks(k := None)))"

section \<open>Frames\<close>

definition redis_frame :: "redis \<Rightarrow> redis \<Rightarrow> bool" where
  "redis_frame r r' \<longleftrightarrow> rd_link r' = rd_link r \<and> rd_now r' = rd_now r \<and> rd_count r \<le> rd_count r'"

lemma redis_frame_refl [simp]: "redis_frame r r"
  by (simp add: redis_frame_def)

lemma redis_frame_trans: "redis_frame a b \<Longrightarrow> redis_frame b c \<Longrightarrow> redis_frame a c"
  by (simp add: redis_frame_def)

lemma command_frame: "command f r = (x, r') \<Longrightarrow>
    rd_link r' = rd_link r \<and> rd_now r' = rd_now r \<and> rd_count r' = Suc (rd_count r)"
  by (auto simp: command_def Let_def split: prod.splits link.splits)

text \<open>What a command leaves behind, whether or not its reply arrives.\<close>

lemma command_keys: "command f r = (x, r') \<Longrightarrow>
    rd_keys r' = rd_keys r \<or>
    rd_keys r' = snd (f (rd_now r (rd_count r)) (live (rd_now r (rd_count r)) (rd_keys r)))"
  by (auto simp: command_def Let_def split: prod.splits link.splits)

lemma command_Some: "command f r = (Some x, r') \<Longrightarrow>
    rd_link r (rd_count r) = Up \<and>
    f (rd_now r (rd_count r)) (live (rd_now r (rd_count r)) (rd_keys r)) = (Some x, rd_keys r')"
  by (auto simp: command_def Let_def split: prod.splits link.splits)

lemma command_Up: "rd_link r (rd_count r) = Up \<Longrightarrow> command f r = (x, r') \<Longrightarrow>
    f (rd_now r (rd_count r)) (live (rd_now r (rd_count r)) (rd_keys r)) = (x, rd_keys r')"
  by (auto simp: command_def Let_def split: prod.splits link.splits)

lemma live_Some: "live now ks k = Some e \<longleftrightarrow> ks k = Some e \<and> \<not> expired now e"
  by (auto simp: live_def split: option.splits)

lemma live_None: "live now ks k = None \<longleftrightarrow> (\<forall>e. ks k = Some e \<longrightarrow> expired now e)"
  by (auto simp: live_def split: option.splits)

lemma expired_mono: "expired now e \<Longrightarrow> now \<le> now' \<Longrightarrow> expired now' e"
  by (auto simp: expired_def split: option.splits)

end
