(* ===== verification/Traces.thy ===== *)
theory Traces
  imports Price_Tables
begin

text \<open>
  Two arguments that several components share: a sequence of requests in which something can
  happen at most once (\<open>one_shot\<close>), and a preorder on the tables that every statement of a
  database operation respects and hence the operation does (\<open>table_preorder\<close>).
\<close>

section \<open>Runs of requests\<close>

fun run_all :: "('q \<Rightarrow> 's \<Rightarrow> 'a \<times> 's) \<Rightarrow> 'q list \<Rightarrow> 's \<Rightarrow> 'a list \<times> 's" where
  "run_all step [] s = ([], s)"
| "run_all step (q # qs) s =
     (let (a, s1) = step q s; (as, s2) = run_all step qs s1 in (a # as, s2))"

lemma run_all_Cons:
  assumes "run_all step (q # qs) s = (as, s')"
  obtains a s1 as' where "step q s = (a, s1)" "run_all step qs s1 = (as', s')" "as = a # as'"
  using assms by (auto simp: Let_def split: prod.splits)

lemma run_all_invariant:
  assumes "P s" "\<And>q s a s'. P s \<Longrightarrow> step q s = (a, s') \<Longrightarrow> P s'" "run_all step qs s = (as, s')"
  shows "P s'"
  using assms(1,3)
proof (induction qs arbitrary: s as)
  case (Cons q qs)
  obtain a s1 as' where "step q s = (a, s1)" "run_all step qs s1 = (as', s')"
    using run_all_Cons [OF Cons.prems(2)] .
  then show ?case using Cons.IH assms(2) [OF Cons.prems(1)] by blast
qed simp

locale one_shot =
  fixes step :: "'q \<Rightarrow> 's \<Rightarrow> 'a \<times> 's" and ok spent :: "'s \<Rightarrow> bool" and hit :: "'q \<Rightarrow> 'a \<Rightarrow> bool"
  assumes ok_step: "ok s \<Longrightarrow> step q s = (a, s') \<Longrightarrow> ok s'"
    and spent_stays: "ok s \<Longrightarrow> spent s \<Longrightarrow> step q s = (a, s') \<Longrightarrow> spent s' \<and> \<not> hit q a"
    and hit_spends: "ok s \<Longrightarrow> step q s = (a, s') \<Longrightarrow> hit q a \<Longrightarrow> spent s'"
begin

lemma no_hit_when_spent:
  "ok s \<Longrightarrow> spent s \<Longrightarrow> run_all step qs s = (as, s') \<Longrightarrow> filter (\<lambda>(q, a). hit q a) (zip qs as) = []"
proof (induction qs arbitrary: s as)
  case (Cons q qs)
  obtain a s1 as' where r: "step q s = (a, s1)" "run_all step qs s1 = (as', s')" "as = a # as'"
    using run_all_Cons [OF Cons.prems(3)] .
  have "spent s1" "\<not> hit q a" "ok s1"
    using spent_stays [OF Cons.prems(1,2) r(1)] ok_step [OF Cons.prems(1) r(1)] by simp_all
  then show ?case using Cons.IH [OF _ _ r(2)] r(3) by simp
qed simp

lemma at_most_once:
  "ok s \<Longrightarrow> run_all step qs s = (as, s') \<Longrightarrow> length (filter (\<lambda>(q, a). hit q a) (zip qs as)) \<le> 1"
proof (induction qs arbitrary: s as)
  case (Cons q qs)
  obtain a s1 as' where r: "step q s = (a, s1)" "run_all step qs s1 = (as', s')" "as = a # as'"
    using run_all_Cons [OF Cons.prems(2)] .
  have ok1: "ok s1" using ok_step [OF Cons.prems(1) r(1)] .
  show ?case
  proof (cases "hit q a")
    case True
    then have "filter (\<lambda>(q, a). hit q a) (zip qs as') = []"
      using no_hit_when_spent [OF ok1 _ r(2)] hit_spends [OF Cons.prems(1) r(1)] by blast
    then show ?thesis using True r(3) by simp
  next
    case False
    then show ?thesis using Cons.IH [OF ok1 r(2)] r(3) by simp
  qed
qed simp

end

section \<open>Relations kept by database operations\<close>

definition moves :: "(tables \<Rightarrow> tables \<Rightarrow> bool) \<Rightarrow> 'a db \<Rightarrow> bool" where
  "moves R m \<longleftrightarrow> (\<forall>db. R (pg_tables db) (pg_tables (snd (m db))))"

lemma moves_apply: "moves R m \<Longrightarrow> m db = (r, db') \<Longrightarrow> R (pg_tables db) (pg_tables db')"
  by (metis moves_def snd_conv)

text \<open>An operation that reads the clock or draws a key before it runs.\<close>

lemma moves_at: "(\<And>d. moves R (m d)) \<Longrightarrow> moves R (\<lambda>db. m db db)"
  by (simp add: moves_def)

lemma moves_if: "moves R m \<Longrightarrow> moves R n \<Longrightarrow> moves R (\<lambda>db. if c then m db else n db)"
  by (simp add: moves_def)

lemma moves_at_clock: "(\<And>now. moves R (m now)) \<Longrightarrow> moves R (at_clock m)"
  by (simp add: moves_def at_clock_def)

locale table_preorder =
  fixes R :: "tables \<Rightarrow> tables \<Rightarrow> bool"
  assumes refl: "R t t" and trans: "R a b \<Longrightarrow> R b c \<Longrightarrow> R a c"
begin

lemma moves_return [intro]: "moves R (db_return x)"
  by (simp add: moves_def db_return_def refl)

lemma moves_throw [intro]: "moves R (db_throw e)"
  by (simp add: moves_def db_throw_def refl)

lemma moves_stmt: "(\<And>t x t'. f t = Inr (x, t') \<Longrightarrow> R t t') \<Longrightarrow> moves R (stmt f)"
  by (auto simp: moves_def stmt_def pg_tick_def refl split: sum.split)

lemma moves_select1 [intro]: "moves R (select1 q)"
  unfolding select1_def by (rule moves_stmt) (auto simp: refl split: sum.splits)

lemma moves_bind: "moves R m \<Longrightarrow> (\<And>x. moves R (f x)) \<Longrightarrow> moves R (db_bind m f)"
  unfolding moves_def
proof
  fix db
  assume m: "\<forall>db. R (pg_tables db) (pg_tables (snd (m db)))"
    and f: "\<And>x. \<forall>db. R (pg_tables db) (pg_tables (snd (f x db)))"
  obtain r d where d: "m db = (r, d)" by fastforce
  have "R (pg_tables db) (pg_tables d)" using m d by (metis snd_conv)
  then show "R (pg_tables db) (pg_tables (snd (db_bind m f db)))"
    using f trans by (cases r) (auto simp: db_bind_def d)
qed

lemma moves_on_no_rows: "moves R alt \<Longrightarrow> moves R m \<Longrightarrow> moves R (db_on_no_rows alt m)"
  unfolding moves_def
proof
  fix db
  assume alt: "\<forall>db. R (pg_tables db) (pg_tables (snd (alt db)))"
    and m: "\<forall>db. R (pg_tables db) (pg_tables (snd (m db)))"
  obtain r d where d: "m db = (r, d)" by fastforce
  have "R (pg_tables db) (pg_tables d)" using m d by (metis snd_conv)
  then show "R (pg_tables db) (pg_tables (snd (db_on_no_rows alt m db)))"
    using alt trans by (auto simp: db_on_no_rows_def d split: sum.split db_error.split)
qed

lemma moves_map_error: "moves R m \<Longrightarrow> moves R (db_map_error h m)"
  by (auto simp: moves_def db_map_error_def split: prod.splits sum.splits) (metis snd_conv)+

lemma moves_transaction:
  assumes "\<And>now. moves R (body now)"
  shows "moves R (transaction body)"
  unfolding moves_def
proof
  fix db
  obtain r1 d1 where d1: "stmt (\<lambda>t. Inr ((), t)) db = (r1, d1)" by fastforce
  have t1: "pg_tables d1 = pg_tables db"
    using d1 by (auto simp: stmt_def pg_tick_def split: if_splits)
  obtain r2 d2 where d2: "body (pg_now db (pg_count db)) d1 = (r2, d2)" by fastforce
  obtain r3 d3 where d3: "stmt (\<lambda>t. Inr ((), t)) d2 = (r3, d3)" by fastforce
  have t3: "pg_tables d3 = pg_tables d2"
    using d3 by (auto simp: stmt_def pg_tick_def split: if_splits)
  have "R (pg_tables db) (pg_tables d2)"
    using moves_apply [OF assms d2] t1 by simp
  then show "R (pg_tables db) (pg_tables (snd (transaction body db)))"
    using refl t1 t3 by (cases r1; cases r2; cases r3) (simp_all add: transaction_def d1 d2 d3)
qed

lemma moves_fail: "moves R (\<lambda>db. (Inl e, db))"
  by (simp add: moves_def refl)

lemma moves_bind_at: "(\<And>d. moves R (m d)) \<Longrightarrow> (\<And>x. moves R (f x)) \<Longrightarrow>
    moves R (\<lambda>db. db_bind (m db) f db)"
  by (rule moves_at) (rule moves_bind)

lemmas rules = moves_fail moves_if moves_bind_at moves_at_clock moves_bind moves_on_no_rows
  moves_map_error moves_transaction moves_stmt moves_return moves_throw moves_select1

end

text \<open>Operations never touch what the database is connected to.\<close>

definition framed :: "'a db \<Rightarrow> bool" where
  "framed m \<longleftrightarrow> (\<forall>db. pg_frame db (snd (m db)))"

lemma framed_apply: "framed m \<Longrightarrow> m db = (r, db') \<Longrightarrow> pg_frame db db'"
  by (metis framed_def snd_conv)

lemma framed_at: "(\<And>d. framed (m d)) \<Longrightarrow> framed (\<lambda>db. m db db)"
  by (simp add: framed_def)

lemma framed_stmt: "framed (stmt f)"
  unfolding framed_def using stmt_frame by (metis surj_pair snd_conv)

lemma framed_select1: "framed (select1 q)"
  unfolding select1_def by (rule framed_stmt)

lemma framed_simple: "framed (db_return x)" "framed (db_throw e)" "framed (\<lambda>db. (Inl e, db))"
  by (simp_all add: framed_def db_return_def db_throw_def)

lemma framed_bind: "framed m \<Longrightarrow> (\<And>x. framed (f x)) \<Longrightarrow> framed (db_bind m f)"
  unfolding framed_def
proof
  fix db
  assume m: "\<forall>db. pg_frame db (snd (m db))" and f: "\<And>x. \<forall>db. pg_frame db (snd (f x db))"
  obtain r d where d: "m db = (r, d)" by fastforce
  have "pg_frame db d" using m d by (metis snd_conv)
  then show "pg_frame db (snd (db_bind m f db))"
    using f pg_frame_trans by (cases r) (auto simp: db_bind_def d)
qed

lemma framed_bind_at: "(\<And>d. framed (m d)) \<Longrightarrow> (\<And>x. framed (f x)) \<Longrightarrow> framed (\<lambda>db. db_bind (m db) f db)"
  by (rule framed_at) (rule framed_bind)

lemma framed_on_no_rows: "framed alt \<Longrightarrow> framed m \<Longrightarrow> framed (db_on_no_rows alt m)"
  unfolding framed_def
proof
  fix db
  assume alt: "\<forall>db. pg_frame db (snd (alt db))" and m: "\<forall>db. pg_frame db (snd (m db))"
  obtain r d where d: "m db = (r, d)" by fastforce
  have "pg_frame db d" using m d by (metis snd_conv)
  then show "pg_frame db (snd (db_on_no_rows alt m db))"
    using alt pg_frame_trans by (auto simp: db_on_no_rows_def d split: sum.split db_error.split)
qed

lemma framed_map_error: "framed m \<Longrightarrow> framed (db_map_error h m)"
  by (auto simp: framed_def db_map_error_def split: prod.splits sum.splits) (metis snd_conv)+

lemma framed_if: "framed m \<Longrightarrow> framed n \<Longrightarrow> framed (\<lambda>db. if c then m db else n db)"
  by (simp add: framed_def)

lemma framed_at_clock: "(\<And>now. framed (m now)) \<Longrightarrow> framed (at_clock m)"
  by (simp add: framed_def at_clock_def)

lemma framed_transaction:
  assumes "\<And>now. framed (body now)"
  shows "framed (transaction body)"
  unfolding framed_def
proof
  fix db
  obtain r1 d1 where d1: "stmt (\<lambda>t. Inr ((), t)) db = (r1, d1)" by fastforce
  obtain r2 d2 where d2: "body (pg_now db (pg_count db)) d1 = (r2, d2)" by fastforce
  obtain r3 d3 where d3: "stmt (\<lambda>t. Inr ((), t)) d2 = (r3, d3)" by fastforce
  have "pg_frame db d1" "pg_frame d1 d2" "pg_frame d2 d3"
    using stmt_frame [OF d1] framed_apply [OF assms d2] stmt_frame [OF d3] by simp_all
  then have "pg_frame db d1" "pg_frame db d2" "pg_frame db d3" using pg_frame_trans by blast+
  then show "pg_frame db (snd (transaction body db))"
    by (cases r1; cases r2; cases r3) (simp_all add: transaction_def d1 d2 d3)
qed

lemmas framed_rules = framed_simple framed_if framed_bind_at framed_at_clock framed_bind
  framed_on_no_rows framed_map_error framed_transaction framed_stmt framed_select1

text \<open>A failed transaction leaves the tables alone.\<close>

lemma transaction_rolls_back:
  assumes "transaction body db = (Inl e, db')"
  shows "pg_tables db' = pg_tables db"
  using assms
  by (auto simp: transaction_def stmt_def pg_tick_def split: prod.splits sum.splits if_splits)

end
