(* ===== verification/Abuse_Guard.thy ===== *)
theory Abuse_Guard
  imports Redis_Keys Signup_Store Traces
begin

text \<open>
  The abuse controls of the signup flow, \<open>internal/signup/abuse.go\<close>, over the Redis model: the
  disposable-domain block, the hourly limit per IP address and the cooldowns per e-mail address
  and per identity. Addresses are hashed with the signing secret before they become keys.
\<close>

section \<open>Configuration\<close>

record AbuseConfig =
  ac_SigningSecret :: string
  ac_MaxRequestsPerHour :: int
  ac_ResendCooldown :: duration
  ac_RegenerateCooldown :: duration
  ac_BlockDisposable :: bool

definition DefaultAbuseConfig :: "string \<Rightarrow> AbuseConfig" where
  "DefaultAbuseConfig secret = \<lparr> ac_SigningSecret = secret, ac_MaxRequestsPerHour = 5,
     ac_ResendCooldown = 60 * second, ac_RegenerateCooldown = 60 * second, ac_BlockDisposable = True \<rparr>"

text \<open>The guard; \<open>ag_rdb\<close> says whether it was given a Redis client.\<close>

record AbuseGuard =
  ag_rdb :: bool
  ag_cfg :: AbuseConfig

datatype guard_error = ErrRateLimited | ErrResendCooldown | ErrDisposableDomain | ErrRegenerateCooldown

definition hashValue :: "string \<Rightarrow> string \<Rightarrow> string" where
  "hashValue s secret = (if s = [] then [] else hex_encode (hmac_sha256 secret s))"

definition disposableDomains :: "string list" where
  "disposableDomains = [''mailinator.com'', ''guerrillamail.com'', ''10minutemail.com'', ''throwam.com'',
     ''yopmail.com'', ''maildrop.cc'', ''trashmail.com'', ''sharklasers.com'',
     ''guerrillamailblock.com'', ''spam4.me'', ''tempmail.com'', ''dispostable.com'']"

definition isDisposableDomain :: "string \<Rightarrow> bool" where
  "isDisposableDomain email =
     (let e = to_lower email in
      case index_byte e (CHR ''@'') of
        None \<Rightarrow> False
      | Some i \<Rightarrow> drop (Suc i) e \<in> set disposableDomains)"

section \<open>Checks\<close>

text \<open>The Lua script: it runs atomically on the server.\<close>

definition ipRateLimitScript :: "string \<Rightarrow> duration \<Rightarrow> instant \<Rightarrow> keyspace \<Rightarrow> int option \<times> keyspace" where
  "ipRateLimitScript key ttl now ks =
     (case incr_by 1 key now ks of
        (None, ks1) \<Rightarrow> (None, ks1)
      | (Some n, ks1) \<Rightarrow>
          (Some n,
           if n = 1 \<or> Option.bind (ks1 key) re_expires = None
           then snd (expire_at key (now + ttl) now ks1) else ks1))"

definition rl_key :: "AbuseConfig \<Rightarrow> string \<Rightarrow> string" where
  "rl_key cfg ip = ''signup:rl:ip:'' @ hashValue ip (ac_SigningSecret cfg)"

definition cooldown_key :: "AbuseConfig \<Rightarrow> string \<Rightarrow> string" where
  "cooldown_key cfg email =
     ''signup:cooldown:email:'' @ hashValue (normalizeEmail email) (ac_SigningSecret cfg)"

definition regen_key :: "string \<Rightarrow> string" where
  "regen_key identityID = ''signup:regen:cooldown:'' @ identityID"

definition check_ip :: "AbuseConfig \<Rightarrow> string \<Rightarrow> redis \<Rightarrow> bool \<times> redis" where
  "check_ip cfg ip r =
     (if 0 < ac_MaxRequestsPerHour cfg
      then case command (ipRateLimitScript (rl_key cfg ip) hour) r of
             (None, r1) \<Rightarrow> (True, r1)
           | (Some n, r1) \<Rightarrow> (n \<le> ac_MaxRequestsPerHour cfg, r1)
      else (True, r))"

definition check_cooldown :: "string \<Rightarrow> duration \<Rightarrow> redis \<Rightarrow> bool \<times> redis" where
  "check_cooldown key d r =
     (if 0 < d
      then case SETNX key ''1'' d r of (None, r1) \<Rightarrow> (True, r1) | (Some fresh, r1) \<Rightarrow> (fresh, r1)
      else (True, r))"

definition CheckRequestLink :: "AbuseGuard \<Rightarrow> string \<Rightarrow> string \<Rightarrow> redis \<Rightarrow> guard_error option \<times> redis" where
  "CheckRequestLink g ip email r =
     (let cfg = ag_cfg g in
      if ac_BlockDisposable cfg \<and> isDisposableDomain (normalizeEmail email) then (Some ErrDisposableDomain, r)
      else if \<not> ag_rdb g then (None, r)
      else let (ok, r1) = check_ip cfg ip r in
      if \<not> ok then (Some ErrRateLimited, r1)
      else let (ok, r2) = check_cooldown (cooldown_key cfg email) (ac_ResendCooldown cfg) r1 in
      if \<not> ok then (Some ErrResendCooldown, r2) else (None, r2))"

definition CheckRegenerateKey :: "AbuseGuard \<Rightarrow> string \<Rightarrow> redis \<Rightarrow> guard_error option \<times> redis" where
  "CheckRegenerateKey g identityID r =
     (if \<not> ag_rdb g \<or> ac_RegenerateCooldown (ag_cfg g) \<le> 0 then (None, r)
      else let (ok, r1) = check_cooldown (regen_key identityID) (ac_RegenerateCooldown (ag_cfg g)) r
           in if ok then (None, r1) else (Some ErrRegenerateCooldown, r1))"

datatype guard_call = RequestLinkCall string string | RegenerateCall string

fun guard_step :: "AbuseGuard \<Rightarrow> guard_call \<Rightarrow> redis \<Rightarrow> guard_error option \<times> redis" where
  "guard_step g (RequestLinkCall ip email) = CheckRequestLink g ip email"
| "guard_step g (RegenerateCall identityID) = CheckRegenerateKey g identityID"

section \<open>What a check does to the keys\<close>

lemma keys_apart [simp]:
  "rl_key c ip \<noteq> cooldown_key c' email" "cooldown_key c' email \<noteq> rl_key c ip"
  "rl_key c ip \<noteq> regen_key i" "regen_key i \<noteq> rl_key c ip"
  "cooldown_key c email \<noteq> regen_key i" "regen_key i \<noteq> cooldown_key c email"
  by (simp_all add: rl_key_def cooldown_key_def regen_key_def)

definition reads :: "redis \<Rightarrow> instant" where
  "reads r = rd_now r (rd_count r)"

lemma command_other:
  assumes "rd_link r (rd_count r) = Up" "command f r = (x, r')"
    and "\<And>now ks. snd (f now ks) K = ks K"
  shows "rd_keys r' K = live (reads r) (rd_keys r) K"
  using command_Up [OF assms(1,2)] assms(3) [of "reads r" "live (reads r) (rd_keys r)"]
  by (simp add: reads_def)

lemma script_other: "key \<noteq> K \<Longrightarrow> snd (ipRateLimitScript key ttl now ks) K = ks K"
  by (auto simp: ipRateLimitScript_def incr_by_def expire_at_def split: option.splits if_splits)

lemma setnx_other: "key \<noteq> K \<Longrightarrow> snd (if ks key = None then (Some True, snd (set_ex key v d now ks)) else (Some False, ks)) K = ks K"
  by (simp add: set_ex_def)

text \<open>
  The counter of key \<open>K\<close> in a window from \<open>t0\<close> to \<open>T\<close>: absent, or at \<open>n\<close> and not expiring before \<open>T\<close>.
\<close>

definition absent_from :: "instant \<Rightarrow> string \<Rightarrow> redis \<Rightarrow> bool" where
  "absent_from t0 K r \<longleftrightarrow> (\<forall>now. t0 \<le> now \<longrightarrow> live now (rd_keys r) K = None)"

definition counting :: "instant \<Rightarrow> instant \<Rightarrow> string \<Rightarrow> redis \<Rightarrow> int \<Rightarrow> bool" where
  "counting t0 T K r n \<longleftrightarrow> (n = 0 \<and> absent_from t0 K r) \<or>
     (1 \<le> n \<and> (\<exists>x. rd_keys r K = Some \<lparr> re_value = RInt n, re_expires = Some x \<rparr> \<and> T \<le> x))"

definition held_until :: "instant \<Rightarrow> string \<Rightarrow> redis \<Rightarrow> bool" where
  "held_until T K r \<longleftrightarrow> (\<exists>e x. rd_keys r K = Some e \<and> re_expires e = Some x \<and> T \<le> x)"

lemma live_again: "live now (live now' ks) K = None" if "live now ks K = None"
  using that by (auto simp: live_def split: option.splits if_splits)

lemma counting_other:
  assumes "rd_keys r' K = live now (rd_keys r) K" "now \<le> T" "counting t0 T K r n"
  shows "counting t0 T K r' n"
  using assms unfolding counting_def absent_from_def
  by (auto simp: live_def expired_def split: option.splits if_splits)

lemma held_other:
  assumes "rd_keys r' K = live now (rd_keys r) K" "now \<le> T" "held_until T K r"
  shows "held_until T K r'"
  using assms unfolding held_until_def by (auto simp: live_def expired_def split: option.splits if_splits)

lemma script_counts:
  assumes "rd_link r (rd_count r) = Up" "command (ipRateLimitScript K hour) r = (res, r')"
    and "counting t0 T K r n" "t0 \<le> reads r" "reads r \<le> T" "T \<le> t0 + hour" "n + 1 < 2 ^ 63"
  shows "res = Some (n + 1) \<and> counting t0 T K r' (n + 1)"
proof -
  let ?now = "reads r" and ?ks = "live (reads r) (rd_keys r)"
  have run: "ipRateLimitScript K hour ?now ?ks = (res, rd_keys r')"
    using command_Up [OF assms(1,2)] by (simp add: reads_def)
  have h: "\<not> ?now + hour \<le> ?now" by (simp add: hour_def minute_def second_def)
  from assms(3) consider "n = 0" "absent_from t0 K r"
    | x where "1 \<le> n" "rd_keys r K = Some \<lparr> re_value = RInt n, re_expires = Some x \<rparr>" "T \<le> x"
    by (auto simp: counting_def)
  then show ?thesis
  proof cases
    case 1
    then have "?ks K = None" using assms(4) by (simp add: absent_from_def)
    then have "ipRateLimitScript K hour ?now ?ks =
        (Some 1, ?ks(K \<mapsto> \<lparr> re_value = RInt 1, re_expires = Some (?now + hour) \<rparr>))"
      using h by (simp add: ipRateLimitScript_def incr_by_def expire_at_def)
    with run have "res = Some 1"
      "rd_keys r' = ?ks(K \<mapsto> \<lparr> re_value = RInt 1, re_expires = Some (?now + hour) \<rparr>)" by simp_all
    then show ?thesis using 1 assms(4,6) by (simp add: counting_def)
  next
    case 2
    then have "?ks K = Some \<lparr> re_value = RInt n, re_expires = Some x \<rparr>"
      using assms(5) by (simp add: live_Some expired_def)
    then have "ipRateLimitScript K hour ?now ?ks =
        (Some (n + 1), ?ks(K \<mapsto> \<lparr> re_value = RInt (n + 1), re_expires = Some x \<rparr>))"
      using 2(1) assms(7) by (simp add: ipRateLimitScript_def incr_by_def counter_value_def)
    with run have "res = Some (n + 1)"
      "rd_keys r' = ?ks(K \<mapsto> \<lparr> re_value = RInt (n + 1), re_expires = Some x \<rparr>)" by simp_all
    then show ?thesis using 2 by (simp add: counting_def)
  qed
qed

text \<open>All links up; the clock readings of a run lie in the window.\<close>

definition in_window :: "instant \<Rightarrow> instant \<Rightarrow> redis \<Rightarrow> redis \<Rightarrow> bool" where
  "in_window t0 T r r' \<longleftrightarrow> rd_link r = (\<lambda>_. Up) \<and>
     (\<forall>m. rd_count r \<le> m \<and> m < rd_count r' \<longrightarrow> t0 \<le> rd_now r m \<and> rd_now r m \<le> T)"

lemma check_ip_frame: "check_ip cfg ip r = (ok, r') \<Longrightarrow> redis_frame r r'"
  by (auto simp: check_ip_def redis_frame_def split: if_splits prod.splits option.splits dest: command_frame)

lemma check_cooldown_frame: "check_cooldown k d r = (ok, r') \<Longrightarrow> redis_frame r r'"
  by (auto simp: check_cooldown_def SETNX_def redis_frame_def split: if_splits prod.splits option.splits
      dest: command_frame)

lemma guard_step_frame: "guard_step g q r = (res, r') \<Longrightarrow> redis_frame r r'"
  by (cases q) (auto simp: CheckRequestLink_def CheckRegenerateKey_def Let_def
      split: if_splits prod.splits dest!: check_ip_frame check_cooldown_frame intro: redis_frame_trans)

lemma in_window_split:
  assumes "in_window t0 T r r'" "redis_frame r r1" "redis_frame r1 r'"
  shows "in_window t0 T r r1 \<and> in_window t0 T r1 r'"
  using assms by (auto simp: in_window_def redis_frame_def)

lemma check_ip_counting:
  assumes "check_ip cfg ip r = (ok, r')" "in_window t0 T r r'" "counting t0 T K r n" "T \<le> t0 + hour"
    and "n + 1 < 2 ^ 63"
  shows "(0 < ac_MaxRequestsPerHour cfg \<and> K = rl_key cfg ip \<and> ok = (n + 1 \<le> ac_MaxRequestsPerHour cfg) \<and> counting t0 T K r' (n + 1)) \<or>
    ((K \<noteq> rl_key cfg ip \<or> ac_MaxRequestsPerHour cfg \<le> 0) \<and> counting t0 T K r' n)"
proof (cases "0 < ac_MaxRequestsPerHour cfg")
  case False
  then show ?thesis using assms(1,3) by (simp add: check_ip_def)
next
  case True
  obtain res where c: "command (ipRateLimitScript (rl_key cfg ip) hour) r = (res, r')"
    and ok: "ok = (case res of None \<Rightarrow> True | Some n \<Rightarrow> n \<le> ac_MaxRequestsPerHour cfg)"
    using assms(1) True by (auto simp: check_ip_def split: prod.splits option.splits)
  have up: "rd_link r (rd_count r) = Up" and now: "t0 \<le> reads r" "reads r \<le> T"
    using assms(2) command_frame [OF c] by (auto simp: in_window_def reads_def)
  show ?thesis
  proof (cases "K = rl_key cfg ip")
    case True
    then show ?thesis
      using script_counts [OF up _ assms(3) now assms(4,5)] c ok \<open>0 < _\<close> by auto
  next
    case False
    then show ?thesis
      using counting_other [OF command_other [OF up c] now(2) assms(3)] script_other by metis
  qed
qed

lemma check_cooldown_counting:
  assumes "check_cooldown k d r = (ok, r')" "in_window t0 T r r'" "counting t0 T K r n" "k \<noteq> K"
  shows "counting t0 T K r' n"
proof (cases "0 < d")
  case True
  then obtain res where c: "SETNX k ''1'' d r = (res, r')"
    using assms(1) by (auto simp: check_cooldown_def split: prod.splits option.splits)
  have up: "rd_link r (rd_count r) = Up" and now: "reads r \<le> T"
    using assms(2) command_frame [OF c [unfolded SETNX_def]] by (auto simp: in_window_def reads_def)
  show ?thesis
    using counting_other [OF command_other [OF up c [unfolded SETNX_def]] now assms(3)] setnx_other [OF assms(4)]
    by simp
qed (use assms in \<open>simp add: check_cooldown_def\<close>)

text \<open>A check of one request advances the counter of its address by one, and of no other.\<close>

lemma guard_step_counting:
  assumes "guard_step g q r = (res, r')" "in_window t0 T r r'" "counting t0 T (rl_key (ag_cfg g) ip) r n"
    and "T \<le> t0 + hour" "n + 1 < 2 ^ 63" "ag_rdb g" "0 < ac_MaxRequestsPerHour (ag_cfg g)"
  shows "\<exists>n'. counting t0 T (rl_key (ag_cfg g) ip) r' n' \<and> n \<le> n' \<and> n' \<le> n + 1 \<and>
    (\<forall>email. q = RequestLinkCall ip email \<and> res = None \<longrightarrow>
       n' = n + 1 \<and> n' \<le> ac_MaxRequestsPerHour (ag_cfg g))"
proof (cases q)
  case (RegenerateCall i)
  then show ?thesis
    using assms(1-3) check_cooldown_counting [of "regen_key i" _ r _ r' t0 T]
    by (auto simp: CheckRegenerateKey_def split: if_splits prod.splits intro!: exI [of _ n])
next
  case (RequestLinkCall ip' email)
  let ?cfg = "ag_cfg g" and ?K = "rl_key (ag_cfg g) ip"
  show ?thesis
  proof (cases "ac_BlockDisposable ?cfg \<and> isDisposableDomain (normalizeEmail email)")
    case True
    then show ?thesis using assms(1,3) RequestLinkCall by (auto simp: CheckRequestLink_def Let_def intro!: exI [of _ n])
  next
    case False
    obtain ok r1 where c1: "check_ip ?cfg ip' r = (ok, r1)" by fastforce
    have rest: "(if \<not> ok then (Some ErrRateLimited, r1)
        else let (ok, r2) = check_cooldown (cooldown_key ?cfg email) (ac_ResendCooldown ?cfg) r1 in
        if \<not> ok then (Some ErrResendCooldown, r2) else (None, r2)) = (res, r')"
      using assms(1,6) False RequestLinkCall c1 by (simp add: CheckRequestLink_def Let_def)
    have fr: "redis_frame r r1" "redis_frame r1 r'"
      using check_ip_frame [OF c1] rest check_cooldown_frame by (auto split: if_splits prod.splits)
    have win: "in_window t0 T r r1" "in_window t0 T r1 r'"
      using in_window_split [OF assms(2) fr] by simp_all
    have keep: "counting t0 T ?K r' m" if "counting t0 T ?K r1 m" for m
      using rest that win(2) check_cooldown_counting [of "cooldown_key ?cfg email" _ r1 _ r' t0 T ?K m]
      by (auto split: if_splits prod.splits)
    from check_ip_counting [OF c1 win(1) assms(3-5)]
    consider (own) "counting t0 T ?K r1 (n + 1)" "ok = (n + 1 \<le> ac_MaxRequestsPerHour ?cfg)"
      | (other) "counting t0 T ?K r1 n" "?K \<noteq> rl_key ?cfg ip'" using assms(7) by auto
    then show ?thesis
    proof cases
      case own
      then show ?thesis using keep rest by (intro exI [of _ "n + 1"]) (auto split: if_splits)
    next
      case other
      then show ?thesis using keep RequestLinkCall by (intro exI [of _ n]) auto
    qed
  qed
qed

definition passed :: "guard_call \<times> guard_error option \<Rightarrow> string \<Rightarrow> bool" where
  "passed qa ip = (case qa of (RequestLinkCall ip' _, None) \<Rightarrow> ip' = ip | _ \<Rightarrow> False)"

lemma run_counting:
  "run_all (guard_step g) qs r = (as, r') \<Longrightarrow> in_window t0 T r r' \<Longrightarrow>
    counting t0 T (rl_key (ag_cfg g) ip) r n \<Longrightarrow> T \<le> t0 + hour \<Longrightarrow> n + int (length qs) < 2 ^ 63 \<Longrightarrow>
    ag_rdb g \<Longrightarrow> 0 < ac_MaxRequestsPerHour (ag_cfg g) \<Longrightarrow> a \<le> n \<Longrightarrow> a \<le> ac_MaxRequestsPerHour (ag_cfg g) \<Longrightarrow>
    a + int (length (filter (\<lambda>qa. passed qa ip) (zip qs as))) \<le> ac_MaxRequestsPerHour (ag_cfg g)"
proof (induction qs arbitrary: r n a as)
  case (Cons q qs)
  obtain res r1 as' where s: "guard_step g q r = (res, r1)" "run_all (guard_step g) qs r1 = (as', r')" "as = res # as'"
    using run_all_Cons [OF Cons.prems(1)] .
  have f1: "redis_frame r r1" using guard_step_frame [OF s(1)] .
  have f2: "redis_frame r1 r'"
    using run_all_invariant [of "redis_frame r1", OF redis_frame_refl _ s(2)] guard_step_frame redis_frame_trans by blast
  have win: "in_window t0 T r r1" "in_window t0 T r1 r'"
    using in_window_split [OF Cons.prems(2) f1 f2] by simp_all
  have "n + 1 < 2 ^ 63" using Cons.prems(5) by simp
  from guard_step_counting [OF s(1) win(1) Cons.prems(3,4) this Cons.prems(6,7)]
  obtain n' where n': "counting t0 T (rl_key (ag_cfg g) ip) r1 n'" "n \<le> n'" "n' \<le> n + 1"
    "\<And>email. q = RequestLinkCall ip email \<Longrightarrow> res = None \<Longrightarrow> n' = n + 1 \<and> n' \<le> ac_MaxRequestsPerHour (ag_cfg g)"
    by blast
  let ?b = "if passed (q, res) ip then a + 1 else a"
  have "?b \<le> n'" "?b \<le> ac_MaxRequestsPerHour (ag_cfg g)"
    using n' Cons.prems(8,9) by (auto simp: passed_def split: guard_call.splits option.splits)
  from Cons.IH [OF s(2) win(2) n'(1) Cons.prems(4) _ Cons.prems(6,7) this]
  have "?b + int (length (filter (\<lambda>qa. passed qa ip) (zip qs as'))) \<le> ac_MaxRequestsPerHour (ag_cfg g)"
    using n'(3) Cons.prems(5) by simp
  then show ?case using s(3) by (auto split: if_splits)
qed simp

lemma check_ip_held:
  assumes "check_ip cfg ip r = (ok, r')" "in_window t0 T r r'" "held_until T K r" "rl_key cfg ip \<noteq> K"
  shows "held_until T K r'"
proof (cases "0 < ac_MaxRequestsPerHour cfg")
  case True
  obtain res where c: "command (ipRateLimitScript (rl_key cfg ip) hour) r = (res, r')"
    using assms(1) True by (auto simp: check_ip_def split: prod.splits option.splits)
  have up: "rd_link r (rd_count r) = Up" and now: "reads r \<le> T"
    using assms(2) command_frame [OF c] by (auto simp: in_window_def reads_def)
  show ?thesis
    using held_other [OF command_other [OF up c] now assms(3)] script_other [OF assms(4)] by simp
qed (use assms in \<open>simp add: check_ip_def\<close>)

text \<open>A cooldown key that is held refuses; one that is granted is held for the cooldown.\<close>

lemma check_cooldown_held:
  assumes "check_cooldown k d r = (ok, r')" "in_window t0 T r r'" "held_until T K r"
  shows "held_until T K r' \<and> (k = K \<and> 0 < d \<longrightarrow> \<not> ok)"
proof (cases "0 < d")
  case True
  obtain res where c: "SETNX k ''1'' d r = (res, r')"
    and ok: "ok = (case res of None \<Rightarrow> True | Some fresh \<Rightarrow> fresh)"
    using assms(1) True by (auto simp: check_cooldown_def split: prod.splits option.splits)
  have up: "rd_link r (rd_count r) = Up" and now: "reads r \<le> T"
    using assms(2) command_frame [OF c [unfolded SETNX_def]] by (auto simp: in_window_def reads_def)
  show ?thesis
  proof (cases "k = K")
    case True
    obtain e x where e: "rd_keys r K = Some e" "re_expires e = Some x" "T \<le> x"
      using assms(3) by (auto simp: held_until_def)
    then have l: "live (reads r) (rd_keys r) K = Some e" using now by (simp add: live_Some expired_def)
    have "(res, rd_keys r') = (Some False, live (reads r) (rd_keys r))"
      using command_Up [OF up c [unfolded SETNX_def]] True l by (simp add: reads_def)
    then show ?thesis using e l ok by (simp add: held_until_def)
  next
    case False
    then show ?thesis
      using held_other [OF command_other [OF up c [unfolded SETNX_def]] now assms(3)] setnx_other [OF False]
      by simp
  qed
qed (use assms in \<open>simp add: check_cooldown_def\<close>)

lemma check_cooldown_granted:
  assumes "check_cooldown K d r = (True, r')" "in_window t0 T r r'" "0 < d" "T \<le> t0 + d"
  shows "held_until T K r'"
proof -
  obtain res where c: "SETNX K ''1'' d r = (res, r')" and ok: "res = None \<or> res = Some True"
    using assms(1,3) by (auto simp: check_cooldown_def split: prod.splits option.splits)
  have up: "rd_link r (rd_count r) = Up" and now: "t0 \<le> reads r"
    using assms(2) command_frame [OF c [unfolded SETNX_def]] by (auto simp: in_window_def reads_def)
  have "(if live (reads r) (rd_keys r) K = None
      then (Some True, snd (set_ex K ''1'' d (reads r) (live (reads r) (rd_keys r))))
      else (Some False, live (reads r) (rd_keys r))) = (res, rd_keys r')"
    using command_Up [OF up c [unfolded SETNX_def]] unfolding reads_def .
  then have "rd_keys r' = snd (set_ex K ''1'' d (reads r) (live (reads r) (rd_keys r)))"
    using ok by (auto split: if_splits)
  then show ?thesis using assms(3,4) now by (simp add: set_ex_def held_until_def)
qed

definition mailed :: "guard_call \<times> guard_error option \<Rightarrow> string \<Rightarrow> bool" where
  "mailed qa email = (case qa of
     (RequestLinkCall _ e, None) \<Rightarrow> normalizeEmail e = normalizeEmail email | _ \<Rightarrow> False)"

lemma guard_step_held:
  assumes "guard_step g q r = (res, r')" "in_window t0 T r r'" "held_until T (cooldown_key (ag_cfg g) email) r"
    and "ag_rdb g" "0 < ac_ResendCooldown (ag_cfg g)"
  shows "held_until T (cooldown_key (ag_cfg g) email) r' \<and> \<not> mailed (q, res) email"
proof (cases q)
  case (RegenerateCall i)
  then show ?thesis
    using assms(1-3) check_cooldown_held [of "regen_key i" _ r _ r' t0 T]
    by (auto simp: CheckRegenerateKey_def mailed_def split: if_splits prod.splits)
next
  case (RequestLinkCall ip e)
  let ?cfg = "ag_cfg g" and ?K = "cooldown_key (ag_cfg g) email"
  show ?thesis
  proof (cases "ac_BlockDisposable ?cfg \<and> isDisposableDomain (normalizeEmail e)")
    case True
    then show ?thesis
      using assms(1,3) RequestLinkCall by (auto simp: CheckRequestLink_def Let_def mailed_def)
  next
    case False
    obtain ok r1 where c1: "check_ip ?cfg ip r = (ok, r1)" by fastforce
    have rest: "(if \<not> ok then (Some ErrRateLimited, r1)
        else let (ok, r2) = check_cooldown (cooldown_key ?cfg e) (ac_ResendCooldown ?cfg) r1 in
        if \<not> ok then (Some ErrResendCooldown, r2) else (None, r2)) = (res, r')"
      using assms(1,4) False RequestLinkCall c1 by (simp add: CheckRequestLink_def Let_def)
    have fr: "redis_frame r r1" "redis_frame r1 r'"
      using check_ip_frame [OF c1] rest check_cooldown_frame by (auto split: if_splits prod.splits)
    have win: "in_window t0 T r r1" "in_window t0 T r1 r'"
      using in_window_split [OF assms(2) fr] by simp_all
    have h1: "held_until T ?K r1" using check_ip_held [OF c1 win(1) assms(3)] by simp
    have "normalizeEmail e = normalizeEmail email \<Longrightarrow> cooldown_key ?cfg e = ?K" by (simp add: cooldown_key_def)
    then show ?thesis
      using rest h1 win(2) check_cooldown_held [of "cooldown_key ?cfg e" _ r1 _ r' t0 T ?K] assms(5) RequestLinkCall
      by (auto simp: mailed_def split: if_splits prod.splits)
  qed
qed

lemma guard_step_mails:
  assumes "guard_step g q r = (res, r')" "in_window t0 T r r'" "mailed (q, res) email"
    and "ag_rdb g" "0 < ac_ResendCooldown (ag_cfg g)" "T \<le> t0 + ac_ResendCooldown (ag_cfg g)"
  shows "held_until T (cooldown_key (ag_cfg g) email) r'"
proof -
  let ?cfg = "ag_cfg g"
  obtain ip e where q: "q = RequestLinkCall ip e" "res = None" "normalizeEmail e = normalizeEmail email"
    using assms(3) by (auto simp: mailed_def split: guard_call.splits option.splits)
  obtain ok r1 where c1: "check_ip ?cfg ip r = (ok, r1)" by fastforce
  have c2: "check_cooldown (cooldown_key ?cfg e) (ac_ResendCooldown ?cfg) r1 = (True, r')"
    using assms(1,4) q c1 by (auto simp: CheckRequestLink_def Let_def split: if_splits prod.splits)
  have win: "in_window t0 T r1 r'"
    using in_window_split [OF assms(2) check_ip_frame [OF c1] check_cooldown_frame [OF c2]] by simp
  have "cooldown_key ?cfg e = cooldown_key ?cfg email" using q(3) by (simp add: cooldown_key_def)
  then show ?thesis using check_cooldown_granted [OF _ win assms(5,6)] c2 by metis
qed

lemma run_frame:
  assumes "run_all (guard_step g) qs r = (as, r')"
  shows "redis_frame r r'"
  using run_all_invariant [of "redis_frame r", OF redis_frame_refl _ assms] guard_step_frame redis_frame_trans
  by blast

lemma run_held:
  "run_all (guard_step g) qs r = (as, r') \<Longrightarrow> in_window t0 T r r' \<Longrightarrow>
    held_until T (cooldown_key (ag_cfg g) email) r \<Longrightarrow> ag_rdb g \<Longrightarrow> 0 < ac_ResendCooldown (ag_cfg g) \<Longrightarrow>
    filter (\<lambda>qa. mailed qa email) (zip qs as) = []"
proof (induction qs arbitrary: r as)
  case (Cons q qs)
  obtain res r1 as' where s: "guard_step g q r = (res, r1)" "run_all (guard_step g) qs r1 = (as', r')" "as = res # as'"
    using run_all_Cons [OF Cons.prems(1)] .
  have win: "in_window t0 T r r1" "in_window t0 T r1 r'"
    using in_window_split [OF Cons.prems(2) guard_step_frame [OF s(1)] run_frame [OF s(2)]] by simp_all
  show ?case
    using guard_step_held [OF s(1) win(1) Cons.prems(3-5)] Cons.IH [OF s(2) win(2) _ Cons.prems(4,5)] s(3) by simp
qed simp

lemma run_mails:
  "run_all (guard_step g) qs r = (as, r') \<Longrightarrow> in_window t0 T r r' \<Longrightarrow>
    ag_rdb g \<Longrightarrow> 0 < ac_ResendCooldown (ag_cfg g) \<Longrightarrow> T \<le> t0 + ac_ResendCooldown (ag_cfg g) \<Longrightarrow>
    length (filter (\<lambda>qa. mailed qa email) (zip qs as)) \<le> 1"
proof (induction qs arbitrary: r as)
  case (Cons q qs)
  obtain res r1 as' where s: "guard_step g q r = (res, r1)" "run_all (guard_step g) qs r1 = (as', r')" "as = res # as'"
    using run_all_Cons [OF Cons.prems(1)] .
  have win: "in_window t0 T r r1" "in_window t0 T r1 r'"
    using in_window_split [OF Cons.prems(2) guard_step_frame [OF s(1)] run_frame [OF s(2)]] by simp_all
  show ?case
  proof (cases "mailed (q, res) email")
    case True
    then show ?thesis
      using run_held [OF s(2) win(2) guard_step_mails [OF s(1) win(1) True Cons.prems(3-5)] Cons.prems(3,4)] s(3) by simp
  next
    case False
    then show ?thesis using Cons.IH [OF s(2) win(2) Cons.prems(3-5)] s(3) by simp
  qed
qed simp

section \<open>Properties\<close>

text \<open>
  C20. The hourly limit holds for every sequence of requests: while Redis answers, of all link
  requests from one address whose checks run within an hour that begins with no live counter for
  the address, at most the configured number passes, however they interleave with other requests.
\<close>

theorem hourly_limit:
  assumes "run_all (guard_step g) qs r = (as, r')" and "rd_link r = (\<lambda>_. Up)"
    and "\<forall>m. rd_count r \<le> m \<and> m < rd_count r' \<longrightarrow> t0 \<le> rd_now r m \<and> rd_now r m \<le> t0 + hour"
    and "\<forall>now \<ge> t0. live now (rd_keys r) (rl_key (ag_cfg g) ip) = None"
    and "ag_rdb g" and "0 < ac_MaxRequestsPerHour (ag_cfg g)" and "length qs < 2 ^ 62"
  shows "int (length (filter (\<lambda>qa. passed qa ip) (zip qs as))) \<le> ac_MaxRequestsPerHour (ag_cfg g)"
proof -
  have "in_window t0 (t0 + hour) r r'" using assms(2,3) by (simp add: in_window_def)
  moreover have "counting t0 (t0 + hour) (rl_key (ag_cfg g) ip) r 0"
    using assms(4) by (simp add: counting_def absent_from_def)
  moreover have "int (length qs) < 2 ^ 63" using assms(7) by simp
  ultimately show ?thesis using run_counting [OF assms(1) _ _ _ _ assms(5,6), of t0 "t0 + hour" ip 0 0] assms(6) by simp
qed

definition demo_guard :: AbuseGuard where
  "demo_guard = \<lparr> ag_rdb = True, ag_cfg = DefaultAbuseConfig ''secret'' \<rparr>"

definition demo_redis :: redis where
  "demo_redis = \<lparr> rd_keys = Map.empty, rd_count = 0, rd_link = (\<lambda>_. Up), rd_now = (\<lambda>_. 7) \<rparr>"

definition demo_calls :: "guard_call list" where
  "demo_calls = [RequestLinkCall ''10.0.0.1'' ''a@x.io'', RequestLinkCall ''10.0.0.1'' ''A@x.io'', RegenerateCall ''i1'']"

lemma demo_guard_simps:
  "ag_rdb demo_guard" "ac_MaxRequestsPerHour (ag_cfg demo_guard) = 5"
  "ac_ResendCooldown (ag_cfg demo_guard) = 60 * second" "rd_link demo_redis = (\<lambda>_. Up)"
  "rd_keys demo_redis = Map.empty" "rd_now demo_redis = (\<lambda>_. 7)" "length demo_calls = 3"
  by (simp_all add: demo_guard_def DefaultAbuseConfig_def demo_redis_def demo_calls_def)

definition demo_tight :: AbuseGuard where
  "demo_tight = demo_guard\<lparr> ag_cfg := (ag_cfg demo_guard)\<lparr> ac_MaxRequestsPerHour := 2 \<rparr> \<rparr>"

definition demo_burst :: "guard_call list" where
  "demo_burst = map (RequestLinkCall ''10.0.0.1'') [''a@x.io'', ''b@x.io'', ''c@x.io'', ''d@x.io'']"

theorem hourly_limit_witness:
  "let r = run_all (guard_step demo_tight) demo_burst demo_redis
   in length demo_burst = 4 \<and> length (filter (\<lambda>qa. passed qa ''10.0.0.1'') (zip demo_burst (fst r))) \<le> 2"
proof -
  let ?r = "run_all (guard_step demo_tight) demo_burst demo_redis"
  have "?r = (fst ?r, snd ?r)" by simp
  from hourly_limit [OF this, of 7 "''10.0.0.1''"]
  show ?thesis by (simp add: demo_tight_def demo_burst_def demo_guard_simps live_def hour_def minute_def second_def Let_def)
qed

text \<open>
  C21. The flow cannot be used to flood an inbox: while Redis answers, of all link requests for one
  e-mail address, in any spelling that normalises to it and from whatever IP address, at most one
  passes within the configured cooldown.
\<close>

theorem one_mail_per_cooldown:
  assumes "run_all (guard_step g) qs r = (as, r')" and "rd_link r = (\<lambda>_. Up)"
    and "\<forall>m. rd_count r \<le> m \<and> m < rd_count r' \<longrightarrow>
      t0 \<le> rd_now r m \<and> rd_now r m \<le> t0 + ac_ResendCooldown (ag_cfg g)"
    and "ag_rdb g" and "0 < ac_ResendCooldown (ag_cfg g)"
  shows "length (filter (\<lambda>qa. mailed qa email) (zip qs as)) \<le> 1"
  using run_mails [OF assms(1) _ assms(4,5) order_refl] assms(2,3) by (simp add: in_window_def)

theorem one_mail_per_cooldown_witness:
  "let r = run_all (guard_step demo_guard) demo_calls demo_redis
   in length (filter (\<lambda>qa. mailed qa ''a@x.io'') (zip demo_calls (fst r))) \<le> 1"
proof -
  let ?r = "run_all (guard_step demo_guard) demo_calls demo_redis"
  have "?r = (fst ?r, snd ?r)" by simp
  from one_mail_per_cooldown [OF this, of 7 "''a@x.io''"]
  show ?thesis by (simp add: demo_guard_simps second_def Let_def)
qed

end
