(* ===== verification/Auth_Handlers.thy ===== *)
theory Auth_Handlers
  imports Problem_Detail Session_Token Abuse_Guard
begin

text \<open>
  The signup endpoints, \<open>internal/auth/handlers.go\<close>, the client's IP of
  \<open>internal/middleware/realip.go\<close>, the key issuer of \<open>internal/signup/unkey.go\<close> and the token
  functions of \<open>internal/signup/token.go\<close>, over the store, the guard and the cookie of the other
  theories. Of a request, what Fiber extracts is given: the parsed body, query, cookies, headers and
  peer address. Parameters stand for \<open>mail.ParseAddress\<close>, for \<open>net/url\<close>, for the JSON form of a
  time, for the random source and for the Unkey service. Logging is left out.
\<close>

section \<open>Unkey\<close>

text \<open>
  The provider's live keys, and how it serves the n-th request: the status and body of its answer,
  or no answer, and the keys that are live afterwards.
\<close>

record unkey =
  uk_live :: "string list"
  uk_count :: nat
  uk_serve :: "nat \<Rightarrow> string \<Rightarrow> string \<Rightarrow> string list \<Rightarrow> (int \<times> string) option \<times> string list"

definition unkey_do :: "string \<Rightarrow> string \<Rightarrow> unkey \<Rightarrow> (int \<times> string) option \<times> unkey" where
  "unkey_do url body u =
     (let (ans, keys) = uk_serve u (uk_count u) url body (uk_live u)
      in (ans, u\<lparr> uk_live := keys, uk_count := Suc (uk_count u) \<rparr>))"

definition createURL :: string where "createURL = ''https://api.unkey.com/v2/keys.createKey''"
definition deleteURL :: string where "deleteURL = ''https://api.unkey.com/v2/keys.deleteKey''"

text \<open>A member that is a struct of its own, and a pointer to a struct: the last \<open>null\<close> resets it.\<close>

definition sub_struct :: "string \<Rightarrow> (string \<times> json) list \<Rightarrow> (string \<times> json) list option" where
  "sub_struct name ms = foldl (\<lambda>acc v. case (acc, v) of (Some xs, JObj ys) \<Rightarrow> Some (xs @ ys) | _ \<Rightarrow> None)
     (Some []) (field_values name ms)"

definition pointer_set :: "string \<Rightarrow> (string \<times> json) list \<Rightarrow> bool" where
  "pointer_set name ms = foldl (\<lambda>_ (_, v). v \<noteq> JNull) False (filter (\<lambda>(k, _). to_lower k = to_lower name) ms)"

definition api_error_reads :: "(string \<times> json) list \<Rightarrow> bool" where
  "api_error_reads ms = (case sub_struct ''error'' ms of None \<Rightarrow> False
     | Some es \<Rightarrow> str_field ''detail'' es \<noteq> None \<and> int_field ''status'' es \<noteq> None \<and> str_field ''title'' es \<noteq> None)"

text \<open>The members \<open>keyId\<close>, \<open>key\<close>, \<open>keyObject.id\<close> and \<open>keyObject.key\<close> of the answer's data.\<close>

definition read_data :: "(string \<times> json) list \<Rightarrow> (string \<times> string \<times> string \<times> string) option" where
  "read_data ms =
     (case sub_struct ''data'' ms of None \<Rightarrow> None | Some ds \<Rightarrow>
      case sub_struct ''keyObject'' ds of None \<Rightarrow> None | Some ks \<Rightarrow>
      case (str_field ''keyId'' ds, str_field ''key'' ds, str_field ''id'' ks, str_field ''key'' ks) of
        (Some a, Some b, Some c, Some d) \<Rightarrow> Some (a, b, c, d) | _ \<Rightarrow> None)"

definition create_result :: "(int \<times> string) option \<Rightarrow> (string \<times> string) option" where
  "create_result ans =
     (case ans of None \<Rightarrow> None | Some (status, body) \<Rightarrow>
      case struct_members body of None \<Rightarrow> None | Some ms \<Rightarrow>
      case read_data ms of None \<Rightarrow> None | Some (keyId, key, objId, objKey) \<Rightarrow>
        if \<not> api_error_reads ms \<or> pointer_set ''error'' ms \<or> 400 \<le> status then None
        else let keyID = (if keyId = [] then objId else keyId); key = (if key = [] then objKey else key)
             in if keyID = [] \<or> key = [] then None else Some (keyID, key))"

definition create_payload :: "string \<Rightarrow> string \<Rightarrow> string" where
  "create_payload apiID ownedByID = json_print (JObj
     [(''apiId'', JStr apiID), (''externalId'', JStr ownedByID), (''meta'', JObj [(''tier'', JStr ''free'')]),
      (''prefix'', JStr ''llmr'')])"

definition CreateKey :: "string \<Rightarrow> string \<Rightarrow> string \<Rightarrow> unkey \<Rightarrow> (string \<times> string) option \<times> unkey" where
  "CreateKey ownAPI apiID ownedByID u =
     (let apiID = (if apiID = [] then ownAPI else apiID);
          (ans, u') = unkey_do createURL (create_payload apiID ownedByID) u
      in (create_result ans, u'))"

text \<open>
  What \<open>RevokeKey\<close> makes of the answer; it ignores the error of \<open>json.Unmarshal\<close>, which leaves the
  error pointer set by any value but \<open>null\<close> when the body is a JSON object.
\<close>

definition revoke_result :: "(int \<times> string) option \<Rightarrow> bool" where
  "revoke_result ans =
     (case ans of None \<Rightarrow> False | Some (status, body) \<Rightarrow>
        \<not> (case json_parse body of Some (JObj ms) \<Rightarrow> pointer_set ''error'' ms | _ \<Rightarrow> False) \<and> status < 400)"

definition delete_payload :: "string \<Rightarrow> string" where
  "delete_payload k = json_print (JObj [(''keyId'', JStr k)])"

definition unkey_RevokeKey :: "string \<Rightarrow> unkey \<Rightarrow> bool \<times> unkey" where
  "unkey_RevokeKey providerKeyID u =
     (let (ans, u') = unkey_do deleteURL (delete_payload providerKeyID) u in (revoke_result ans, u'))"

section \<open>The handler, its world and a request\<close>

record Config =
  cf_MagicLinkTTLMinutes :: int
  cf_MagicLinkBaseURL :: string
  cf_MagicLinkPath :: string
  cf_SignupSessionCookieName :: string
  cf_SignupSessionTTLHours :: int
  cf_SignupSessionSecure :: bool
  cf_SigningSecret :: string
  cf_SignupEnabled :: bool

text \<open>
  The parts of \<open>net/url\<close> that \<open>BuildVerifyURL\<close> uses: \<open>Parse\<close>, \<open>JoinPath\<close>, and a URL's path,
  query and text.
\<close>

record 'u url_package =
  up_parse :: "string \<Rightarrow> 'u option"
  up_path :: "'u \<Rightarrow> string"
  up_join :: "string \<Rightarrow> string \<Rightarrow> string option"
  up_set_path :: "string \<Rightarrow> 'u \<Rightarrow> 'u"
  up_set_param :: "string \<Rightarrow> string \<Rightarrow> 'u \<Rightarrow> 'u"
  up_string :: "'u \<Rightarrow> string"
  up_escape :: "string \<Rightarrow> string"

record 'u Handler =
  hn_guard :: "AbuseGuard option"
  hn_cfg :: Config
  hn_apiID :: string
  hn_parse_address :: "string \<Rightarrow> string option"
  hn_url :: "'u url_package"
  hn_time_json :: "instant \<Rightarrow> json"

record world =
  ww_db :: pg
  ww_redis :: redis
  ww_unkey :: unkey
  ww_mails :: "(string \<times> string) list"
  ww_count :: nat
  ww_clock :: "nat \<Rightarrow> instant"
  ww_random :: "nat \<Rightarrow> string option"
  ww_mailer :: "nat \<Rightarrow> bool \<times> bool"

record request =
  rq_ip :: string
  rq_forwarded :: string
  rq_agent :: string
  rq_email :: "string option"
  rq_token :: string
  rq_cookie :: "string \<Rightarrow> string"

definition on_pg :: "'a db \<Rightarrow> world \<Rightarrow> (db_error + 'a) \<times> world" where
  "on_pg m w = (let (r, db) = m (ww_db w) in (r, w\<lparr> ww_db := db \<rparr>))"

definition on_unkey :: "(unkey \<Rightarrow> 'a \<times> unkey) \<Rightarrow> world \<Rightarrow> 'a \<times> world" where
  "on_unkey f w = (let (r, u) = f (ww_unkey w) in (r, w\<lparr> ww_unkey := u \<rparr>))"

definition on_redis :: "(redis \<Rightarrow> 'a \<times> redis) \<Rightarrow> world \<Rightarrow> 'a \<times> world" where
  "on_redis f w = (let (r, s) = f (ww_redis w) in (r, w\<lparr> ww_redis := s \<rparr>))"

definition time_now :: "world \<Rightarrow> instant \<times> world" where
  "time_now w = (ww_clock w (ww_count w), w\<lparr> ww_count := Suc (ww_count w) \<rparr>)"

definition unix :: "instant \<Rightarrow> int" where
  "unix t = t div second"

section \<open>Helpers\<close>

definition isPeerTrusted :: "string \<Rightarrow> string list \<Rightarrow> bool" where
  "isPeerTrusted peerIP trusted = list_ex (\<lambda>t. t = peerIP) trusted"

definition RealIP :: "string list \<Rightarrow> request \<Rightarrow> string" where
  "RealIP trustedProxies q =
     (if trustedProxies = [] then rq_ip q
      else if \<not> isPeerTrusted (rq_ip q) trustedProxies then rq_ip q
      else if rq_forwarded q \<noteq> [] then
        (case index_byte (rq_forwarded q) (CHR '','') of
           Some i \<Rightarrow> trim_space (take i (rq_forwarded q))
         | None \<Rightarrow> trim_space (rq_forwarded q))
      else rq_ip q)"

definition GenerateRawToken :: "world \<Rightarrow> string option \<times> world" where
  "GenerateRawToken w = (map_option b64_encode (ww_random w (ww_count w)), w\<lparr> ww_count := Suc (ww_count w) \<rparr>)"

definition BuildVerifyURL :: "'u url_package \<Rightarrow> string \<Rightarrow> string \<Rightarrow> string \<Rightarrow> string" where
  "BuildVerifyURL up baseURL path rawToken =
     (case up_parse up baseURL of
        None \<Rightarrow> baseURL @ path @ ''?token='' @ up_escape up rawToken
      | Some u \<Rightarrow>
          let u = (case up_join up (up_path up u) path of
                     Some joined \<Rightarrow> up_set_path up joined u
                   | None \<Rightarrow> up_set_path up (up_path up u @ path) u)
          in up_string up (up_set_param up ''token'' rawToken u))"

definition auth_normalizeEmail :: "'u Handler \<Rightarrow> string \<Rightarrow> string" where
  "auth_normalizeEmail h raw =
     (let trimmed = trim_space raw in
      case hn_parse_address h trimmed of
        Some addr \<Rightarrow> to_lower (trim_space addr)
      | None \<Rightarrow> to_lower trimmed)"

definition isValidEmail :: "'u Handler \<Rightarrow> string \<Rightarrow> bool" where
  "isValidEmail h email =
     (if 254 < length email then False
      else case hn_parse_address h email of
             None \<Rightarrow> False
           | Some addr \<Rightarrow> trim_space addr = trim_space email)"

definition hashField :: "string \<Rightarrow> string" where
  "hashField s = (if s = [] then [] else hex_encode (sha256 s))"

text \<open>The sentences of \<open>abuse.go\<close>; the dash is U+2014.\<close>

definition dash :: string where "dash = '' '' @ utf8 0x2014 @ '' ''"

fun guard_text :: "guard_error \<Rightarrow> string" where
  "guard_text ErrRateLimited = ''too many requests'' @ dash @ ''try again later''"
| "guard_text ErrResendCooldown =
     ''a verification email was recently sent'' @ dash @ ''wait before requesting another''"
| "guard_text ErrDisposableDomain = ''disposable email addresses are not accepted''"
| "guard_text ErrRegenerateCooldown = ''key regeneration is on cooldown'' @ dash @ ''try again later''"

section \<open>request-link\<close>

definition ok_json :: "json \<Rightarrow> outcome" where
  "ok_json v = (None, send_json v new_response)"

definition genericOK :: outcome where
  "genericOK = ok_json (JObj [(''message'', JStr ''If that email is valid, you'll receive a sign-in link shortly.'')])"

text \<open>
  \<open>SendMagicLink\<close>: whether the mail arrives, and whether the call returns without an error; of a
  time-out the one says nothing about the other.
\<close>

definition SendMagicLink :: "string \<Rightarrow> string \<Rightarrow> world \<Rightarrow> bool \<times> world" where
  "SendMagicLink email verifyURL w =
     (case ww_mailer w (ww_count w) of (arrives, ok) \<Rightarrow>
        (ok, w\<lparr> ww_mails := (if arrives then ww_mails w @ [(email, verifyURL)] else ww_mails w),
               ww_count := Suc (ww_count w) \<rparr>))"

text \<open>From the upsert to the mail: every failure has a return of its own.\<close>

definition send_link :: "'u Handler \<Rightarrow> request \<Rightarrow> string \<Rightarrow> world \<Rightarrow> outcome \<times> world" where
  "send_link h q email w =
     (case on_pg (UpsertIdentity email (hashField (RealIP [] q)) (hashField (rq_agent q))) w of
        (Inl _, w1) \<Rightarrow> (genericOK, w1)
      | (Inr ident, w1) \<Rightarrow>
          (case GenerateRawToken w1 of
             (None, w2) \<Rightarrow> (genericOK, w2)
           | (Some rawToken, w2) \<Rightarrow>
               (case time_now w2 of (now, w3) \<Rightarrow>
                case on_pg (InsertToken (idn_ID ident) (HashToken rawToken)
                       (now + cf_MagicLinkTTLMinutes (hn_cfg h) * minute)) w3 of
                  (Inl _, w4) \<Rightarrow> (genericOK, w4)
                | (Inr _, w4) \<Rightarrow>
                    (case SendMagicLink email (BuildVerifyURL (hn_url h) (cf_MagicLinkBaseURL (hn_cfg h))
                         (cf_MagicLinkPath (hn_cfg h)) rawToken) w4 of
                       (False, w5) \<Rightarrow> (genericOK, w5)
                     | (True, w5) \<Rightarrow> (genericOK, w5)))))"

definition guard_link :: "'u Handler \<Rightarrow> request \<Rightarrow> string \<Rightarrow> world \<Rightarrow> guard_error option \<times> world" where
  "guard_link h q email w =
     (case hn_guard h of None \<Rightarrow> (None, w) | Some g \<Rightarrow> on_redis (CheckRequestLink g (RealIP [] q) email) w)"

definition RequestLink :: "'u Handler \<Rightarrow> request \<Rightarrow> world \<Rightarrow> outcome \<times> world" where
  "RequestLink h q w =
     (if \<not> cf_SignupEnabled (hn_cfg h)
      then (problem (NewServiceUnavailable ''signup is currently disabled''), w)
      else case rq_email q of
        None \<Rightarrow> (problem (NewBadRequest ''invalid request body''), w)
      | Some raw \<Rightarrow>
          let email = auth_normalizeEmail h raw in
          if \<not> isValidEmail h email then (problem (NewBadRequest ''invalid email address''), w)
          else case guard_link h q email w of
            (Some e, w1) \<Rightarrow>
              (case e of
                 ErrDisposableDomain \<Rightarrow> (problem (NewBadRequest (guard_text e)), w1)
               | ErrRateLimited \<Rightarrow> (problem (NewTooManyRequests (guard_text e)), w1)
               | ErrResendCooldown \<Rightarrow> (genericOK, w1)
               | _ \<Rightarrow> send_link h q email w1)
          | (None, w1) \<Rightarrow> send_link h q email w1)"

section \<open>verify\<close>

definition setSessionCookie :: "string \<Rightarrow> string \<Rightarrow> int \<Rightarrow> bool \<Rightarrow> response \<Rightarrow> response" where
  "setSessionCookie name v ttlHours secure r = r\<lparr> rs_Cookies := rs_Cookies r @
     [\<lparr> ck_Name = name, ck_Value = v, ck_Path = ''/'', ck_MaxAge = ttlHours * 3600, ck_Secure = secure,
        ck_HTTPOnly = True, ck_SameSite = ''Lax'' \<rparr>] \<rparr>"

definition to_page :: "'u Handler \<Rightarrow> string \<Rightarrow> outcome" where
  "to_page h page = (None, redirect (cf_MagicLinkBaseURL (hn_cfg h) @ page) new_response)"

text \<open>The part of \<open>Verify\<close> after the token was consumed.\<close>

definition open_session :: "'u Handler \<Rightarrow> string \<Rightarrow> world \<Rightarrow> outcome \<times> world" where
  "open_session h identityID w =
     (let cfg = hn_cfg h in
      case on_pg (MarkEmailVerified identityID) w of (res, w1) \<Rightarrow>
      if (case res of Inl e \<Rightarrow> e \<noteq> ErrNotFound | Inr _ \<Rightarrow> False)
      then (problem (NewInternalError ''internal error''), w1)
      else case on_pg (GetIdentityByID identityID) w1 of
        (Inl _, w2) \<Rightarrow> (problem (NewInternalError ''internal error''), w2)
      | (Inr ident, w2) \<Rightarrow>
          (case time_now w2 of (now, w3) \<Rightarrow>
           case SignSession defaultCodec (cf_SigningSecret cfg)
                  \<lparr> sp_IdentityID = idn_ID ident, sp_Email = idn_Email ident, sp_IssuedAt = unix now,
                    sp_ExpiresAt = unix (now + cf_SignupSessionTTLHours cfg * hour) \<rparr> of
             Inl _ \<Rightarrow> (problem (NewInternalError ''internal error''), w3)
           | Inr v \<Rightarrow>
               ((None, redirect (cf_MagicLinkBaseURL cfg @ ''/signup/verified'')
                  (setSessionCookie (cf_SignupSessionCookieName cfg) v (cf_SignupSessionTTLHours cfg)
                     (cf_SignupSessionSecure cfg) new_response)), w3)))"

definition Verify :: "'u Handler \<Rightarrow> request \<Rightarrow> world \<Rightarrow> outcome \<times> world" where
  "Verify h q w =
     (let rawToken = trim_space (rq_token q) in
      if rawToken = [] then (problem (NewBadRequest ''missing token''), w)
      else case on_pg (ConsumeToken (HashToken rawToken)) w of
        (Inl e, w1) \<Rightarrow>
          (to_page h (''/signup/free?error='' @
             (if e = ErrNotFound then ''invalid-link''
              else if e = ErrTokenConsumed then ''link-used''
              else if e = ErrTokenExpired then ''link-expired''
              else ''server-error'')), w1)
      | (Inr tok, w1) \<Rightarrow> open_session h (mlt_IdentityID tok) w1)"

section \<open>me, issue-key, regenerate-key\<close>

text \<open>\<open>session\<close> is what \<open>SessionFromLocals\<close> finds.\<close>

definition Me :: "'u Handler \<Rightarrow> SessionPayload option \<Rightarrow> request \<Rightarrow> world \<Rightarrow> outcome \<times> world" where
  "Me h session q w =
     (case session of
        None \<Rightarrow> (problem (NewUnauthorized ''not authenticated''), w)
      | Some s \<Rightarrow>
          (case on_pg (GetIdentityByID (sp_IdentityID s)) w of
             (Inl e, w1) \<Rightarrow>
               ((if e = ErrNotFound then problem (NewUnauthorized ''identity not found'')
                 else problem (NewInternalError ''internal error'')), w1)
           | (Inr ident, w1) \<Rightarrow>
               (case on_pg (GetActiveKey (idn_ID ident)) w1 of (key, w2) \<Rightarrow>
                (ok_json (JObj [(''email'', JStr (idn_Email ident)),
                   (''email_verified'', JBool (idn_EmailVerifiedAt ident \<noteq> None)),
                   (''has_active_key'', JBool (case key of Inl _ \<Rightarrow> False | Inr _ \<Rightarrow> True)),
                   (''id'', JStr (idn_ID ident))]), w2))))"

definition key_json :: "string \<Rightarrow> string \<Rightarrow> json" where
  "key_json plaintext providerKeyID = JObj [(''plaintext'', JStr plaintext), (''provider_key_id'', JStr providerKeyID)]"

definition check_identity :: "string \<Rightarrow> world \<Rightarrow> outcome option \<times> world" where
  "check_identity identityID w =
     (case on_pg (GetIdentityByID identityID) w of
        (Inl e, w1) \<Rightarrow>
          (Some (if e = ErrNotFound then problem (NewUnauthorized ''identity not found'')
                 else problem (NewInternalError ''could not verify identity'')), w1)
      | (Inr _, w1) \<Rightarrow> (None, w1))"

definition IssueKey :: "'u Handler \<Rightarrow> SessionPayload option \<Rightarrow> request \<Rightarrow> world \<Rightarrow> outcome \<times> world" where
  "IssueKey h session q w =
     (case session of
        None \<Rightarrow> (problem (NewUnauthorized ''not authenticated''), w)
      | Some s \<Rightarrow>
          (case check_identity (sp_IdentityID s) w of
             (Some out, w1) \<Rightarrow> (out, w1)
           | (None, w1) \<Rightarrow>
          (case on_pg (GetActiveKey (sp_IdentityID s)) w1 of
             (Inr existing, w2) \<Rightarrow>
               (ok_json (JObj [(''created_at'', hn_time_json h (kr_CreatedAt existing)),
                  (''message'', JStr ''You already have an active API key. Use regenerate-key to replace it.''),
                  (''status'', JStr ''existing'')]), w2)
           | (Inl e, w2) \<Rightarrow>
               if e \<noteq> ErrNotFound then (problem (NewInternalError ''could not check key status''), w2)
               else
          (case on_unkey (CreateKey (hn_apiID h) [] (sp_IdentityID s)) w2 of
             (None, w3) \<Rightarrow> (problem (NewInternalError ''could not issue API key''), w3)
           | (Some (providerKeyID, plaintext), w3) \<Rightarrow>
          (case on_pg (InsertKey (sp_IdentityID s) providerKeyID) w3 of
             (Inl _, w4) \<Rightarrow>
               (problem (NewInternalError ''could not persist API key''),
                snd (on_unkey (unkey_RevokeKey providerKeyID) w4))
           | (Inr _, w4) \<Rightarrow> (ok_json (key_json plaintext providerKeyID), w4))))))"

definition guard_regenerate :: "'u Handler \<Rightarrow> string \<Rightarrow> world \<Rightarrow> guard_error option \<times> world" where
  "guard_regenerate h identityID w =
     (case hn_guard h of None \<Rightarrow> (None, w) | Some g \<Rightarrow> on_redis (CheckRegenerateKey g identityID) w)"

definition replace_key :: "'u Handler \<Rightarrow> string \<Rightarrow> string \<Rightarrow> world \<Rightarrow> outcome \<times> world" where
  "replace_key h identityID oldProviderKeyID w =
     (case on_unkey (CreateKey (hn_apiID h) [] identityID) w of
        (None, w1) \<Rightarrow> (problem (NewInternalError ''could not issue replacement key''), w1)
      | (Some (providerKeyID, plaintext), w1) \<Rightarrow>
          (case on_pg (RevokeAndInsertKey identityID oldProviderKeyID providerKeyID) w1 of
             (Inl _, w2) \<Rightarrow>
               (problem (NewInternalError ''could not persist replacement key''),
                snd (on_unkey (unkey_RevokeKey providerKeyID) w2))
           | (Inr _, w2) \<Rightarrow>
               (ok_json (key_json plaintext providerKeyID),
                if oldProviderKeyID \<noteq> [] then snd (on_unkey (unkey_RevokeKey oldProviderKeyID) w2) else w2)))"

definition RegenerateKey :: "'u Handler \<Rightarrow> SessionPayload option \<Rightarrow> request \<Rightarrow> world \<Rightarrow> outcome \<times> world" where
  "RegenerateKey h session q w =
     (case session of
        None \<Rightarrow> (problem (NewUnauthorized ''not authenticated''), w)
      | Some s \<Rightarrow>
          (case guard_regenerate h (sp_IdentityID s) w of (verdict, w1) \<Rightarrow>
           if verdict = Some ErrRegenerateCooldown
           then (problem (NewTooManyRequests (guard_text ErrRegenerateCooldown)), w1)
           else
          (case check_identity (sp_IdentityID s) w1 of
             (Some out, w2) \<Rightarrow> (out, w2)
           | (None, w2) \<Rightarrow>
          (case on_pg (GetActiveKey (sp_IdentityID s)) w2 of
             (Inl e, w3) \<Rightarrow>
               if e \<noteq> ErrNotFound then (problem (NewInternalError ''could not fetch existing key''), w3)
               else replace_key h (sp_IdentityID s) [] w3
           | (Inr existing, w3) \<Rightarrow> replace_key h (sp_IdentityID s) (kr_ProviderKeyID existing) w3))))"

section \<open>Session middleware and routes\<close>

definition sessionFromCookie :: "'u Handler \<Rightarrow> request \<Rightarrow> world \<Rightarrow> SessionPayload option \<times> world" where
  "sessionFromCookie h q w =
     (let val = rq_cookie q (cf_SignupSessionCookieName (hn_cfg h)) in
      if val = [] then (None, w)
      else case time_now w of (now, w1) \<Rightarrow>
        (case VerifySession defaultCodec (cf_SigningSecret (hn_cfg h)) val (unix now) of
           Inl _ \<Rightarrow> (None, w1) | Inr s \<Rightarrow> (Some s, w1)))"

definition RequireSession ::
  "'u Handler \<Rightarrow> (SessionPayload option \<Rightarrow> request \<Rightarrow> world \<Rightarrow> outcome \<times> world) \<Rightarrow>
   request \<Rightarrow> world \<Rightarrow> outcome \<times> world" where
  "RequireSession h next q w =
     (case sessionFromCookie h q w of
        (None, w1) \<Rightarrow> (problem (NewUnauthorized ''not authenticated''), w1)
      | (Some s, w1) \<Rightarrow> next (Some s) q w1)"

datatype signup_route = RouteRequestLink | RouteVerify | RouteMe | RouteIssueKey | RouteRegenerateKey

fun Register :: "'u Handler \<Rightarrow> signup_route \<Rightarrow> request \<Rightarrow> world \<Rightarrow> outcome \<times> world" where
  "Register h RouteRequestLink = RequestLink h"
| "Register h RouteVerify = Verify h"
| "Register h RouteMe = RequireSession h (Me h)"
| "Register h RouteIssueKey = RequireSession h (IssueKey h)"
| "Register h RouteRegenerateKey = RequireSession h (RegenerateKey h)"

end
