(* ===== verification/Url_Query.thy ===== *)
theory Url_Query
  imports Go_Codec "HOL-Library.Multiset" "HOL-Library.List_Lexorder"
begin

text \<open>
  Query strings: \<open>url.ParseQuery\<close> and \<open>url.QueryEscape\<close> of Go's \<open>net/url\<close>, and
  \<open>sortQueryString\<close> of \<open>internal/middleware/cache.go\<close>, which writes the parameters of a request
  in one order so that the order of arrival does not split cache entries. The lemmas show that the
  canonical text parses to the sorted parameters and holds none of the marks of a cache key.
\<close>

section \<open>Escaping\<close>

definition hex_upper :: string where
  "hex_upper = ''0123456789ABCDEF''"

definition unreserved :: "char \<Rightarrow> bool" where
  "unreserved c = (is_digit c \<or> is_upper c \<or> is_lower c \<or> c \<in> {CHR ''-'', CHR ''_'', CHR ''.'', CHR ''~''})"

definition escape_query_byte :: "char \<Rightarrow> string" where
  "escape_query_byte c =
     (if unreserved c then [c]
      else if c = CHR '' '' then ''+''
      else [CHR ''%'', hex_upper ! (byte c div 16), hex_upper ! (byte c mod 16)])"

definition QueryEscape :: "string \<Rightarrow> string" where
  "QueryEscape s = concat (map escape_query_byte s)"

fun QueryUnescape :: "string \<Rightarrow> string option" where
  "QueryUnescape [] = Some []"
| "QueryUnescape (c # s) =
     (if c = CHR ''%'' then
        (case s of
           a # b # r \<Rightarrow>
             (case (unhex a, unhex b) of
                (Some x, Some y) \<Rightarrow> map_option (Cons (char_of (16 * x + y))) (QueryUnescape r)
              | _ \<Rightarrow> None)
         | _ \<Rightarrow> None)
      else map_option (Cons (if c = CHR ''+'' then CHR '' '' else c)) (QueryUnescape s))"

section \<open>Parsing\<close>

text \<open>\<open>strings.Cut\<close> at a byte.\<close>

definition cut :: "char \<Rightarrow> string \<Rightarrow> string \<times> string" where
  "cut c s = (takeWhile (\<lambda>x. x \<noteq> c) s, drop 1 (dropWhile (\<lambda>x. x \<noteq> c) s))"

definition parse_pair :: "string \<Rightarrow> (string \<times> string) option" where
  "parse_pair s =
     (if CHR '';'' \<in> set s then None
      else case cut (CHR ''='') s of (k, v) \<Rightarrow>
        (case (QueryUnescape k, QueryUnescape v) of (Some k', Some v') \<Rightarrow> Some (k', v') | _ \<Rightarrow> None))"

text \<open>The parameters in the order of the text, or the error of a piece; empty pieces are skipped.\<close>

definition ParseQuery :: "string \<Rightarrow> (string \<times> string) list option" where
  "ParseQuery raw = those (map parse_pair (filter (\<lambda>s. s \<noteq> []) (split_byte (CHR ''&'') raw)))"

section \<open>The canonical query\<close>

text \<open>The parameters by key, and by value under a key.\<close>

definition sorted_params :: "(string \<times> string) list \<Rightarrow> (string \<times> string) list" where
  "sorted_params ps =
     concat (map (\<lambda>k. map (Pair k) (sort (map snd (filter (\<lambda>p. fst p = k) ps)))) (sort (remdups (map fst ps))))"

definition query_part :: "string \<times> string \<Rightarrow> string" where
  "query_part p = (if snd p = [] then QueryEscape (fst p) else QueryEscape (fst p) @ ''='' @ QueryEscape (snd p))"

definition sortQueryString :: "string \<Rightarrow> string" where
  "sortQueryString raw =
     (if raw = [] then []
      else case ParseQuery raw of
             None \<Rightarrow> raw
           | Some ps \<Rightarrow> join ''&'' (map query_part (sorted_params ps)))"

section \<open>Escaped text\<close>

lemma hex_upper_table: "list_all (\<lambda>n. unhex (hex_upper ! n) = Some n \<and> unreserved (hex_upper ! n)) [0..<16]"
  by code_simp

lemma hex_upper_digit: "n < 16 \<Longrightarrow> unhex (hex_upper ! n) = Some n \<and> unreserved (hex_upper ! n)"
  using hex_upper_table by (simp add: list_all_iff)

lemma hex_upper_byte:
  "unhex (hex_upper ! (byte c div 16)) = Some (byte c div 16)"
  "unhex (hex_upper ! (byte c mod 16)) = Some (byte c mod 16)"
  using hex_upper_digit byte_quot(1) [of c] by simp_all

lemma unreserved_not [simp]:
  "\<not> unreserved (CHR ''%'')" "\<not> unreserved (CHR ''+'')" "\<not> unreserved (CHR ''&'')" "\<not> unreserved (CHR ''='')"
  "\<not> unreserved (CHR '';'')" "\<not> unreserved (CHR '':'')" "\<not> unreserved (CHR '' '')"
  by code_simp+

lemma unescape_escape_byte: "QueryUnescape (escape_query_byte c @ s) = map_option (Cons c) (QueryUnescape s)"
proof -
  consider "unreserved c" | "c = CHR '' ''" | "\<not> unreserved c" "c \<noteq> CHR '' ''" by blast
  then show ?thesis
  proof cases
    case 1
    then have "c \<noteq> CHR ''%''" "c \<noteq> CHR ''+''" by auto
    then show ?thesis using 1 by (simp add: escape_query_byte_def)
  next
    case 2
    then show ?thesis by (simp add: escape_query_byte_def)
  next
    case 3
    then show ?thesis by (simp add: escape_query_byte_def hex_upper_byte)
  qed
qed

lemma unescape_escape: "QueryUnescape (QueryEscape s) = Some s"
  by (induction s) (simp_all add: QueryEscape_def unescape_escape_byte)

lemma escape_byte_marks: "c \<in> set (escape_query_byte x) \<Longrightarrow> unreserved c \<or> c \<in> {CHR ''%'', CHR ''+''}"
  using hex_upper_digit byte_quot(1) [of x] by (auto simp: escape_query_byte_def split: if_splits)

lemma escape_marks: "c \<in> set (QueryEscape s) \<Longrightarrow> unreserved c \<or> c \<in> {CHR ''%'', CHR ''+''}"
  using escape_byte_marks by (auto simp: QueryEscape_def)

lemma escape_no_mark [simp]:
  "CHR ''&'' \<notin> set (QueryEscape s)" "CHR ''='' \<notin> set (QueryEscape s)"
  "CHR '';'' \<notin> set (QueryEscape s)" "CHR '':'' \<notin> set (QueryEscape s)"
  using escape_marks [of "CHR ''&''" s] escape_marks [of "CHR ''=''" s] escape_marks [of "CHR '';''" s]
    escape_marks [of "CHR '':''" s] by auto

lemma escape_byte_not_Nil: "escape_query_byte c \<noteq> []"
  by (simp add: escape_query_byte_def)

lemma escape_Nil [simp]: "QueryEscape s = [] \<longleftrightarrow> s = []"
  by (cases s) (simp_all add: QueryEscape_def escape_byte_not_Nil)

section \<open>The canonical query parses to the sorted parameters\<close>

lemma takeWhile_no: "c \<notin> set s \<Longrightarrow> takeWhile (\<lambda>x. x \<noteq> c) (s @ c # t) = s \<and> dropWhile (\<lambda>x. x \<noteq> c) (s @ c # t) = c # t"
  by (induction s) auto

lemma takeWhile_all: "c \<notin> set s \<Longrightarrow> takeWhile (\<lambda>x. x \<noteq> c) s = s \<and> dropWhile (\<lambda>x. x \<noteq> c) s = []"
  by (induction s) auto

lemma parse_query_part: "parse_pair (query_part p) = Some p"
  by (cases p) (simp add: parse_pair_def query_part_def cut_def takeWhile_no takeWhile_all unescape_escape)

lemma query_part_Nil: "query_part p = [] \<longleftrightarrow> p = ([], [])"
  by (cases p) (simp add: query_part_def)

lemma query_part_marks: "CHR ''&'' \<notin> set (query_part p)" "CHR '':'' \<notin> set (query_part p)"
  by (simp_all add: query_part_def)

lemma split_byte_none: "c \<notin> set s \<Longrightarrow> split_byte c s = [s]"
  by (induction s) auto

lemma split_byte_append: "c \<notin> set s \<Longrightarrow> split_byte c (s @ c # t) = s # split_byte c t"
  by (induction s) auto

lemma split_join:
  "list_all (\<lambda>s. c \<notin> set s) xs \<Longrightarrow> filter (\<lambda>s. s \<noteq> []) (split_byte c (join [c] xs)) = filter (\<lambda>s. s \<noteq> []) xs"
proof (induction xs)
  case Nil
  then show ?case by simp
next
  case (Cons x xs)
  then show ?case
    by (cases "xs = []") (simp_all add: split_byte_none join_cons split_byte_append)
qed

lemma those_Some: "those (map Some xs) = Some xs"
  by (induction xs) simp_all

lemma parse_joined: "ParseQuery (join ''&'' (map query_part ps)) = Some (filter (\<lambda>p. p \<noteq> ([], [])) ps)"
proof -
  have "filter (\<lambda>s. s \<noteq> []) (split_byte (CHR ''&'') (join ''&'' (map query_part ps))) =
      filter (\<lambda>s. s \<noteq> []) (map query_part ps)"
    by (rule split_join) (simp add: list_all_iff query_part_marks)
  also have "\<dots> = map query_part (filter (\<lambda>p. p \<noteq> ([], [])) ps)"
    by (simp add: filter_map o_def query_part_Nil)
  finally show ?thesis by (simp add: ParseQuery_def parse_query_part those_Some o_def)
qed

lemma canonical_roundtrip:
  "ParseQuery raw = Some ps \<Longrightarrow>
     ParseQuery (sortQueryString raw) = Some (filter (\<lambda>p. p \<noteq> ([], [])) (sorted_params ps))"
  using parse_joined by (cases "raw = []") (auto simp: sortQueryString_def ParseQuery_def sorted_params_def)

lemma join_marks: "c \<in> set (join sep xs) \<Longrightarrow> c \<in> set sep \<or> (\<exists>x \<in> set xs. c \<in> set x)"
  by (induction xs rule: join.induct) auto

lemma canonical_no_colon: "ParseQuery raw = Some ps \<Longrightarrow> CHR '':'' \<notin> set (sortQueryString raw)"
  using join_marks [of "CHR '':''" "''&''" "map query_part (sorted_params ps)"]
  by (auto simp: sortQueryString_def query_part_marks)

section \<open>The order of the parameters does not matter\<close>

lemma count_params: "count (mset (sorted_params ps)) p = count (mset ps) p"
proof -
  obtain k v where p: "p = (k, v)" by (cases p)
  have one: "count (image_mset (Pair k') (mset xs)) (k, v) = (if k' = k then count (mset xs) v else 0)" for k' xs
    by (induction xs) auto
  have vals: "count (image_mset snd {#x \<in># mset ps. fst x = k#}) v = count (mset ps) (k, v)"
    by (induction ps) auto
  have fold: "distinct ks \<Longrightarrow> count (mset (concat (map (\<lambda>k'. map (Pair k') (f k')) ks))) (k, v) =
      (if k \<in> set ks then count (mset (f k)) v else 0)" for ks f
    by (induction ks) (auto simp add: one)
  have "k \<notin> fst ` set ps \<Longrightarrow> count (mset ps) (k, v) = 0"
    by (force simp: count_eq_zero_iff)
  then show ?thesis
    unfolding p sorted_params_def by (simp add: fold vals)
qed

lemma mset_sorted_params [simp]: "mset (sorted_params ps) = mset ps"
  by (rule multiset_eqI) (rule count_params)

lemma sorted_params_perm:
  assumes "mset ps = mset qs"
  shows "sorted_params ps = sorted_params qs"
proof -
  have perm: "mset (filter P ps) = mset (filter P qs)" for P
    using assms by simp
  have "sort (remdups (map fst ps)) = sort (remdups (map fst qs))"
    using assms by (intro sorted_distinct_set_unique) (auto simp: mset_eq_setD [OF assms])
  moreover have "sort (map snd (filter (\<lambda>p. fst p = k) ps)) = sort (map snd (filter (\<lambda>p. fst p = k) qs))" for k
    using perm by (intro properties_for_sort) (simp_all add: mset_map del: mset_filter)
  ultimately show ?thesis by (simp add: sorted_params_def)
qed

text \<open>Two queries that parse have one canonical text only for the same parameters, up to blank ones.\<close>

lemma canonical_same_params:
  assumes "ParseQuery r1 = Some ps1" "ParseQuery r2 = Some ps2" "sortQueryString r1 = sortQueryString r2"
  shows "mset (filter (\<lambda>p. p \<noteq> ([], [])) ps1) = mset (filter (\<lambda>p. p \<noteq> ([], [])) ps2)"
  using canonical_roundtrip [OF assms(1)] canonical_roundtrip [OF assms(2)] assms(3)
  by (metis mset_filter mset_sorted_params option.inject)

lemma same_params_canonical:
  assumes "ParseQuery r1 = Some ps1" "ParseQuery r2 = Some ps2" "mset ps1 = mset ps2"
  shows "sortQueryString r1 = sortQueryString r2"
proof -
  have "sortQueryString r = join ''&'' (map query_part (sorted_params ps))" if "ParseQuery r = Some ps" for r ps
    using that by (auto simp: sortQueryString_def ParseQuery_def sorted_params_def)
  then show ?thesis using assms sorted_params_perm [OF assms(3)] by metis
qed

end
