(* ===== verification/API_Gate.thy ===== *)
theory API_Gate
  imports Auth_Handlers Url_Query
begin

text \<open>
  The middleware in front of the API, \<open>internal/middleware\<close>: \<open>auth.go\<close> (keys verified by Unkey and
  cached in Redis), \<open>cache.go\<close> (responses cached in Redis), \<open>ratelimit.go\<close>, \<open>ipratelimit.go\<close>,
  \<open>timeout.go\<close> and \<open>security.go\<close>, and the chain that \<open>cmd/api/main.go\<close> builds of them for
  \<open>/v1\<close>. The handler behind the chain and the Unkey service are parameters; \<open>Auth\<close> takes the verifier as an argument, as the code takes an
  \<open>UnkeyVerifier\<close>, and \<open>v1_chain\<close> passes \<open>VerifyKey\<close>. Of a request, the
  method, path, raw query and \<open>Authorization\<close> header are given; Fiber's header names are canonical.
  Metrics and logging are left out.
\<close>

section \<open>base64: \<open>StdEncoding\<close>\<close>

text \<open>With padding; line breaks are skipped, the unused low bits of the last digit are ignored.\<close>

definition std64_digits :: string where
  "std64_digits = ''ABCDEFGHIJKLMNOPQRSTUVWXYZabcdefghijklmnopqrstuvwxyz0123456789+/''"

definition std64_encode :: "string \<Rightarrow> string" where
  "std64_encode s = map (nth std64_digits) (b64_sextets s) @ replicate ((3 - length s mod 3) mod 3) (CHR ''='')"

definition std64_decode :: "string \<Rightarrow> string option" where
  "std64_decode s =
     (let t = filter (\<lambda>c. c \<noteq> CHR 0x0A \<and> c \<noteq> CHR 0x0D) s;
          u = (if has_suffix t ''=='' then take (length t - 2) t
               else if has_suffix t ''='' then take (length t - 1) t else t);
          ds = map (index_byte std64_digits) u
      in if length t mod 4 \<noteq> 0 \<or> None \<in> set ds then None else b64_quads (map the ds))"

section \<open>Requests and the world\<close>

record gate_request =
  gq_Method :: string
  gq_Path :: string
  gq_Query :: string
  gq_Authorization :: string

text \<open>
  What the service said about a key, and the next Redis command when it said so; what a handler
  replied to a request of a tier, and likewise.
\<close>

record key_verdict =
  vd_key :: string
  vd_valid :: bool
  vd_tier :: string
  vd_at :: nat

record origin_reply =
  rp_request :: gate_request
  rp_tier :: string
  rp_response :: response
  rp_at :: nat

text \<open>
  \<open>gt_unkey\<close> gives the body of the service's n-th answer, \<open>None\<close> when none came;
  \<open>gt_origin\<close> is the handler's outcome for its n-th request. The last two fields record
  the calls made.
\<close>

record gate =
  gt_redis :: redis
  gt_unkey :: "nat \<Rightarrow> string \<Rightarrow> string option"
  gt_asked :: nat
  gt_origin :: "nat \<Rightarrow> gate_request \<Rightarrow> string \<Rightarrow> string \<Rightarrow> outcome"
  gt_served :: nat
  gt_clock :: "nat \<Rightarrow> instant"
  gt_ticks :: nat
  gt_verdicts :: "key_verdict list"
  gt_replies :: "origin_reply list"

definition gate_redis :: "(redis \<Rightarrow> 'a \<times> redis) \<Rightarrow> gate \<Rightarrow> 'a \<times> gate" where
  "gate_redis f w = (let (x, r) = f (gt_redis w) in (x, w\<lparr> gt_redis := r \<rparr>))"

definition gate_now :: "gate \<Rightarrow> instant \<times> gate" where
  "gate_now w = (gt_clock w (gt_ticks w), w\<lparr> gt_ticks := Suc (gt_ticks w) \<rparr>)"

text \<open>A header set before the chain goes on; a handler may overwrite it.\<close>

definition default_header :: "string \<Rightarrow> string \<Rightarrow> response \<Rightarrow> response" where
  "default_header k v r = (if rs_Headers r k = None then set_header k v r else r)"

section \<open>auth.go\<close>

definition TierFree :: string where "TierFree = ''free''"
definition TierDeveloper :: string where "TierDeveloper = ''developer''"
definition TierPro :: string where "TierPro = ''pro''"

definition unkeyTTL :: duration where "unkeyTTL = 30 * second"

text \<open>What \<open>VerifyKey\<close> makes of the answer's body: an error, or the verdict and the tier.\<close>

definition verify_result :: "string \<Rightarrow> (bool \<times> string) option" where
  "verify_result body =
     (case struct_members body of None \<Rightarrow> None | Some ms \<Rightarrow>
      case sub_struct ''data'' ms of None \<Rightarrow> None | Some ds \<Rightarrow>
      case sub_struct ''meta'' ds of None \<Rightarrow> None | Some es \<Rightarrow>
      case (bool_field ''valid'' ds, str_field ''tier'' es) of
        (Some valid, Some tier) \<Rightarrow>
          if \<not> api_error_reads ms \<or> pointer_set ''error'' ms then None
          else if \<not> valid then Some (False, [])
          else Some (True, if tier = [] then TierFree else to_lower tier)
      | _ \<Rightarrow> None)"

definition verify_payload :: "string \<Rightarrow> string" where
  "verify_payload key = json_print (JObj [(''key'', JStr key)])"

type_synonym verifier = "string \<Rightarrow> gate \<Rightarrow> (bool \<times> string) option \<times> gate"

definition VerifyKey :: verifier where
  "VerifyKey key w =
     (let res = Option.bind (gt_unkey w (gt_asked w) (verify_payload key)) verify_result;
          w1 = w\<lparr> gt_asked := Suc (gt_asked w) \<rparr>
      in (res, case res of None \<Rightarrow> w1 | Some (valid, tier) \<Rightarrow>
           w1\<lparr> gt_verdicts := gt_verdicts w1 @
             [\<lparr> vd_key = key, vd_valid = valid, vd_tier = tier, vd_at = rd_count (gt_redis w1) \<rparr>] \<rparr>))"

definition keyHash :: "string \<Rightarrow> string" where
  "keyHash rawKey = hex_encode (sha256 rawKey)"

definition verified_json :: "bool \<Rightarrow> string \<Rightarrow> string" where
  "verified_json valid tier = json_print (JObj [(''valid'', JBool valid), (''tier'', JStr tier)])"

definition cachedVerifyResult :: "string \<Rightarrow> (bool \<times> string) option" where
  "cachedVerifyResult data =
     (case struct_members data of None \<Rightarrow> None | Some ms \<Rightarrow>
      case (bool_field ''valid'' ms, str_field ''tier'' ms) of
        (Some valid, Some tier) \<Rightarrow> Some (valid, tier) | _ \<Rightarrow> None)"

definition verdict_key :: "string \<Rightarrow> string" where
  "verdict_key rawKey = ''unkey:'' @ keyHash rawKey"

text \<open>The verdict on a key: from the cache, else from the verifier, whose verdict is then cached.\<close>

definition lookup_key :: "verifier \<Rightarrow> verifier" where
  "lookup_key verify rawKey w =
     (let cacheKey = verdict_key rawKey in
      case gate_redis (GET cacheKey) w of (data, w1) \<Rightarrow>
      case Option.bind (Option.bind data (\<lambda>d. d)) cachedVerifyResult of
        Some res \<Rightarrow> (Some res, w1)
      | None \<Rightarrow>
          (case verify rawKey w1 of
             (None, w2) \<Rightarrow> (None, w2)
           | (Some (valid, tier), w2) \<Rightarrow>
               (Some (valid, tier), snd (gate_redis (SET cacheKey (verified_json valid tier) unkeyTTL) w2))))"

text \<open>The locals of an authenticated request: its tier and the hash of its key.\<close>

definition Auth :: "verifier \<Rightarrow> gate_request \<Rightarrow> gate \<Rightarrow> (ProblemDetail + string \<times> string) \<times> gate" where
  "Auth verify q w =
     (let authHeader = gq_Authorization q in
      if authHeader = [] then (Inl (NewUnauthorized ''Authorization header is required''), w)
      else if \<not> has_prefix authHeader ''Bearer '' then
        (Inl (NewUnauthorized ''Authorization header must use Bearer scheme''), w)
      else let rawKey = trim_prefix authHeader ''Bearer '' in
      if rawKey = [] then (Inl (NewUnauthorized ''Bearer token must not be empty''), w)
      else case lookup_key verify rawKey w of
        (None, w1) \<Rightarrow> (Inl (NewUnauthorized ''API key verification failed''), w1)
      | (Some (valid, tier), w1) \<Rightarrow>
          if \<not> valid then (Inl (NewUnauthorized ''Invalid API key''), w1)
          else (Inr (tier, keyHash rawKey), w1))"

section \<open>cache.go\<close>

definition routeTTLs :: "(string \<times> duration) list" where
  "routeTTLs = [(''/v1/context'', hour), (''/v1/models'', 30 * minute), (''/v1/providers'', 30 * minute),
     (''/v1/changes'', 10 * minute), (''/v1/compare'', 10 * minute)]"

definition ttlForPath :: "string \<Rightarrow> duration option" where
  "ttlForPath path = map_option snd (find (\<lambda>r. has_prefix path (fst r)) routeTTLs)"

definition replayedHeaders :: "string list" where
  "replayedHeaders = [''X-Total-Count'', ''X-Has-More'', ''X-Next-Cursor'']"

definition cacheEntryVersion :: int where "cacheEntryVersion = 2"

record cacheEntry =
  ce_V :: int
  ce_ContentType :: string
  ce_Headers :: "(string \<times> string) list"
  ce_Body :: string

definition cacheKey :: "gate_request \<Rightarrow> string \<Rightarrow> string" where
  "cacheKey q tier = ''cache:'' @ gq_Method q @ '':'' @ gq_Path q @ '':'' @ sortQueryString (gq_Query q) @ '':'' @ tier"

text \<open>The headers are a map, written in the order of its keys and left out when it is empty.\<close>

definition entry_json :: "cacheEntry \<Rightarrow> string" where
  "entry_json e = json_print (JObj
     ([(''v'', JNum (itoa (ce_V e))), (''ct'', JStr (ce_ContentType e))] @
      (if ce_Headers e = [] then [] else [(''h'', JObj (map (\<lambda>(k, v). (k, JStr v)) (sort_key fst (ce_Headers e))))]) @
      [(''b'', JStr (std64_encode (ce_Body e)))]))"

text \<open>A member of type \<open>map[string]string\<close>: \<open>null\<close> clears the map, a \<open>null\<close> value is empty.\<close>

definition string_map :: "(string \<times> json) list \<Rightarrow> (string \<times> string) list option" where
  "string_map ms = those (map (\<lambda>(k, v). case v of JStr s \<Rightarrow> Some (k, s) | JNull \<Rightarrow> Some (k, []) | _ \<Rightarrow> None) ms)"

definition map_field :: "string \<Rightarrow> (string \<times> json) list \<Rightarrow> (string \<times> string) list option" where
  "map_field name ms = foldl (\<lambda>acc (_, v). case (acc, v) of
       (Some _, JNull) \<Rightarrow> Some []
     | (Some xs, JObj ys) \<Rightarrow> map_option (append xs) (string_map ys)
     | _ \<Rightarrow> None) (Some []) (filter (\<lambda>(k, _). to_lower k = to_lower name) ms)"

text \<open>A member of type \<open>[]byte\<close>: base64 text, or an array of the bytes.\<close>

definition json_byte :: "json \<Rightarrow> char option" where
  "json_byte v = (case v of
     JNum n \<Rightarrow> Option.bind (atoi n) (\<lambda>i. if 0 \<le> i \<and> i < 256 then Some (char_of (nat i)) else None)
   | JNull \<Rightarrow> Some (char_of (0 :: nat)) | _ \<Rightarrow> None)"

definition bytes_field :: "string \<Rightarrow> (string \<times> json) list \<Rightarrow> string option" where
  "bytes_field name ms = foldl (\<lambda>acc (_, v). case (acc, v) of
       (Some _, JNull) \<Rightarrow> Some []
     | (Some _, JStr s) \<Rightarrow> std64_decode s
     | (Some _, JArr vs) \<Rightarrow> those (map json_byte vs)
     | _ \<Rightarrow> None) (Some []) (filter (\<lambda>(k, _). to_lower k = to_lower name) ms)"

definition entry_of :: "string \<Rightarrow> cacheEntry option" where
  "entry_of data =
     (case struct_members data of None \<Rightarrow> None | Some ms \<Rightarrow>
      case (int_field ''v'' ms, str_field ''ct'' ms, map_field ''h'' ms, bytes_field ''b'' ms) of
        (Some v, Some ct, Some h, Some b) \<Rightarrow>
          Some \<lparr> ce_V = v, ce_ContentType = ct, ce_Headers = h, ce_Body = b \<rparr>
      | _ \<Rightarrow> None)"

definition readable_entry :: "string \<Rightarrow> cacheEntry option" where
  "readable_entry data = (case entry_of data of
     Some e \<Rightarrow> if ce_V e = cacheEntryVersion then Some e else None | None \<Rightarrow> None)"

definition max_age :: "duration \<Rightarrow> response \<Rightarrow> response" where
  "max_age ttl = set_header ''Cache-Control'' (''max-age='' @ itoa (ttl div second) @ '', public'')"

definition replay :: "duration \<Rightarrow> cacheEntry \<Rightarrow> response" where
  "replay ttl e =
     (max_age ttl (set_header ''Content-Type'' (ce_ContentType e)
        (foldl (\<lambda>r (name, v). set_header name v r) new_response (ce_Headers e)))) \<lparr> rs_Body := ce_Body e \<rparr>"

text \<open>A response without a content type reports fasthttp's default.\<close>

definition content_type :: "response \<Rightarrow> string" where
  "content_type r = (case rs_Headers r ''Content-Type'' of Some ct \<Rightarrow> ct | None \<Rightarrow> ''text/plain; charset=utf-8'')"

definition entry_for :: "response \<Rightarrow> cacheEntry" where
  "entry_for r = \<lparr> ce_V = cacheEntryVersion, ce_ContentType = content_type r,
     ce_Headers = concat (map (\<lambda>name. case rs_Headers r name of
       Some v \<Rightarrow> if v = [] then [] else [(name, v)] | None \<Rightarrow> []) replayedHeaders),
     ce_Body = rs_Body r \<rparr>"

definition no_store :: "outcome \<Rightarrow> outcome" where
  "no_store = apsnd (default_header ''Cache-Control'' ''no-store'')"

definition store_response :: "string \<Rightarrow> duration \<Rightarrow> response \<Rightarrow> gate \<Rightarrow> gate" where
  "store_response key ttl r w =
     (if 200 \<le> rs_Status r \<and> rs_Status r < 300 \<and> rs_Body r \<noteq> []
      then snd (gate_redis (SET key (entry_json (entry_for r)) ttl) w) else w)"

definition Cache :: "gate_request \<Rightarrow> string \<Rightarrow> (gate \<Rightarrow> outcome \<times> gate) \<Rightarrow> gate \<Rightarrow> outcome \<times> gate" where
  "Cache q tier next w =
     (if gq_Method q \<noteq> ''GET'' then apfst no_store (next w)
      else case ttlForPath (gq_Path q) of
        None \<Rightarrow> apfst no_store (next w)
      | Some ttl \<Rightarrow>
          let key = cacheKey q tier in
          case gate_redis (GET key) w of (cached, w1) \<Rightarrow>
          (case Option.bind (Option.bind cached (\<lambda>d. d)) readable_entry of
             Some e \<Rightarrow> ((None, replay ttl e), w1)
           | None \<Rightarrow>
               (case next w1 of
                  ((Some err, r), w2) \<Rightarrow> ((Some err, r), w2)
                | ((None, r), w2) \<Rightarrow> ((None, max_age ttl r), store_response key ttl r w2))))"

section \<open>ratelimit.go\<close>

definition rateLimitTTL :: duration where "rateLimitTTL = 25 * hour"
definition rateLimitFree :: int where "rateLimitFree = 1000000"
definition rateLimitDeveloper :: int where "rateLimitDeveloper = 1000000"

definition pad :: "nat \<Rightarrow> int \<Rightarrow> string" where
  "pad n i = (let s = itoa i in replicate (n - length s) (CHR ''0'') @ s)"

text \<open>The day of the proleptic Gregorian calendar that is \<open>n\<close> days after 1 January 1970.\<close>

definition civil_date :: "int \<Rightarrow> int \<times> int \<times> int" where
  "civil_date n =
     (let z = n + 719468; era = z div 146097; doe = z mod 146097;
          yoe = (doe - doe div 1460 + doe div 36524 - doe div 146096) div 365;
          doy = doe - (365 * yoe + yoe div 4 - yoe div 100);
          mp = (5 * doy + 2) div 153;
          m = (if mp < 10 then mp + 3 else mp - 9)
      in (yoe + era * 400 + (if m \<le> 2 then 1 else 0), m, doy - (153 * mp + 2) div 5 + 1))"

definition date_string :: "instant \<Rightarrow> string" where
  "date_string t = (case civil_date (t div (24 * hour)) of
     (y, m, d) \<Rightarrow> pad 4 y @ ''-'' @ pad 2 m @ ''-'' @ pad 2 d)"

definition next_midnight :: "instant \<Rightarrow> instant" where
  "next_midnight t = (t div (24 * hour) + 1) * (24 * hour)"

definition counter_key :: "string \<Rightarrow> instant \<Rightarrow> string" where
  "counter_key hash now = ''ratelimit:'' @ hash @ '':'' @ date_string now"

definition retry_later :: "int \<Rightarrow> string \<Rightarrow> outcome" where
  "retry_later secs detail = (Some (Problem (NewTooManyRequests detail)),
     set_header ''Retry-After'' (itoa (max 0 secs)) new_response)"

text \<open>Go's integer division, and its conversion of seconds to an integer, truncate towards zero.\<close>

definition go_quot :: "int \<Rightarrow> int \<Rightarrow> int" where
  "go_quot a b = sgn a * (\<bar>a\<bar> div b)"

definition seconds_until :: "instant \<Rightarrow> instant \<Rightarrow> int" where
  "seconds_until t now = go_quot (t - now) second"

definition RateLimit :: "string \<Rightarrow> string \<Rightarrow> (gate \<Rightarrow> outcome \<times> gate) \<Rightarrow> gate \<Rightarrow> outcome \<times> gate" where
  "RateLimit tier hash next w =
     (if tier = TierPro then next w
      else
        let limit = (if tier = TierDeveloper then rateLimitDeveloper else rateLimitFree) in
        case gate_now w of (now, w1) \<Rightarrow>
        let counterKey = counter_key hash now; midnight = next_midnight now in
        case gate_redis (INCR counterKey) w1 of
          (None, w2) \<Rightarrow> next w2
        | (Some n, w2) \<Rightarrow>
            let w3 = (if n = 1
                      then snd (gate_redis (EXPIRE counterKey rateLimitTTL)
                             (snd (gate_redis (EXPIREAT counterKey midnight) w2)))
                      else w2) in
            if limit < n then
              (case gate_now w3 of (now2, w4) \<Rightarrow>
                (retry_later (seconds_until midnight now2)
                   (''daily limit of '' @ itoa limit @ '' requests exceeded; resets at midnight UTC''), w4))
            else next w3)"

section \<open>ipratelimit.go\<close>

definition ipRateLimitWindow :: duration where "ipRateLimitWindow = 15 * minute"
definition ipRateLimitMax :: int where "ipRateLimitMax = 10"

definition window_key :: "string \<Rightarrow> int \<Rightarrow> string" where
  "window_key ip windowIndex = ''iprl:'' @ take 16 (hex_encode (sha256 ip)) @ '':'' @ itoa windowIndex"

definition IPRateLimit :: "string list \<Rightarrow> request \<Rightarrow> (gate \<Rightarrow> outcome \<times> gate) \<Rightarrow> gate \<Rightarrow> outcome \<times> gate" where
  "IPRateLimit trustedProxies q next w =
     (case gate_now w of (nowTime, w1) \<Rightarrow>
      let windowSec = ipRateLimitWindow div second;
          windowIndex = go_quot (nowTime div second) windowSec;
          windowKey = window_key (RealIP trustedProxies q) windowIndex;
          windowEnd = (windowIndex + 1) * windowSec * second in
      case gate_redis (INCR windowKey) w1 of
        (None, w2) \<Rightarrow> next w2
      | (Some n, w2) \<Rightarrow>
          let w3 = (if n = 1
                    then (case gate_redis (EXPIREAT windowKey windowEnd) w2 of
                            (None, w3) \<Rightarrow> snd (gate_redis (EXPIRE windowKey ipRateLimitWindow) w3)
                          | (Some _, w3) \<Rightarrow> w3)
                    else w2) in
          if ipRateLimitMax < n
          then (retry_later (seconds_until windowEnd nowTime)
                  (''too many requests'' @ dash @ ''try again later''), w3)
          else next w3)"

section \<open>timeout.go, security.go\<close>

definition streamingRoutePrefixes :: "string list" where
  "streamingRoutePrefixes = [''/v1/stream'']"

definition isStreamingRoute :: "string \<Rightarrow> bool" where
  "isStreamingRoute path = list_ex (has_prefix (to_lower path)) streamingRoutePrefixes"

text \<open>
  The deadline of the context that a request's commands and handler run under. A command that
  misses it fails in the model as \<open>Lost\<close> or \<open>NoReply\<close>, a handler that does as \<open>DeadlineExceeded\<close>.
\<close>

definition RequestTimeout :: "duration \<Rightarrow> string \<Rightarrow> instant \<Rightarrow> instant option \<Rightarrow> instant option" where
  "RequestTimeout timeout path now prev =
     (if isStreamingRoute path then prev
      else Some (case prev of None \<Rightarrow> now + timeout | Some d \<Rightarrow> min d (now + timeout)))"

definition Security :: "outcome \<Rightarrow> outcome" where
  "Security = apsnd (default_header ''X-Frame-Options'' ''DENY'' \<circ> default_header ''X-Content-Type-Options'' ''nosniff'')"

section \<open>The chain of \<open>/v1\<close>\<close>

definition call_origin :: "gate_request \<Rightarrow> string \<Rightarrow> string \<Rightarrow> gate \<Rightarrow> outcome \<times> gate" where
  "call_origin q tier hash w =
     (let (err, r) = gt_origin w (gt_served w) q tier hash; w1 = w\<lparr> gt_served := Suc (gt_served w) \<rparr>
      in ((err, r), if err = None
          then w1\<lparr> gt_replies := gt_replies w1 @ [\<lparr> rp_request = q, rp_tier = tier, rp_response = r,
                     rp_at = rd_count (gt_redis w1) \<rparr>] \<rparr>
          else w1))"

definition v1_chain :: "gate_request \<Rightarrow> gate \<Rightarrow> outcome \<times> gate" where
  "v1_chain q w =
     (case Auth VerifyKey q w of
        (Inl p, w1) \<Rightarrow> (problem p, w1)
      | (Inr (tier, hash), w1) \<Rightarrow> Cache q tier (RateLimit tier hash (call_origin q tier hash)) w1)"

definition answer :: "gate_request \<Rightarrow> gate \<Rightarrow> response \<times> gate" where
  "answer q w = (case v1_chain q w of (res, w1) \<Rightarrow> (serve (gq_Path q) (Security res), w1))"

definition run_gate :: "gate_request list \<Rightarrow> gate \<Rightarrow> gate" where
  "run_gate qs w = foldl (\<lambda>w q. snd (v1_chain q w)) w qs"

end
