(* ===== verification/Json_Text.thy ===== *)
theory Json_Text
  imports Go_Json
begin

text \<open>
  What \<open>encoding/json\<close> guarantees of the strings it returns: they are valid UTF-8, whatever the
  bytes it was given, and stay so in lower case.
\<close>

section \<open>One encoded character\<close>

definition rune :: "string \<Rightarrow> bool" where
  "rune p \<longleftrightarrow> p \<noteq> [] \<and> (\<forall>t. rune_width (p @ t) = length p)"

lemma valid_rune: "rune p \<Longrightarrow> valid_utf8 s \<Longrightarrow> valid_utf8 (p @ s)"
  by (subst valid_utf8.simps) (auto simp: rune_def)

lemma rune_ascii: "byte c < 128 \<Longrightarrow> rune [c]"
  by (simp add: rune_def rune_width_ascii)

lemma rune_taken: "rune_width s \<noteq> 0 \<Longrightarrow> rune (take (rune_width s) s)"
  using rune_width_take [of s "rune_width s"] by (auto simp: rune_def)

lemma byte_char: "n < 256 \<Longrightarrow> byte (char_of n) = n"
  by (simp add: byte_def of_char_of take_bit_nat_eq_self)

lemma rune_utf8_1: "n < 128 \<Longrightarrow> rune (utf8 n)"
  by (simp add: utf8_def rune_ascii byte_char)

lemma rune_utf8_2:
  assumes "128 \<le> n" "n < 2048"
  shows "rune (utf8 n)"
proof -
  have "2 \<le> n div 64" "n div 64 < 32" using assms by auto
  then show ?thesis
    using assms by (simp add: utf8_def rune_def rune_width_def byte_char cont_byte_def)
qed

lemma rune_utf8_3:
  assumes "2048 \<le> n" "n < 65536" "\<not> (0xD800 \<le> n \<and> n < 0xE000)"
  shows "rune (utf8 n)"
proof -
  define m where "m = n div 64"
  have q: "n div 4096 = m div 64" by (simp add: m_def flip: div_mult2_eq)
  have m: "m = 64 * (m div 64) + m mod 64" by simp
  have "32 \<le> m" "m < 1024" "m < 864 \<or> 896 \<le> m" using assms by (auto simp: m_def)
  then have "n div 4096 < 16" "n div 4096 = 0 \<longrightarrow> 32 \<le> n div 64 mod 64" "n div 4096 = 13 \<longrightarrow> n div 64 mod 64 < 32"
    unfolding q m_def [symmetric] using m by - (linarith, (intro impI, linarith)+)
  then show ?thesis
    using assms by (simp add: utf8_def rune_def rune_width_def byte_char cont_byte_def)
qed

lemma rune_utf8_4:
  assumes "65536 \<le> n" "n < 0x110000"
  shows "rune (utf8 n)"
proof -
  define m where "m = n div 4096"
  have q: "n div 262144 = m div 64" by (simp add: m_def flip: div_mult2_eq)
  have m: "m = 64 * (m div 64) + m mod 64" by simp
  have "16 \<le> m" "m < 272" using assms by (auto simp: m_def)
  then have "n div 262144 < 5" "n div 262144 = 0 \<longrightarrow> 16 \<le> n div 4096 mod 64" "n div 262144 = 4 \<longrightarrow> n div 4096 mod 64 < 16"
    unfolding q m_def [symmetric] using m by - (linarith, (intro impI, linarith)+)
  then show ?thesis
    using assms by (simp add: utf8_def rune_def rune_width_def byte_char cont_byte_def)
qed

lemma rune_utf8: "n < 0x110000 \<Longrightarrow> \<not> (0xD800 \<le> n \<and> n < 0xE000) \<Longrightarrow> rune (utf8 n)"
  using rune_utf8_1 rune_utf8_2 rune_utf8_3 rune_utf8_4 by (meson not_less)

section \<open>Strings of the parser\<close>

lemma valid_Nil [simp]: "valid_utf8 []"
  by (subst valid_utf8.simps) simp

lemma push_valid: "push p x = Some (s, r) \<Longrightarrow> rune p \<Longrightarrow> (\<And>s r. x = Some (s, r) \<Longrightarrow> valid_utf8 s) \<Longrightarrow> valid_utf8 s"
  by (auto simp: push_def valid_rune)

lemma unescape_ascii: "unescape c = Some x \<Longrightarrow> byte x < 128"
  by (auto simp: unescape_def byte_def split: if_splits)

lemma unhex_bound: "unhex c = Some k \<Longrightarrow> k < 16"
  by (auto simp: unhex_def is_digit_def less_eq_char_def byte_def split: if_splits)

lemma hex4_bound: "hex4 s = Some n \<Longrightarrow> n < 65536"
proof -
  assume "hex4 s = Some n"
  then obtain a b c d where h: "map unhex (take 4 s) = [Some a, Some b, Some c, Some d]"
    and n: "n = 4096 * a + 256 * b + 16 * c + d"
    by (auto simp: hex4_def split: list.splits option.splits)
  then have "a < 16" "b < 16" "c < 16" "d < 16" using unhex_bound by (auto simp: map_eq_Cons_conv)
  then show ?thesis unfolding n by simp
qed

lemma parse_str_valid: "parse_str s = Some (x, r) \<Longrightarrow> valid_utf8 x"
proof (induction "length s" arbitrary: s x r rule: less_induct)
  case less
  have ih: "valid_utf8 y" if "push p (parse_str t) = Some (y, r')" "rune p" "length t < length s" for p t y r'
    using that(1,2) less.hyps [OF that(3)] by (rule push_valid)
  have surrogate: "rune (utf8 (0x2400 + ((n - 0xD800) * 1024 + m)))"
    if "0xD800 \<le> n" "n < 0xDC00" "0xDC00 \<le> m" "m < 0xE000" for n m :: nat
    using that by (intro rune_utf8) auto
  have hex: "rune (utf8 n)" if "hex4 t = Some n" "\<not> (0xD800 \<le> n \<and> n < 0xE000)" for t n
    using that hex4_bound [OF that(1)] by (intro rune_utf8) auto
  have fffd: "rune (utf8 0xFFFD)" by (rule rune_utf8) auto
  note runes = surrogate hex fffd rune_ascii [OF unescape_ascii] rune_ascii rune_taken
  show ?case
    using less.prems
    by (subst (asm) parse_str.simps)
      (auto simp: Let_def intro: runes split: if_splits list.splits option.splits elim!: ih)
qed

section \<open>Values of the parser\<close>

fun json_utf8 :: "json \<Rightarrow> bool" where
  "json_utf8 (JStr s) = valid_utf8 s"
| "json_utf8 (JArr vs) = list_all json_utf8 vs"
| "json_utf8 (JObj ms) = list_all (\<lambda>(k, v). json_utf8 v) ms"
| "json_utf8 v = True"

lemma literal_text: "literal l v s = Some (w, r) \<Longrightarrow> w = v"
  by (auto simp: literal_def split: if_splits)

lemma parse_val_text:
  shows "parse_val n s = Some (v, r) \<Longrightarrow> json_utf8 v"
    and "parse_elems n s = Some (vs, r) \<Longrightarrow> list_all json_utf8 vs"
    and "parse_members n s = Some (ms, r) \<Longrightarrow> list_all (\<lambda>(k, v). json_utf8 v) ms"
proof (induction n s and n s and n s arbitrary: v r and vs r and ms r
    rule: parse_val_parse_elems_parse_members.induct)
  case (2 n s)
  then show ?case
    by (auto split: list.splits if_splits option.splits dest: parse_str_valid literal_text)
next
  case (4 n s)
  then show ?case by (auto split: option.splits)
next
  case (6 n s)
  then show ?case by (auto simp: bind_eq_Some_conv intro: parse_str_valid split: option.splits)
qed simp_all

lemma json_parse_text: "json_parse s = Some v \<Longrightarrow> json_utf8 v"
  by (auto simp: json_parse_def simp del: parse_val.simps split: option.splits if_splits dest: parse_val_text(1))

lemma struct_members_text: "struct_members s = Some ms \<Longrightarrow> (k, v) \<in> set ms \<Longrightarrow> json_utf8 v"
  by (auto simp: struct_members_def list_all_iff split: option.splits json.splits dest!: json_parse_text)

lemma str_field_text:
  assumes "str_field name ms = Some s" "\<And>k v. (k, v) \<in> set ms \<Longrightarrow> json_utf8 v"
  shows "valid_utf8 s"
proof (cases "field_values name ms" rule: rev_cases)
  case Nil
  then show ?thesis using assms(1) by (simp add: str_field_def)
next
  case (snoc vs v)
  then have "v = JStr s" using assms(1) by (auto simp: str_field_def split: option.splits json.splits)
  moreover have "v \<in> set (field_values name ms)" using snoc by simp
  ultimately show ?thesis using assms(2) by (force simp: field_values_def)
qed

section \<open>Lower case\<close>

lemma lower_byte: "lower_char c = c \<or> byte c < 128 \<and> byte (lower_char c) < 128"
proof (cases "is_upper c")
  case True
  then have "65 \<le> byte c" "byte c \<le> 90" by (simp_all add: is_upper_def less_eq_char_def byte_def)
  then show ?thesis using True by (simp add: lower_char_def byte_char flip: byte_def)
qed (simp add: lower_char_def)

lemma lower_byte_order:
  assumes "128 \<le> k"
  shows "byte (lower_char c) < k \<longleftrightarrow> byte c < k" "k \<le> byte (lower_char c) \<longleftrightarrow> k \<le> byte c"
    "byte (lower_char c) \<le> k \<longleftrightarrow> byte c \<le> k" "byte (lower_char c) = k \<longleftrightarrow> byte c = k"
  using lower_byte [of c] assms by auto

lemma rune_width_lower: "rune_width (to_lower s) = rune_width s"
proof -
  consider "s = []" | a where "s = [a]" | a b where "s = [a, b]" | a b c where "s = [a, b, c]"
    | a b c d u where "s = a # b # c # d # u"
    by (metis list.exhaust)
  then show ?thesis
    by cases (simp_all add: rune_width_def to_lower_def cont_byte_def lower_byte_order)
qed

lemma lower_drop: "drop n (to_lower s) = to_lower (drop n s)" "to_lower [] = []"
  by (simp_all add: to_lower_def drop_map)

lemma valid_lower: "valid_utf8 s \<Longrightarrow> valid_utf8 (to_lower s)"
proof (induction s rule: valid_utf8.induct)
  case (1 s)
  then show ?case
    by (subst valid_utf8.simps, subst (asm) (2) valid_utf8.simps)
      (auto simp: rune_width_lower lower_drop split: if_splits)
qed

end
