(* ===== verification/Gate_Guarantees.thy ===== *)
theory Gate_Guarantees
  imports API_Gate Json_Text
begin

text \<open>
  What the middleware of \<open>/v1\<close> guarantees over every sequence of requests: a request that gets past
  \<open>Auth\<close> carries a key whose hash was verified at most 30 seconds before, and a reply from the cache
  is the reply of the handler to a request with the same cache key. The proofs rest on one
  invariant, that every \<open>unkey:\<close> and \<open>cache:\<close> entry in Redis comes from a recorded call.
\<close>

section \<open>What is stored is read back\<close>

lemma std64_table: "list_all (\<lambda>n. index_byte std64_digits (std64_digits ! n) = Some n \<and>
    std64_digits ! n \<notin> {CHR ''='', CHR 0x0A, CHR 0x0D}) [0..<64]"
  by code_simp

lemma std64_digit: "n < 64 \<Longrightarrow> index_byte std64_digits (std64_digits ! n) = Some n"
  "n < 64 \<Longrightarrow> std64_digits ! n \<notin> {CHR ''='', CHR 0x0A, CHR 0x0D}"
  using std64_table by (simp_all add: list_all_iff)

lemma length_sextets: "length (b64_sextets s) = 4 * (length s div 3) + (if length s mod 3 = 0 then 0 else length s mod 3 + 1)"
proof (induction s rule: b64_sextets.induct)
  case (4 a b c s)
  have "length (a # b # c # s) = length s + 3" by simp
  then show ?case using 4 by (simp del: length_Cons)
qed simp_all

lemma no_suffix: "CHR ''='' \<notin> set s \<Longrightarrow> \<not> has_suffix s ''=''" "CHR ''='' \<notin> set s \<Longrightarrow> \<not> has_suffix s ''==''"
  by (cases s rule: rev_cases; auto simp: has_suffix_def)+

lemma std64_roundtrip: "std64_decode (std64_encode s) = Some s"
proof -
  let ?d = "map (nth std64_digits) (b64_sextets s)"
  let ?p = "replicate ((3 - length s mod 3) mod 3) (CHR ''='')"
  have marks: "c \<notin> {CHR ''='', CHR 0x0A, CHR 0x0D}" if "c \<in> set ?d" for c
    using that std64_digit(2) b64_sextets_bound [of s] by auto
  then have filt: "filter (\<lambda>c. c \<noteq> CHR 0x0A \<and> c \<noteq> CHR 0x0D) (std64_encode s) = ?d @ ?p"
    by (auto simp: std64_encode_def intro!: filter_id_conv [THEN iffD2])
  have digits: "map (index_byte std64_digits) ?d = map Some (b64_sextets s)"
    using std64_digit(1) b64_sextets_bound [of s] by simp
  have inv: "map (\<lambda>n. the (index_byte std64_digits (std64_digits ! n))) (b64_sextets s) = b64_sextets s"
    using std64_digit(1) b64_sextets_bound [of s] by (intro map_idI) simp
  have eq: "CHR ''='' \<notin> set ?d" using marks by blast
  consider "length s mod 3 = 0" | "length s mod 3 = 1" | "length s mod 3 = 2" by linarith
  then show ?thesis
  proof cases
    case 1
    then show ?thesis
      using no_suffix [OF eq] length_sextets [of s] digits inv b64_quads_sextets [of s]
      by (simp add: std64_decode_def filt o_def image_iff)
  next
    case 2
    then show ?thesis
      using length_sextets [of s] digits inv b64_quads_sextets [of s]
      by (simp add: std64_decode_def filt o_def image_iff has_suffix_def numeral_2_eq_2)
  next
    case 3
    have "\<not> has_prefix (rev ?d) ''=''" using no_suffix(1) [OF eq] by (simp add: has_suffix_def)
    then show ?thesis
      using 3 length_sextets [of s] digits inv b64_quads_sextets [of s]
      by (simp add: std64_decode_def filt o_def image_iff has_suffix_def Let_def)
  qed
qed


lemma cached_names:
  "valid_utf8 ''valid''" "valid_utf8 ''tier''" "valid_utf8 ''v''" "valid_utf8 ''ct''" "valid_utf8 ''h''"
  "valid_utf8 ''b''" "list_all valid_utf8 replayedHeaders" "valid_utf8 ''text/plain; charset=utf-8''"
  by code_simp+

lemma verified_roundtrip: "valid_utf8 t \<Longrightarrow> cachedVerifyResult (verified_json b t) = Some (b, t)"
proof -
  assume t: "valid_utf8 t"
  have "json_parse (verified_json b t) = Some (JObj [(''valid'', JBool b), (''tier'', JStr t)])"
    unfolding verified_json_def by (rule json_roundtrip) (simp add: cached_names t)
  moreover have "to_lower ''valid'' = ''valid''" "to_lower ''tier'' = ''tier''" by code_simp+
  ultimately show ?thesis
    by (simp add: cachedVerifyResult_def struct_members_def bool_field_def str_field_def field_values_def)
qed

definition entry_text :: "cacheEntry \<Rightarrow> bool" where
  "entry_text e \<longleftrightarrow> valid_utf8 (ce_ContentType e) \<and> (\<forall>(k, v) \<in> set (ce_Headers e). valid_utf8 k \<and> valid_utf8 v)"

lemma std64_utf8: "valid_utf8 (std64_encode s)"
proof -
  have ascii: "list_all (\<lambda>c. byte c < 128) s \<Longrightarrow> valid_utf8 s" for s
  proof (induction s)
    case (Cons c s)
    then show ?case using valid_rune [OF rune_ascii, of c s] by simp
  qed simp
  have "list_all (\<lambda>n. byte (std64_digits ! n) < 128) [0..<64]" by code_simp
  then have "byte (std64_digits ! n) < 128" if "n < 64" for n using that by (simp add: list_all_iff)
  then show ?thesis
    using b64_sextets_bound [of s] by (intro ascii) (auto simp: std64_encode_def list_all_iff byte_def)
qed

lemma string_map_strings: "string_map (map (\<lambda>(k, v). (k, JStr v)) hs) = Some hs"
  by (induction hs) (auto simp: string_map_def)

lemma entry_roundtrip:
  assumes "ce_V e = 2" "entry_text e"
  shows "readable_entry (entry_json e) = Some (e\<lparr> ce_Headers := sort_key fst (ce_Headers e) \<rparr>)"
proof -
  let ?ms = "[(''v'', JNum (itoa (ce_V e))), (''ct'', JStr (ce_ContentType e))] @
      (if ce_Headers e = [] then [] else [(''h'', JObj (map (\<lambda>(k, v). (k, JStr v)) (sort_key fst (ce_Headers e))))]) @
      [(''b'', JStr (std64_encode (ce_Body e)))]"
  have "num_literal (itoa (ce_V e))" by (rule num_literal_itoa) (simp_all add: assms(1))
  then have "json_parse (entry_json e) = Some (JObj ?ms)"
    unfolding entry_json_def using assms(2)
    by (intro json_roundtrip) (auto simp: cached_names std64_utf8 entry_text_def list_all_iff)
  moreover have "to_lower ''v'' = ''v''" "to_lower ''ct'' = ''ct''" "to_lower ''h'' = ''h''" "to_lower ''b'' = ''b''"
    by code_simp+
  moreover have "atoi (itoa (ce_V e)) = Some 2" by (simp add: assms(1))
  ultimately show ?thesis
    using assms(1) string_map_strings [of "sort_key fst (ce_Headers e)"]
    by (cases e) (auto simp: readable_entry_def entry_of_def struct_members_def int_field_def str_field_def
        field_values_def map_field_def bytes_field_def std64_roundtrip cacheEntryVersion_def)
qed

section \<open>The invariant\<close>

definition verdict_real :: "gate \<Rightarrow> key_verdict \<Rightarrow> bool" where
  "verdict_real w v \<longleftrightarrow> (\<exists>n body. gt_unkey w n (verify_payload (vd_key v)) = Some body \<and>
     verify_result body = Some (vd_valid v, vd_tier v))"

definition reply_real :: "gate \<Rightarrow> origin_reply \<Rightarrow> bool" where
  "reply_real w p \<longleftrightarrow> (\<exists>n hash. gt_origin w n (rp_request p) (rp_tier p) hash = (None, rp_response p))"

definition verdict_entry :: "gate \<Rightarrow> string \<Rightarrow> rentry \<Rightarrow> bool" where
  "verdict_entry w k e \<longleftrightarrow> (\<exists>v \<in> set (gt_verdicts w). k = verdict_key (vd_key v) \<and>
     e = \<lparr> re_value = RStr (verified_json (vd_valid v) (vd_tier v)),
           re_expires = Some (rd_now (gt_redis w) (vd_at v) + unkeyTTL) \<rparr>)"

text \<open>A reply that \<open>Cache\<close> stores for so long.\<close>

definition cacheable :: "origin_reply \<Rightarrow> duration \<Rightarrow> bool" where
  "cacheable p ttl \<longleftrightarrow> gq_Method (rp_request p) = ''GET'' \<and> ttlForPath (gq_Path (rp_request p)) = Some ttl \<and>
     200 \<le> rs_Status (rp_response p) \<and> rs_Status (rp_response p) < 300"

definition reply_entry :: "gate \<Rightarrow> string \<Rightarrow> rentry \<Rightarrow> bool" where
  "reply_entry w k e \<longleftrightarrow> (\<exists>p \<in> set (gt_replies w). \<exists>ttl. cacheable p ttl \<and>
     k = cacheKey (rp_request p) (rp_tier p) \<and>
     e = \<lparr> re_value = RStr (entry_json (entry_for (rp_response p))),
           re_expires = Some (rd_now (gt_redis w) (rp_at p) + ttl) \<rparr>)"

definition entry_ok :: "gate \<Rightarrow> string \<Rightarrow> rentry \<Rightarrow> bool" where
  "entry_ok w k e \<longleftrightarrow> (has_prefix k ''unkey:'' \<longrightarrow> verdict_entry w k e) \<and> (has_prefix k ''cache:'' \<longrightarrow> reply_entry w k e)"

definition gate_ok :: "gate \<Rightarrow> bool" where
  "gate_ok w \<longleftrightarrow> (\<forall>v \<in> set (gt_verdicts w). verdict_real w v) \<and> (\<forall>p \<in> set (gt_replies w). reply_real w p) \<and>
     (\<forall>k e. rd_keys (gt_redis w) k = Some e \<longrightarrow> entry_ok w k e)"

definition gate_le :: "gate \<Rightarrow> gate \<Rightarrow> bool" where
  "gate_le w w' \<longleftrightarrow> gt_unkey w' = gt_unkey w \<and> gt_origin w' = gt_origin w \<and>
     rd_now (gt_redis w') = rd_now (gt_redis w) \<and> gt_served w \<le> gt_served w' \<and>
     set (gt_verdicts w) \<subseteq> set (gt_verdicts w') \<and> set (gt_replies w) \<subseteq> set (gt_replies w')"

definition sound :: "gate \<Rightarrow> gate \<Rightarrow> bool" where
  "sound w w' \<longleftrightarrow> gate_le w w' \<and> (gate_ok w \<longrightarrow> gate_ok w')"

lemma gate_le_refl [simp]: "gate_le w w"
  by (simp add: gate_le_def)

lemma gate_le_trans: "gate_le a b \<Longrightarrow> gate_le b c \<Longrightarrow> gate_le a c"
  by (auto simp: gate_le_def)

lemma sound_refl [simp]: "sound w w"
  by (simp add: sound_def)

lemma sound_trans [trans]: "sound a b \<Longrightarrow> sound b c \<Longrightarrow> sound a c"
  by (auto simp: sound_def intro: gate_le_trans)

lemma entry_ok_mono: "gate_le w w' \<Longrightarrow> entry_ok w k e \<Longrightarrow> entry_ok w' k e"
  by (auto simp: gate_le_def entry_ok_def verdict_entry_def reply_entry_def)

lemma real_mono: "gate_le w w' \<Longrightarrow> verdict_real w v \<Longrightarrow> verdict_real w' v"
  "gate_le w w' \<Longrightarrow> reply_real w p \<Longrightarrow> reply_real w' p"
  by (auto simp: gate_le_def verdict_real_def reply_real_def)

text \<open>A Redis command whose entries are all accounted for keeps the invariant.\<close>

lemma gate_redis_sound:
  assumes "gate_redis (command f) w = (x, w')"
    and "\<And>now ks k e. now = rd_now (gt_redis w) (rd_count (gt_redis w)) \<Longrightarrow>
      snd (f now ks) k = Some e \<Longrightarrow> ks k = Some e \<or> entry_ok w k e"
  shows "sound w w'"
proof -
  obtain r' where c: "command f (gt_redis w) = (x, r')" and w': "w' = w\<lparr> gt_redis := r' \<rparr>"
    using assms(1) by (auto simp: gate_redis_def split: prod.splits)
  have le: "gate_le w w'" using command_frame [OF c] by (simp add: w' gate_le_def)
  have "entry_ok w' k e" if ok: "gate_ok w" and e: "rd_keys r' k = Some e" for k e
  proof -
    have "rd_keys (gt_redis w) k = Some e \<or> entry_ok w k e"
      using command_keys [OF c] e assms(2) [OF refl] live_Some by metis
    then show ?thesis using ok entry_ok_mono [OF le] by (auto simp: gate_ok_def)
  qed
  then show ?thesis
    using le real_mono [OF le] by (auto simp: sound_def gate_ok_def w')
qed

lemma GET_sound: "gate_redis (GET k) w = (x, w') \<Longrightarrow> sound w w'"
  unfolding GET_def by (erule gate_redis_sound) simp

text \<open>Keys that are neither verdicts nor cached replies.\<close>

definition plain_key :: "string \<Rightarrow> bool" where
  "plain_key k \<longleftrightarrow> \<not> has_prefix k ''unkey:'' \<and> \<not> has_prefix k ''cache:''"

lemma counter_sound:
  "plain_key k \<Longrightarrow> gate_redis (INCR k) w = (x, w') \<Longrightarrow> sound w w'"
  "plain_key k \<Longrightarrow> gate_redis (EXPIRE k d) w = (y, w') \<Longrightarrow> sound w w'"
  "plain_key k \<Longrightarrow> gate_redis (EXPIREAT k t) w = (y, w') \<Longrightarrow> sound w w'"
  unfolding INCR_def EXPIRE_def EXPIREAT_def
  by (rule gate_redis_sound, assumption,
      auto simp: incr_by_def expire_at_def entry_ok_def plain_key_def split: option.splits if_splits)+

lemma SET_sound:
  assumes "entry_ok w k \<lparr> re_value = RStr v, re_expires = Some (rd_now (gt_redis w) (rd_count (gt_redis w)) + ttl) \<rparr>"
    and "0 < ttl" "gate_redis (SET k v ttl) w = (x, w')"
  shows "sound w w'"
  using assms(3) unfolding SET_def
  by (rule gate_redis_sound) (use assms in \<open>auto simp: set_ex_def split: if_splits\<close>)

section \<open>The steps of the chain keep it\<close>

lemma gate_now_sound: "gate_now w = (t, w') \<Longrightarrow> sound w w'"
  by (auto simp: gate_now_def sound_def gate_le_def gate_ok_def verdict_real_def reply_real_def entry_ok_def
      verdict_entry_def reply_entry_def)

text \<open>A call of the service or of the handler that is recorded.\<close>

lemma logged_sound:
  assumes "gate_le w w'" "gt_redis w' = gt_redis w"
    and "\<And>v. v \<in> set (gt_verdicts w') \<Longrightarrow> v \<in> set (gt_verdicts w) \<or> verdict_real w' v"
    and "\<And>p. p \<in> set (gt_replies w') \<Longrightarrow> p \<in> set (gt_replies w) \<or> reply_real w' p"
  shows "sound w w'"
  unfolding sound_def gate_ok_def assms(2)
  using assms(1,3,4) real_mono [OF assms(1)] entry_ok_mono [OF assms(1)] by blast

lemma VerifyKey_sound:
  assumes "VerifyKey key w = (res, w')"
  shows "sound w w'"
    and "res = Some (valid, tier) \<Longrightarrow> \<exists>v. v \<in> set (gt_verdicts w') \<and> verdict_real w' v \<and> vd_key v = key \<and>
      vd_valid v = valid \<and> vd_tier v = tier \<and> vd_at v = rd_count (gt_redis w')"
    and "gt_redis w' = gt_redis w"
proof -
  have le: "gate_le w w'" and red: "gt_redis w' = gt_redis w" and rep: "gt_replies w' = gt_replies w"
    using assms by (auto simp: VerifyKey_def gate_le_def Let_def split: option.splits)
  have new: "verdict_real w' v" if "v \<in> set (gt_verdicts w')" "v \<notin> set (gt_verdicts w)" for v
    using that assms
    by (auto simp: VerifyKey_def Let_def verdict_real_def bind_eq_Some_conv intro!: exI [of _ "gt_asked w"] split: option.splits)
  show "sound w w'" using new by (intro logged_sound [OF le red]) (auto simp: rep)
  show "gt_redis w' = gt_redis w" by (rule red)
  assume "res = Some (valid, tier)"
  then show "\<exists>v. v \<in> set (gt_verdicts w') \<and> verdict_real w' v \<and> vd_key v = key \<and> vd_valid v = valid \<and>
      vd_tier v = tier \<and> vd_at v = rd_count (gt_redis w')"
    using assms by (auto simp: VerifyKey_def Let_def verdict_real_def bind_eq_Some_conv intro!: exI [of _ "gt_asked w"])
qed

lemma call_origin_sound:
  assumes "call_origin q tier hash w = (res, w')"
  shows "sound w w'" "gt_served w' = Suc (gt_served w)" "res = gt_origin w (gt_served w) q tier hash"
    and "fst res = None \<Longrightarrow> \<exists>p. p \<in> set (gt_replies w') \<and> rp_request p = q \<and> rp_tier p = tier \<and>
      rp_response p = snd res \<and> rp_at p = rd_count (gt_redis w')"
proof -
  have le: "gate_le w w'" and red: "gt_redis w' = gt_redis w" and ver: "gt_verdicts w' = gt_verdicts w"
    using assms by (auto simp: call_origin_def gate_le_def Let_def split: prod.splits if_splits)
  have new: "reply_real w' p" if "p \<in> set (gt_replies w')" "p \<notin> set (gt_replies w)" for p
    using that assms
    by (auto simp: call_origin_def Let_def reply_real_def intro!: exI [of _ "gt_served w"] exI [of _ hash]
        split: prod.splits if_splits)
  show "sound w w'" using new by (intro logged_sound [OF le red]) (auto simp: ver)
  obtain err r where o: "gt_origin w (gt_served w) q tier hash = (err, r)" by fastforce
  have w': "w' = (let w1 = w\<lparr> gt_served := Suc (gt_served w) \<rparr> in if err = None
      then w1\<lparr> gt_replies := gt_replies w @ [\<lparr> rp_request = q, rp_tier = tier, rp_response = r,
        rp_at = rd_count (gt_redis w) \<rparr>] \<rparr> else w1)" and res: "res = (err, r)"
    using assms by (cases err; simp add: call_origin_def o)+
  show "gt_served w' = Suc (gt_served w)" "res = gt_origin w (gt_served w) q tier hash"
    by (simp_all add: w' res o Let_def)
  show "\<exists>p. p \<in> set (gt_replies w') \<and> rp_request p = q \<and> rp_tier p = tier \<and>
      rp_response p = snd res \<and> rp_at p = rd_count (gt_redis w')" if "fst res = None"
    using that unfolding w' res Let_def
    by (intro exI [of _ "\<lparr> rp_request = q, rp_tier = tier, rp_response = r, rp_at = rd_count (gt_redis w) \<rparr>"]) simp
qed

text \<open>\<open>RateLimit\<close> refuses, or ends by handing the request on.\<close>

lemma counter_plain: "plain_key (counter_key hash t)"
  by (simp add: plain_key_def counter_key_def)

lemma RateLimit_cases:
  assumes "RateLimit tier hash next w = (res, w')"
  obtains w1 where "sound w w1" "next w1 = (res, w')"
  | "sound w w'" "fst res \<noteq> None"
proof (cases "tier = TierPro")
  case True
  then show thesis using assms that(1) [of w] by (simp add: RateLimit_def)
next
  case False
  obtain t w1 where now: "gate_now w = (t, w1)" by fastforce
  let ?k = "counter_key hash t"
  obtain n w2 where incr: "gate_redis (INCR ?k) w1 = (n, w2)" by fastforce
  obtain x w3 where at: "gate_redis (EXPIREAT ?k (next_midnight t)) w2 = (x, w3)" by fastforce
  obtain y w4 where exp: "gate_redis (EXPIRE ?k rateLimitTTL) w3 = (y, w4)" by fastforce
  obtain t5 w5 where now5: "gate_now (if n = Some 1 then w4 else w2) = (t5, w5)" by fastforce
  have s2: "sound w w2"
    using gate_now_sound [OF now] counter_sound(1) [OF counter_plain incr] by (rule sound_trans)
  also have "sound w2 w4"
    using counter_sound(3) [OF counter_plain at] counter_sound(2) [OF counter_plain exp] by (rule sound_trans)
  finally have s3: "sound w (if n = Some 1 then w4 else w2)" using s2 by simp
  have s5: "sound w w5" using s3 gate_now_sound [OF now5] by (rule sound_trans)
  show thesis
    using assms that(1) [OF s2] that(1) [OF s3] that(2) s5 now5 False
    by (auto simp: RateLimit_def now incr at exp Let_def retry_later_def split: option.splits if_splits)
qed

section \<open>Authentication\<close>

lemma key_text: "has_prefix (verdict_key s) ''unkey:''" "\<not> has_prefix (verdict_key s) ''cache:''"
  "has_prefix (cacheKey q tier) ''cache:''" "\<not> has_prefix (cacheKey q tier) ''unkey:''"
  by (simp_all add: cacheKey_def verdict_key_def)

lemma sub_struct_text:
  assumes "sub_struct name ms = Some xs" "\<And>k v. (k, v) \<in> set ms \<Longrightarrow> json_utf8 v" "(k, v) \<in> set xs"
  shows "json_utf8 v"
proof -
  have "foldl (\<lambda>acc v. case (acc, v) of (Some xs, JObj ys) \<Rightarrow> Some (xs @ ys) | _ \<Rightarrow> None) (Some []) vs = Some xs \<Longrightarrow>
      list_all json_utf8 vs \<Longrightarrow> \<forall>(k, v) \<in> set xs. json_utf8 v" for vs xs
  proof (induction vs arbitrary: xs rule: rev_induct)
    case (snoc v vs)
    then show ?case by (auto simp: list_all_iff split: option.splits json.splits)
  qed simp
  then show ?thesis
    using assms by (force simp: sub_struct_def field_values_def list_all_iff)
qed

lemma verify_result_text:
  assumes "verify_result body = Some (valid, tier)"
  shows "valid_utf8 tier"
proof -
  have free: "valid_utf8 TierFree" unfolding TierFree_def by code_simp
  show ?thesis
    using assms free str_field_text [OF _ sub_struct_text [OF _ sub_struct_text [OF _ struct_members_text]]]
    by (auto simp: verify_result_def valid_lower split: option.splits if_splits bool.splits)
qed

lemma gate_redis_logs: "gate_redis f w = (x, w') \<Longrightarrow> gt_verdicts w' = gt_verdicts w \<and> gt_replies w' = gt_replies w \<and>
    gt_served w' = gt_served w \<and> f (gt_redis w) = (x, gt_redis w')"
  by (auto simp: gate_redis_def split: prod.splits)

text \<open>What \<open>GET\<close> returns was stored and has not expired.\<close>

lemma GET_live:
  assumes "gate_redis (GET k) w = (Some (Some d), w')"
  shows "\<exists>e. rd_keys (gt_redis w) k = Some e \<and> \<not> expired (rd_now (gt_redis w) (rd_count (gt_redis w))) e \<and>
    (\<forall>s. re_value e = RStr s \<longrightarrow> d = s)"
proof -
  let ?now = "rd_now (gt_redis w) (rd_count (gt_redis w))"
  have "GET k (gt_redis w) = (Some (Some d), gt_redis w')" using gate_redis_logs [OF assms] by simp
  then obtain e where e: "live ?now (rd_keys (gt_redis w)) k = Some e"
    "d = (case re_value e of RStr v \<Rightarrow> v | RInt n \<Rightarrow> itoa n)"
    unfolding GET_def by (auto dest!: command_Some)
  then show ?thesis by (intro exI [of _ e]) (auto simp: live_Some)
qed

text \<open>A verdict of the service on a key with the same hash is on record and younger than the TTL.\<close>

definition vouched :: "gate \<Rightarrow> instant \<Rightarrow> string \<Rightarrow> bool \<Rightarrow> string \<Rightarrow> bool" where
  "vouched w t key valid tier \<longleftrightarrow> (\<exists>v \<in> set (gt_verdicts w). keyHash (vd_key v) = keyHash key \<and>
     vd_valid v = valid \<and> vd_tier v = tier \<and> verdict_real w v \<and> t \<le> rd_now (gt_redis w) (vd_at v) + unkeyTTL)"

lemma vouched_mono:
  assumes "gate_le w w'" "vouched w t key valid tier"
  shows "vouched w' t key valid tier"
proof -
  obtain v where "v \<in> set (gt_verdicts w)" "keyHash (vd_key v) = keyHash key" "vd_valid v = valid" "vd_tier v = tier"
    "verdict_real w v" "t \<le> rd_now (gt_redis w) (vd_at v) + unkeyTTL"
    using assms(2) unfolding vouched_def by blast
  then show ?thesis
    using real_mono(1) [OF assms(1)] assms(1) unfolding vouched_def by (intro bexI [of _ v]) (auto simp: gate_le_def)
qed

definition redis_time :: "gate \<Rightarrow> instant" where
  "redis_time w = rd_now (gt_redis w) (rd_count (gt_redis w))"

lemma cached_verdict:
  assumes "gate_redis (GET (verdict_key key)) w = (Some (Some d), w1)" "cachedVerifyResult d = Some (valid, tier)"
    and "gate_ok w"
  shows "vouched w (redis_time w) key valid tier"
proof -
  obtain e where e: "rd_keys (gt_redis w) (verdict_key key) = Some e" "\<not> expired (redis_time w) e"
    "\<And>s. re_value e = RStr s \<Longrightarrow> d = s"
    using GET_live [OF assms(1)] unfolding redis_time_def by blast
  have "verdict_entry w (verdict_key key) e" using assms(3) e(1) key_text(1) by (auto simp: gate_ok_def entry_ok_def)
  then obtain v where v: "v \<in> set (gt_verdicts w)" "verdict_key key = verdict_key (vd_key v)"
    "re_value e = RStr (verified_json (vd_valid v) (vd_tier v))"
    "re_expires e = Some (rd_now (gt_redis w) (vd_at v) + unkeyTTL)"
    by (auto simp: verdict_entry_def)
  have real: "verdict_real w v" using assms(3) v(1) by (auto simp: gate_ok_def)
  then have "valid_utf8 (vd_tier v)" using verify_result_text by (auto simp: verdict_real_def)
  then have "(valid, tier) = (vd_valid v, vd_tier v)" using verified_roundtrip assms(2) e(3) [OF v(3)] by simp
  then show ?thesis
    unfolding vouched_def using v e(2) real by (intro bexI [of _ v]) (auto simp: expired_def verdict_key_def)
qed

lemma GET_time: "gate_redis (GET k) w = (x, w') \<Longrightarrow> mono (rd_now (gt_redis w)) \<Longrightarrow>
    rd_now (gt_redis w') = rd_now (gt_redis w) \<and> redis_time w \<le> redis_time w'"
  using gate_redis_logs [of "GET k" w x w'] unfolding GET_def
  by (auto simp: redis_time_def mono_def dest!: command_frame)

lemma unkeyTTL_pos: "0 < unkeyTTL"
  by (simp add: unkeyTTL_def second_def)

lemma SET_verdict_sound:
  assumes "v \<in> set (gt_verdicts w)" "vd_at v = rd_count (gt_redis w)"
    and "gate_redis (SET (verdict_key (vd_key v)) (verified_json (vd_valid v) (vd_tier v)) unkeyTTL) w = (x, w')"
  shows "sound w w'"
proof -
  have "verdict_entry w (verdict_key (vd_key v)) \<lparr> re_value = RStr (verified_json (vd_valid v) (vd_tier v)),
      re_expires = Some (rd_now (gt_redis w) (rd_count (gt_redis w)) + unkeyTTL) \<rparr>"
    using assms(1,2) by (auto simp: verdict_entry_def)
  then show ?thesis
    using assms(3) key_text(1,2) by (intro SET_sound [OF _ unkeyTTL_pos assms(3)]) (simp_all add: entry_ok_def)
qed

lemma trim_bearer: "has_prefix s ''Bearer '' \<Longrightarrow> s = ''Bearer '' @ trim_prefix s ''Bearer ''"
  by (auto simp: trim_prefix_def has_prefix_iff)

section \<open>What \<open>Auth\<close> relies on in its verifier\<close>

text \<open>
  The contract of \<open>UnkeyVerifier\<close>: a call touches neither Redis nor the handlers, keeps the
  invariant, and a verdict that it returns is on record at the moment it is given.
\<close>

locale key_verifier =
  fixes verify :: verifier
  assumes verified:
    "verify key w = (res, w') \<Longrightarrow> sound w w'"
    "verify key w = (res, w') \<Longrightarrow> gt_redis w' = gt_redis w"
    "verify key w = (res, w') \<Longrightarrow> gt_served w' = gt_served w"
    "verify key w = (res, w') \<Longrightarrow> res = Some (valid, tier) \<Longrightarrow> \<exists>v. v \<in> set (gt_verdicts w') \<and> verdict_real w' v \<and>
       vd_key v = key \<and> vd_valid v = valid \<and> vd_tier v = tier \<and> vd_at v = rd_count (gt_redis w')"
begin

lemma lookup_key_spec:
  assumes "lookup_key verify key w = (res, w')"
  shows "sound w w' \<and> gt_served w' = gt_served w \<and>
    (gate_ok w \<longrightarrow> mono (rd_now (gt_redis w)) \<longrightarrow> res = Some (valid, tier) \<longrightarrow> vouched w' (redis_time w) key valid tier)"
proof -
  obtain data w1 where get: "gate_redis (GET (verdict_key key)) w = (data, w1)" by fastforce
  have s1: "sound w w1" and l1: "gt_served w1 = gt_served w" using GET_sound [OF get] gate_redis_logs [OF get] by simp_all
  show ?thesis
  proof (cases "Option.bind (Option.bind data (\<lambda>d. d)) cachedVerifyResult")
    case (Some hit)
    then have r: "res = Some hit" "w' = w1" using assms by (simp_all add: lookup_key_def get)
    obtain d where d: "data = Some (Some d)" "cachedVerifyResult d = Some hit"
      using Some by (auto simp: bind_eq_Some_conv)
    have "vouched w (redis_time w) key valid tier" if "gate_ok w" "res = Some (valid, tier)"
      using cached_verdict [OF get [unfolded d(1)] _ that(1)] d(2) r(1) that(2) by simp
    then show ?thesis using r s1 l1 vouched_mono by (auto simp: sound_def)
  next
    case None
    obtain r2 w2 where ver: "verify key w1 = (r2, w2)" by fastforce
    note V = verified [OF ver]
    have s2: "sound w w2" using s1 V(1) by (rule sound_trans)
    have l2: "gt_served w2 = gt_served w" using V(3) l1 by simp
    show ?thesis
    proof (cases r2)
      case none: None
      then have "res = None" "w' = w2" using assms None by (simp_all add: lookup_key_def get ver)
      then show ?thesis using s2 l2 by simp
    next
      case (Some vt)
      obtain v where v: "v \<in> set (gt_verdicts w2)" "verdict_real w2 v" "vd_key v = key" "vt = (vd_valid v, vd_tier v)"
        "vd_at v = rd_count (gt_redis w2)"
        using V(4) [of "fst vt" "snd vt"] Some by (auto simp: prod_eq_iff)
      obtain x w3 where set: "gate_redis (SET (verdict_key key) (verified_json (vd_valid v) (vd_tier v)) unkeyTTL) w2 = (x, w3)"
        by fastforce
      have r: "res = Some vt" "w' = w3" using assms None Some by (simp_all add: lookup_key_def get ver v(4) set)
      have s3: "sound w2 w3" using SET_verdict_sound [OF v(1,5)] set v(3) by simp
      have "redis_time w \<le> rd_now (gt_redis w2) (vd_at v) + unkeyTTL" if "mono (rd_now (gt_redis w))"
      proof -
        have "redis_time w \<le> redis_time w1" using GET_time [OF get that] by simp
        moreover have "rd_now (gt_redis w2) (vd_at v) = redis_time w1" by (simp add: redis_time_def V(2) v(5))
        ultimately show ?thesis using unkeyTTL_pos by linarith
      qed
      then have "mono (rd_now (gt_redis w)) \<Longrightarrow> vouched w2 (redis_time w) key (vd_valid v) (vd_tier v)"
        using v by (auto simp: vouched_def)
      then show ?thesis
        using r v(4) s2 s3 sound_trans [OF s2 s3] l2 gate_redis_logs [OF set] vouched_mono
        by (auto simp: sound_def)
    qed
  qed
qed

text \<open>Past \<open>Auth\<close>, and what stops a request there.\<close>

lemma Auth_spec:
  assumes "Auth verify q w = (res, w')"
  shows "sound w w'" "gt_served w' = gt_served w"
    and "res = Inr (tier, hash) \<Longrightarrow> gate_ok w \<Longrightarrow> mono (rd_now (gt_redis w)) \<Longrightarrow>
      \<exists>key. gq_Authorization q = ''Bearer '' @ key \<and> key \<noteq> [] \<and> hash = keyHash key \<and>
        vouched w' (redis_time w) key True tier"
proof -
  let ?key = "trim_prefix (gq_Authorization q) ''Bearer ''"
  obtain r w1 where l: "lookup_key verify ?key w = (r, w1)" by fastforce
  have s: "sound w w1" "gt_served w1 = gt_served w" using lookup_key_spec [OF l] by auto
  then show "sound w w'" "gt_served w' = gt_served w"
    using assms l by (auto simp: Auth_def Let_def split: if_splits option.splits)
  assume r: "res = Inr (tier, hash)" and ok: "gate_ok w" "mono (rd_now (gt_redis w))"
  have "has_prefix (gq_Authorization q) ''Bearer ''" "?key \<noteq> []" "r = Some (True, tier)" "w' = w1" "hash = keyHash ?key"
    using assms l r by (auto simp: Auth_def Let_def split: if_splits option.splits)
  then show "\<exists>key. gq_Authorization q = ''Bearer '' @ key \<and> key \<noteq> [] \<and> hash = keyHash key \<and>
        vouched w' (redis_time w) key True tier"
    using lookup_key_spec [OF l, of True tier] ok trim_bearer by blast
qed

end

lemma VerifyKey_served: "VerifyKey key w = (res, w') \<Longrightarrow> gt_served w' = gt_served w"
  by (auto simp: VerifyKey_def Let_def split: option.splits)

interpretation unkey: key_verifier VerifyKey
  by unfold_locales (fact VerifyKey_sound(1) VerifyKey_sound(3) VerifyKey_served VerifyKey_sound(2))+

section \<open>The response cache\<close>

definition nonempty :: "string option \<Rightarrow> string option" where
  "nonempty v = (case v of Some s \<Rightarrow> if s = [] then None else Some s | None \<Rightarrow> None)"

text \<open>A reply in the cache, still live, to a request with this key.\<close>

definition replayed :: "gate \<Rightarrow> instant \<Rightarrow> string \<Rightarrow> response \<Rightarrow> bool" where
  "replayed w t key r \<longleftrightarrow> (\<exists>p \<in> set (gt_replies w). \<exists>ttl. reply_real w p \<and> cacheable p ttl \<and>
     cacheKey (rp_request p) (rp_tier p) = key \<and> t \<le> rd_now (gt_redis w) (rp_at p) + ttl \<and>
     rs_Status r = 200 \<and> rs_Body r = rs_Body (rp_response p) \<and>
     rs_Headers r ''Content-Type'' = Some (content_type (rp_response p)) \<and>
     (\<forall>name \<in> set replayedHeaders. rs_Headers r name = nonempty (rs_Headers (rp_response p) name)))"

text \<open>The header values of the handlers' responses are UTF-8.\<close>

definition origin_utf8 :: "gate \<Rightarrow> bool" where
  "origin_utf8 w \<longleftrightarrow> (\<forall>n q tier hash r name v. gt_origin w n q tier hash = (None, r) \<longrightarrow>
     rs_Headers r name = Some v \<longrightarrow> valid_utf8 v)"

lemma ttl_pos: "ttlForPath path = Some ttl \<Longrightarrow> 0 < ttl"
  by (auto simp: ttlForPath_def routeTTLs_def hour_def minute_def second_def split: if_splits)

lemma entry_for_text:
  assumes "\<And>name v. rs_Headers r name = Some v \<Longrightarrow> valid_utf8 v"
  shows "entry_text (entry_for r)"
  using assms cached_names(7,8)
  by (auto simp: entry_text_def entry_for_def content_type_def replayedHeaders_def split: option.splits if_splits)

text \<open>Replaying the entry of a response restores what the entry holds of it.\<close>

lemma fold_headers:
  "rs_Headers (foldl (\<lambda>r (name, v). set_header name v r) r0 hs) k =
     (case map_of (rev hs) k of Some v \<Rightarrow> Some v | None \<Rightarrow> rs_Headers r0 k)"
  "rs_Status (foldl (\<lambda>r (name, v). set_header name v r) r0 hs) = rs_Status r0"
  by (induction hs rule: rev_induct) (auto simp: set_header_def)

text \<open>The stored headers are those of the list that the response has, each once.\<close>

lemma stored_headers:
  fixes f :: "string \<Rightarrow> string option"
  defines "hs ns \<equiv> concat (map (\<lambda>name. case f name of Some v \<Rightarrow> if v = [] then [] else [(name, v)] | None \<Rightarrow> []) ns)"
  assumes "distinct ns"
  shows "map_of (rev (sort_key fst (hs ns))) k = (if k \<in> set ns then nonempty (f k) else None)"
proof -
  have sub: "fst ` set (hs ns) \<subseteq> set ns" for ns by (auto simp: hs_def split: option.splits if_splits)
  have "distinct (map fst (hs ns))" using assms(2)
  proof (induction ns)
    case (Cons n ns)
    then show ?case using sub [of ns] by (auto simp: hs_def split: option.splits)
  qed (simp add: hs_def)
  moreover have "distinct (map fst (sort_key fst (hs ns))) = distinct (map fst (hs ns))"
    by (intro mset_eq_imp_distinct_iff) simp
  ultimately have "map_of (rev (sort_key fst (hs ns))) = map_of (hs ns)"
    by (intro map_of_inject_set [THEN iffD2]) (simp_all add: rev_map [symmetric])
  moreover have "map_of (hs ns) k = (if k \<in> set ns then nonempty (f k) else None)"
    by (induction ns) (auto simp: hs_def nonempty_def map_add_def split: option.splits)
  ultimately show ?thesis by simp
qed

lemma replay_entry:
  defines "e r \<equiv> entry_for r \<lparr> ce_Headers := sort_key fst (ce_Headers (entry_for r)) \<rparr>"
  shows "rs_Status (replay ttl (e r)) = 200" "rs_Body (replay ttl (e r)) = rs_Body r"
    "rs_Headers (replay ttl (e r)) ''Content-Type'' = Some (content_type r)"
    "name \<in> set replayedHeaders \<Longrightarrow> rs_Headers (replay ttl (e r)) name = nonempty (rs_Headers r name)"
proof -
  have e: "ce_Headers (e r) = sort_key fst (ce_Headers (entry_for r))" "ce_ContentType (e r) = content_type r"
    "ce_Body (e r) = rs_Body r"
    by (simp_all add: e_def entry_for_def)
  have other: "rs_Headers (max_age ttl (set_header ''Content-Type'' ct r0)) name = rs_Headers r0 name"
    if "name \<in> set replayedHeaders" for r0 ct name
    using that by (auto simp: max_age_def set_header_def replayedHeaders_def)
  have "distinct replayedHeaders" by code_simp
  note h = stored_headers [OF this, of "rs_Headers r"]
  show "rs_Status (replay ttl (e r)) = 200" "rs_Body (replay ttl (e r)) = rs_Body r"
    "rs_Headers (replay ttl (e r)) ''Content-Type'' = Some (content_type r)"
    unfolding replay_def e by (simp_all add: max_age_def set_header_def fold_headers(2) [unfolded set_header_def] new_response_def)
  show "name \<in> set replayedHeaders \<Longrightarrow> rs_Headers (replay ttl (e r)) name = nonempty (rs_Headers r name)"
    unfolding replay_def e by (simp add: other fold_headers(1) entry_for_def h new_response_def split: option.splits)
qed

lemma cached_reply:
  assumes "gate_redis (GET (cacheKey q tier)) w = (Some (Some d), w1)" "readable_entry d = Some e"
    and "gate_ok w" "origin_utf8 w"
  shows "replayed w (redis_time w) (cacheKey q tier) (replay ttl e)"
proof -
  obtain x where x: "rd_keys (gt_redis w) (cacheKey q tier) = Some x" "\<not> expired (redis_time w) x"
    "\<And>s. re_value x = RStr s \<Longrightarrow> d = s"
    using GET_live [OF assms(1)] unfolding redis_time_def by blast
  have "reply_entry w (cacheKey q tier) x" using assms(3) x(1) key_text(3) by (auto simp: gate_ok_def entry_ok_def)
  then obtain p ttl' where p: "p \<in> set (gt_replies w)" "cacheable p ttl'" "cacheKey q tier = cacheKey (rp_request p) (rp_tier p)"
    "re_value x = RStr (entry_json (entry_for (rp_response p)))" "re_expires x = Some (rd_now (gt_redis w) (rp_at p) + ttl')"
    by (auto simp: reply_entry_def)
  have real: "reply_real w p" using assms(3) p(1) by (auto simp: gate_ok_def)
  then have "entry_text (entry_for (rp_response p))"
    using assms(4) by (intro entry_for_text) (auto simp: origin_utf8_def reply_real_def)
  then have e: "e = entry_for (rp_response p) \<lparr> ce_Headers := sort_key fst (ce_Headers (entry_for (rp_response p))) \<rparr>"
    using entry_roundtrip [of "entry_for (rp_response p)"] assms(2) x(3) [OF p(4)]
    by (simp add: entry_for_def cacheEntryVersion_def)
  show ?thesis
    unfolding replayed_def e using p x(2) real replay_entry
    by (intro bexI [of _ p] exI [of _ ttl']) (auto simp: expired_def)
qed

lemma store_response_sound:
  assumes "cacheable p ttl \<or> rs_Status r < 200 \<or> 300 \<le> rs_Status r" "p \<in> set (gt_replies w)"
    and "rp_request p = q" "rp_tier p = tier" "rp_response p = r" "rp_at p = rd_count (gt_redis w)" "0 < ttl"
  shows "sound w (store_response (cacheKey q tier) ttl r w)"
proof (cases "200 \<le> rs_Status r \<and> rs_Status r < 300 \<and> rs_Body r \<noteq> []")
  case True
  obtain x w' where set: "gate_redis (SET (cacheKey q tier) (entry_json (entry_for r)) ttl) w = (x, w')" by fastforce
  have "reply_entry w (cacheKey q tier) \<lparr> re_value = RStr (entry_json (entry_for r)),
      re_expires = Some (rd_now (gt_redis w) (rd_count (gt_redis w)) + ttl) \<rparr>"
    using assms True unfolding reply_entry_def by (intro bexI [of _ p] exI [of _ ttl]) auto
  then have "sound w w'"
    using key_text(3,4) by (intro SET_sound [OF _ assms(7) set]) (simp add: entry_ok_def)
  then show ?thesis using True by (simp add: store_response_def set)
qed (auto simp: store_response_def)

lemma store_response_served: "gt_served (store_response key ttl r w) = gt_served w"
  by (simp add: store_response_def gate_redis_def split: prod.splits)

text \<open>The handler behind the rate limit: it is called at most once, last.\<close>

definition limited :: "gate_request \<Rightarrow> string \<Rightarrow> string \<Rightarrow> gate \<Rightarrow> outcome \<times> gate" where
  "limited q tier hash = RateLimit tier hash (call_origin q tier hash)"

lemma limited_spec:
  assumes "limited q tier hash w = (res, w')"
  shows "sound w w'" "gt_served w' = gt_served w \<Longrightarrow> fst res \<noteq> None"
    and "fst res = None \<Longrightarrow> \<exists>p. p \<in> set (gt_replies w') \<and> rp_request p = q \<and> rp_tier p = tier \<and>
      rp_response p = snd res \<and> rp_at p = rd_count (gt_redis w')"
proof -
  have "sound w w' \<and> (gt_served w' = gt_served w \<longrightarrow> fst res \<noteq> None) \<and>
    (fst res = None \<longrightarrow> (\<exists>p. p \<in> set (gt_replies w') \<and> rp_request p = q \<and> rp_tier p = tier \<and>
      rp_response p = snd res \<and> rp_at p = rd_count (gt_redis w')))"
    using assms unfolding limited_def
  proof (cases rule: RateLimit_cases)
    case (1 w1)
    then show ?thesis
      using call_origin_sound [OF 1(2)] sound_trans [OF 1(1)] by (auto simp: sound_def gate_le_def)
  qed auto
  then show "sound w w'" "gt_served w' = gt_served w \<Longrightarrow> fst res \<noteq> None"
    "fst res = None \<Longrightarrow> \<exists>p. p \<in> set (gt_replies w') \<and> rp_request p = q \<and> rp_tier p = tier \<and>
      rp_response p = snd res \<and> rp_at p = rd_count (gt_redis w')" by blast+
qed

lemma Cache_spec:
  assumes "Cache q tier (limited q tier hash) w = (res, w')"
  shows "sound w w'"
    and "gate_ok w \<Longrightarrow> origin_utf8 w \<Longrightarrow> fst res = None \<Longrightarrow> gt_served w' = gt_served w \<Longrightarrow>
      gq_Method q = ''GET'' \<and> replayed w (redis_time w) (cacheKey q tier) (snd res)"
proof -
  have "sound w w' \<and> (gate_ok w \<longrightarrow> origin_utf8 w \<longrightarrow> fst res = None \<longrightarrow> gt_served w' = gt_served w \<longrightarrow>
      gq_Method q = ''GET'' \<and> replayed w (redis_time w) (cacheKey q tier) (snd res))"
  proof (cases "gq_Method q = ''GET'' \<and> ttlForPath (gq_Path q) \<noteq> None")
    case False
    then have "Cache q tier (limited q tier hash) w = apfst no_store (limited q tier hash w)" by (auto simp: Cache_def)
    then have "apfst no_store (limited q tier hash w) = (res, w')" using assms by simp
    moreover obtain r w1 where "limited q tier hash w = (r, w1)" by fastforce
    ultimately show ?thesis using limited_spec by (cases r) (fastforce simp: no_store_def)
  next
    case True
    then obtain ttl where ttl: "ttlForPath (gq_Path q) = Some ttl" and m: "gq_Method q = ''GET''" by auto
    obtain c w1 where get: "gate_redis (GET (cacheKey q tier)) w = (c, w1)" by fastforce
    have s1: "sound w w1" and l1: "gt_served w1 = gt_served w" using GET_sound [OF get] gate_redis_logs [OF get] by auto
    show ?thesis
    proof (cases "Option.bind (Option.bind c (\<lambda>d. d)) readable_entry")
      case (Some e)
      then obtain d where d: "c = Some (Some d)" "readable_entry d = Some e" by (auto simp: bind_eq_Some_conv)
      have "res = (None, replay ttl e)" "w' = w1" using assms Some by (simp_all add: Cache_def m ttl get)
      then show ?thesis using s1 m cached_reply [OF get [unfolded d(1)] d(2)] by simp
    next
      case None
      obtain err r w2 where lim: "limited q tier hash w1 = ((err, r), w2)" by (metis prod.exhaust)
      note L = limited_spec [OF lim, simplified]
      have s2: "sound w w2" using s1 L(1) by (rule sound_trans)
      show ?thesis
      proof (cases err)
        case (Some x)
        then have "res = (err, r)" "w' = w2" using assms None by (simp_all add: Cache_def m ttl get lim)
        then show ?thesis using s2 Some by simp
      next
        case none: None
        have w': "res = (None, max_age ttl r)" "w' = store_response (cacheKey q tier) ttl r w2"
          using assms None none by (simp_all add: Cache_def m ttl get lim)
        obtain p where p: "p \<in> set (gt_replies w2)" "rp_request p = q" "rp_tier p = tier" "rp_response p = r"
          "rp_at p = rd_count (gt_redis w2)" using L(3) none by blast
        have "sound w2 w'"
          unfolding w'(2) using p m ttl
          by (intro store_response_sound [of p] ttl_pos [OF ttl]) (auto simp: cacheable_def)
        moreover have "gt_served w' \<noteq> gt_served w" using L(2) none l1 by (auto simp: w'(2) store_response_served)
        ultimately show ?thesis using sound_trans [OF s2] by simp
      qed
    qed
  qed
  then show "sound w w'" "gate_ok w \<Longrightarrow> origin_utf8 w \<Longrightarrow> fst res = None \<Longrightarrow> gt_served w' = gt_served w \<Longrightarrow>
      gq_Method q = ''GET'' \<and> replayed w (redis_time w) (cacheKey q tier) (snd res)" by blast+
qed

section \<open>Runs of the chain\<close>

lemma v1_chain_sound:
  assumes "v1_chain q w = (res, w')"
  shows "sound w w'"
proof -
  obtain a w1 where a: "Auth VerifyKey q w = (a, w1)" by fastforce
  have s1: "sound w w1" using unkey.Auth_spec(1) [OF a] .
  show ?thesis
  proof (cases a)
    case (Inl p)
    then show ?thesis using assms s1 by (simp add: v1_chain_def a)
  next
    case (Inr th)
    then have "Cache q (fst th) (limited q (fst th) (snd th)) w1 = (res, w')"
      using assms by (cases th) (simp add: v1_chain_def a limited_def)
    then show ?thesis using sound_trans [OF s1 Cache_spec(1)] by blast
  qed
qed

lemma run_gate_sound: "sound w (run_gate qs w)"
proof (induction qs rule: rev_induct)
  case (snoc q qs)
  have "sound (run_gate qs w) (snd (v1_chain q (run_gate qs w)))" by (rule v1_chain_sound) (rule prod.collapse [symmetric])
  with snoc have "sound w (snd (v1_chain q (run_gate qs w)))" by (rule sound_trans)
  then show ?case by (simp add: run_gate_def)
qed (simp add: run_gate_def)

text \<open>Nothing verified, served or cached yet.\<close>

definition fresh_gate :: "gate \<Rightarrow> bool" where
  "fresh_gate w \<longleftrightarrow> gt_verdicts w = [] \<and> gt_replies w = [] \<and>
     (\<forall>k. has_prefix k ''unkey:'' \<or> has_prefix k ''cache:'' \<longrightarrow> rd_keys (gt_redis w) k = None)"

lemma run_gate_ok: "fresh_gate w \<Longrightarrow> gate_ok (run_gate qs w) \<and> gate_le w (run_gate qs w)"
  using run_gate_sound [of w qs] by (auto simp: sound_def fresh_gate_def gate_ok_def entry_ok_def)

text \<open>
  C34. A request gets past authentication, to the handler or to a cached reply, only with a bearer
  key that Unkey verified: over every sequence of requests, there is a recorded verdict of the
  service, valid and with the tier under which the request is served, on a key with the same
  SHA-256 hash, and it was stored at most 30 seconds before the cache was asked. Redis may lose any
  command or its reply.
\<close>

theorem auth_needs_verified_key:
  assumes "fresh_gate w0" "mono (rd_now (gt_redis w0))"
    and "v1_chain q (run_gate qs w0) = ((err, r), w')"
    and "err = None \<or> gt_served w' \<noteq> gt_served (run_gate qs w0)"
  shows "\<exists>key v n body w1. gq_Authorization q = ''Bearer '' @ key \<and> key \<noteq> [] \<and>
     Auth VerifyKey q (run_gate qs w0) = (Inr (vd_tier v, keyHash key), w1) \<and>
     v \<in> set (gt_verdicts w1) \<and> keyHash (vd_key v) = keyHash key \<and>
     gt_unkey w0 n (verify_payload (vd_key v)) = Some body \<and> verify_result body = Some (True, vd_tier v) \<and>
     rd_now (gt_redis w0) (rd_count (gt_redis (run_gate qs w0))) \<le> rd_now (gt_redis w0) (vd_at v) + 30 * second"
proof -
  let ?w = "run_gate qs w0"
  have ok: "gate_ok ?w" "gate_le w0 ?w" using run_gate_ok [OF assms(1)] by auto
  obtain a w1 where a: "Auth VerifyKey q ?w = (a, w1)" by fastforce
  obtain tier hash where r: "a = Inr (tier, hash)"
    using assms(3,4) unkey.Auth_spec(2) [OF a] by (cases a) (auto simp: v1_chain_def a problem_def)
  have "mono (rd_now (gt_redis ?w))" using assms(2) ok(2) by (simp add: gate_le_def)
  then obtain key where k: "gq_Authorization q = ''Bearer '' @ key" "key \<noteq> []" "hash = keyHash key"
    "vouched w1 (redis_time ?w) key True tier"
    using unkey.Auth_spec(3) [OF a r ok(1)] by blast
  have le: "gate_le w0 w1" using ok(2) unkey.Auth_spec(1) [OF a] gate_le_trans by (auto simp: sound_def)
  obtain v n body where "v \<in> set (gt_verdicts w1)" "keyHash (vd_key v) = keyHash key" "vd_tier v = tier"
    "gt_unkey w1 n (verify_payload (vd_key v)) = Some body" "verify_result body = Some (True, tier)"
    "redis_time ?w \<le> rd_now (gt_redis w1) (vd_at v) + unkeyTTL"
    using k(4) by (auto simp: vouched_def verdict_real_def)
  then show ?thesis
    using a r k(1-3) le ok(2) by (fastforce simp: gate_le_def redis_time_def unkeyTTL_def)
qed

text \<open>
  C35. A reply from the cache is a reply of the handler: when a request succeeds although no handler
  ran for it, then some earlier request that has the same cache key, so is for the same tier, was
  answered 2xx by the handler, at most the route's TTL ago, and the client gets status 200, that
  body, that content type and those pagination headers.
\<close>

theorem cache_replays_origin:
  assumes "fresh_gate w0" "origin_utf8 w0"
    and "v1_chain q (run_gate qs w0) = ((None, r), w')"
    and "gt_served w' = gt_served (run_gate qs w0)"
  shows "\<exists>w1 tier hash p ttl n hash'. Auth VerifyKey q (run_gate qs w0) = (Inr (tier, hash), w1) \<and> gq_Method q = ''GET'' \<and>
     p \<in> set (gt_replies w1) \<and> gt_origin w0 n (rp_request p) (rp_tier p) hash' = (None, rp_response p) \<and>
     cacheKey (rp_request p) (rp_tier p) = cacheKey q tier \<and>
     ttlForPath (gq_Path (rp_request p)) = Some ttl \<and>
     rd_now (gt_redis w0) (rd_count (gt_redis w1)) \<le> rd_now (gt_redis w0) (rp_at p) + ttl \<and>
     200 \<le> rs_Status (rp_response p) \<and> rs_Status (rp_response p) < 300 \<and>
     rs_Status r = 200 \<and> rs_Body r = rs_Body (rp_response p) \<and>
     rs_Headers r ''Content-Type'' = Some (content_type (rp_response p)) \<and>
     (\<forall>name \<in> set replayedHeaders. rs_Headers r name = nonempty (rs_Headers (rp_response p) name))"
proof -
  let ?w = "run_gate qs w0"
  have ok: "gate_ok ?w" "gate_le w0 ?w" using run_gate_ok [OF assms(1)] by auto
  obtain a w1 where a: "Auth VerifyKey q ?w = (a, w1)" by fastforce
  obtain tier hash where t: "a = Inr (tier, hash)"
    using assms(3) by (cases a) (auto simp: v1_chain_def a problem_def)
  have c: "Cache q tier (limited q tier hash) w1 = ((None, r), w')"
    using assms(3) by (simp add: v1_chain_def a t limited_def)
  have ok1: "gate_ok w1" "gate_le w0 w1" "gt_served w1 = gt_served ?w"
    using unkey.Auth_spec(1,2) [OF a] ok gate_le_trans by (auto simp: sound_def)
  have "origin_utf8 w1" using assms(2) ok1(2) by (simp add: origin_utf8_def gate_le_def)
  then have "gq_Method q = ''GET'' \<and> replayed w1 (redis_time w1) (cacheKey q tier) r"
    using Cache_spec(2) [OF c ok1(1)] assms(4) ok1(3) by simp
  then show ?thesis
    using a t ok1(2) unfolding replayed_def reply_real_def cacheable_def gate_le_def redis_time_def
    by fastforce
qed

section \<open>Cache keys\<close>

lemma last_mark: "c \<notin> set b \<Longrightarrow> c \<notin> set b' \<Longrightarrow> a @ c # b = a' @ c # b' \<Longrightarrow> a = a' \<and> b = b'"
  using takeWhile_no [of c "rev b" "rev a"] takeWhile_no [of c "rev b'" "rev a'"]
  by (metis append.assoc append_Cons append_Nil list.inject rev.simps(2) rev_append rev_rev_ident set_rev)

lemma first_mark: "c \<notin> set a \<Longrightarrow> c \<notin> set a' \<Longrightarrow> a @ c # b = a' @ c # b' \<Longrightarrow> a = a' \<and> b = b'"
  using takeWhile_no [of c a b] takeWhile_no [of c a' b'] by (metis list.inject)

text \<open>
  C36. Two requests share a cache key only when they ask the same thing: if both queries parse, and
  methods and tiers hold no colon, as HTTP's and the documented ones do not, equal keys mean the same method, the same path (colons in it included), the same tier and the same
  parameters, each as often, whatever the order they came in; only a parameter with empty name and
  value may differ.
\<close>

theorem cache_key_sound:
  assumes "ParseQuery (gq_Query q) = Some ps" "ParseQuery (gq_Query q') = Some ps'"
    and "CHR '':'' \<notin> set (gq_Method q)" "CHR '':'' \<notin> set (gq_Method q')"
    and "CHR '':'' \<notin> set tier" "CHR '':'' \<notin> set tier'"
    and "cacheKey q tier = cacheKey q' tier'"
  shows "gq_Method q = gq_Method q' \<and> gq_Path q = gq_Path q' \<and> tier = tier' \<and>
    mset (filter (\<lambda>p. p \<noteq> ([], [])) ps) = mset (filter (\<lambda>p. p \<noteq> ([], [])) ps')"
proof -
  let ?s = "\<lambda>q. sortQueryString (gq_Query q)"
  have "(gq_Method q @ '':'' @ gq_Path q @ '':'' @ ?s q) @ CHR '':'' # tier =
      (gq_Method q' @ '':'' @ gq_Path q' @ '':'' @ ?s q') @ CHR '':'' # tier'"
    using assms(7) by (simp add: cacheKey_def)
  from last_mark [OF assms(5,6) this]
  have t: "tier = tier'" and "(gq_Method q @ '':'' @ gq_Path q) @ CHR '':'' # ?s q = (gq_Method q' @ '':'' @ gq_Path q') @ CHR '':'' # ?s q'"
    by simp_all
  from last_mark [OF canonical_no_colon [OF assms(1)] canonical_no_colon [OF assms(2)] this(2)]
  have s: "?s q = ?s q'" and "gq_Method q @ CHR '':'' # gq_Path q = gq_Method q' @ CHR '':'' # gq_Path q'"
    by simp_all
  from first_mark [OF assms(3,4) this(2)] show ?thesis
    using t canonical_same_params [OF assms(1,2) s] by simp
qed

section \<open>Witnesses\<close>

definition demo_get :: gate_request where
  "demo_get = \<lparr> gq_Method = ''GET'', gq_Path = ''/v1/models'', gq_Query = ''sort=name&provider=openai'',
     gq_Authorization = ''Bearer k'' \<rparr>"

definition demo_origin :: response where
  "demo_origin = set_header ''X-Total-Count'' ''0'' (send_json (JArr []) new_response)"

definition demo_answer :: string where
  "demo_answer = json_print (JObj [(''data'', JObj [(''valid'', JBool True), (''meta'', JObj [(''tier'', JStr ''Pro'')])])])"

definition demo_gate :: gate where
  "demo_gate = \<lparr> gt_redis = \<lparr> rd_keys = Map.empty, rd_count = 0, rd_link = (\<lambda>_. Up), rd_now = (\<lambda>_. 0) \<rparr>,
     gt_unkey = (\<lambda>_ _. Some demo_answer),
     gt_asked = 0, gt_origin = (\<lambda>_ _ _ _. (None, demo_origin)), gt_served = 0, gt_clock = int, gt_ticks = 0,
     gt_verdicts = [], gt_replies = [] \<rparr>"

lemma demo_fresh: "fresh_gate demo_gate" "mono (rd_now (gt_redis demo_gate))"
  by (simp_all add: fresh_gate_def demo_gate_def mono_def)

lemma demo_facts:
  "verify_result demo_answer = Some (True, TierPro)"
  "cachedVerifyResult (verified_json True TierPro) = Some (True, TierPro)"
  "readable_entry (entry_json (entry_for demo_origin)) = Some (entry_for demo_origin)"
  "ttlForPath ''/v1/models'' = Some (30 * minute)" "0 < minute" "minute = 60 * second" "0 < second" "\<not> second < 0"
  "rs_Status demo_origin = 200" "rs_Body demo_origin = ''[]''"
  "trim_prefix ''Bearer k'' ''Bearer '' = ''k''" "has_prefix ''Bearer k'' ''Bearer ''"
  by code_simp+

lemma demo_keys: "verdict_key k \<noteq> cacheKey q t" "cacheKey q t \<noteq> verdict_key k"
  using key_text by metis+

lemmas demo_run = run_gate_def v1_chain_def Auth_def lookup_key_def VerifyKey_def gate_redis_def GET_def SET_def
  command_def live_def expired_def set_ex_def Cache_def store_response_def call_origin_def RateLimit_def
  unkeyTTL_def Let_def

lemma demo_hit:
  "\<exists>r w'. v1_chain demo_get (run_gate [demo_get] demo_gate) = ((None, r), w') \<and>
     gt_served w' = gt_served (run_gate [demo_get] demo_gate)"
  by (simp add: demo_run demo_get_def demo_gate_def demo_facts demo_keys)

theorem auth_needs_verified_key_witness:
  "\<exists>key v n body w1. gq_Authorization demo_get = ''Bearer '' @ key \<and> key \<noteq> [] \<and>
     Auth VerifyKey demo_get (run_gate [demo_get] demo_gate) = (Inr (vd_tier v, keyHash key), w1) \<and>
     v \<in> set (gt_verdicts w1) \<and> gt_unkey demo_gate n (verify_payload (vd_key v)) = Some body \<and>
     verify_result body = Some (True, vd_tier v)"
proof -
  obtain r w' where "v1_chain demo_get (run_gate [demo_get] demo_gate) = ((None, r), w')"
    using demo_hit by blast
  from auth_needs_verified_key [OF demo_fresh this] show ?thesis by blast
qed

theorem cache_replays_origin_witness:
  "\<exists>r w' n (p :: origin_reply) hash. v1_chain demo_get (run_gate [demo_get] demo_gate) = ((None, r), w') \<and>
     gt_origin demo_gate n (rp_request p) (rp_tier p) hash = (None, rp_response p) \<and>
     rs_Body r = rs_Body (rp_response p) \<and> rs_Headers r ''X-Total-Count'' = nonempty (rs_Headers (rp_response p) ''X-Total-Count'')"
proof -
  have "valid_utf8 ''0''" "valid_utf8 ''application/json''" by code_simp+
  then have utf8: "origin_utf8 demo_gate"
    by (auto simp: origin_utf8_def demo_gate_def demo_origin_def set_header_def send_json_def new_response_def split: if_splits)
  obtain r w' where h: "v1_chain demo_get (run_gate [demo_get] demo_gate) = ((None, r), w')"
    "gt_served w' = gt_served (run_gate [demo_get] demo_gate)"
    using demo_hit by blast
  have x: "''X-Total-Count'' \<in> set replayedHeaders" by (simp add: replayedHeaders_def)
  obtain p :: origin_reply and n hash where "gt_origin demo_gate n (rp_request p) (rp_tier p) hash = (None, rp_response p)"
    "rs_Body r = rs_Body (rp_response p)"
    "\<forall>name \<in> set replayedHeaders. rs_Headers r name = nonempty (rs_Headers (rp_response p) name)"
    using cache_replays_origin [OF demo_fresh(1) utf8 h] by blast
  with h(1) x show ?thesis by blast
qed

definition demo_swapped :: gate_request where
  "demo_swapped = demo_get \<lparr> gq_Query := ''provider=openai&sort=name'' \<rparr>"

theorem cache_key_sound_witness:
  "cacheKey demo_get TierFree = cacheKey demo_swapped TierFree \<and> gq_Query demo_get \<noteq> gq_Query demo_swapped \<and>
   gq_Method demo_get = gq_Method demo_swapped \<and> gq_Path demo_get = gq_Path demo_swapped \<and>
   mset (filter (\<lambda>p. p \<noteq> ([], [])) [(''sort'', ''name''), (''provider'', ''openai'')]) =
   mset (filter (\<lambda>p. p \<noteq> ([], [])) [(''provider'', ''openai''), (''sort'', ''name'')])"
proof -
  have p: "ParseQuery (gq_Query demo_get) = Some [(''sort'', ''name''), (''provider'', ''openai'')]"
    "ParseQuery (gq_Query demo_swapped) = Some [(''provider'', ''openai''), (''sort'', ''name'')]"
    "CHR '':'' \<notin> set (gq_Method demo_get)" "CHR '':'' \<notin> set (gq_Method demo_swapped)" "CHR '':'' \<notin> set TierFree"
    "cacheKey demo_get TierFree = cacheKey demo_swapped TierFree"
    by code_simp+
  have "gq_Query demo_get \<noteq> gq_Query demo_swapped" by code_simp
  then show ?thesis using cache_key_sound [OF p(1-5) p(5,6)] p(6) by blast
qed

section \<open>Where the code and its documents part\<close>

text \<open>
  Repeated parameters are sorted too, so two requests whose first value of a parameter differs, the
  one the handlers read, share an entry; and a query that does not parse is taken as it is, so that
  its colons can move between query and path.
\<close>

lemma repeated_parameter_shares_entry:
  "sortQueryString ''sort=name&sort=recent'' = sortQueryString ''sort=recent&sort=name''"
  by code_simp

lemma unparsed_query_shares_entry:
  "cacheKey (demo_get \<lparr> gq_Path := ''/v1/models/a'', gq_Query := ''b:;'' \<rparr>) tier =
   cacheKey (demo_get \<lparr> gq_Path := ''/v1/models/a:b'', gq_Query := '';'' \<rparr>) tier"
proof -
  have "sortQueryString ''b:;'' = ''b:;''" "sortQueryString '';'' = '';''" by code_simp+
  then show ?thesis by (simp add: cacheKey_def demo_get_def)
qed

text \<open>A cached reply is not counted by the rate limiter, whatever the tier.\<close>

lemma cached_reply_not_counted:
  assumes "gate_redis (GET (cacheKey q tier)) w = (Some (Some d), w1)" "readable_entry d = Some e"
    and "gq_Method q = ''GET''" "ttlForPath (gq_Path q) = Some ttl"
  shows "Cache q tier next w = ((None, replay ttl e), w1)"
  using assms by (simp add: Cache_def)

text \<open>The second expiry replaces the first: a counter outlives midnight.\<close>

lemma counter_outlives_midnight:
  assumes "ks k = Some e" "now < midnight"
  shows "snd (expire_at k (now + rateLimitTTL) now (snd (expire_at k midnight now ks))) k =
    Some (e\<lparr> re_expires := Some (now + 25 * hour) \<rparr>)"
  using assms by (simp add: expire_at_def rateLimitTTL_def hour_def minute_def second_def)

lemma context_ttl: "ttlForPath ''/v1/context'' = Some hour"
  by code_simp

end
