(* ===== verification/Go_Float_Text.thy ===== *)
theory Go_Float_Text
  imports Go_Json
begin

text \<open>
  \<open>strconv.ParseFloat\<close> for 64 bits: the special names, decimal and hexadecimal digits with their
  exponents, underscores between digits, and the rounding of the exact value, which is an error
  when it overflows. JSON's numbers are read with it, into a field of type \<open>float64\<close> and into \<open>any\<close>.
\<close>

section \<open>Digits\<close>

definition hex_digit :: "char \<Rightarrow> bool" where
  "hex_digit c = (is_digit c \<or> (CHR ''a'' \<le> lower_char c \<and> lower_char c \<le> CHR ''f''))"

definition hex_value :: "char \<Rightarrow> int" where
  "hex_value c = (if is_digit c then digit_value c else of_char (lower_char c) - 87)"

definition base_value :: "int \<Rightarrow> string \<Rightarrow> int" where
  "base_value b s = foldl (\<lambda>n c. b * n + hex_value c) 0 s"

text \<open>
  \<open>underscoreOK\<close>: an underscore stands between two digits, or between a base prefix and a digit.
  The state is what was read last: nothing, a digit, an underscore, or something else.
\<close>

datatype seen = SawNone | SawDigit | SawUnderscore | SawOther

fun underscores_ok :: "bool \<Rightarrow> seen \<Rightarrow> string \<Rightarrow> bool" where
  "underscores_ok hx saw [] = (saw \<noteq> SawUnderscore)"
| "underscores_ok hx saw (c # cs) =
     (if is_digit c \<or> (hx \<and> hex_digit c) then underscores_ok hx SawDigit cs
      else if c = CHR ''_'' then saw = SawDigit \<and> underscores_ok hx SawUnderscore cs
      else saw \<noteq> SawUnderscore \<and> underscores_ok hx SawOther cs)"

definition unsign :: "string \<Rightarrow> string" where
  "unsign s = (case s of c # cs \<Rightarrow> if c = CHR ''+'' \<or> c = CHR ''-'' then cs else s | [] \<Rightarrow> [])"

definition underscoreOK :: "string \<Rightarrow> bool" where
  "underscoreOK s = (let t = unsign s in
     if has_prefix (to_lower (take 2 t)) ''0x'' then underscores_ok True SawDigit (drop 2 t)
     else if to_lower (take 2 t) = ''0b'' \<or> to_lower (take 2 t) = ''0o'' then underscores_ok False SawDigit (drop 2 t)
     else underscores_ok False SawNone t)"

section \<open>Reading a number\<close>

text \<open>The digits up to a second point, or to a byte that is no digit.\<close>

fun mantissa :: "bool \<Rightarrow> bool \<Rightarrow> string \<Rightarrow> string \<times> string" where
  "mantissa hx dot [] = ([], [])"
| "mantissa hx dot (c # cs) =
     (if c = CHR ''_'' \<or> (c = CHR ''.'' \<and> \<not> dot) \<or> is_digit c \<or> (hx \<and> hex_digit c)
      then (case mantissa hx (dot \<or> c = CHR ''.'') cs of (m, r) \<Rightarrow> (c # m, r))
      else ([], c # cs))"

text \<open>The exponent stops growing at 10000, where the value is out of every range.\<close>

definition exponent_value :: "string \<Rightarrow> int" where
  "exponent_value s = foldl (\<lambda>e c. if e < 10000 then e * 10 + digit_value c else e) 0 s"

definition exponent_of :: "char \<Rightarrow> string \<Rightarrow> int option" where
  "exponent_of mark s = (case s of [] \<Rightarrow> None
     | e # r \<Rightarrow>
         if lower_char e \<noteq> mark then None
         else let body = unsign r in
           if body = [] \<or> \<not> is_digit (hd body) \<or> \<not> list_all (\<lambda>c. is_digit c \<or> c = CHR ''_'') body then None
           else let v = exponent_value (filter is_digit body) in Some (if has_prefix r ''-'' then - v else v))"

text \<open>The value of an unsigned number that is the whole of the text.\<close>

definition read_float :: "string \<Rightarrow> rat option" where
  "read_float t =
     (let hx = 2 < length t \<and> to_lower (take 2 t) = ''0x'';
          (m, r) = mantissa hx False (if hx then drop 2 t else t);
          ip = filter hex_digit (takeWhile (\<lambda>c. c \<noteq> CHR ''.'') m);
          fp = filter hex_digit (dropWhile (\<lambda>c. c \<noteq> CHR ''.'') m)
      in if ip @ fp = [] then None
         else if hx then
           map_option (\<lambda>e. of_int (base_value 16 (ip @ fp)) * 2 powi (e - 4 * int (length fp))) (exponent_of (CHR ''p'') r)
         else
           map_option (\<lambda>e. of_int (base_value 10 (ip @ fp)) * 10 powi (e - int (length fp)))
             (if r = [] then Some 0 else exponent_of (CHR ''e'') r))"

definition special_float :: "string \<Rightarrow> f64 option" where
  "special_float s =
     (if to_lower s = ''nan'' then Some NaN
      else if to_lower (unsign s) = ''inf'' \<or> to_lower (unsign s) = ''infinity''
      then Some (if has_prefix s ''-'' then NInf else PInf)
      else None)"

definition ParseFloat :: "string \<Rightarrow> f64 option" where
  "ParseFloat s =
     (case special_float s of
        Some x \<Rightarrow> Some x
      | None \<Rightarrow>
          (case read_float (unsign s) of
             None \<Rightarrow> None
           | Some x \<Rightarrow>
               if CHR ''_'' \<in> set s \<and> \<not> underscoreOK s then None
               else (case round64 (if has_prefix s ''-'' then - x else x) of
                       Fin y \<Rightarrow> Some (Fin y) | _ \<Rightarrow> None)))"

section \<open>Numbers of JSON\<close>

text \<open>A field of type \<open>float64\<close>, and a pointer to one; \<open>null\<close> resets the pointer.\<close>

definition float_field :: "string \<Rightarrow> (string \<times> json) list \<Rightarrow> f64 option" where
  "float_field name ms = foldl (\<lambda>acc v. case (acc, v) of (Some _, JNum n) \<Rightarrow> ParseFloat n | _ \<Rightarrow> None)
     (Some (Fin 0)) (field_values name ms)"

definition float_ptr_field :: "string \<Rightarrow> (string \<times> json) list \<Rightarrow> f64 option option" where
  "float_ptr_field name ms = foldl (\<lambda>acc (_, v). case (acc, v) of
       (Some _, JNull) \<Rightarrow> Some None | (Some _, JNum n) \<Rightarrow> map_option Some (ParseFloat n) | _ \<Rightarrow> None)
     (Some None) (filter (\<lambda>(k, _). to_lower k = to_lower name) ms)"

text \<open>A value decoded into \<open>any\<close>: the last of a map's equal keys counts.\<close>

datatype any = AnyNil | AnyBool bool | AnyNum f64 | AnyStr string | AnyList "any list" | AnyMap "(string \<times> any) list"

fun to_any :: "json \<Rightarrow> any option" where
  "to_any JNull = Some AnyNil"
| "to_any (JBool b) = Some (AnyBool b)"
| "to_any (JNum n) = map_option AnyNum (ParseFloat n)"
| "to_any (JStr s) = Some (AnyStr s)"
| "to_any (JArr vs) = map_option AnyList (those (map to_any vs))"
| "to_any (JObj ms) = map_option (\<lambda>vs. AnyMap (zip (map fst ms) vs)) (those (map (to_any \<circ> snd) ms))"

definition any_key :: "string \<Rightarrow> (string \<times> any) list \<Rightarrow> any option" where
  "any_key k ms = map_of (rev ms) k"

text \<open>\<open>Decoder.Decode\<close> reads the first value and leaves what follows it.\<close>

definition json_first :: "string \<Rightarrow> json option" where
  "json_first s = map_option fst (parse_val (Suc (length s)) s)"

section \<open>Facts\<close>

text \<open>What is read from digits is a number: no NaN, no infinity.\<close>

lemma ParseFloat_finite:
  assumes "ParseFloat s = Some x" "to_lower s \<noteq> ''nan''" "to_lower (unsign s) \<noteq> ''inf''" "to_lower (unsign s) \<noteq> ''infinity''"
  obtains y where "x = Fin y"
  using assms by (auto simp: ParseFloat_def special_float_def split: option.splits if_splits f64.splits)
    (metis)+

definition number_text :: "string \<Rightarrow> bool" where
  "number_text n = (case unsign n of [] \<Rightarrow> False | c # _ \<Rightarrow> is_digit c \<and> (n = unsign n \<or> hd n = CHR ''-''))"

lemma parse_num_text:
  assumes "parse_num s = Some (n, r)"
  shows "number_text n"
proof (cases "take 1 s = ''-''")
  case True
  then obtain i r1 f e where "parse_nat (drop 1 s) = Some (i, r1)" "n = CHR ''-'' # i @ f @ e"
    using assms by (auto simp: parse_num_def split: option.splits)
  then show ?thesis
    by (cases "drop 1 s") (auto simp: number_text_def unsign_def parse_nat_def is_digit_def split: if_splits)
next
  case False
  then have "takeWhile (\<lambda>c. c = CHR ''-'') (take 1 s) = []" by (cases s) auto
  then obtain i r1 f e where "parse_nat s = Some (i, r1)" "n = i @ f @ e"
    using assms by (auto simp: parse_num_def split: option.splits)
  then show ?thesis
    by (cases s) (auto simp: number_text_def unsign_def parse_nat_def is_digit_def split: if_splits)
qed

lemma json_number_finite:
  assumes "number_text n" "ParseFloat n = Some x"
  obtains y where "x = Fin y"
proof -
  obtain c cs where u: "unsign n = c # cs" "is_digit c" "n = unsign n \<or> hd n = CHR ''-''"
    using assms(1) by (auto simp: number_text_def split: list.splits)
  have l: "lower_char c = c" "c \<noteq> CHR ''n''" "c \<noteq> CHR ''i''"
    using u(2) by (auto simp: is_digit_def lower_char_def is_upper_def less_eq_char_def)
  have "to_lower (unsign n) \<noteq> ''inf''" "to_lower (unsign n) \<noteq> ''infinity''"
    using l by (simp_all add: u(1) to_lower_def)
  moreover have "to_lower n \<noteq> ''nan''"
    using l u(1,3) by (cases n) (auto simp: to_lower_def lower_char_def is_upper_def)
  ultimately show thesis using ParseFloat_finite [OF assms(2)] that by blast
qed

text \<open>Every number of a parsed text has the form of one.\<close>

fun json_numbers :: "json \<Rightarrow> bool" where
  "json_numbers (JNum n) = number_text n"
| "json_numbers (JArr vs) = list_all json_numbers vs"
| "json_numbers (JObj ms) = list_all (\<lambda>(k, v). json_numbers v) ms"
| "json_numbers v = True"

lemma parse_val_numbers:
  shows "parse_val n s = Some (v, r) \<Longrightarrow> json_numbers v"
    and "parse_elems n s = Some (vs, r) \<Longrightarrow> list_all json_numbers vs"
    and "parse_members n s = Some (ms, r) \<Longrightarrow> list_all (\<lambda>(k, v). json_numbers v) ms"
proof (induction n s and n s and n s arbitrary: v r and vs r and ms r
    rule: parse_val_parse_elems_parse_members.induct)
  case (2 n s)
  then show ?case
    by (auto split: list.splits if_splits option.splits simp: literal_def dest: parse_num_text)
next
  case (4 n s)
  then show ?case by (auto split: option.splits)
next
  case (6 n s)
  then show ?case by (auto simp: bind_eq_Some_conv split: option.splits)
qed simp_all

lemma json_parse_numbers: "json_parse s = Some v \<Longrightarrow> json_numbers v"
  by (auto simp: json_parse_def simp del: parse_val.simps split: option.splits if_splits dest: parse_val_numbers(1))

lemma json_first_numbers: "json_first s = Some v \<Longrightarrow> json_numbers v"
  by (auto simp: json_first_def simp del: parse_val.simps dest: parse_val_numbers(1))

end
