(* ===== verification/Go_Regex.thy ===== *)
theory Go_Regex
  imports Go_Json
begin

text \<open>
  Package \<open>regexp\<close>, as far as the program's expressions go: texts, classes of bytes and runs of
  them, optional parts, groups and word boundaries. A match is the leftmost one, and of those the
  one a backtracking search finds first, so runs and optional parts take what they can. The
  classes are of ASCII bytes or of everything but a newline, so that bytes serve for runes.
\<close>

datatype regex =
    Txt string
  | Cls "char \<Rightarrow> bool"
  | Run nat "char \<Rightarrow> bool"
  | Opt regex
  | Cat "regex list"
  | Grp regex
  | WordB

definition word_char :: "char \<Rightarrow> bool" where
  "word_char c = (is_digit c \<or> is_upper c \<or> is_lower c \<or> c = CHR ''_'')"

text \<open>Where a search stands: what was read, backwards, what is to come, and the groups so far.\<close>

type_synonym cursor = "string \<times> string \<times> string list"

definition at_word_boundary :: "string \<Rightarrow> string \<Rightarrow> bool" where
  "at_word_boundary b a = ((b \<noteq> [] \<and> word_char (hd b)) \<noteq> (a \<noteq> [] \<and> word_char (hd a)))"

definition advance :: "nat \<Rightarrow> cursor \<Rightarrow> cursor" where
  "advance n p = (case p of (b, a, gs) \<Rightarrow> (rev (take n a) @ b, drop n a, gs))"

text \<open>All the ways to read a text from a position, in the order in which they are tried.\<close>

fun ways :: "regex \<Rightarrow> cursor \<Rightarrow> cursor list"
  and ways_all :: "regex list \<Rightarrow> cursor \<Rightarrow> cursor list" where
  "ways (Txt t) p = (if has_prefix (fst (snd p)) t then [advance (length t) p] else [])"
| "ways (Cls f) p = (case fst (snd p) of [] \<Rightarrow> [] | c # _ \<Rightarrow> if f c then [advance 1 p] else [])"
| "ways (Run n f) p = map (\<lambda>k. advance k p) (rev [n..<Suc (length (takeWhile f (fst (snd p))))])"
| "ways (Opt r) p = ways r p @ [p]"
| "ways (Cat rs) p = ways_all rs p"
| "ways (Grp r) p = map (\<lambda>(b, a, gs). (b, a, gs @ [rev (take (length b - length (fst p)) b)])) (ways r p)"
| "ways WordB p = (if at_word_boundary (fst p) (fst (snd p)) then [p] else [])"
| "ways_all [] p = [p]"
| "ways_all (r # rs) p = concat (map (ways_all rs) (ways r p))"

text \<open>The first match from a position on: where it starts, and the cursor behind it.\<close>

fun search :: "regex \<Rightarrow> string \<Rightarrow> string \<Rightarrow> (nat \<times> cursor) option" where
  "search r b a =
     (case ways r (b, a, []) of
        p # _ \<Rightarrow> Some (length b, p)
      | [] \<Rightarrow> (case a of [] \<Rightarrow> None | c # cs \<Rightarrow> search r (c # b) cs))"

declare search.simps [simp del]

definition MatchString :: "regex \<Rightarrow> string \<Rightarrow> bool" where
  "MatchString r s = (search r [] s \<noteq> None)"

text \<open>The groups of the match.\<close>

definition FindSubmatch :: "regex \<Rightarrow> string \<Rightarrow> string list option" where
  "FindSubmatch r s = map_option (\<lambda>(_, _, _, gs). gs) (search r [] s)"

text \<open>The groups, and the text behind the match.\<close>

definition FindSubmatchRest :: "regex \<Rightarrow> string \<Rightarrow> (string list \<times> string) option" where
  "FindSubmatchRest r s = map_option (\<lambda>(_, _, a, gs). (gs, a)) (search r [] s)"

definition not_newline :: "char \<Rightarrow> bool" where
  "not_newline c = (c \<noteq> CHR 0x0A)"

definition regex_space :: "char \<Rightarrow> bool" where
  "regex_space c = (c \<in> {CHR '' '', CHR 0x09, CHR 0x0A, CHR 0x0C, CHR 0x0D})"

section \<open>Facts\<close>

lemma advance_text: "rev (fst (advance n p)) @ fst (snd (advance n p)) = rev (fst p) @ fst (snd p)"
  by (cases p) (simp add: advance_def)

text \<open>A search reads the text it is given and does not change it.\<close>

lemma ways_text:
  "q \<in> set (ways r p) \<Longrightarrow> rev (fst q) @ fst (snd q) = rev (fst p) @ fst (snd p)"
  "q \<in> set (ways_all rs p) \<Longrightarrow> rev (fst q) @ fst (snd q) = rev (fst p) @ fst (snd p)"
proof (induction r p and rs p arbitrary: q and q rule: ways_ways_all.induct)
  case (9 r rs p)
  then obtain x where x: "x \<in> set (ways r p)" "q \<in> set (ways_all rs x)" by auto
  then show ?case using 9 by metis
qed (auto simp: advance_text split: if_splits list.splits)

lemma search_text:
  assumes "search r b a = Some (i, b', a', gs)"
  shows "rev b' @ a' = rev b @ a"
  using assms
proof (induction r b a rule: search.induct)
  case (1 r b a)
  show ?case
  proof (cases "ways r (b, a, [])")
    case Nil
    then show ?thesis using 1 by (subst (asm) (2) search.simps) (auto split: list.splits)
  next
    case (Cons p ps)
    then have "(b', a', gs) \<in> set (ways r (b, a, []))" using 1(2) by (subst (asm) search.simps) auto
    then show ?thesis using ways_text(1) by fastforce
  qed
qed

text \<open>A text without marks of its own is found exactly where it is contained.\<close>

lemma search_Txt: "search (Txt t) b a = None \<longleftrightarrow> \<not> contains a t"
proof (induction a arbitrary: b)
  case Nil
  then show ?case by (subst search.simps) (cases t; simp)
next
  case (Cons c cs)
  then show ?case by (subst search.simps) auto
qed

lemma MatchString_Txt: "MatchString (Txt t) s = contains s t"
  using search_Txt [of t "[]" s] by (auto simp: MatchString_def)

end
