(* ===== verification/Web_Page.thy ===== *)
theory Web_Page
  imports Go_Float_Text Go_Regex
begin

text \<open>
  What the price scrapers of \<open>internal/scraper\<close> share: the answers of the HTTP client, the tree of a
  parsed page with the texts in it, and the functions of \<open>strings\<close> and \<open>unicode/utf8\<close> that look at
  runes. The parser of \<open>golang.org/x/net/html\<close> is an argument of the scrapers.
\<close>

section \<open>Runes\<close>

definition rune_value :: "nat list \<Rightarrow> nat" where
  "rune_value bs = (case bs of
     [a] \<Rightarrow> a
   | [a, b] \<Rightarrow> (a mod 32) * 64 + b mod 64
   | [a, b, c] \<Rightarrow> (a mod 16) * 4096 + (b mod 64) * 64 + c mod 64
   | [a, b, c, d] \<Rightarrow> (a mod 8) * 262144 + (b mod 64) * 4096 + (c mod 64) * 64 + d mod 64
   | _ \<Rightarrow> 65533)"

text \<open>The runes of a text with their bytes; a byte that starts none reads as \<open>U+FFFD\<close>.\<close>

function runes :: "string \<Rightarrow> (nat \<times> string) list" where
  "runes [] = []"
| "runes (c # cs) =
     (case rune_width (c # cs) of
        0 \<Rightarrow> (65533, [c]) # runes cs
      | Suc k \<Rightarrow> (rune_value (map byte (c # take k cs)), c # take k cs) # runes (drop k cs))"
  by pat_completeness auto
termination by (relation "measure length") auto

declare runes.simps [simp del]

definition rune_error :: string where
  "rune_error = [CHR 0xEF, CHR 0xBF, CHR 0xBD]"

text \<open>The runes a predicate keeps, written anew.\<close>

definition keep_runes :: "(nat \<Rightarrow> bool) \<Rightarrow> string \<Rightarrow> string" where
  "keep_runes f s = concat (map (\<lambda>(r, b). if r = 65533 then rune_error else b) (filter (\<lambda>(r, _). f r) (runes s)))"

definition IsSpace :: "nat \<Rightarrow> bool" where
  "IsSpace r = (r \<in> {9, 10, 11, 12, 13, 32, 0x85, 0xA0, 0x1680, 0x2028, 0x2029, 0x202F, 0x205F, 0x3000} \<or>
     (0x2000 \<le> r \<and> r \<le> 0x200A))"

definition space_rune :: "nat \<times> string \<Rightarrow> bool" where
  "space_rune x = IsSpace (fst x)"

definition TrimSpace :: "string \<Rightarrow> string" where
  "TrimSpace s = concat (map snd (rev (dropWhile space_rune (rev (dropWhile space_rune (runes s))))))"

fun fields_of :: "string \<Rightarrow> (nat \<times> string) list \<Rightarrow> string list" where
  "fields_of word [] = (if word = [] then [] else [word])"
| "fields_of word (r # rs) =
     (if space_rune r then (if word = [] then [] else [word]) @ fields_of [] rs
      else fields_of (word @ snd r) rs)"

definition Fields :: "string \<Rightarrow> string list" where
  "Fields s = fields_of [] (runes s)"

section \<open>Texts\<close>

text \<open>\<open>EqualFold\<close> on ASCII letters, and a text up to the first of a byte.\<close>

definition EqualFold :: "string \<Rightarrow> string \<Rightarrow> bool" where
  "EqualFold s t = (to_lower s = to_lower t)"

definition up_to :: "char \<Rightarrow> string \<Rightarrow> string" where
  "up_to c s = (case index_byte s c of None \<Rightarrow> s | Some i \<Rightarrow> take i s)"

text \<open>A \<open>Replacer\<close> of single bytes by a hyphen.\<close>

definition hyphenate :: "string \<Rightarrow> string \<Rightarrow> string" where
  "hyphenate cs s = map (\<lambda>c. if c \<in> set cs then CHR ''-'' else c) s"

section \<open>Pages\<close>

datatype node_type = TextNode | ElementNode | OtherNode

datatype node = Node (n_Type: node_type) (n_Data: string) (n_Attr: "(string \<times> string) list") (n_Children: "node list")

definition element :: "node \<Rightarrow> string list \<Rightarrow> bool" where
  "element n tags = (n_Type n = ElementNode \<and> n_Data n \<in> set tags)"

fun collect :: "node \<Rightarrow> string" where
  "collect (Node t d as cs) = (if t = TextNode then d else []) @ concat (map collect cs)"

definition textContent :: "node \<Rightarrow> string" where
  "textContent n = TrimSpace (collect n)"

definition attrValue :: "node \<Rightarrow> string \<Rightarrow> string" where
  "attrValue n key = (case map_of (n_Attr n) key of None \<Rightarrow> [] | Some v \<Rightarrow> v)"

text \<open>Icon glyphs, zero-width characters and variation selectors are no part of a heading.\<close>

definition heading_rune :: "nat \<Rightarrow> bool" where
  "heading_rune r = (\<not> (0xE000 \<le> r \<and> r \<le> 0xF8FF) \<and> \<not> (0x200B \<le> r \<and> r \<le> 0x200D) \<and> r \<noteq> 0xFE0E \<and> r \<noteq> 0xFE0F)"

definition cleanHeading :: "string \<Rightarrow> string" where
  "cleanHeading s = TrimSpace (keep_runes heading_rune s)"

text \<open>The rows of a table: outermost \<open>tr\<close> elements; the cells of a row: its own \<open>td\<close> and \<open>th\<close>.\<close>

fun table_rows :: "node \<Rightarrow> node list" where
  "table_rows (Node t d as cs) =
     (if t = ElementNode \<and> d = ''tr'' then [Node t d as cs] else concat (map table_rows cs))"

definition row_cells :: "node \<Rightarrow> node list" where
  "row_cells tr = filter (\<lambda>c. element c [''td'', ''th'']) (n_Children tr)"

section \<open>Fetching\<close>

text \<open>What the client comes back with: an error, or a status and a body.\<close>

datatype fetch_answer = NoAnswer | Answer int string

datatype fetch_error = FetchFailed | BadStatus int | BadBody | NoModels

definition fetched :: "fetch_answer \<Rightarrow> fetch_error + string" where
  "fetched a = (case a of NoAnswer \<Rightarrow> Inl FetchFailed
     | Answer status body \<Rightarrow> if status \<noteq> 200 then Inl (BadStatus status) else Inr body)"

definition million :: f64 where "million = Fin 1000000"

section \<open>Facts\<close>

lemma fetched_Inr: "fetched a = Inr body \<longleftrightarrow> a = Answer 200 body"
  by (auto simp: fetched_def split: fetch_answer.splits if_splits)

text \<open>On ASCII texts the functions on runes are functions on bytes, which evaluation uses.\<close>

definition ascii :: "char \<Rightarrow> bool" where
  "ascii c = (case c of Char _ _ _ _ _ _ _ h \<Rightarrow> \<not> h)"

lemma ascii_byte: "ascii c \<longleftrightarrow> byte c < 128"
proof (cases c)
  case (Char b0 b1 b2 b3 b4 b5 b6 b7)
  then show ?thesis by (auto simp: ascii_def byte_def)
qed

lemma ascii_width: "ascii c \<Longrightarrow> rune_width (c # cs) = 1"
  using rune_width_ascii ascii_byte by simp

lemma runes_ascii: "list_all ascii s \<Longrightarrow> runes s = map (\<lambda>c. (byte c, [c])) s"
  by (induction s) (simp_all add: runes.simps ascii_width rune_value_def)

lemma space_ascii: "ascii c \<Longrightarrow> space_rune (byte c, [c]) = is_space c"
proof -
  assume c: "ascii c"
  have e: "c = d \<longleftrightarrow> byte c = byte d" for d by (simp add: byte_def)
  have "is_space c \<longleftrightarrow> byte c \<in> {32, 9, 10, 11, 12, 13}"
    unfolding is_space_def insert_iff empty_iff e by (simp add: byte_def)
  then show ?thesis using c by (auto simp: space_rune_def IsSpace_def ascii_byte)
qed

fun fields_ascii :: "string \<Rightarrow> string \<Rightarrow> string list" where
  "fields_ascii word [] = (if word = [] then [] else [word])"
| "fields_ascii word (c # cs) =
     (if is_space c then (if word = [] then [] else [word]) @ fields_ascii [] cs
      else fields_ascii (word @ [c]) cs)"

lemma fields_of_ascii: "list_all ascii s \<Longrightarrow> fields_of word (map (\<lambda>c. (byte c, [c])) s) = fields_ascii word s"
  by (induction s arbitrary: word) (simp_all add: space_ascii)

lemma Fields_code [code]: "Fields s = (if list_all ascii s then fields_ascii [] s else fields_of [] (runes s))"
  by (simp add: Fields_def runes_ascii fields_of_ascii)

lemma drop_space_ascii: "list_all ascii s \<Longrightarrow>
    dropWhile space_rune (map (\<lambda>c. (byte c, [c])) s) = map (\<lambda>c. (byte c, [c])) (dropWhile is_space s)"
  by (induction s) (simp_all add: space_ascii)

lemma TrimSpace_ascii:
  assumes "list_all ascii s"
  shows "TrimSpace s = trim_space s"
proof -
  let ?m = "map (\<lambda>c. (byte c, [c]))"
  have "list_all ascii (rev (dropWhile is_space s))"
    using assms by (auto simp: list_all_iff dest: set_dropWhileD)
  moreover have "rev (?m t) = ?m (rev t)" for t by (simp add: rev_map)
  ultimately have "TrimSpace s = concat (map snd (?m (rev (dropWhile is_space (rev (dropWhile is_space s))))))"
    using assms by (simp add: TrimSpace_def runes_ascii drop_space_ascii)
  also have "\<dots> = trim_space s" by (simp add: trim_space_def trim_right_func_def trim_left_func_def comp_def)
  finally show ?thesis .
qed

lemma TrimSpace_code [code]:
  "TrimSpace s = (if list_all ascii s then trim_space s
     else concat (map snd (rev (dropWhile space_rune (rev (dropWhile space_rune (runes s)))))))"
  using TrimSpace_ascii [of s] by (simp add: TrimSpace_def)

lemma cleanHeading_code [code]:
  "cleanHeading s = (if list_all ascii s then trim_space s else TrimSpace (keep_runes heading_rune s))"
proof -
  have "keep_runes heading_rune s = s" if "list_all ascii s"
    using that by (induction s) (auto simp: keep_runes_def runes.simps ascii_width rune_value_def heading_rune_def ascii_byte)
  then show ?thesis by (simp add: cleanHeading_def TrimSpace_ascii)
qed

text \<open>A finite positive price stays finite and is not negative when it is divided by a million.\<close>

definition price_ok :: "f64 \<Rightarrow> bool" where
  "price_ok x = (case x of Fin y \<Rightarrow> 0 \<le> y | _ \<Rightarrow> False)"

lemma per_million_ok:
  assumes "0 < y" "y < max_f64_bound"
  shows "price_ok (f64_div (Fin y) million)"
proof -
  let ?q = "y / 1000000"
  have "max_f64_bound = 2 powi 1010 * 2 ^ 14" by (simp add: max_f64_bound_def power_int_def)
  then have q: "?q \<le> 2 powi 1010" using assms(2) by simp
  have "ulp_exp ?q \<le> 1010"
  proof -
    have "2 powi ilog2 ?q \<le> ?q" using assms(1) by (intro ilog2_bounds) simp
    also note q
    also have "(2::rat) powi 1010 < 2 powi 1011" by (simp add: power_int_def)
    finally have "ilog2 ?q < 1011" using powi2_mono [of 1011 "ilog2 ?q"] by linarith
    then show ?thesis by (simp add: ulp_exp_def)
  qed
  then have "round_pos ?q \<le> 2 powi 1010" by (intro round_pos_le_powi q)
  also have "\<dots> < max_f64_bound" by (simp add: max_f64_bound_def power_int_def)
  finally have "round64 ?q = Fin (round_pos ?q)" using assms(1) by (simp add: round64_def Let_def)
  then show ?thesis
    using assms(1) round_pos_nonneg [of ?q] by (simp add: price_ok_def f64_div_def million_def)
qed

lemma price_ok_Fin: "price_ok x \<longleftrightarrow> (\<exists>y\<ge>0. x = Fin y)"
  by (cases x) (auto simp: price_ok_def)

end
