(* ===== verification/OpenAI_Scraper.thy ===== *)
theory OpenAI_Scraper
  imports Web_Page
begin

text \<open>
  \<open>internal/scraper/openai/scraper.go\<close>: the pricing islands of the page, the decoding of their
  properties, the rows of the two components, and the models published. The page's parser and the
  unescaping of \<open>golang.org/x/net/html\<close> are arguments.
\<close>

section \<open>Islands\<close>

definition componentTextTokenPricing :: string where
  "componentTextTokenPricing = ''TextTokenPricingTables''"

definition componentGroupedPricing :: string where
  "componentGroupedPricing = ''GroupedPricingTable''"

definition standardTier :: string where
  "standardTier = ''standard''"

definition normalizeSection :: "string \<Rightarrow> string" where
  "normalizeSection s = trim_suffix (to_lower (TrimSpace s)) ''.''"

definition textPricingSections :: "string list" where
  "textPricingSections = [''our latest daybreak models'', ''specialized models'']"

record pricingIsland =
  is_Component :: string
  is_Section :: string
  is_Props :: "(string \<times> any) list"

record scrapedRow =
  sw_Name :: string
  sw_InputPerM :: f64
  sw_OutputPerM :: f64

text \<open>Astro's encoding: a pair of the tag 0 and a value, or of the tag 1 and a list.\<close>

fun decodeAstroValue :: "any \<Rightarrow> any" where
  "decodeAstroValue (AnyMap ms) = AnyMap (map (\<lambda>(k, v). (k, decodeAstroValue v)) ms)"
| "decodeAstroValue (AnyList vs) =
     (case vs of
        [AnyNum tag, v] \<Rightarrow>
          if f64_eq tag (Fin 0) then decodeAstroValue v
          else if f64_eq tag (Fin 1) then
            (case v of AnyList items \<Rightarrow> AnyList (map decodeAstroValue items) | _ \<Rightarrow> AnyList [])
          else AnyList (map decodeAstroValue vs)
      | _ \<Rightarrow> AnyList (map decodeAstroValue vs))"
| "decodeAstroValue v = v"

definition decode_json :: "string \<Rightarrow> any option" where
  "decode_json s = Option.bind (json_parse s) to_any"

definition decodeIslandProps :: "(string \<Rightarrow> string) \<Rightarrow> string \<Rightarrow> (string \<times> any) list option" where
  "decodeIslandProps unesc raw =
     (if raw = [] then None
      else case (case decode_json raw of Some e \<Rightarrow> Some e | None \<Rightarrow> decode_json (unesc raw)) of
        None \<Rightarrow> None
      | Some encoded \<Rightarrow> (case decodeAstroValue encoded of AnyMap props \<Rightarrow> Some props | _ \<Rightarrow> None))"

definition isHeadingLike :: "node \<Rightarrow> bool" where
  "isHeadingLike n = (n_Type n = ElementNode \<and> contains (attrValue n ''class'') ''heading'')"

text \<open>The walk: the section that is open, and the islands met so far.\<close>

type_synonym island_walk = "string \<times> pricingIsland list"

definition open_section :: "node \<Rightarrow> island_walk \<Rightarrow> island_walk" where
  "open_section n st = (let t = cleanHeading (textContent n) in if t \<noteq> [] then (t, snd st) else st)"

definition pricing_component :: "node \<Rightarrow> bool" where
  "pricing_component n = (attrValue n ''component-export'' \<in> {componentTextTokenPricing, componentGroupedPricing})"

definition add_island :: "(string \<Rightarrow> string) \<Rightarrow> node \<Rightarrow> island_walk \<Rightarrow> island_walk" where
  "add_island unesc n st =
     (case decodeIslandProps unesc (attrValue n ''props'') of
        None \<Rightarrow> st
      | Some props \<Rightarrow> (fst st, snd st @ [\<lparr> is_Component = attrValue n ''component-export'',
          is_Section = fst st, is_Props = props \<rparr>]))"

fun walk_islands :: "(string \<Rightarrow> string) \<Rightarrow> node \<Rightarrow> island_walk \<Rightarrow> island_walk"
  and walk_island_list :: "(string \<Rightarrow> string) \<Rightarrow> node list \<Rightarrow> island_walk \<Rightarrow> island_walk" where
  "walk_islands u (Node t d as cs) st =
     (let n = Node t d as cs in
      if element n [''h1'', ''h2'', ''h3'', ''h4''] then walk_island_list u cs (open_section n st)
      else if element n [''span'', ''div'', ''p''] \<and> isHeadingLike n then walk_island_list u cs (open_section n st)
      else if element n [''astro-island''] \<and> pricing_component n then add_island u n st
      else walk_island_list u cs st)"
| "walk_island_list u [] st = st"
| "walk_island_list u (n # ns) st = walk_island_list u ns (walk_islands u n st)"

definition parsePricingIslands :: "(string \<Rightarrow> string) \<Rightarrow> node \<Rightarrow> pricingIsland list" where
  "parsePricingIslands u doc = snd (walk_islands u doc ([], []))"

section \<open>Rows\<close>

definition propString :: "(string \<times> any) list \<Rightarrow> string \<Rightarrow> string option" where
  "propString props key = (case any_key key props of Some (AnyStr s) \<Rightarrow> Some s | _ \<Rightarrow> None)"

definition propSlice :: "(string \<times> any) list \<Rightarrow> string \<Rightarrow> any list option" where
  "propSlice props key = (case any_key key props of Some (AnyList vs) \<Rightarrow> Some vs | _ \<Rightarrow> None)"

definition stringSlice :: "any option \<Rightarrow> string list" where
  "stringSlice v = (case v of
     Some (AnyList items) \<Rightarrow> map (\<lambda>i. case i of AnyStr s \<Rightarrow> s | _ \<Rightarrow> []) items | _ \<Rightarrow> [])"

definition pricePerMillion :: "any \<Rightarrow> f64 option" where
  "pricePerMillion v = (case v of
     AnyNum f \<Rightarrow> if f = NaN \<or> f = PInf \<or> f = NInf \<or> f64_le f (Fin 0) then None else Some f
   | _ \<Rightarrow> None)"

definition row_of :: "string \<Rightarrow> any \<Rightarrow> any \<Rightarrow> scrapedRow option" where
  "row_of name input output =
     (case pricePerMillion input of
        None \<Rightarrow> None
      | Some i \<Rightarrow> map_option (\<lambda>o'. \<lparr> sw_Name = name, sw_InputPerM = i, sw_OutputPerM = o' \<rparr>) (pricePerMillion output))"

text \<open>A row is a name, the input price, prices of caches, and the output price.\<close>

definition text_row :: "any \<Rightarrow> scrapedRow option" where
  "text_row v = (case v of
     AnyList (AnyStr name # input # rest) \<Rightarrow>
       if rest = [] \<or> TrimSpace name = [] then None else row_of name input (last rest)
   | _ \<Rightarrow> None)"

definition textTokenRows :: "(string \<times> any) list \<Rightarrow> scrapedRow list" where
  "textTokenRows props = (case propSlice props ''rows'' of None \<Rightarrow> [] | Some raw \<Rightarrow> List.map_filter text_row raw)"

fun find_index :: "('a \<Rightarrow> bool) \<Rightarrow> 'a list \<Rightarrow> nat option" where
  "find_index f [] = None"
| "find_index f (x # xs) = (if f x then Some 0 else map_option Suc (find_index f xs))"

definition priceColumnIndex :: "string list \<Rightarrow> string \<Rightarrow> nat option" where
  "priceColumnIndex headings want =
     find_index (\<lambda>h. let label = to_lower (TrimSpace h) in label = want \<or> label = ''short context '' @ want) headings"

definition grouped_row :: "bool \<Rightarrow> nat \<Rightarrow> nat \<Rightarrow> string \<Rightarrow> any \<Rightarrow> scrapedRow option" where
  "grouped_row modelInRow inputIdx outputIdx groupName v =
     (case v of
        AnyList values \<Rightarrow>
          (case (if modelInRow then (case values of AnyStr rowName # vs \<Rightarrow> Some (rowName, vs) | _ \<Rightarrow> None)
                 else Some (groupName, values)) of
             None \<Rightarrow> None
           | Some (name, vs) \<Rightarrow>
               if TrimSpace name = [] \<or> length vs \<le> inputIdx \<or> length vs \<le> outputIdx then None
               else row_of (TrimSpace name) (vs ! inputIdx) (vs ! outputIdx))
      | _ \<Rightarrow> None)"

definition group_rows :: "bool \<Rightarrow> nat \<Rightarrow> nat \<Rightarrow> any \<Rightarrow> scrapedRow list" where
  "group_rows modelInRow inputIdx outputIdx v =
     (case v of
        AnyMap grp \<Rightarrow>
          let groupName = (case propString grp ''model'' of Some s \<Rightarrow> s | None \<Rightarrow> []);
              groupRows = (case propSlice grp ''rows'' of Some rs \<Rightarrow> rs | None \<Rightarrow> [])
          in List.map_filter (grouped_row modelInRow inputIdx outputIdx groupName) groupRows
      | _ \<Rightarrow> [])"

definition groupedPricingRows :: "(string \<times> any) list \<Rightarrow> scrapedRow list" where
  "groupedPricingRows props =
     (let headings = stringSlice (any_key ''headings'' props) in
      if length headings < 2 then []
      else
        let modelInRow = EqualFold (TrimSpace (headings ! 1)) ''model'';
            columns = drop (if modelInRow then 2 else 1) headings
        in case (priceColumnIndex columns ''input'', priceColumnIndex columns ''output'') of
             (Some inputIdx, Some outputIdx) \<Rightarrow>
               (case propSlice props ''groups'' of
                  None \<Rightarrow> []
                | Some groups \<Rightarrow> concat (map (group_rows modelInRow inputIdx outputIdx) groups))
           | _ \<Rightarrow> [])"

definition islandRows :: "pricingIsland \<Rightarrow> scrapedRow list" where
  "islandRows island =
     (if is_Component island = componentTextTokenPricing then
        (case propString (is_Props island) ''tier'' of
           None \<Rightarrow> []
         | Some tier \<Rightarrow>
             if EqualFold (TrimSpace tier) standardTier then textTokenRows (is_Props island) else [])
      else if is_Component island = componentGroupedPricing then
        (if normalizeSection (is_Section island) \<in> set textPricingSections then groupedPricingRows (is_Props island) else [])
      else [])"

section \<open>Models\<close>

definition normalizeSlug_openai :: "string \<Rightarrow> string" where
  "normalizeSlug_openai name = hyphenate '' _'' (to_lower (TrimSpace (up_to (CHR ''('') name)))"

text \<open>The rows of an island: the first row of a slug counts.\<close>

definition add_row :: "ScrapedModel list \<Rightarrow> scrapedRow \<Rightarrow> ScrapedModel list" where
  "add_row models row =
     (let slug = ''openai/'' @ normalizeSlug_openai (sw_Name row) in
      if slug = ''openai/'' \<or> slug \<in> scr_Slug ` set models then models
      else models @ [\<lparr> scr_Slug = slug, scr_Provider = ''openai'',
        scr_InputCostPerToken = f64_div (sw_InputPerM row) million,
        scr_OutputCostPerToken = f64_div (sw_OutputPerM row) million,
        scr_ContextWindow = None, scr_Modality = ''text'', scr_SourceName = ''openai'', scr_UnderlyingProvider = [] \<rparr>])"

text \<open>Of the grouped islands of a section the first is read.\<close>

definition add_rows :: "string list \<times> ScrapedModel list \<Rightarrow> pricingIsland \<Rightarrow> string list \<times> ScrapedModel list" where
  "add_rows st island =
     (let key = normalizeSection (is_Section island) in
      if is_Component island = componentGroupedPricing then
        (if key \<in> set (fst st) then st else (key # fst st, foldl add_row (snd st) (islandRows island)))
      else (fst st, foldl add_row (snd st) (islandRows island)))"

definition toScrapedModels :: "pricingIsland list \<Rightarrow> ScrapedModel list" where
  "toScrapedModels islands = snd (foldl add_rows ([], []) islands)"

definition openai_Fetch :: "(string \<Rightarrow> node option) \<Rightarrow> (string \<Rightarrow> string) \<Rightarrow> fetch_answer \<Rightarrow> fetch_error + ScrapedModel list" where
  "openai_Fetch parse unesc resp =
     (case fetched resp of
        Inl e \<Rightarrow> Inl e
      | Inr body \<Rightarrow>
          (case parse body of
             None \<Rightarrow> Inl BadBody
           | Some doc \<Rightarrow>
               let models = toScrapedModels (parsePricingIslands unesc doc)
               in if models = [] then Inl NoModels else Inr models))"

end
