(* ===== verification/Anthropic_Scraper.thy ===== *)
theory Anthropic_Scraper
  imports Web_Page
begin

text \<open>
  \<open>internal/scraper/anthropic/scraper.go\<close>: the tables of the page with the headings above them,
  their prices per million tokens, the slugs of the model names, and the models published.
\<close>

section \<open>Tables\<close>

record PricingTable =
  pt_Section :: string
  pt_Headers :: "string list"
  pt_Rows :: "string list list"

definition colSpan :: "node \<Rightarrow> nat" where
  "colSpan n =
     (case List.map_filter (\<lambda>(k, v). if EqualFold k ''colspan''
             then (case atoi v of Some i \<Rightarrow> if 0 < i then Some (nat i) else None | None \<Rightarrow> None) else None) (n_Attr n) of
        v # _ \<Rightarrow> v | [] \<Rightarrow> 1)"

text \<open>The headings of the last row of the head, without the first of them.\<close>

definition extractHeaders :: "node \<Rightarrow> string list" where
  "extractHeaders thead =
     (case rev (table_rows thead) of
        [] \<Rightarrow> []
      | row # _ \<Rightarrow> concat (map (\<lambda>th. replicate (colSpan th) (TrimSpace (textContent th)))
          (drop 1 (filter (\<lambda>c. element c [''th'']) (n_Children row)))))"

definition extractCells :: "node \<Rightarrow> string list" where
  "extractCells tr = map (\<lambda>c. TrimSpace (textContent c)) (row_cells tr)"

definition extractRows :: "node \<Rightarrow> string list list" where
  "extractRows tbody = filter (\<lambda>row. row \<noteq> []) (map extractCells (table_rows tbody))"

definition extractTable :: "node \<Rightarrow> string \<Rightarrow> PricingTable option" where
  "extractTable n sect =
     (case (rev (filter (\<lambda>c. element c [''thead'']) (n_Children n)),
            rev (filter (\<lambda>c. element c [''tbody'']) (n_Children n))) of
        (thead # _, tbody # _) \<Rightarrow>
          let pt = \<lparr> pt_Section = sect, pt_Headers = extractHeaders thead, pt_Rows = extractRows tbody \<rparr>
          in if pt_Headers pt = [] \<or> pt_Rows pt = [] then None else Some pt
      | _ \<Rightarrow> None)"

text \<open>The walk: the section that is open, and the tables met so far.\<close>

type_synonym table_walk = "string \<times> PricingTable list"

definition add_table :: "node \<Rightarrow> table_walk \<Rightarrow> table_walk" where
  "add_table n st = (case extractTable n (fst st) of None \<Rightarrow> st | Some pt \<Rightarrow> (fst st, snd st @ [pt]))"

definition title_section :: "node \<Rightarrow> table_walk \<Rightarrow> table_walk" where
  "title_section n st = (let t = cleanHeading (textContent n) in if t \<noteq> [] then (t, snd st) else st)"

fun walk_tables :: "node \<Rightarrow> table_walk \<Rightarrow> table_walk"
  and walk_table_list :: "node list \<Rightarrow> table_walk \<Rightarrow> table_walk" where
  "walk_tables (Node t d as cs) st =
     (let n = Node t d as cs in
      if element n [''h1'', ''h2'', ''h3'', ''h4''] then walk_table_list cs (title_section n st)
      else if element n [''table''] then add_table n st
      else walk_table_list cs st)"
| "walk_table_list [] st = st"
| "walk_table_list (n # ns) st = walk_table_list ns (walk_tables n st)"

definition parseTables :: "node \<Rightarrow> PricingTable list" where
  "parseTables doc = snd (walk_tables doc ([], []))"

section \<open>Prices and names\<close>

definition em_dash :: string where
  "em_dash = [CHR 0xE2, CHR 0x80, CHR 0x94]"

definition parsePricePerMTok :: "string \<Rightarrow> f64 option" where
  "parsePricePerMTok raw =
     (let s = TrimSpace raw in
      if s = [] \<or> s = ''-'' \<or> s = em_dash then None
      else
        let num = replace_all (TrimSpace (up_to (CHR ''/'') (trim_prefix s ''$''))) '','' [] in
        case ParseFloat num of
          None \<Rightarrow> None
        | Some v \<Rightarrow> if v = NaN \<or> v = PInf \<or> v = NInf \<or> f64_le v (Fin 0) then None else Some (f64_div v million))"

definition cleanModelName :: "string \<Rightarrow> string" where
  "cleanModelName s = TrimSpace (foldl (\<lambda>s suffix. trim_suffix (TrimSpace s) suffix) (TrimSpace s)
     [''(deprecated)'', ''(legacy)'', ''(preview)''])"

definition startsWithDigit :: "string \<Rightarrow> bool" where
  "startsWithDigit s = (s \<noteq> [] \<and> is_digit (hd s))"

text \<open>Claude, a variant and a version; any other name is hyphenated as it is.\<close>

definition versioned_slug :: "string list \<Rightarrow> string option" where
  "versioned_slug parts =
     (case parts of
        [claude, variant, version] \<Rightarrow>
          if EqualFold claude ''claude'' \<and> startsWithDigit version then
            (case index_byte version (CHR ''.'') of
               Some i \<Rightarrow> Some (''claude-'' @ take i version @ ''-'' @
                 replace_all (drop (Suc i) version) ''.'' ''-'' @ ''-'' @ to_lower variant)
             | None \<Rightarrow> Some (''claude-'' @ version @ ''-'' @ to_lower variant))
          else None
      | _ \<Rightarrow> None)"

definition canonicalAnthropicSlug :: "string \<Rightarrow> string" where
  "canonicalAnthropicSlug full =
     (let name = (if CHR ''('' \<in> set full then TrimSpace (up_to (CHR ''('') full) else full) in
      case versioned_slug (Fields name) of
        Some slug \<Rightarrow> slug
      | None \<Rightarrow> hyphenate '' _.'' (to_lower name))"

section \<open>Models\<close>

fun columnIndex :: "string list \<Rightarrow> string \<Rightarrow> nat option" where
  "columnIndex [] text = None"
| "columnIndex (h # hs) text =
     (if contains (to_lower h) (to_lower text) then Some 0 else map_option Suc (columnIndex hs text))"

text \<open>The name and the two prices of a row whose cells match the headings.\<close>

definition row_prices :: "PricingTable \<Rightarrow> nat \<Rightarrow> nat \<Rightarrow> string list \<Rightarrow> (string \<times> f64 \<times> f64) option" where
  "row_prices pt inputIdx outputIdx row =
     (case row of
        [] \<Rightarrow> None
      | name # _ \<Rightarrow>
          let modelName = cleanModelName name in
          if modelName = [] \<or> length row \<noteq> length (pt_Headers pt) + 1 \<or>
             length row \<le> inputIdx + 1 \<or> length row \<le> outputIdx + 1 then None
          else case (parsePricePerMTok (row ! (inputIdx + 1)), parsePricePerMTok (row ! (outputIdx + 1))) of
            (Some i, Some p) \<Rightarrow> Some (modelName, i, p) | _ \<Rightarrow> None)"

definition anthropic_model :: "string \<Rightarrow> f64 \<Rightarrow> f64 \<Rightarrow> ScrapedModel" where
  "anthropic_model slug i p = \<lparr> scr_Slug = slug, scr_Provider = ''anthropic'', scr_InputCostPerToken = i,
     scr_OutputCostPerToken = p, scr_ContextWindow = None, scr_Modality = ''text'',
     scr_SourceName = ''anthropic'', scr_UnderlyingProvider = [] \<rparr>"

definition add_priced :: "ScrapedModel list \<Rightarrow> (string \<times> f64 \<times> f64) option \<Rightarrow> ScrapedModel list" where
  "add_priced models r =
     (case r of
        None \<Rightarrow> models
      | Some (name, i, p) \<Rightarrow>
          let slug = ''anthropic/'' @ canonicalAnthropicSlug name
          in if slug \<in> scr_Slug ` set models then models else models @ [anthropic_model slug i p])"

definition add_table_models :: "ScrapedModel list \<Rightarrow> PricingTable \<Rightarrow> ScrapedModel list" where
  "add_table_models models pt =
     (if \<not> EqualFold (pt_Section pt) ''Model pricing'' then models
      else case (columnIndex (pt_Headers pt) ''Base Input'', columnIndex (pt_Headers pt) ''Output'') of
        (Some inputIdx, Some outputIdx) \<Rightarrow> foldl add_priced models (map (row_prices pt inputIdx outputIdx) (pt_Rows pt))
      | _ \<Rightarrow> models)"

definition table_models :: "PricingTable list \<Rightarrow> ScrapedModel list" where
  "table_models tables = foldl add_table_models [] tables"

definition anthropic_Fetch :: "(string \<Rightarrow> node option) \<Rightarrow> fetch_answer \<Rightarrow> fetch_error + ScrapedModel list" where
  "anthropic_Fetch parse resp =
     (case fetched resp of
        Inl e \<Rightarrow> Inl e
      | Inr body \<Rightarrow>
          (case parse body of
             None \<Rightarrow> Inl BadBody
           | Some doc \<Rightarrow>
               let models = table_models (parseTables doc)
               in if models = [] then Inl NoModels else Inr models))"

end
