(* ===== verification/Gemini_Scraper.thy ===== *)
theory Gemini_Scraper
  imports Web_Page
begin

text \<open>
  \<open>internal/scraper/gemini/scraper.go\<close>: the model ids of a heading, the tier below it, the paid
  prices of the tables, and the models published. Unicode's table of symbols is an argument.
\<close>

section \<open>Entries\<close>

record ModelPricing =
  mp_ModelName :: string
  mp_Tier :: string
  mp_InputRaw :: string
  mp_OutputRaw :: string

definition isEmoji :: "(nat \<Rightarrow> bool) \<Rightarrow> nat \<Rightarrow> bool" where
  "isEmoji so r = (so r \<or> (0x1F300 \<le> r \<and> r \<le> 0x1FAFF) \<or> (0x2600 \<le> r \<and> r \<le> 0x27BF))"

definition cleanModelName_gemini :: "(nat \<Rightarrow> bool) \<Rightarrow> string \<Rightarrow> string" where
  "cleanModelName_gemini so s = TrimSpace (keep_runes (\<lambda>r. \<not> isEmoji so r) s)"

text \<open>The ids of the spans before a heading, nearest first; blank texts between them are passed over.\<close>

fun preceding_ids :: "node list \<Rightarrow> string list" where
  "preceding_ids [] = []"
| "preceding_ids (s # ss) =
     (if n_Type s = TextNode \<and> TrimSpace (n_Data s) = [] then preceding_ids ss
      else if \<not> element s [''span''] then []
      else (if attrValue s ''id'' = [] then [] else [attrValue s ''id'']) @ preceding_ids ss)"

definition modelIDs :: "(nat \<Rightarrow> bool) \<Rightarrow> node list \<Rightarrow> node \<Rightarrow> string \<Rightarrow> string list" where
  "modelIDs so before h2 headingText =
     (let ids = (if attrValue h2 ''id'' = [] then [] else [attrValue h2 ''id'']) @ rev (preceding_ids before)
      in if ids \<noteq> [] then ids
         else if cleanModelName_gemini so headingText = [] then [] else [cleanModelName_gemini so headingText])"

text \<open>The paid cell, the third, of the rows labelled with the input and the output price.\<close>

definition paid_row :: "ModelPricing \<Rightarrow> node \<Rightarrow> ModelPricing" where
  "paid_row mp row =
     (case row_cells row of
        lab # _ # paid # _ \<Rightarrow>
          let label = to_lower (TrimSpace (textContent lab)); paidCell = TrimSpace (textContent paid) in
          if has_prefix label ''input price'' then mp\<lparr> mp_InputRaw := paidCell \<rparr>
          else if has_prefix label ''output price'' then mp\<lparr> mp_OutputRaw := paidCell \<rparr>
          else mp
      | _ \<Rightarrow> mp)"

definition extractPricing :: "node \<Rightarrow> string \<Rightarrow> string \<Rightarrow> ModelPricing option" where
  "extractPricing n modelName tier =
     (let mp = foldl paid_row \<lparr> mp_ModelName = modelName, mp_Tier = tier, mp_InputRaw = [], mp_OutputRaw = [] \<rparr> (table_rows n)
      in if mp_InputRaw mp = [] \<and> mp_OutputRaw mp = [] then None else Some mp)"

text \<open>The walk: the models of the last heading, their tier, and the entries so far.\<close>

record price_walk =
  pw_models :: "string list"
  pw_tier :: string
  pw_entries :: "ModelPricing list"

definition open_model :: "(nat \<Rightarrow> bool) \<Rightarrow> node list \<Rightarrow> node \<Rightarrow> price_walk \<Rightarrow> price_walk" where
  "open_model so before n st = (let t = textContent n in
     if t = [] then st else st\<lparr> pw_models := modelIDs so before n t, pw_tier := [] \<rparr>)"

definition open_tier :: "node \<Rightarrow> price_walk \<Rightarrow> price_walk" where
  "open_tier n st = (let t = textContent n in if t = [] then st else st\<lparr> pw_tier := t \<rparr>)"

definition add_entries :: "node \<Rightarrow> price_walk \<Rightarrow> price_walk" where
  "add_entries n st =
     (if pw_models st \<noteq> [] \<and> pw_tier st \<noteq> []
      then st\<lparr> pw_entries := pw_entries st @ List.map_filter (\<lambda>name. extractPricing n name (pw_tier st)) (pw_models st) \<rparr>
      else st)"

fun walk_prices :: "(nat \<Rightarrow> bool) \<Rightarrow> node list \<Rightarrow> node \<Rightarrow> price_walk \<Rightarrow> price_walk"
  and walk_price_list :: "(nat \<Rightarrow> bool) \<Rightarrow> node list \<Rightarrow> node list \<Rightarrow> price_walk \<Rightarrow> price_walk" where
  "walk_prices so before (Node t d as cs) st =
     (let n = Node t d as cs in
      if element n [''h2''] then walk_price_list so [] cs (open_model so before n st)
      else if element n [''h3''] then walk_price_list so [] cs (open_tier n st)
      else if element n [''table''] then add_entries n st
      else walk_price_list so [] cs st)"
| "walk_price_list so before [] st = st"
| "walk_price_list so before (n # ns) st = walk_price_list so (n # before) ns (walk_prices so before n st)"

definition parseEntries :: "(nat \<Rightarrow> bool) \<Rightarrow> node \<Rightarrow> ModelPricing list" where
  "parseEntries so doc = pw_entries (walk_prices so [] doc \<lparr> pw_models = [], pw_tier = [], pw_entries = [] \<rparr>)"

section \<open>Prices\<close>

definition firstPriceRe :: regex where
  "firstPriceRe = Cat [Txt ''$'', Grp (Cat [Cls is_digit, Run 0 (\<lambda>c. is_digit c \<or> c = CHR '',''),
     Opt (Cat [Txt ''.'', Run 1 is_digit])])]"

definition nonTokenUnits :: "string list" where
  "nonTokenUnits = [''per image'', ''/image'', ''per second'', ''/second'', ''per minute'', ''/min'',
     ''per hour'', ''/hour'', ''per day'', ''per clip'', ''per request'', ''/request'', ''per 1k'', ''per 1,000'']"

definition parsePricePerMillion :: "string \<Rightarrow> f64 option" where
  "parsePricePerMillion raw =
     (let s = TrimSpace raw in
      if s = [] \<or> EqualFold s ''not available'' \<or> EqualFold s ''free of charge'' then None
      else case FindSubmatchRest firstPriceRe (up_to (CHR 0x0A) s) of
        Some (num # _, rest) \<Rightarrow>
          let tail = to_lower (TrimSpace rest) in
          if list_ex (has_prefix tail) nonTokenUnits then None
          else (case ParseFloat (replace_all num '','' []) of
                  None \<Rightarrow> None
                | Some v \<Rightarrow> if f64_le v (Fin 0) then None else Some (f64_div v million))
      | _ \<Rightarrow> None)"

section \<open>Models\<close>

definition normalizeSlug_gemini :: "string \<Rightarrow> string" where
  "normalizeSlug_gemini name = hyphenate '' _'' (to_lower (TrimSpace (up_to (CHR ''('') name)))"

definition google_model :: "string \<Rightarrow> f64 \<Rightarrow> f64 \<Rightarrow> ScrapedModel" where
  "google_model slug i p = \<lparr> scr_Slug = slug, scr_Provider = ''google'', scr_InputCostPerToken = i,
     scr_OutputCostPerToken = p, scr_ContextWindow = None, scr_Modality = ''text'',
     scr_SourceName = ''google'', scr_UnderlyingProvider = [] \<rparr>"

definition add_entry :: "ScrapedModel list \<Rightarrow> ModelPricing \<Rightarrow> ScrapedModel list" where
  "add_entry models mp =
     (if \<not> EqualFold (mp_Tier mp) ''Standard'' then models
      else case (parsePricePerMillion (mp_InputRaw mp), parsePricePerMillion (mp_OutputRaw mp)) of
        (Some i, Some p) \<Rightarrow>
          let slug = ''google/'' @ normalizeSlug_gemini (mp_ModelName mp)
          in if slug \<in> scr_Slug ` set models then models else models @ [google_model slug i p]
      | _ \<Rightarrow> models)"

definition entry_models :: "ModelPricing list \<Rightarrow> ScrapedModel list" where
  "entry_models entries = foldl add_entry [] entries"

definition gemini_Fetch :: "(string \<Rightarrow> node option) \<Rightarrow> (nat \<Rightarrow> bool) \<Rightarrow> fetch_answer \<Rightarrow> fetch_error + ScrapedModel list" where
  "gemini_Fetch parse so resp =
     (case fetched resp of
        Inl e \<Rightarrow> Inl e
      | Inr body \<Rightarrow>
          (case parse body of
             None \<Rightarrow> Inl BadBody
           | Some doc \<Rightarrow>
               let models = entry_models (parseEntries so doc)
               in if models = [] then Inl NoModels else Inr models))"

end
