(* ===== verification/Feed_Scrapers.thy ===== *)
theory Feed_Scrapers
  imports Web_Page
begin

text \<open>
  The scrapers of the three JSON feeds: \<open>internal/scraper/openrouter\<close>, \<open>internal/scraper/litellm\<close>
  and \<open>internal/scraper/huggingface\<close>. The order in which Go ranges over a decoded map is an argument,
  which reorders the keys. Of a field that a feed repeats the last value counts, of a repeated
  list the last list.
\<close>

section \<open>Structs and lists\<close>

text \<open>The members a struct is read from, \<open>null\<close> giving none, and a list field of structs.\<close>

definition struct_of :: "json \<Rightarrow> (string \<times> json) list option" where
  "struct_of v = (case v of JNull \<Rightarrow> Some [] | JObj ms \<Rightarrow> Some ms | _ \<Rightarrow> None)"

definition list_of_structs :: "((string \<times> json) list \<Rightarrow> 'a option) \<Rightarrow> json \<Rightarrow> 'a list option" where
  "list_of_structs f v = (case v of
     JNull \<Rightarrow> Some []
   | JArr vs \<Rightarrow> those (map (\<lambda>v. Option.bind (struct_of v) f) vs)
   | _ \<Rightarrow> None)"

definition list_field :: "string \<Rightarrow> ((string \<times> json) list \<Rightarrow> 'a option) \<Rightarrow> (string \<times> json) list \<Rightarrow> 'a list option" where
  "list_field name f ms = foldl (\<lambda>acc (_, v). if acc = None then None else list_of_structs f v) (Some [])
     (filter (\<lambda>(k, _). to_lower k = to_lower name) ms)"

text \<open>A member that is a struct of its own.\<close>

definition struct_field :: "string \<Rightarrow> (string \<times> json) list \<Rightarrow> (string \<times> json) list option" where
  "struct_field name ms = foldl (\<lambda>acc v. case (acc, v) of (Some xs, JObj ys) \<Rightarrow> Some (xs @ ys) | _ \<Rightarrow> None)
     (Some []) (field_values name ms)"

text \<open>A map of structs: the last of equal keys counts.\<close>

definition decode_map :: "((string \<times> json) list \<Rightarrow> 'a option) \<Rightarrow> (string \<times> json) list \<Rightarrow> (string \<times> 'a) list option" where
  "decode_map f ms = those (map (\<lambda>(k, v). map_option (Pair k) (Option.bind (struct_of v) f)) ms)"

text \<open>The entries in the order of a range over the map.\<close>

definition ranged :: "(string list \<Rightarrow> string list) \<Rightarrow> (string \<times> 'a) list \<Rightarrow> (string \<times> 'a) list" where
  "ranged ord es = map (\<lambda>k. (k, the (map_of (rev es) k))) (ord (remdups (map fst es)))"

definition before_slash :: "string \<Rightarrow> string" where
  "before_slash s = (case index_byte s (CHR ''/'') of Some i \<Rightarrow> take i s | None \<Rightarrow> [])"

section \<open>openrouter/scraper.go\<close>

record openRouterModel =
  or_ID :: string
  or_Prompt :: string
  or_Completion :: string
  or_ContextLength :: int
  or_Modality :: string

definition read_openrouter :: "(string \<times> json) list \<Rightarrow> openRouterModel option" where
  "read_openrouter ms =
     (case (str_field ''id'' ms, int_field ''context_length'' ms, struct_field ''pricing'' ms, struct_field ''architecture'' ms) of
        (Some i, Some n, Some ps, Some as) \<Rightarrow>
          (case (str_field ''prompt'' ps, str_field ''completion'' ps, str_field ''modality'' as) of
             (Some p, Some c, Some m) \<Rightarrow>
               Some \<lparr> or_ID = i, or_Prompt = p, or_Completion = c, or_ContextLength = n, or_Modality = m \<rparr>
           | _ \<Rightarrow> None)
      | _ \<Rightarrow> None)"

definition openRouterResponse :: "string \<Rightarrow> openRouterModel list option" where
  "openRouterResponse body = Option.bind (Option.bind (json_first body) struct_of) (list_field ''data'' read_openrouter)"

definition providerFromSlug :: "string \<Rightarrow> string" where
  "providerFromSlug = before_slash"

definition positive_price :: "string \<Rightarrow> f64 option" where
  "positive_price s = (case ParseFloat s of None \<Rightarrow> None
     | Some x \<Rightarrow> if f64_le x (Fin 0) then None else Some x)"

definition openrouter_model :: "openRouterModel \<Rightarrow> ScrapedModel option" where
  "openrouter_model m =
     (case (positive_price (or_Prompt m), positive_price (or_Completion m)) of
        (Some input, Some output) \<Rightarrow>
          Some \<lparr> scr_Slug = or_ID m, scr_Provider = providerFromSlug (or_ID m), scr_InputCostPerToken = input,
            scr_OutputCostPerToken = output,
            scr_ContextWindow = (if 0 < or_ContextLength m then Some (or_ContextLength m) else None),
            scr_Modality = or_Modality m, scr_SourceName = ''openrouter'',
            scr_UnderlyingProvider = providerFromSlug (or_ID m) \<rparr>
      | _ \<Rightarrow> None)"

definition openrouter_Fetch :: "fetch_answer \<Rightarrow> fetch_error + ScrapedModel list" where
  "openrouter_Fetch resp =
     (case fetched resp of
        Inl e \<Rightarrow> Inl e
      | Inr body \<Rightarrow> (case openRouterResponse body of
          None \<Rightarrow> Inl BadBody | Some ms \<Rightarrow> Inr (List.map_filter openrouter_model ms)))"

section \<open>litellm/scraper.go\<close>

record liteLLMEntry =
  ll_InputCostPerToken :: "f64 option"
  ll_OutputCostPerToken :: "f64 option"
  ll_MaxInputTokens :: any
  ll_LiteLLMProvider :: string
  ll_Mode :: string

definition any_field :: "string \<Rightarrow> (string \<times> json) list \<Rightarrow> any option" where
  "any_field name ms = foldl (\<lambda>acc (_, v). if acc = None then None else to_any v) (Some AnyNil)
     (filter (\<lambda>(k, _). to_lower k = to_lower name) ms)"

definition read_litellm :: "(string \<times> json) list \<Rightarrow> liteLLMEntry option" where
  "read_litellm ms =
     (case (float_ptr_field ''input_cost_per_token'' ms, float_ptr_field ''output_cost_per_token'' ms,
            any_field ''max_input_tokens'' ms, str_field ''litellm_provider'' ms, str_field ''mode'' ms) of
        (Some i, Some p, Some t, Some prov, Some m) \<Rightarrow>
          Some \<lparr> ll_InputCostPerToken = i, ll_OutputCostPerToken = p, ll_MaxInputTokens = t,
            ll_LiteLLMProvider = prov, ll_Mode = m \<rparr>
      | _ \<Rightarrow> None)"

definition modalityFromMode :: "string \<Rightarrow> string" where
  "modalityFromMode mode =
     (if mode = ''embedding'' then ''embedding''
      else if mode = ''image_generation'' then ''image''
      else if mode = ''audio_transcription'' \<or> mode = ''audio_speech'' then ''audio''
      else if mode = ''multimodal'' then ''multimodal''
      else ''text'')"

text \<open>The conversion of a float to an integer: towards zero; beyond 64 bits, the least integer.\<close>

definition int_of_float :: "f64 \<Rightarrow> int" where
  "int_of_float x = (case x of
     Fin y \<Rightarrow> let i = (if 0 \<le> y then \<lfloor>y\<rfloor> else \<lceil>y\<rceil>) in if - (2 ^ 63) \<le> i \<and> i < 2 ^ 63 then i else - (2 ^ 63)
   | _ \<Rightarrow> - (2 ^ 63))"

definition litellm_model :: "string \<times> liteLLMEntry \<Rightarrow> ScrapedModel option" where
  "litellm_model ke =
     (case ke of (key, e) \<Rightarrow>
      case (ll_InputCostPerToken e, ll_OutputCostPerToken e) of
        (Some input, Some output) \<Rightarrow>
          if f64_le input (Fin 0) \<or> f64_le output (Fin 0) then None
          else Some \<lparr> scr_Slug = key,
            scr_Provider = (if ll_LiteLLMProvider e = [] then before_slash key else ll_LiteLLMProvider e),
            scr_InputCostPerToken = input, scr_OutputCostPerToken = output,
            scr_ContextWindow = (case ll_MaxInputTokens e of
               AnyNum v \<Rightarrow> if f64_lt (Fin 0) v then Some (int_of_float v) else None | _ \<Rightarrow> None),
            scr_Modality = modalityFromMode (ll_Mode e), scr_SourceName = ''litellm'', scr_UnderlyingProvider = [] \<rparr>
      | _ \<Rightarrow> None)"

definition litellm_Fetch :: "(string list \<Rightarrow> string list) \<Rightarrow> fetch_answer \<Rightarrow> fetch_error + ScrapedModel list" where
  "litellm_Fetch ord resp =
     (case fetched resp of
        Inl e \<Rightarrow> Inl e
      | Inr body \<Rightarrow> (case Option.bind (Option.bind (json_first body) struct_of) (decode_map read_litellm) of
          None \<Rightarrow> Inl BadBody | Some es \<Rightarrow> Inr (List.map_filter litellm_model (ranged ord es))))"

section \<open>huggingface/scraper.go\<close>

definition providerNormMap :: "(string \<times> string) list" where
  "providerNormMap = [(''together-ai'', ''together''), (''replicate'', ''replicate''), (''fal-ai'', ''fal-ai''),
     (''nebius'', ''nebius''), (''hyperbolic'', ''hyperbolic''), (''sambanova'', ''sambanova''),
     (''fireworks-ai'', ''fireworks''), (''hf-inference'', ''hf-inference'')]"

record hfProviderEntry =
  hf_Provider :: string
  hf_Status :: string
  hf_Input :: f64
  hf_Output :: f64

record hfModel =
  hf_ID :: string
  hf_PipelineTag :: string
  hf_Mapping :: "(string \<times> hfProviderEntry) list"

definition read_provider :: "(string \<times> json) list \<Rightarrow> hfProviderEntry option" where
  "read_provider ms =
     (case (str_field ''provider'' ms, str_field ''status'' ms, struct_field ''pricing'' ms) of
        (Some p, Some s, Some ps) \<Rightarrow>
          (case (float_field ''input'' ps, float_field ''output'' ps) of
             (Some i, Some q) \<Rightarrow> Some \<lparr> hf_Provider = p, hf_Status = s, hf_Input = i, hf_Output = q \<rparr>
           | _ \<Rightarrow> None)
      | _ \<Rightarrow> None)"

text \<open>A field that is a map is filled by each of its objects; \<open>null\<close> empties it.\<close>

definition map_field_of :: "string \<Rightarrow> (string \<times> json) list \<Rightarrow> (string \<times> json) list option" where
  "map_field_of name ms = foldl (\<lambda>acc (_, v). case (acc, v) of
       (Some xs, JObj ys) \<Rightarrow> Some (xs @ ys) | (Some _, JNull) \<Rightarrow> Some [] | _ \<Rightarrow> None)
     (Some []) (filter (\<lambda>(k, _). to_lower k = to_lower name) ms)"

definition read_hf :: "(string \<times> json) list \<Rightarrow> hfModel option" where
  "read_hf ms =
     (case (str_field ''id'' ms, str_field ''pipeline_tag'' ms,
            Option.bind (map_field_of ''inferenceProviderMapping'' ms) (decode_map read_provider)) of
        (Some i, Some t, Some m) \<Rightarrow> Some \<lparr> hf_ID = i, hf_PipelineTag = t, hf_Mapping = m \<rparr>
      | _ \<Rightarrow> None)"

definition normalizedProvider :: "string \<Rightarrow> string" where
  "normalizedProvider hfID = (case map_of providerNormMap hfID of Some v \<Rightarrow> v | None \<Rightarrow> hfID)"

definition normalizeModelName :: "string \<Rightarrow> string" where
  "normalizeModelName hfModelID =
     hyphenate ''_.'' (to_lower (case last_index_byte hfModelID (CHR ''/'') of
       Some i \<Rightarrow> drop (Suc i) hfModelID | None \<Rightarrow> hfModelID))"

definition hf_epsilon :: f64 where
  "hf_epsilon = round64 (1 / 10 ^ 12)"

definition hf_model :: "string \<Rightarrow> string \<times> hfProviderEntry \<Rightarrow> ScrapedModel option" where
  "hf_model model ke =
     (case ke of (hfProviderID, entry) \<Rightarrow>
      if hf_Status entry \<noteq> ''live'' then None
      else if f64_le (hf_Input entry) hf_epsilon \<or> f64_le (hf_Output entry) hf_epsilon then None
      else
        let normProv = normalizedProvider hfProviderID in
        Some \<lparr> scr_Slug = normProv @ ''/'' @ normalizeModelName model, scr_Provider = normProv,
          scr_InputCostPerToken = hf_Input entry, scr_OutputCostPerToken = hf_Output entry,
          scr_ContextWindow = None, scr_Modality = ''text'',
          scr_SourceName = ''huggingface_inference_providers'', scr_UnderlyingProvider = normProv \<rparr>)"

definition hf_models :: "(string list \<Rightarrow> string list) \<Rightarrow> hfModel \<Rightarrow> ScrapedModel list" where
  "hf_models ord m =
     (if hf_PipelineTag m \<noteq> ''text-generation'' then []
      else List.map_filter (hf_model (hf_ID m)) (ranged ord (hf_Mapping m)))"

definition huggingface_Fetch :: "(string list \<Rightarrow> string list) \<Rightarrow> fetch_answer \<Rightarrow> fetch_error + ScrapedModel list" where
  "huggingface_Fetch ord resp =
     (case fetched resp of
        Inl e \<Rightarrow> Inl e
      | Inr body \<Rightarrow> (case Option.bind (json_first body) (list_of_structs read_hf) of
          None \<Rightarrow> Inl BadBody
        | Some ms \<Rightarrow>
            let models = concat (map (hf_models ord) ms)
            in if models = [] then Inl NoModels else Inr models))"

end
