(* ===== verification/Scraper_Guarantees.thy ===== *)
theory Scraper_Guarantees
  imports OpenAI_Scraper Anthropic_Scraper Gemini_Scraper Feed_Scrapers
begin

text \<open>
  What the price scrapers publish: from a page no slug twice and only finite prices that are not
  negative, from OpenAI's page only standard prices, from Anthropic's only prices that stand in the
  right columns. The JSON feeds are looser: OpenRouter's prices may be no numbers.
\<close>

section \<open>Numbers of a page\<close>

lemma round64_bound:
  assumes "round64 x = Fin y"
  shows "y < max_f64_bound"
proof -
  have "\<not> 0 < x \<Longrightarrow> x \<noteq> 0 \<Longrightarrow> - round_pos (- x) < max_f64_bound"
    using round_pos_nonneg [of "- x"] by (simp add: max_f64_bound_def)
  then show ?thesis using assms
    by (auto simp: round64_def Let_def max_f64_bound_def split: if_splits)
qed

lemma ParseFloat_bound:
  assumes "ParseFloat s = Some (Fin y)"
  shows "y < max_f64_bound"
  using assms by (auto simp: ParseFloat_def special_float_def dest: round64_bound
      split: option.splits if_splits f64.splits)

text \<open>The numbers in a decoded value are numbers of 64 bits.\<close>

fun any_ok :: "any \<Rightarrow> bool" where
  "any_ok (AnyNum f) = (case f of Fin y \<Rightarrow> y < max_f64_bound | _ \<Rightarrow> True)"
| "any_ok (AnyList vs) = list_all any_ok vs"
| "any_ok (AnyMap ms) = list_all (\<lambda>(k, v). any_ok v) ms"
| "any_ok v = True"

lemma those_mem: "those xs = Some ys \<Longrightarrow> y \<in> set ys \<Longrightarrow> Some y \<in> set xs"
  by (induction xs arbitrary: ys) (auto split: option.splits)

lemma to_any_ok: "to_any v = Some a \<Longrightarrow> any_ok a"
proof (induction v arbitrary: a rule: to_any.induct)
  case (3 n)
  then show ?case using ParseFloat_bound by (auto split: f64.split)
next
  case (5 vs)
  then show ?case by (fastforce simp: list_all_iff dest: those_mem)
next
  case (6 ms)
  then show ?case by (fastforce simp: list_all_iff dest: those_mem set_zip_rightD)
qed auto

lemma decode_list_cases:
  "decodeAstroValue (AnyList vs) = AnyList (map decodeAstroValue vs) \<or>
   (\<exists>elem v. vs = [AnyNum elem, v] \<and> (decodeAstroValue (AnyList vs) = decodeAstroValue v \<or>
      decodeAstroValue (AnyList vs) = AnyList [] \<or>
      (\<exists>items. v = AnyList items \<and> decodeAstroValue (AnyList vs) = AnyList (map decodeAstroValue items))))"
  by (auto split: list.split any.split)

lemma decode_ok: "any_ok v \<Longrightarrow> any_ok (decodeAstroValue v)"
proof (induction v rule: measure_induct_rule [where f = size])
  case (less v)
  show ?case
  proof (cases v)
    case (AnyList vs)
    have part: "x \<in> set xs \<Longrightarrow> size x < size (AnyList xs)" for x xs by (simp add: less_Suc_eq_le size_list_estimation')
    have each: "any_ok (decodeAstroValue x)" if "x \<in> set vs" for x
      using less that part [OF that] by (simp add: AnyList list_all_iff)
    have deep: "any_ok (decodeAstroValue x)" if "vs = [AnyNum elem, AnyList items]" "x \<in> set items" for x elem items
      using less(2) part [OF that(2)] that by (intro less(1)) (auto simp: AnyList list_all_iff)
    consider "decodeAstroValue v = AnyList (map decodeAstroValue vs)"
      | elem w where "vs = [AnyNum elem, w]" "decodeAstroValue v = decodeAstroValue w"
      | "decodeAstroValue v = AnyList []"
      | elem items where "vs = [AnyNum elem, AnyList items]" "decodeAstroValue v = AnyList (map decodeAstroValue items)"
      using decode_list_cases [of vs] unfolding AnyList by blast
    then show ?thesis
    proof cases
      case 1 then show ?thesis using each by (simp add: list_all_iff)
    next
      case 2 then show ?thesis using each by simp
    next
      case 3 then show ?thesis by simp
    next
      case 4 then show ?thesis using deep by (simp add: list_all_iff)
    qed
  next
    case (AnyMap ms)
    have "any_ok (decodeAstroValue x)" if "(k, x) \<in> set ms" for k x
    proof -
      have "size x < size v"
        using size_list_estimation' [OF that, of "Suc (size x)" "size_prod (\<lambda>_. 0) size"] by (simp add: AnyMap)
      then show ?thesis using less that by (force simp: AnyMap list_all_iff)
    qed
    then show ?thesis by (auto simp: AnyMap list_all_iff)
  qed (use less(2) in auto)
qed

lemma any_key_ok: "any_key k ms = Some v \<Longrightarrow> list_all (\<lambda>(k, v). any_ok v) ms \<Longrightarrow> any_ok v"
  by (auto simp: any_key_def list_all_iff dest!: map_of_SomeD)

definition props_ok :: "(string \<times> any) list \<Rightarrow> bool" where
  "props_ok ps = list_all (\<lambda>(k, v). any_ok v) ps"

lemma decode_json_ok: "decode_json s = Some v \<Longrightarrow> any_ok v"
  by (auto simp: decode_json_def bind_eq_Some_conv to_any_ok)

lemma island_props_ok:
  assumes "decodeIslandProps u raw = Some ps"
  shows "props_ok ps"
proof -
  obtain e where "any_ok e" "decodeAstroValue e = AnyMap ps"
    using assms by (auto simp: decodeIslandProps_def dest: decode_json_ok split: if_splits option.splits any.splits)
  then show ?thesis using decode_ok [of e] by (simp add: props_ok_def)
qed

definition islands_ok :: "pricingIsland list \<Rightarrow> bool" where
  "islands_ok is = list_all (\<lambda>i. props_ok (is_Props i)) is"

lemma open_section_snd [simp]: "snd (open_section n st) = snd st"
  by (simp add: open_section_def Let_def)

lemma walk_islands_ok:
  "islands_ok (snd st) \<Longrightarrow> islands_ok (snd (walk_islands u n st))"
  "islands_ok (snd st) \<Longrightarrow> islands_ok (snd (walk_island_list u ns st))"
proof (induction u n st and u ns st rule: walk_islands_walk_island_list.induct)
  case (1 u t d as cs st)
  have "islands_ok (snd (add_island u (Node t d as cs) st))"
    using "1.prems" island_props_ok by (auto simp: add_island_def islands_ok_def split: option.split)
  then show ?case using 1 by (simp add: Let_def)
qed simp_all

section \<open>Rows and prices of OpenAI\<close>

definition row_ok :: "scrapedRow \<Rightarrow> bool" where
  "row_ok r = (\<exists>y z. sw_InputPerM r = Fin y \<and> 0 < y \<and> y < max_f64_bound \<and> sw_OutputPerM r = Fin z \<and> 0 < z \<and> z < max_f64_bound)"

lemma pricePerMillion_ok: "pricePerMillion v = Some f \<Longrightarrow> any_ok v \<Longrightarrow> \<exists>y. f = Fin y \<and> 0 < y \<and> y < max_f64_bound"
  by (cases f) (auto simp: pricePerMillion_def split: any.splits if_splits)

lemma row_of_ok: "row_of name i p = Some r \<Longrightarrow> any_ok i \<Longrightarrow> any_ok p \<Longrightarrow> row_ok r"
  by (fastforce simp: row_of_def row_ok_def split: option.splits dest: pricePerMillion_ok)

lemma text_row_ok: "text_row v = Some r \<Longrightarrow> any_ok v \<Longrightarrow> row_ok r"
  by (auto simp: text_row_def split: any.splits list.splits if_splits intro!: row_of_ok simp: list_all_iff)

lemma propSlice_ok: "propSlice ps k = Some vs \<Longrightarrow> props_ok ps \<Longrightarrow> list_all any_ok vs"
  by (auto simp: propSlice_def props_ok_def split: option.splits any.splits dest: any_key_ok)

lemma slice_member: "Some vs = propSlice ps k \<Longrightarrow> v \<in> set vs \<Longrightarrow> props_ok ps \<Longrightarrow> any_ok v"
  using propSlice_ok [of ps k vs] by (simp add: list_all_iff)

lemma grouped_row_cells:
  assumes "grouped_row b i p g v = Some r"
  shows "\<exists>vals name vs. v = AnyList vals \<and> set vs \<subseteq> set vals \<and> i < length vs \<and> p < length vs \<and>
    row_of name (vs ! i) (vs ! p) = Some r"
proof -
  obtain vals where v: "v = AnyList vals" using assms by (cases v) (auto simp: grouped_row_def)
  define picked where "picked = (if b then (case vals of AnyStr n # vs \<Rightarrow> Some (n, vs) | _ \<Rightarrow> None) else Some (g, vals))"
  have "(case picked of None \<Rightarrow> None | Some (name, vs) \<Rightarrow>
      if TrimSpace name = [] \<or> length vs \<le> i \<or> length vs \<le> p then None
      else row_of (TrimSpace name) (vs ! i) (vs ! p)) = Some r"
    using assms by (simp add: grouped_row_def v picked_def)
  then obtain n vs where p: "picked = Some (n, vs)" "i < length vs" "p < length vs"
    "row_of (TrimSpace n) (vs ! i) (vs ! p) = Some r"
    by (cases picked) (auto split: if_splits)
  have "set vs \<subseteq> set vals"
    using p(1) by (cases b; cases vals) (auto simp: picked_def split: any.splits)
  then show ?thesis using p v by blast
qed

lemma grouped_row_ok:
  assumes "grouped_row b i p g v = Some r" "any_ok v"
  shows "row_ok r"
proof -
  obtain vals name vs where v: "v = AnyList vals" "set vs \<subseteq> set vals" "i < length vs" "p < length vs"
    "row_of name (vs ! i) (vs ! p) = Some r"
    using grouped_row_cells [OF assms(1)] by blast
  then have "any_ok (vs ! i)" "any_ok (vs ! p)"
    using assms(2) nth_mem [of i vs] nth_mem [of p vs] by (auto simp: list_all_iff simp del: nth_mem)
  then show ?thesis using v(5) row_of_ok by blast
qed

lemma mem_map_filter: "x \<in> set (List.map_filter f xs) \<longleftrightarrow> (\<exists>y \<in> set xs. f y = Some x)"
  by (force simp: List.map_filter_def)

lemma group_rows_ok:
  assumes "any_ok v" "r \<in> set (group_rows b i p v)"
  shows "row_ok r"
proof -
  obtain ps vs x g where "v = AnyMap ps" "propSlice ps ''rows'' = Some vs" "x \<in> set vs" "grouped_row b i p g x = Some r"
    using assms(2) by (cases v; cases "propSlice (case v of AnyMap ps \<Rightarrow> ps | _ \<Rightarrow> []) ''rows''")
      (auto simp: group_rows_def Let_def mem_map_filter)
  moreover from this have "props_ok ps" using assms(1) by (simp add: props_ok_def)
  ultimately show ?thesis using slice_member grouped_row_ok by metis
qed

lemma islandRows_ok:
  assumes "props_ok (is_Props island)" "r \<in> set (islandRows island)"
  shows "row_ok r"
proof -
  consider "r \<in> set (textTokenRows (is_Props island))" | "r \<in> set (groupedPricingRows (is_Props island))"
    using assms(2) by (auto simp: islandRows_def split: if_splits option.splits)
  then show ?thesis
  proof cases
    case 1
    then obtain vs x where "propSlice (is_Props island) ''rows'' = Some vs" "x \<in> set vs" "text_row x = Some r"
      by (cases "propSlice (is_Props island) ''rows''") (auto simp: textTokenRows_def mem_map_filter)
    then show ?thesis using assms(1) slice_member text_row_ok by metis
  next
    case 2
    then obtain vs x b i p where "propSlice (is_Props island) ''groups'' = Some vs" "x \<in> set vs" "r \<in> set (group_rows b i p x)"
      by (cases "propSlice (is_Props island) ''groups''")
        (auto simp: groupedPricingRows_def Let_def split: option.splits if_splits)
    then show ?thesis using assms(1) slice_member group_rows_ok by metis
  qed
qed

section \<open>Where a model comes from\<close>

definition priced :: "ScrapedModel \<Rightarrow> bool" where
  "priced m = (price_ok (scr_InputCostPerToken m) \<and> price_ok (scr_OutputCostPerToken m))"

definition catalogue_ok :: "ScrapedModel list \<Rightarrow> bool" where
  "catalogue_ok ms \<longleftrightarrow> distinct (map scr_Slug ms) \<and> list_all priced ms"

definition from_row :: "ScrapedModel \<Rightarrow> scrapedRow \<Rightarrow> bool" where
  "from_row m r \<longleftrightarrow> scr_Slug m = ''openai/'' @ normalizeSlug_openai (sw_Name r) \<and>
     scr_InputCostPerToken m = f64_div (sw_InputPerM r) million \<and> scr_OutputCostPerToken m = f64_div (sw_OutputPerM r) million"

lemma add_row_cases: "m \<in> set (add_row ms r) \<Longrightarrow> m \<in> set ms \<or> from_row m r"
  by (auto simp: add_row_def Let_def from_row_def split: if_splits)

lemma from_row_priced: "from_row m r \<Longrightarrow> row_ok r \<Longrightarrow> priced m"
  by (auto simp: from_row_def row_ok_def priced_def per_million_ok)

lemma add_row_ok: "catalogue_ok ms \<Longrightarrow> row_ok r \<Longrightarrow> catalogue_ok (add_row ms r)"
  using from_row_priced [of _ r] add_row_cases [of _ ms r]
  by (auto simp: catalogue_ok_def list_all_iff) (auto simp: add_row_def Let_def)

lemma add_rows_ok:
  assumes "catalogue_ok (snd st)" "props_ok (is_Props island)"
  shows "catalogue_ok (snd (add_rows st island))"
proof -
  have "catalogue_ok (foldl add_row ms rs)" if "catalogue_ok ms" "\<And>r. r \<in> set rs \<Longrightarrow> row_ok r" for ms rs
    by (rule foldl_invariant) (auto intro: add_row_ok that)
  then show ?thesis using assms islandRows_ok by (auto simp: add_rows_def Let_def)
qed

lemma openai_models_ok: "islands_ok islands \<Longrightarrow> catalogue_ok (toScrapedModels islands)"
proof -
  assume ok: "islands_ok islands"
  have "catalogue_ok (snd (foldl add_rows ([], []) islands))"
  proof (rule foldl_invariant [where P = "\<lambda>st. catalogue_ok (snd st)"])
    show "catalogue_ok (snd ([], []))" by (simp add: catalogue_ok_def)
  qed (use ok in \<open>simp add: islands_ok_def list_all_iff add_rows_ok\<close>)
  then show ?thesis by (simp add: toScrapedModels_def)
qed

text \<open>An island is read when it is the first grouped one of its section, or of the other component.\<close>

definition grouped_island :: "pricingIsland \<Rightarrow> bool" where
  "grouped_island island = (is_Component island = componentGroupedPricing)"

definition first_panel :: "pricingIsland list \<Rightarrow> nat \<Rightarrow> bool" where
  "first_panel islands i \<longleftrightarrow> (\<forall>j<i. \<not> (grouped_island (islands ! j) \<and>
     normalizeSection (is_Section (islands ! j)) = normalizeSection (is_Section (islands ! i))))"

definition standard_island :: "pricingIsland \<Rightarrow> bool" where
  "standard_island island \<longleftrightarrow>
     (is_Component island = componentTextTokenPricing \<and>
        (\<exists>tier. propString (is_Props island) ''tier'' = Some tier \<and> EqualFold (TrimSpace tier) standardTier)) \<or>
     (grouped_island island \<and> normalizeSection (is_Section island) \<in> set textPricingSections)"

lemma rows_of_standard: "r \<in> set (islandRows island) \<Longrightarrow> standard_island island"
  by (auto simp: islandRows_def standard_island_def grouped_island_def split: if_splits option.splits)

lemma foldl_add_row: "m \<in> set (foldl add_row ms rs) \<Longrightarrow> m \<in> set ms \<or> (\<exists>r \<in> set rs. from_row m r)"
  by (induction rs arbitrary: ms) (auto dest: add_row_cases)

definition openai_source :: "pricingIsland list \<Rightarrow> nat \<Rightarrow> ScrapedModel \<Rightarrow> bool" where
  "openai_source islands i m \<longleftrightarrow> i < length islands \<and> standard_island (islands ! i) \<and>
     (grouped_island (islands ! i) \<longrightarrow> first_panel islands i) \<and> (\<exists>r \<in> set (islandRows (islands ! i)). from_row m r)"

definition sections_read :: "pricingIsland list \<Rightarrow> string set" where
  "sections_read islands = (normalizeSection \<circ> is_Section) ` {i \<in> set islands. grouped_island i}"

lemma openai_source_append:
  assumes "openai_source islands i m"
  shows "openai_source (islands @ [x]) i m"
  using assms by (auto simp: openai_source_def first_panel_def nth_append)

lemma first_panel_last:
  assumes "normalizeSection (is_Section x) \<notin> sections_read islands"
  shows "first_panel (islands @ [x]) (length islands)"
proof -
  have "normalizeSection (is_Section (islands ! j)) \<in> sections_read islands"
    if "j < length islands" "grouped_island (islands ! j)" for j
    using that by (auto simp: sections_read_def)
  then have "normalizeSection (is_Section (islands ! j)) \<noteq> normalizeSection (is_Section x)"
    if "j < length islands" "grouped_island (islands ! j)" for j
    using that assms by metis
  then show ?thesis by (auto simp: first_panel_def nth_append)
qed

lemma openai_sources:
  "set (fst (foldl add_rows ([], []) islands)) = sections_read islands \<and>
   (\<forall>m \<in> set (snd (foldl add_rows ([], []) islands)). \<exists>i. openai_source islands i m)"
proof (induction islands rule: rev_induct)
  case (snoc x islands)
  define st where "st = foldl add_rows ([], []) islands"
  have IH: "set (fst st) = sections_read islands" "\<And>m. m \<in> set (snd st) \<Longrightarrow> \<exists>i. openai_source islands i m"
    using snoc by (simp_all add: st_def)
  have sections: "set (fst (add_rows st x)) = sections_read (islands @ [x])"
    using IH(1) by (auto simp: add_rows_def Let_def sections_read_def grouped_island_def)
  have "\<exists>i. openai_source (islands @ [x]) i m" if m: "m \<in> set (snd (add_rows st x))" for m
  proof (cases "m \<in> set (snd st)")
    case True
    then show ?thesis using IH(2) openai_source_append by blast
  next
    case False
    then have "\<exists>r \<in> set (islandRows x). from_row m r" "grouped_island x \<longrightarrow> normalizeSection (is_Section x) \<notin> sections_read islands"
      using m IH(1) by (auto simp: add_rows_def Let_def grouped_island_def split: if_splits dest: foldl_add_row)
    then have "openai_source (islands @ [x]) (length islands) m"
      using rows_of_standard first_panel_last by (auto simp: openai_source_def)
    then show ?thesis by blast
  qed
  then show ?case using sections by (simp add: st_def)
qed (simp add: sections_read_def)

section \<open>Anthropic and Gemini\<close>

lemma parse_number_ok:
  assumes "ParseFloat s = Some v" "v \<noteq> NaN" "v \<noteq> PInf" "v \<noteq> NInf" "\<not> f64_le v (Fin 0)"
  shows "price_ok (f64_div v million)"
  using assms ParseFloat_bound [of s] by (cases v) (auto intro: per_million_ok)

lemma parsePricePerMTok_ok: "parsePricePerMTok s = Some x \<Longrightarrow> price_ok x"
  by (auto simp: parsePricePerMTok_def Let_def split: if_splits option.splits intro: parse_number_ok)

text \<open>The row of a table that a model is read from, with the columns of its prices.\<close>

definition anthropic_source :: "PricingTable \<Rightarrow> string list \<Rightarrow> ScrapedModel \<Rightarrow> bool" where
  "anthropic_source pt row m \<longleftrightarrow> EqualFold (pt_Section pt) ''Model pricing'' \<and> row \<in> set (pt_Rows pt) \<and>
     length row = length (pt_Headers pt) + 1 \<and>
     (\<exists>i j. columnIndex (pt_Headers pt) ''Base Input'' = Some i \<and> columnIndex (pt_Headers pt) ''Output'' = Some j \<and>
        parsePricePerMTok (row ! (i + 1)) = Some (scr_InputCostPerToken m) \<and>
        parsePricePerMTok (row ! (j + 1)) = Some (scr_OutputCostPerToken m) \<and>
        scr_Slug m = ''anthropic/'' @ canonicalAnthropicSlug (cleanModelName (hd row)))"

lemma row_prices_Some:
  assumes "row_prices pt i j row = Some (name, x, y)"
  shows "row \<noteq> [] \<and> name = cleanModelName (hd row) \<and> length row = length (pt_Headers pt) + 1 \<and>
    parsePricePerMTok (row ! (i + 1)) = Some x \<and> parsePricePerMTok (row ! (j + 1)) = Some y"
  using assms by (cases row) (auto simp: row_prices_def Let_def split: if_splits option.splits)

lemma foldl_add_priced:
  "m \<in> set (foldl add_priced ms rs) \<Longrightarrow> m \<in> set ms \<or>
    (\<exists>name x y. Some (name, x, y) \<in> set rs \<and> m = anthropic_model (''anthropic/'' @ canonicalAnthropicSlug name) x y)"
proof (induction rs arbitrary: ms)
  case (Cons r rs)
  have "m \<in> set (add_priced ms r) \<Longrightarrow> m \<in> set ms \<or>
      (\<exists>name x y. r = Some (name, x, y) \<and> m = anthropic_model (''anthropic/'' @ canonicalAnthropicSlug name) x y)"
    by (auto simp: add_priced_def Let_def split: option.splits if_splits)
  then show ?case using Cons.IH [of "add_priced ms r"] Cons.prems by fastforce
qed simp

lemma table_source:
  assumes "m \<in> set (add_table_models ms pt)"
  shows "m \<in> set ms \<or> (\<exists>row. anthropic_source pt row m)"
proof (cases "m \<in> set ms")
  case False
  obtain i j where c: "EqualFold (pt_Section pt) ''Model pricing''" "columnIndex (pt_Headers pt) ''Base Input'' = Some i"
    "columnIndex (pt_Headers pt) ''Output'' = Some j" "m \<in> set (foldl add_priced ms (map (row_prices pt i j) (pt_Rows pt)))"
    using assms False by (auto simp: add_table_models_def split: if_splits option.splits)
  then obtain name x y row where "row \<in> set (pt_Rows pt)" "row_prices pt i j row = Some (name, x, y)"
    "m = anthropic_model (''anthropic/'' @ canonicalAnthropicSlug name) x y"
    using foldl_add_priced [OF c(4)] False by (auto simp: image_iff) metis
  then have "anthropic_source pt row m"
    using c row_prices_Some [of pt i j row name x y] by (auto simp: anthropic_source_def anthropic_model_def)
  then show ?thesis by blast
qed simp

lemma anthropic_sources: "m \<in> set (foldl add_table_models ms tables) \<Longrightarrow>
    m \<in> set ms \<or> (\<exists>pt \<in> set tables. \<exists>row. anthropic_source pt row m)"
  by (induction tables arbitrary: ms) (auto dest: table_source)

lemma anthropic_source_priced: "anthropic_source pt row m \<Longrightarrow> priced m"
  using parsePricePerMTok_ok by (auto simp: anthropic_source_def priced_def)

text \<open>What an expression reads stands before what it leaves.\<close>

definition extends :: "cursor \<Rightarrow> cursor \<Rightarrow> bool" where
  "extends p q \<longleftrightarrow> (\<exists>t. fst q = rev t @ fst p \<and> fst (snd p) = t @ fst (snd q))"

lemma extends_refl [simp]: "extends p p"
  by (auto simp: extends_def)

lemma extends_trans: "extends p q \<Longrightarrow> extends q r \<Longrightarrow> extends p r"
  by (force simp: extends_def)

lemma extends_advance [simp]: "extends p (advance n p)"
  by (cases p) (auto simp: extends_def advance_def intro: exI [of _ "take n _"])

lemma ways_extends:
  "q \<in> set (ways r p) \<Longrightarrow> extends p q"
  "q \<in> set (ways_all rs p) \<Longrightarrow> extends p q"
proof (induction r p and rs p arbitrary: q and q rule: ways_ways_all.induct)
  case (6 r p)
  then show ?case by (fastforce simp: extends_def)
next
  case (9 r rs p)
  then obtain x where x: "x \<in> set (ways r p)" "q \<in> set (ways_all rs x)" by auto
  show ?case using extends_trans [OF "9.IH"(1) [OF x(1)] "9.IH"(2) [OF x]] .
qed (auto split: if_splits list.splits)

fun ungrouped :: "regex \<Rightarrow> bool" where
  "ungrouped (Grp r) = False"
| "ungrouped (Opt r) = ungrouped r"
| "ungrouped (Cat rs) = list_all ungrouped rs"
| "ungrouped r = True"

lemma advance_groups [simp]: "snd (snd (advance n p)) = snd (snd p)"
  by (cases p) (simp add: advance_def)

lemma ways_ungrouped:
  "q \<in> set (ways r p) \<Longrightarrow> ungrouped r \<Longrightarrow> snd (snd q) = snd (snd p)"
  "q \<in> set (ways_all rs p) \<Longrightarrow> list_all ungrouped rs \<Longrightarrow> snd (snd q) = snd (snd p)"
proof (induction r p and rs p arbitrary: q and q rule: ways_ways_all.induct)
  case (9 r rs p)
  then obtain x where "x \<in> set (ways r p)" "q \<in> set (ways_all rs x)" by auto
  then show ?case using 9 by simp
qed (auto split: if_splits list.splits)

lemma search_ways: "search r b a = Some (i, p) \<Longrightarrow> \<exists>b' a'. p \<in> set (ways r (b', a', []))"
proof (induction r b a rule: search.induct)
  case (1 r b a)
  show ?case
  proof (cases "ways r (b, a, [])")
    case Nil
    then obtain c cs where "a = c # cs" "search r (c # b) cs = Some (i, p)"
      using 1(2) by (subst (asm) search.simps) (auto split: list.splits)
    then show ?thesis using 1(1) [OF Nil] by blast
  next
    case (Cons q qs)
    then have "p \<in> set (ways r (b, a, []))" using 1(2) by (subst (asm) search.simps) auto
    then show ?thesis by blast
  qed
qed

lemma ways_Cat:
  "q \<in> set (ways (Cat (r # rs)) p) \<longleftrightarrow> (\<exists>x \<in> set (ways r p). q \<in> set (ways (Cat rs) x))"
  "q \<in> set (ways (Cat []) p) \<longleftrightarrow> q = p"
  by simp_all

lemma ways_Grp: "q \<in> set (ways (Grp r) p) \<longleftrightarrow> (\<exists>x \<in> set (ways r p).
    q = (fst x, fst (snd x), snd (snd x) @ [rev (take (length (fst x) - length (fst p)) (fst x))]))"
  by (auto simp: image_iff split: prod.splits) force

text \<open>The group of a price is a number, and reads as one.\<close>

lemma price_group:
  assumes "FindSubmatchRest firstPriceRe s = Some (g # gs, rest)"
  shows "\<exists>c cs. g = c # cs \<and> is_digit c"
proof -
  let ?inner = "[Run 0 (\<lambda>c. is_digit c \<or> c = CHR '',''), Opt (Cat [Txt ''.'', Run 1 is_digit])]"
  obtain i b' where "search firstPriceRe [] s = Some (i, b', rest, g # gs)"
    using assms by (auto simp: FindSubmatchRest_def)
  then obtain b a where w: "(b', rest, g # gs) \<in> set (ways firstPriceRe (b, a, []))" using search_ways by blast
  then obtain p where p: "p \<in> set (ways (Txt ''$'') (b, a, []))"
    "(b', rest, g # gs) \<in> set (ways (Grp (Cat (Cls is_digit # ?inner))) p)"
    unfolding firstPriceRe_def ways_Cat by blast
  have gs: "snd (snd p) = []" using p(1) by (auto simp: advance_def split: if_splits)
  from p(2) obtain q where q: "q \<in> set (ways (Cat (Cls is_digit # ?inner)) p)"
    "(b', rest, g # gs) = (fst q, fst (snd q), snd (snd q) @ [rev (take (length (fst q) - length (fst p)) (fst q))])"
    unfolding ways_Grp by blast
  then obtain x where x: "x \<in> set (ways (Cls is_digit) p)" "q \<in> set (ways (Cat ?inner) x)"
    unfolding ways_Cat by blast
  from x(1) obtain c cs where c: "fst (snd p) = c # cs" "is_digit c" "x = advance 1 p"
    by (cases "fst (snd p)") (auto split: if_splits)
  obtain t where "fst q = rev t @ fst x" using ways_extends(1) [OF x(2)] by (auto simp: extends_def)
  moreover have "fst x = c # fst p" using c(1,3) by (cases p) (auto simp: advance_def)
  moreover have "snd (snd q) = []" using ways_ungrouped(1) [OF q(1)] gs by simp
  ultimately have "g = c # t" using q(2) by simp
  then show ?thesis using c(2) by blast
qed

lemma digits_finite:
  assumes "is_digit c" "ParseFloat (c # cs) = Some v"
  obtains y where "v = Fin y"
proof (rule json_number_finite [OF _ assms(2)])
  show "number_text (c # cs)"
    using assms(1) by (auto simp: number_text_def unsign_def is_digit_def)
qed (use that in blast)

lemma parsePricePerMillion_ok: "parsePricePerMillion s = Some x \<Longrightarrow> price_ok x"
proof -
  assume "parsePricePerMillion s = Some x"
  then obtain g gs rest v where v: "FindSubmatchRest firstPriceRe (up_to (CHR 0x0A) (TrimSpace s)) = Some (g # gs, rest)"
    "ParseFloat (replace_all g '','' []) = Some v" "\<not> f64_le v (Fin 0)" "x = f64_div v million"
    by (cases "FindSubmatchRest firstPriceRe (up_to (CHR 0x0A) (TrimSpace s))")
      (auto simp: parsePricePerMillion_def Let_def split: if_splits option.splits list.splits)
  obtain c cs where g: "g = c # cs" "is_digit c" using price_group [OF v(1)] by blast
  have "c \<noteq> CHR '',''" using g(2) by (auto simp: is_digit_def)
  then have "replace_all g '','' [] = c # replace_all cs '','' []"
    by (subst replace_all.simps) (simp add: g(1))
  then obtain y where "v = Fin y" using digits_finite [OF g(2)] v(2) by metis
  then show ?thesis using v parse_number_ok [OF v(2)] by simp
qed

lemma add_entry_ok: "catalogue_ok ms \<Longrightarrow> catalogue_ok (add_entry ms mp)"
  by (auto simp: catalogue_ok_def add_entry_def Let_def list_all_iff google_model_def priced_def
      split: option.splits dest: parsePricePerMillion_ok)

lemma gemini_models_ok: "catalogue_ok (entry_models es)"
  unfolding entry_models_def by (rule foldl_invariant) (auto simp: add_entry_ok, simp add: catalogue_ok_def)

lemma anthropic_distinct: "distinct (map scr_Slug ms) \<Longrightarrow> distinct (map scr_Slug (add_table_models ms pt))"
proof -
  assume "distinct (map scr_Slug ms)"
  then have "distinct (map scr_Slug (foldl add_priced ms rs))" for rs
    by (rule foldl_invariant) (auto simp: add_priced_def Let_def anthropic_model_def split: option.splits)
  then show ?thesis using \<open>distinct (map scr_Slug ms)\<close> by (auto simp: add_table_models_def split: option.splits)
qed

lemma anthropic_models_ok: "catalogue_ok (table_models tables)"
proof -
  have "distinct (map scr_Slug (table_models tables))"
    unfolding table_models_def by (rule foldl_invariant) (auto simp: anthropic_distinct)
  moreover have "priced m" if "m \<in> set (table_models tables)" for m
    using that anthropic_sources [of m "[]" tables] anthropic_source_priced by (auto simp: table_models_def)
  ultimately show ?thesis by (auto simp: catalogue_ok_def list_all_iff)
qed

section \<open>What is published\<close>

text \<open>The scrapers of pages, with the parsers they use.\<close>

definition page_scrapers ::
  "(string \<Rightarrow> node option) \<Rightarrow> (string \<Rightarrow> string) \<Rightarrow> (nat \<Rightarrow> bool) \<Rightarrow> (fetch_answer \<Rightarrow> fetch_error + ScrapedModel list) list" where
  "page_scrapers parse unesc so = [openai_Fetch parse unesc, anthropic_Fetch parse, gemini_Fetch parse so]"

text \<open>C37. When a page is scraped without an error, at least one model is published, no slug is published twice, and
  every price is a finite number that is not negative: neither a NaN nor an infinity of the page's texts gets through.\<close>

theorem page_prices_sound:
  assumes "scrape \<in> set (page_scrapers parse unesc so)" "scrape resp = Inr ms"
  shows "ms \<noteq> [] \<and> distinct (map scr_Slug ms) \<and>
    (\<forall>m \<in> set ms. \<exists>x y. scr_InputCostPerToken m = Fin x \<and> 0 \<le> x \<and> scr_OutputCostPerToken m = Fin y \<and> 0 \<le> y)"
proof -
  have "islands_ok (parsePricingIslands unesc doc)" for doc
    unfolding parsePricingIslands_def by (rule walk_islands_ok(1)) (simp add: islands_ok_def)
  then have "ms \<noteq> [] \<and> catalogue_ok ms"
    using assms openai_models_ok anthropic_models_ok gemini_models_ok
    by (auto simp: page_scrapers_def openai_Fetch_def anthropic_Fetch_def gemini_Fetch_def Let_def
        split: sum.splits option.splits if_splits)
  then show ?thesis by (auto simp: catalogue_ok_def list_all_iff priced_def price_ok_Fin)
qed

text \<open>C38. Every model published from OpenAI's page is a row of an island with standard prices: of a text-token
  island whose tier is standard, or of the first grouped island of a section on the list; so batch, flex and fast
  prices, which stand in later panels of a section or under another tier, are never published.\<close>

theorem openai_standard_only:
  assumes "m \<in> set (toScrapedModels islands)"
  shows "\<exists>i<length islands. \<exists>r \<in> set (islandRows (islands ! i)).
    scr_Slug m = ''openai/'' @ normalizeSlug_openai (sw_Name r) \<and>
    scr_InputCostPerToken m = f64_div (sw_InputPerM r) million \<and> scr_OutputCostPerToken m = f64_div (sw_OutputPerM r) million \<and>
    ((is_Component (islands ! i) = componentTextTokenPricing \<and>
        (\<exists>tier. propString (is_Props (islands ! i)) ''tier'' = Some tier \<and> EqualFold (TrimSpace tier) standardTier)) \<or>
     (is_Component (islands ! i) = componentGroupedPricing \<and>
        normalizeSection (is_Section (islands ! i)) \<in> set textPricingSections \<and>
        (\<forall>j<i. \<not> (is_Component (islands ! j) = componentGroupedPricing \<and>
           normalizeSection (is_Section (islands ! j)) = normalizeSection (is_Section (islands ! i))))))"
proof -
  obtain i where "openai_source islands i m"
    using assms openai_sources [of islands] by (auto simp: toScrapedModels_def)
  then show ?thesis
    by (auto simp: openai_source_def from_row_def standard_island_def grouped_island_def first_panel_def)
qed

text \<open>C39. Every model published from Anthropic's page is read from a row of a table under the heading for model prices whose
  cells match its headings one for one, the prices from the first columns headed as base input and as output.\<close>

theorem anthropic_aligned_rows:
  assumes "m \<in> set (table_models tables)"
  shows "\<exists>pt \<in> set tables. \<exists>row \<in> set (pt_Rows pt). \<exists>i j.
    EqualFold (pt_Section pt) ''Model pricing'' \<and> length row = length (pt_Headers pt) + 1 \<and>
    columnIndex (pt_Headers pt) ''Base Input'' = Some i \<and> columnIndex (pt_Headers pt) ''Output'' = Some j \<and>
    parsePricePerMTok (row ! (i + 1)) = Some (scr_InputCostPerToken m) \<and>
    parsePricePerMTok (row ! (j + 1)) = Some (scr_OutputCostPerToken m) \<and>
    scr_Slug m = ''anthropic/'' @ canonicalAnthropicSlug (cleanModelName (hd row))"
  using anthropic_sources [of m "[]" tables] assms by (auto simp: table_models_def anthropic_source_def)

section \<open>Instances\<close>

definition text_node :: "string \<Rightarrow> node" where
  "text_node s = Node TextNode s [] []"

definition elem :: "string \<Rightarrow> node list \<Rightarrow> node" where
  "elem t cs = Node ElementNode t [] cs"

definition claude_page :: node where
  "claude_page = Node OtherNode [] [] [elem ''h2'' [text_node ''Model pricing''],
     elem ''table'' [elem ''thead'' [elem ''tr'' (map (\<lambda>s. elem ''th'' [text_node s]) [''Model'', ''Base Input'', ''Output''])],
       elem ''tbody'' [elem ''tr'' (map (\<lambda>s. elem ''td'' [text_node s]) [''Claude Opus 4.5'', ''$5 / MTok'', ''$25 / MTok''])]]]"

definition demo_table :: PricingTable where
  "demo_table = \<lparr> pt_Section = ''Model pricing'', pt_Headers = [''Base Input'', ''Output''],
     pt_Rows = [[''Claude Opus 4.5'', ''$5 / MTok'', ''$25 / MTok'']] \<rparr>"

definition demo_claude :: ScrapedModel where
  "demo_claude = anthropic_model ''anthropic/claude-4-5-opus'' (f64_div (Fin 5) million) (f64_div (Fin 25) million)"

lemma claude_tables: "parseTables claude_page = [demo_table]"
  by code_simp

lemma demo_table_models: "table_models [demo_table] = [demo_claude]"
  by code_simp

lemma claude_scrape: "anthropic_Fetch (\<lambda>_. Some claude_page) (Answer 200 ''html'') = Inr [demo_claude]"
  by (simp add: anthropic_Fetch_def fetched_def claude_tables demo_table_models)

theorem page_prices_sound_witness:
  "\<exists>m x y. anthropic_Fetch (\<lambda>_. Some claude_page) (Answer 200 ''html'') = Inr [m] \<and>
    scr_InputCostPerToken m = Fin x \<and> 0 \<le> x \<and> scr_OutputCostPerToken m = Fin y \<and> 0 \<le> y"
proof -
  have "anthropic_Fetch (\<lambda>_. Some claude_page) \<in> set (page_scrapers (\<lambda>_. Some claude_page) id (\<lambda>_. False))"
    by (simp add: page_scrapers_def)
  from page_prices_sound [OF this claude_scrape] claude_scrape show ?thesis by auto
qed

theorem anthropic_aligned_rows_witness:
  "\<exists>pt \<in> set [demo_table]. \<exists>row \<in> set (pt_Rows pt). \<exists>i j.
    EqualFold (pt_Section pt) ''Model pricing'' \<and> length row = length (pt_Headers pt) + 1 \<and>
    columnIndex (pt_Headers pt) ''Base Input'' = Some i \<and> columnIndex (pt_Headers pt) ''Output'' = Some j \<and>
    parsePricePerMTok (row ! (i + 1)) = Some (scr_InputCostPerToken demo_claude) \<and>
    parsePricePerMTok (row ! (j + 1)) = Some (scr_OutputCostPerToken demo_claude) \<and>
    scr_Slug demo_claude = ''anthropic/'' @ canonicalAnthropicSlug (cleanModelName (hd row))"
  by (rule anthropic_aligned_rows) (simp add: demo_table_models)


text \<open>An island of the standard tier, and a grouped one whose section has a later panel.\<close>

definition demo_islands :: "pricingIsland list" where
  "demo_islands = [\<lparr> is_Component = ''TextTokenPricingTables'', is_Section = ''Our latest models'',
     is_Props = [(''tier'', AnyStr ''Standard''), (''rows'', AnyList [AnyList [AnyStr ''gpt-5.5 (short)'', AnyNum (Fin 2), AnyNil, AnyNum (Fin 8)]])] \<rparr>,
     \<lparr> is_Component = ''TextTokenPricingTables'', is_Section = ''Our latest models'',
     is_Props = [(''tier'', AnyStr ''batch''), (''rows'', AnyList [AnyList [AnyStr ''gpt-5.5'', AnyNum (Fin 1), AnyNum (Fin 4)]])] \<rparr>]"

definition demo_gpt :: ScrapedModel where
  "demo_gpt = \<lparr> scr_Slug = ''openai/gpt-5.5'', scr_Provider = ''openai'', scr_InputCostPerToken = f64_div (Fin 2) million,
     scr_OutputCostPerToken = f64_div (Fin 8) million, scr_ContextWindow = None, scr_Modality = ''text'',
     scr_SourceName = ''openai'', scr_UnderlyingProvider = [] \<rparr>"

lemma demo_openai: "toScrapedModels demo_islands = [demo_gpt]"
  by code_simp

theorem openai_standard_only_witness:
  "\<exists>i<length demo_islands. \<exists>r \<in> set (islandRows (demo_islands ! i)).
    scr_Slug demo_gpt = ''openai/'' @ normalizeSlug_openai (sw_Name r) \<and>
    scr_InputCostPerToken demo_gpt = f64_div (sw_InputPerM r) million \<and> scr_OutputCostPerToken demo_gpt = f64_div (sw_OutputPerM r) million \<and>
    ((is_Component (demo_islands ! i) = componentTextTokenPricing \<and>
        (\<exists>tier. propString (is_Props (demo_islands ! i)) ''tier'' = Some tier \<and> EqualFold (TrimSpace tier) standardTier)) \<or>
     (is_Component (demo_islands ! i) = componentGroupedPricing \<and>
        normalizeSection (is_Section (demo_islands ! i)) \<in> set textPricingSections \<and>
        (\<forall>j<i. \<not> (is_Component (demo_islands ! j) = componentGroupedPricing \<and>
           normalizeSection (is_Section (demo_islands ! j)) = normalizeSection (is_Section (demo_islands ! i))))))"
  by (rule openai_standard_only) (simp add: demo_openai)

section \<open>The feeds\<close>

text \<open>OpenRouter's prices are only compared with zero, which a NaN and an infinity pass.\<close>

definition demo_feed :: openRouterModel where
  "demo_feed = \<lparr> or_ID = ''x/y'', or_Prompt = ''NaN'', or_Completion = ''Inf'', or_ContextLength = 0, or_Modality = ''text'' \<rparr>"

lemma openrouter_publishes_nan:
  "map_option (\<lambda>m. (scr_Slug m, scr_InputCostPerToken m, scr_OutputCostPerToken m)) (openrouter_model demo_feed) =
   Some (''x/y'', NaN, PInf)"
  by code_simp


end
