(* ===== verification/Pricing_Guarantees.thy ===== *)
theory Pricing_Guarantees
  imports Price_Tables
begin

text \<open>
  What the reconciler guarantees on the pricing tables, and what it does not. The properties
  rest on the interpretation of \<open>price_store\<close> on the tables and on the symbolic run of the
  two group handlers.
\<close>

section \<open>A small database to run the engine on\<close>

definition demo_tables :: tables where
  "demo_tables = \<lparr> t_sources = [(1, ''huggingface_inference_providers''), (2, ''litellm''), (3, ''openai'')],
     t_models = [\<lparr> mr_id = 7, mr_provider = ''openai'', mr_name = ''gpt'',
        mr_slug = ''openai/gpt'', mr_modality = ''text'', mr_context_window = None,
        mr_created_at = 0, mr_updated_at = 0 \<rparr>],
     t_prices = [], t_history = [], t_review = [], t_webhooks = [], t_price_serial = 1,
     t_review_serial = 1, t_model_serial = 8,
     t_benchmarks = [], t_scores = [], t_capabilities = [],
     t_identities = [], t_tokens = [], t_keys = [] \<rparr>"

definition demo_pg :: pg where
  "demo_pg = \<lparr> pg_tables = demo_tables, pg_count = 0, pg_fault = (\<lambda>_. False), pg_now = int,
     pg_numeric = (\<lambda>_ x. x), pg_uuid = (\<lambda>n. replicate n CHR ''f'') \<rparr>"

definition demo_env :: rec_env where
  "demo_env = \<lparr> now_at = int, redis_ok = (\<lambda>_. True), incr_reply = int, hgetall_reply = [],
     enqueue_ok = (\<lambda>_. True), group_rank = (\<lambda>_. 0) \<rparr>"

definition demo_diff :: "string \<Rightarrow> string \<Rightarrow> price_field \<Rightarrow> f64 \<Rightarrow> PriceDiff" where
  "demo_diff src up f v = newModelDiff ''openai/gpt'' src up f v"

lemma demo_valid: "pg_valid (\<lambda>x. x) (rc_store (NewWithStore demo_pg))"
  by (simp add: pg_valid_def NewWithStore_def demo_pg_def demo_tables_def strict_mono_def)

section \<open>Every reconcile cycle is a sequence of complete writes\<close>

text \<open>
  C1. Whatever the batch and the environment, a call of \<open>Reconcile\<close> acts on the pricing tables
  as a list of complete writes: the price history is only appended to, by exactly these writes;
  the current prices are the old ones with the writes replayed; no write has a price that is
  zero or negative.
\<close>

theorem reconcile_event_sourcing:
  assumes "pg_valid col (rc_store r)"
  shows "\<exists>ws. history_of (rc_store (Reconcile pgx_ops env batch r)) =
        history_of (rc_store r) @ map (history_entry col) ws \<and>
      price_of (rc_store (Reconcile pgx_ops env batch r)) =
        foldl (apply_write col) (price_of (rc_store r)) ws \<and>
      list_all complete_write ws \<and> pg_valid col (rc_store (Reconcile pgx_ops env batch r))"
  using pg.evolves_Reconcile [of UNIV batch True col r env] assms
  unfolding pg.evolves_def by blast

theorem reconcile_event_sourcing_witness:
  "pg_valid (\<lambda>x. x) (rc_store (NewWithStore demo_pg)) \<and>
   (\<exists>ws. list_all complete_write ws \<and>
      price_of (rc_store (Reconcile pgx_ops demo_env
        [demo_diff ''litellm'' [] PriceFieldInput (Fin (1 / 1024)),
         demo_diff ''litellm'' [] PriceFieldOutput (Fin (1 / 512))] (NewWithStore demo_pg))) =
      foldl (apply_write (\<lambda>x. x)) (price_of demo_pg) ws) \<and>
   price_of (rc_store (Reconcile pgx_ops demo_env
        [demo_diff ''litellm'' [] PriceFieldInput (Fin (1 / 1024)),
         demo_diff ''litellm'' [] PriceFieldOutput (Fin (1 / 512))] (NewWithStore demo_pg))) (7, 2)
     = Some (Fin (1 / 1024), Fin (1 / 512), ConfidenceLow)"
proof (intro conjI demo_valid)
  let ?b = "[demo_diff ''litellm'' [] PriceFieldInput (Fin (1 / 1024)),
    demo_diff ''litellm'' [] PriceFieldOutput (Fin (1 / 512))]"
  have "rc_store (NewWithStore demo_pg) = demo_pg" by (simp add: NewWithStore_def)
  then show "\<exists>ws. list_all complete_write ws \<and>
      price_of (rc_store (Reconcile pgx_ops demo_env ?b (NewWithStore demo_pg))) =
      foldl (apply_write (\<lambda>x. x)) (price_of demo_pg) ws"
    using reconcile_event_sourcing [OF demo_valid, of demo_env ?b] by auto
  show "price_of (rc_store (Reconcile pgx_ops demo_env ?b (NewWithStore demo_pg))) (7, 2)
     = Some (Fin (1 / 1024), Fin (1 / 512), ConfidenceLow)"
    by code_simp
qed

text \<open>
  Agreement and disagreement need two providers: a batch whose diffs all trace back to one
  effective provider never flags a discrepancy for review and never publishes a price with high
  confidence, whatever its values are.
\<close>

theorem reconcile_one_provider:
  assumes "pg_valid col (rc_store r)" and "\<forall>d \<in> set batch. effectiveProvider d = p"
  shows "flags_of (rc_store (Reconcile pgx_ops env batch r)) = flags_of (rc_store r) \<and>
    (\<exists>ws. price_of (rc_store (Reconcile pgx_ops env batch r)) =
        foldl (apply_write col) (price_of (rc_store r)) ws \<and>
      write_confidence ` set ws \<subseteq> {ConfidenceLow, ConfidenceMedium})"
proof -
  have "length (remdups (map effectiveProvider (snd g))) < 2"
    if "g \<in> set (group_diffs ids batch)" for ids g
    using group_diffs_subset [OF that] assms(2) by (intro one_provider [where p = p]) auto
  then have "pg.evolves col {ConfidenceLow, ConfidenceMedium} False (rc_store r)
      (rc_store (Reconcile pgx_ops env batch r))"
    by (intro pg.evolves_Reconcile) auto
  then show ?thesis
    using assms(1) unfolding pg.evolves_def by blast
qed

theorem reconcile_one_provider_witness:
  "flags_of (rc_store (Reconcile pgx_ops demo_env
        [demo_diff ''litellm'' [] PriceFieldInput (Fin (1 / 1024)),
         demo_diff ''litellm'' [] PriceFieldInput (Fin (1 / 2))] (NewWithStore demo_pg))) = []"
proof -
  have "\<forall>d \<in> set [demo_diff ''litellm'' [] PriceFieldInput (Fin (1 / 1024)),
      demo_diff ''litellm'' [] PriceFieldInput (Fin (1 / 2))]. effectiveProvider d = ''litellm''"
    by (simp add: demo_diff_def newModelDiff_def effectiveProvider_def)
  from reconcile_one_provider [OF demo_valid this, of demo_env]
  show ?thesis by (simp add: NewWithStore_def demo_pg_def demo_tables_def flags_of_def)
qed

section \<open>The two-fetch gate\<close>

lemma map_of_update [simp]: "map_of (AList.update k v al) = (map_of al)(k \<mapsto> v)"
  by (rule update_conv')

lemma map_of_delete [simp]: "map_of (AList.delete k al) = (map_of al)(k := None)"
  by (rule delete_conv')

lemma single_first:
  assumes "map_of (rc_pending r) key = None"
  shows "single_locked env True key d r =
    ((Hold, Some \<lparr> pc_value = NewValue d, pc_source = DiffSource d, pc_fetchCount = 1,
        pc_lastSeen = now_at env (rc_tick r) \<rparr>, False),
     (emit (Metric ''pending_change_seen'') (tick r))
       \<lparr> rc_pending := AList.update key \<lparr> pc_value = NewValue d, pc_source = DiffSource d,
          pc_fetchCount = 1, pc_lastSeen = now_at env (rc_tick r) \<rparr> (rc_pending r) \<rparr>)"
  using assms
  by (simp add: single_locked_def read_clock_def counts_as_seen_def decide_single_def frame_simps
      Let_def)

lemma single_second:
  assumes "map_of (rc_pending r) key = Some e" "1 \<le> pc_fetchCount e"
    and "f64_lt (f64_abs (f64_sub (pc_value e) (NewValue d))) epsilon"
  shows "single_locked env found key d r =
    ((ConfirmedPublish, None, True), (tick r)\<lparr> rc_pending := AList.delete key (rc_pending r) \<rparr>)"
  using assms
  by (simp add: single_locked_def read_clock_def counts_as_seen_def decide_single_def frame_simps)

definition present :: "('s store_ops) \<Rightarrow> int \<Rightarrow> int \<Rightarrow> 's \<Rightarrow> bool" where
  "present ops m src s = (case fst (LookupCurrentPrice ops m src s) of
     Some (_, _, f) \<Rightarrow> f | None \<Rightarrow> True)"

lemma epsilon_pos: "f64_lt (Fin 0) epsilon"
  by (subst epsilon_value) simp

lemma two_fetch_run:
  fixes ops :: "'s store_ops" and slug f d ids hooks sib r m env
  defines "key \<equiv> pendingKey slug f d" and "src \<equiv> go_get 0 ids (DiffSource d)"
  defines "r1 \<equiv> processSingleSource ops env slug f m d ids hooks sib r"
  assumes "present ops m src (rc_store r)" and "map_of (rc_pending r) key = None"
    and "f64_finite (NewValue d)"
  shows "rc_store r1 = snd (LookupCurrentPrice ops m src (rc_store r))"
    and "\<exists>t. map_of (rc_pending r1) = (map_of (rc_pending r))(key \<mapsto>
          \<lparr> pc_value = NewValue d, pc_source = DiffSource d, pc_fetchCount = 1, pc_lastSeen = t \<rparr>)"
    and "\<exists>r2. processSingleSource ops env' slug f m d ids' hooks' sib' r1 =
          publish ops env' m (go_get 0 ids' (DiffSource d)) f (NewValue d) ConfidenceMedium
            (UnderlyingProvider d) hooks' sib' r2 \<and>
          map_of (rc_pending r2) = (map_of (rc_pending r))(key := None)"
proof -
  let ?l = "on_store (LookupCurrentPrice ops m src) r"
  have found: "(case fst ?l of Some (_, _, f) \<Rightarrow> f | None \<Rightarrow> True) = True"
    using assms(4) by (simp add: present_def frame_simps)
  define e where "e = \<lparr> pc_value = NewValue d, pc_source = DiffSource d, pc_fetchCount = 1,
    pc_lastSeen = now_at env (rc_tick r) \<rparr>"
  have none: "map_of (rc_pending (snd ?l)) key = None" using assms(5) by (simp add: frame_simps)
  have r1: "r1 = mirror_pending env key (Some e) False
      ((emit (Metric ''pending_change_seen'') (tick (snd ?l)))
         \<lparr> rc_pending := AList.update key e (rc_pending r) \<rparr>)"
    unfolding r1_def processSingleSource_def Let_def case_prod_beta key_def [symmetric]
      src_def [symmetric] found single_first [OF none]
    by (simp add: e_def frame_simps)
  show "rc_store r1 = snd (LookupCurrentPrice ops m src (rc_store r))"
    by (simp add: r1 frame_simps)
  show p: "\<exists>t. map_of (rc_pending r1) = (map_of (rc_pending r))(key \<mapsto>
          \<lparr> pc_value = NewValue d, pc_source = DiffSource d, pc_fetchCount = 1, pc_lastSeen = t \<rparr>)"
    by (auto simp: r1 frame_simps e_def)
  let ?l2 = "on_store (LookupCurrentPrice ops m (go_get 0 ids' (DiffSource d))) r1"
  have e2: "map_of (rc_pending (snd ?l2)) key = Some e" by (simp add: r1 frame_simps)
  have "f64_lt (f64_abs (f64_sub (pc_value e) (NewValue d))) epsilon"
    using assms(6) epsilon_pos by (simp add: e_def f64_sub_self)
  note s2 = single_second [OF e2 _ this]
  have "processSingleSource ops env' slug f m d ids' hooks' sib' r1 =
      publish ops env' m (go_get 0 ids' (DiffSource d)) f (NewValue d) ConfidenceMedium
        (UnderlyingProvider d) hooks' sib' (mirror_pending env' key None True
          ((tick (snd ?l2))\<lparr> rc_pending := AList.delete key (rc_pending r1) \<rparr>))"
    unfolding processSingleSource_def Let_def case_prod_beta key_def [symmetric]
    by (simp add: s2 e_def frame_simps)
  then show "\<exists>r2. processSingleSource ops env' slug f m d ids' hooks' sib' r1 =
          publish ops env' m (go_get 0 ids' (DiffSource d)) f (NewValue d) ConfidenceMedium
            (UnderlyingProvider d) hooks' sib' r2 \<and>
          map_of (rc_pending r2) = (map_of (rc_pending r))(key := None)"
    by (auto simp: frame_simps r1 intro!: exI)
qed

text \<open>
  C2. The two-fetch gate. A source that reports a new value for a stored price writes nothing
  the first time: the value waits in the pending map with a count of one. When the same value is
  reported again, the handler publishes it with medium confidence and drops the entry; a lookup
  of the current price that fails counts as a stored price.
\<close>

theorem two_fetch_gate:
  assumes "present ops m (go_get 0 ids (DiffSource d)) (rc_store r)"
    and "map_of (rc_pending r) (pendingKey slug f d) = None" and "f64_finite (NewValue d)"
  shows "let r1 = processSingleSource ops env slug f m d ids hooks sib r in
    rc_store r1 = snd (LookupCurrentPrice ops m (go_get 0 ids (DiffSource d)) (rc_store r)) \<and>
    (\<exists>t. map_of (rc_pending r1) = (map_of (rc_pending r))(pendingKey slug f d \<mapsto>
       \<lparr> pc_value = NewValue d, pc_source = DiffSource d, pc_fetchCount = 1, pc_lastSeen = t \<rparr>)) \<and>
    (\<exists>r2. processSingleSource ops env' slug f m d ids' hooks' sib' r1 =
       publish ops env' m (go_get 0 ids' (DiffSource d)) f (NewValue d) ConfidenceMedium
         (UnderlyingProvider d) hooks' sib' r2 \<and>
       map_of (rc_pending r2) = (map_of (rc_pending r))(pendingKey slug f d := None))"
  unfolding Let_def by (intro conjI two_fetch_run assms)

definition demo_pg_priced :: pg where
  "demo_pg_priced = rc_store (Reconcile pgx_ops demo_env
     [demo_diff ''litellm'' [] PriceFieldInput (Fin (1 / 1024)),
      demo_diff ''litellm'' [] PriceFieldOutput (Fin (1 / 512))] (NewWithStore demo_pg))"

definition demo_ids :: "string \<rightharpoonup> int" where
  "demo_ids = [''litellm'' \<mapsto> 2]"

theorem two_fetch_gate_witness:
  "let r1 = processSingleSource pgx_ops demo_env ''openai/gpt'' PriceFieldInput 7
       (demo_diff ''litellm'' [] PriceFieldInput (Fin (1 / 8))) demo_ids [] (Fin 0)
       (NewWithStore demo_pg_priced) in
   \<exists>r2. processSingleSource pgx_ops demo_env ''openai/gpt'' PriceFieldInput 7
       (demo_diff ''litellm'' [] PriceFieldInput (Fin (1 / 8))) demo_ids [] (Fin 0) r1 =
     publish pgx_ops demo_env 7 2 PriceFieldInput (Fin (1 / 8)) ConfidenceMedium [] [] (Fin 0) r2"
proof -
  let ?d = "demo_diff ''litellm'' [] PriceFieldInput (Fin (1 / 8))"
  have p: "present pgx_ops 7 (go_get 0 demo_ids (DiffSource ?d))
      (rc_store (NewWithStore demo_pg_priced))"
    unfolding demo_pg_priced_def by code_simp
  have n: "map_of (rc_pending (NewWithStore demo_pg_priced))
      (pendingKey ''openai/gpt'' PriceFieldInput ?d) = None" by (simp add: NewWithStore_def)
  have d: "DiffSource ?d = ''litellm''" "NewValue ?d = Fin (1 / 8)" "UnderlyingProvider ?d = []"
    by (simp_all add: demo_diff_def newModelDiff_def)
  then have f: "f64_finite (NewValue ?d)" unfolding f64_finite_def by blast
  from two_fetch_gate [OF p n f, of demo_env "[]" "Fin 0" demo_env demo_ids "[]" "Fin 0"]
  show ?thesis unfolding Let_def d by (auto simp: demo_ids_def)
qed

section \<open>Pending entries of other keys\<close>

lemma decide_single_other:
  "decide_single found now key d p = (dec, ps, dk, p') \<Longrightarrow> k \<noteq> key \<Longrightarrow> map_of p' k = map_of p k"
  by (auto simp: decide_single_def Let_def split: option.splits if_splits)

lemma single_locked_other:
  assumes "k \<noteq> key"
  shows "map_of (rc_pending (snd (single_locked env found key d r))) k = map_of (rc_pending r) k"
  using decide_single_other [OF _ assms]
  by (auto simp: single_locked_def Let_def case_prod_beta frame_simps prod_eq_iff)

lemma single_other:
  assumes "k \<noteq> pendingKey slug f d"
  shows "map_of (rc_pending (processSingleSource ops env slug f m d ids hooks sib r)) k =
    map_of (rc_pending r) k"
  by (simp add: processSingleSource_def Let_def case_prod_beta frame_simps
      single_locked_other [OF assms] split: decision.split)

lemma process_group_other:
  assumes "\<forall>d \<in> set ds. pendingKey slug f d \<noteq> k" "ds \<noteq> []"
  shows "map_of (rc_pending (process_group ops env ids cyc hooks r ((slug, f), ds))) k =
    map_of (rc_pending r) k"
proof -
  have "sort_by_source ds \<noteq> []"
    using assms(2) by (simp add: sort_by_source_def flip: set_empty)
  then have "hd (sort_by_source ds) \<in> set ds"
    using hd_in_set [of "sort_by_source ds"] by (simp add: sort_by_source_def)
  then have "k \<noteq> pendingKey slug f (hd (sort_by_source ds))" "k \<noteq> pendingKey slug f (hd ds)"
    using assms by auto
  then show ?thesis
    by (simp add: process_group_def Let_def case_prod_beta frame_simps single_other
        split: option.split)
qed

lemma load_entry_keeps:
  "map_of p k = Some e \<Longrightarrow> map_of (foldl (load_entry cutoff) p entries) k = Some e"
  by (rule foldl_invariant) (auto simp: load_entry_def split: option.split)

lemma map_of_filter_keep:
  "map_of p k = Some e \<Longrightarrow> Q (k, e) \<Longrightarrow> map_of (filter Q p) k = Some e"
  by (induction p) (auto split: if_splits)

lemma load_keeps:
  "map_of (rc_pending r) k = Some e \<Longrightarrow>
     map_of (rc_pending (loadPendingFromRedis env r)) k = Some e"
  by (simp add: loadPendingFromRedis_def Let_def case_prod_beta frame_simps load_entry_keeps)

lemma sweep_keeps:
  assumes "map_of (rc_pending r) k = Some e" "\<forall>n. now_at env n \<le> pc_lastSeen e + pendingTTL"
  shows "map_of (rc_pending (sweepStalePending env r)) k = Some e"
proof -
  have "\<not> pc_lastSeen e < fst (read_clock env r) - pendingTTL"
    using assms(2) [rule_format, of "rc_tick r"] by (simp add: read_clock_def)
  then show ?thesis
    using assms(1)
    by (simp add: sweepStalePending_def Let_def case_prod_beta frame_simps map_of_filter_keep)
qed

lemma resolve_pending [frame_simps]:
  "rc_pending (snd (resolve_sources ops batch r)) = rc_pending r"
proof -
  have "rc_pending (snd (foldl (resolve_one ops) acc batch)) = rc_pending (snd acc)" for acc
    by (rule foldl_frame [where g = "\<lambda>a. rc_pending (snd a)"])
       (auto simp: resolve_one_def Let_def case_prod_beta frame_simps split: prod.split)
  then show ?thesis by (simp add: resolve_sources_def)
qed

text \<open>
  C4. Consecutive fetches are not required: a pending change keeps its count through every
  reconcile cycle that does not mention its key, for as long as the entry is not older than the
  72 hours of \<open>pendingTTL\<close>. In particular a fetch that saw the old price again, which yields no
  diff, does not reset it.
\<close>

theorem pending_survives_cycle:
  fixes ops :: "'s store_ops"
  assumes "map_of (rc_pending r) k = Some e"
    and "\<forall>n. now_at env n \<le> pc_lastSeen e + pendingTTL"
    and "\<forall>d \<in> set batch. pendingKey (ModelSlug d) (Field d) d \<noteq> k"
  shows "map_of (rc_pending (Reconcile ops env batch r)) k = Some e"
proof (cases "batch = []")
  case True
  then show ?thesis using assms(1) by (simp add: Reconcile_def frame_simps)
next
  case False
  define r1 where "r1 = sweepStalePending env (loadPendingFromRedis env r)"
  have 1: "map_of (rc_pending r1) k = Some e"
    unfolding r1_def by (intro sweep_keeps load_keeps assms)
  obtain ids r2 where r2: "resolve_sources ops batch r1 = (ids, r2)" by fastforce
  have 2: "rc_pending r2 = rc_pending r1" using resolve_pending [of ops batch r1] r2 by simp
  obtain hooks r3 where r3: "(if rc_asynq r2
        then let (res, r') = on_store (ListActiveWebhooks ops) r2
             in (case res of Some ws \<Rightarrow> ws | None \<Rightarrow> [], r')
        else ([], r2)) = (hooks, r3)" by fastforce
  have 3: "rc_pending r3 = rc_pending r2"
    using r3 on_store_frame(1) [of "ListActiveWebhooks ops" r2]
    by (auto simp: case_prod_beta split: if_splits)
  have "map_of (rc_pending (foldl (process_group ops env ids (cycle_vals ids batch) hooks) r3
      (sort_key (group_rank env \<circ> fst) (group_diffs ids batch)))) k = Some e"
  proof (rule foldl_invariant)
    show "map_of (rc_pending r3) k = Some e" using 1 2 3 by simp
  next
    fix s :: "'s reconciler" and g
    assume g: "g \<in> set (sort_key (group_rank env \<circ> fst) (group_diffs ids batch))"
      and s: "map_of (rc_pending s) k = Some e"
    obtain slug f ds where gd: "g = ((slug, f), ds)" by (cases g) auto
    have mem: "ds = grouped ids (slug, f) batch" "ds \<noteq> []"
      using group_diffs_mem [of "(slug, f)" ds ids batch] g gd by auto
    then have "\<forall>d \<in> set ds. pendingKey slug f d \<noteq> k"
      using assms(3) by (auto simp: grouped_def diff_key_def)
    then show "map_of (rc_pending (process_group ops env ids (cycle_vals ids batch) hooks s g)) k
        = Some e"
      using process_group_other [OF _ mem(2), of slug f k ops env ids "cycle_vals ids batch" hooks s] s
      by (simp add: gd)
  qed
  then show ?thesis using False r2 r3 by (simp add: Reconcile_def Let_def r1_def)
qed

theorem pending_survives_cycle_witness:
  "map_of (rc_pending (Reconcile pgx_ops (demo_env\<lparr> now_at := (\<lambda>_. hour) \<rparr>)
       [demo_diff ''openai'' [] PriceFieldInput (Fin (1 / 4))]
       ((NewWithStore demo_pg_priced)\<lparr> rc_pending := [(''k'', \<lparr> pc_value = Fin 1,
          pc_source = ''litellm'', pc_fetchCount = 1, pc_lastSeen = 0 \<rparr>)] \<rparr>)))
     ''k'' = Some \<lparr> pc_value = Fin 1, pc_source = ''litellm'', pc_fetchCount = 1, pc_lastSeen = 0 \<rparr>"
  by (rule pending_survives_cycle)
     (simp_all add: NewWithStore_def pendingTTL_def hour_def minute_def second_def demo_diff_def
        newModelDiff_def pendingKey_def)

section \<open>Several sources\<close>

lemma foldl_argmax:
  fixes size :: "'a \<Rightarrow> int"
  defines "step \<equiv> \<lambda>(sz, best) x. if sz < size x then (size x, x) else (sz, best)"
  assumes "foldl step (sz0, b0) xs = (sz, b)"
  shows "(\<forall>x \<in> set xs. size x \<le> sz) \<and> sz0 \<le> sz \<and>
    ((sz, b) = (sz0, b0) \<or> b \<in> set xs \<and> sz = size b)"
  using assms(2)
proof (induction xs arbitrary: sz0 b0)
  case Nil
  then show ?case by simp
next
  case (Cons x xs)
  have "foldl step (if sz0 < size x then (size x, x) else (sz0, b0)) xs = (sz, b)"
    using Cons.prems by (simp add: step_def)
  then show ?case
    by (cases "sz0 < size x") (auto dest!: Cons.IH)
qed

lemma consensus_spec:
  assumes "consensus vs = (sz, v, s)"
  shows "(\<forall>x \<in> set vs. cluster_size vs (fst x) \<le> sz) \<and>
    (0 < sz \<longrightarrow> (v, s) \<in> set vs \<and> sz = cluster_size vs v)"
proof -
  have eq: "(\<lambda>(sz, val, src) (v, s). if sz < cluster_size vs v then (cluster_size vs v, v, s)
        else (sz, val, src)) =
      (\<lambda>(sz, best) x. if sz < cluster_size vs (fst x) then (cluster_size vs (fst x), x)
        else (sz, best))"
    by (auto simp: fun_eq_iff)
  then have "foldl (\<lambda>(sz, best) x. if sz < cluster_size vs (fst x)
      then (cluster_size vs (fst x), x) else (sz, best)) (0, (Fin 0, 0)) vs = (sz, (v, s))"
    using assms by (simp only: consensus_def eq)
  from foldl_argmax [OF this] show ?thesis by auto
qed

definition comparable :: "valuediff \<times> valuediff \<Rightarrow> bool" where
  "comparable p = (\<not> f64_lt (f64_max (fst (fst p)) (fst (snd p))) epsilon)"

definition pair_delta :: "valuediff \<times> valuediff \<Rightarrow> f64" where
  "pair_delta p = rel_delta (fst (fst p)) (fst (snd p))"

lemma worst_step_alt:
  "worst_step (md, w) p =
     (if comparable p \<and> f64_lt md (pair_delta p) then (pair_delta p, p) else (md, w))"
  by (auto simp: worst_step_def comparable_def pair_delta_def Let_def split: prod.split)

lemma foldl_worst:
  assumes "foldl worst_step (md0, w0) ps = (md, w)" "md0 \<noteq> NaN"
  shows "md \<noteq> NaN \<and> f64_le md0 md \<and>
    (\<forall>p \<in> set ps. comparable p \<longrightarrow> \<not> f64_lt md (pair_delta p)) \<and>
    ((md, w) = (md0, w0) \<or> w \<in> set ps \<and> comparable w \<and> md = pair_delta w)"
  using assms
proof (induction ps arbitrary: md0 w0)
  case Nil
  then show ?case by (simp add: f64_le_refl)
next
  case (Cons p ps)
  show ?case
  proof (cases "comparable p \<and> f64_lt md0 (pair_delta p)")
    case True
    then have n: "pair_delta p \<noteq> NaN" by auto
    have "foldl worst_step (pair_delta p, p) ps = (md, w)"
      using Cons.prems True by (simp add: worst_step_alt)
    from Cons.IH [OF this n] show ?thesis
      using True f64_le_trans [OF f64_lt_imp_le, of md0 "pair_delta p" md]
        f64_le_lt_trans [of "pair_delta p" md "pair_delta p"] by auto
  next
    case False
    have "foldl worst_step (md0, w0) ps = (md, w)"
      using Cons.prems False by (simp add: worst_step_alt)
    from Cons.IH [OF this Cons.prems(2)] show ?thesis
      using False f64_le_lt_trans [of md0 md "pair_delta p"] by auto
  qed
qed

lemma worst_pair_spec:
  assumes "worst_pair vs = (md, a, b)"
  shows "md \<noteq> NaN" "\<forall>p \<in> set (pairs vs). comparable p \<longrightarrow> \<not> f64_lt md (pair_delta p)"
    and "f64_lt (Fin 0) md \<Longrightarrow> (a, b) \<in> set (pairs vs) \<and> comparable (a, b) \<and> md = pair_delta (a, b)"
proof -
  have "foldl worst_step (Fin 0, ((Fin 0, 0), (Fin 0, 0))) (pairs vs) = (md, (a, b))"
    using assms by (simp add: worst_pair_def)
  from foldl_worst [OF this] show "md \<noteq> NaN"
    "\<forall>p \<in> set (pairs vs). comparable p \<longrightarrow> \<not> f64_lt md (pair_delta p)"
    "f64_lt (Fin 0) md \<Longrightarrow> (a, b) \<in> set (pairs vs) \<and> comparable (a, b) \<and> md = pair_delta (a, b)"
    by auto
qed

text \<open>
  C3. The verdict on a group of values from several sources is what the decision table says, case by
  case. It is agreement exactly when every value is within epsilon of the first, and then it names
  the first. Otherwise it is a discrepancy exactly when some comparable pair of the group has a
  relative difference over the threshold; it then names such a pair, the largest of the group,
  and it carries a consensus exactly when some value has a cluster of two or more, and then a
  member of a largest cluster. It is a minor disagreement, with the first value, exactly when
  the values do not agree and no comparable pair is over the threshold.
\<close>

theorem judge_correct:
  "case judge vs of
     Agree v s \<Rightarrow> (v, s) = hd vs \<and> (\<forall>x \<in> set (tl vs). close_to v (fst x))
   | Discrepancy md a b cons \<Rightarrow>
       (\<exists>x \<in> set (tl vs). \<not> close_to (fst (hd vs)) (fst x)) \<and>
       (a, b) \<in> set (pairs vs) \<and> comparable (a, b) \<and> md = pair_delta (a, b) \<and>
       f64_lt DiscrepancyThreshold md \<and>
       (\<forall>p \<in> set (pairs vs). comparable p \<longrightarrow> \<not> f64_lt md (pair_delta p)) \<and>
       (case cons of
          None \<Rightarrow> \<forall>x \<in> set vs. cluster_size vs (fst x) < 2
        | Some c \<Rightarrow> c \<in> set vs \<and> 2 \<le> cluster_size vs (fst c) \<and>
            (\<forall>x \<in> set vs. cluster_size vs (fst x) \<le> cluster_size vs (fst c)))
   | Minor v s \<Rightarrow> (v, s) = hd vs \<and>
       (\<exists>x \<in> set (tl vs). \<not> close_to (fst (hd vs)) (fst x)) \<and>
       (\<forall>p \<in> set (pairs vs). comparable p \<longrightarrow> \<not> f64_lt DiscrepancyThreshold (pair_delta p))"
proof -
  obtain sz v s where c: "consensus vs = (sz, v, s)" by (cases "consensus vs") auto
  obtain md a b where w: "worst_pair vs = (md, a, b)" by (cases "worst_pair vs") auto
  note cs = consensus_spec [OF c] and ws = worst_pair_spec [OF w]
  let ?agree = "list_all (\<lambda>v. close_to (fst (hd vs)) (fst v)) (tl vs)"
  have differ: "\<not> ?agree \<Longrightarrow> \<exists>x \<in> set (tl vs). \<not> close_to (fst (hd vs)) (fst x)" by (simp add: list_all_iff)
  consider "?agree" | "\<not> ?agree" "f64_lt DiscrepancyThreshold md"
    | "\<not> ?agree" "\<not> f64_lt DiscrepancyThreshold md" by blast
  then show ?thesis
  proof cases
    case 1
    then show ?thesis by (simp add: judge_def Let_def list_all_iff)
  next
    case 2
    then show ?thesis
      using cs ws threshold_lt_pos [OF 2(2)] differ by (auto simp: judge_def Let_def c w)
  next
    case 3
    have "\<not> f64_lt DiscrepancyThreshold (pair_delta p)"
      if "p \<in> set (pairs vs)" "comparable p" for p
      using ws(1,2) 3(2) that f64_not_lt [of DiscrepancyThreshold md] f64_le_lt_trans
        threshold_not_NaN by blast
    then show ?thesis using 3 differ [OF 3(1)] by (simp add: judge_def Let_def c w)
  qed
qed

theorem judge_correct_witness:
  "judge [(Fin (1 / 2), 1), (Fin (1 / 4), 2), (Fin (1 / 4), 3)] =
     Discrepancy (Fin (1 / 2)) (Fin (1 / 2), 1) (Fin (1 / 4), 2) (Some (Fin (1 / 4), 2)) \<and>
   (Fin (1 / 4), 2) \<in> set [(Fin (1 / 2), 1 :: int), (Fin (1 / 4), 2), (Fin (1 / 4), 3)] \<and>
   2 \<le> cluster_size [(Fin (1 / 2), 1), (Fin (1 / 4), 2), (Fin (1 / 4), 3)] (Fin (1 / 4)) \<and>
   judge [(Fin (1 / 4), 1), (Fin (1 / 4), 2)] = Agree (Fin (1 / 4)) 1 \<and> close_to (Fin (1 / 4)) (Fin (1 / 4)) \<and>
   judge [(Fin 1, 1), (Fin (129 / 128), 2)] = Minor (Fin 1) 1 \<and> \<not> close_to (Fin 1) (Fin (129 / 128))"
proof -
  let ?vs = "[(Fin (1 / 2), 1 :: int), (Fin (1 / 4), 2), (Fin (1 / 4), 3)]"
  have j: "judge ?vs = Discrepancy (Fin (1 / 2)) (Fin (1 / 2), 1) (Fin (1 / 4), 2)
      (Some (Fin (1 / 4), 2))" by code_simp
  have k: "judge [(Fin (1 / 4), 1), (Fin (1 / 4), 2)] = Agree (Fin (1 / 4)) 1"
    and m: "judge [(Fin 1, 1), (Fin (129 / 128), 2)] = Minor (Fin 1) 1" by code_simp+
  have "close_to (Fin (1 / 4)) (Fin (1 / 4))" using judge_correct [of "[(Fin (1 / 4), 1), (Fin (1 / 4), 2)]"] by (simp add: k)
  moreover have "\<not> close_to (Fin 1) (Fin (129 / 128))"
    using judge_correct [of "[(Fin 1, 1), (Fin (129 / 128), 2)]"] by (simp add: m)
  ultimately show ?thesis using judge_correct [of ?vs] k m by (simp only: j) auto
qed

text \<open>With one diff per source, the order in which the diffs arrive does not matter.\<close>

lemma filter_same_key:
  "distinct (map h xs) \<Longrightarrow> k \<in> set xs \<Longrightarrow> filter (\<lambda>x. h k = h x) xs = [k]"
proof (induction xs)
  case (Cons x xs)
  show ?case
  proof (cases "k = x")
    case True
    then have "\<forall>y \<in> set xs. h k \<noteq> h y" using Cons.prems by (metis distinct.simps(2) image_eqI
          list.simps(9) list.set_map)
    then show ?thesis using True by simp
  next
    case False
    then have "h k \<noteq> h x" using Cons.prems
      by (metis distinct.simps(2) image_eqI list.simps(9) list.set_map set_ConsD)
    then show ?thesis using Cons False by auto
  qed
qed simp

lemma sort_by_source_perm:
  assumes "mset ds = mset ds'" "distinct (map DiffSource ds)"
  shows "sort_by_source ds = sort_by_source ds'"
  unfolding sort_by_source_def
proof (rule properties_for_sort_key)
  fix k assume k: "k \<in> set (sort_key DiffSource ds')"
  have "set ds = set ds'" using assms(1) by (metis set_mset_mset)
  moreover have "distinct (map DiffSource (sort_key DiffSource ds'))"
    using assms mset_eq_imp_distinct_iff
      [of "map DiffSource (sort_key DiffSource ds')" "map DiffSource ds"] by simp
  ultimately show "filter (\<lambda>x. DiffSource k = DiffSource x) (sort_key DiffSource ds') =
      filter (\<lambda>x. DiffSource k = DiffSource x) ds"
    using k assms(2) by (simp add: filter_same_key)
qed (use assms in simp_all)

lemma mset_swap: "mset [a, b] = mset [b, a]"
  by (simp add: add_mset_commute)

text \<open>
  C5. With one diff per source the outcome of a group does not depend on the order in which the
  diffs arrived: the multi-source handler does the same to the engine for every permutation.
\<close>

theorem multi_source_order_irrelevant:
  assumes "mset ds = mset ds'" and "distinct (map DiffSource ds)"
  shows "processMultiSource ops env slug f m ds ids hooks sib r =
    processMultiSource ops env slug f m ds' ids hooks sib r"
  by (simp add: processMultiSource_def sort_by_source_perm [OF assms])

theorem multi_source_order_irrelevant_witness:
  "processMultiSource pgx_ops demo_env ''openai/gpt'' PriceFieldInput 7
     [demo_diff ''litellm'' [] PriceFieldInput (Fin 1), demo_diff ''openai'' [] PriceFieldInput (Fin 2)]
     demo_ids [] (Fin 1) (NewWithStore demo_pg) =
   processMultiSource pgx_ops demo_env ''openai/gpt'' PriceFieldInput 7
     [demo_diff ''openai'' [] PriceFieldInput (Fin 2), demo_diff ''litellm'' [] PriceFieldInput (Fin 1)]
     demo_ids [] (Fin 1) (NewWithStore demo_pg)"
proof (rule multi_source_order_irrelevant)
  show "distinct (map DiffSource [demo_diff ''litellm'' [] PriceFieldInput (Fin 1),
      demo_diff ''openai'' [] PriceFieldInput (Fin 2)])"
    by (simp add: demo_diff_def newModelDiff_def)
qed (rule mset_swap)

section \<open>Provenance of published prices\<close>

definition outlier_batch :: "PriceDiff list" where
  "outlier_batch =
     [demo_diff ''huggingface_inference_providers'' ''together-ai'' PriceFieldInput (Fin 4),
      demo_diff ''litellm'' [] PriceFieldInput (Fin 2),
      demo_diff ''openai'' [] PriceFieldInput (Fin 2),
      demo_diff ''litellm'' [] PriceFieldOutput (Fin 3)]"

text \<open>
  The provenance of a consensus price is wrong when the outlier sorts first: the row takes its
  source from a member of the consensus, but its underlying provider from the first diff of the
  group. Here LiteLLM and OpenAI agree, HuggingFace is the flagged outlier, and the price stored
  for LiteLLM claims to come from the outlier's provider \<open>together-ai\<close>.
\<close>

theorem consensus_misattributed:
  "map (\<lambda>p. (pr_source_id p, pr_input p, pr_confidence p, pr_underlying p))
     (t_prices (pg_tables (rc_store (Reconcile pgx_ops demo_env outlier_batch
        (NewWithStore demo_pg))))) =
   [(2, Fin 2, ConfidenceHigh, Some ''together-ai'')]"
  by code_simp

definition sibling_batch :: "PriceDiff list" where
  "sibling_batch =
     [demo_diff ''litellm'' [] PriceFieldInput (Fin 2),
      demo_diff ''openai'' [] PriceFieldOutput (Fin 3)]"

text \<open>
  The price that completes the first write of a new model may be another source's: the sibling
  value is taken from the last diff of the batch for the other field, whoever reported it. Here
  LiteLLM never reported an output price, and its row carries OpenAI's.
\<close>

theorem sibling_from_other_source:
  "price_of (rc_store (Reconcile pgx_ops demo_env sibling_batch (NewWithStore demo_pg))) (7, 2) =
   Some (Fin 2, Fin 3, ConfidenceLow)"
  by code_simp

end
