(* ===== verification/Review_Queue.thy ===== *)
theory Review_Queue
  imports Pricing_Guarantees Go_Text
begin

text \<open>
  The operator's review queue: the store \<open>internal/review/store.go\<close> on the pricing tables and
  the HTTP handlers of \<open>internal/review/handler.go\<close> over any store that keeps the contract
  \<open>review_store\<close>. The row locks of the source (\<open>FOR UPDATE\<close>, the implicit lock of an
  \<open>UPDATE\<close>) make each operation one step of the tables.
\<close>

section \<open>review/store.go\<close>

record ReviewItem =
  ri_ID :: int
  ri_ModelID :: int
  ri_ModelName :: string
  ri_Provider :: string
  ri_Field :: price_field
  ri_SourceAID :: int
  ri_SourceAName :: string
  ri_SourceBID :: int
  ri_SourceBName :: string
  ri_ValueA :: f64
  ri_ValueB :: f64
  ri_DeltaPct :: f64
  ri_Status :: review_status
  ri_CreatedAt :: instant

definition join_review :: "tables \<Rightarrow> review_row \<Rightarrow> ReviewItem list" where
  "join_review t q =
     concat (map (\<lambda>m. concat (map (\<lambda>sa. map (\<lambda>sb.
       \<lparr> ri_ID = rq_id q, ri_ModelID = rq_model_id q, ri_ModelName = mr_name m,
         ri_Provider = mr_provider m, ri_Field = rq_field q,
         ri_SourceAID = rq_source_a q, ri_SourceAName = snd sa,
         ri_SourceBID = rq_source_b q, ri_SourceBName = snd sb,
         ri_ValueA = rq_value_a q, ri_ValueB = rq_value_b q, ri_DeltaPct = rq_delta_pct q,
         ri_Status = rq_status q, ri_CreatedAt = rq_created_at q \<rparr>)
       (filter (\<lambda>s. fst s = rq_source_b q) (t_sources t)))
       (filter (\<lambda>s. fst s = rq_source_a q) (t_sources t))))
       (filter (\<lambda>m. mr_id m = rq_model_id q) (t_models t)))"

definition pgx_ListPending :: "ReviewItem list db" where
  "pgx_ListPending = select (\<lambda>t. sort_key (\<lambda>i. - ri_CreatedAt i)
     (concat (map (join_review t)
       (filter (\<lambda>q. rq_status q = ReviewStatusPending) (t_review t)))))"

definition is_pending_id :: "int \<Rightarrow> review_row \<Rightarrow> bool" where
  "is_pending_id i q = (rq_id q = i \<and> rq_status q = ReviewStatusPending)"

text \<open>\<open>UPDATE review_queue SET status, resolved_at = NOW() WHERE id = $1 AND status = 'pending'\<close>.\<close>

definition mark_review :: "int \<Rightarrow> review_status \<Rightarrow> instant \<Rightarrow> tables \<Rightarrow> db_error + (nat \<times> tables)" where
  "mark_review i st now t =
     Inr (length (filter (is_pending_id i) (t_review t)),
          t\<lparr> t_review := map (\<lambda>q. if is_pending_id i q
              then q\<lparr> rq_status := st, rq_resolved_at := Some now \<rparr> else q) (t_review t) \<rparr>)"

definition approve_columns :: "price_field \<Rightarrow> f64 \<Rightarrow> f64 \<times> f64 \<Rightarrow> (f64 \<times> f64) option" where
  "approve_columns field valueA current =
     (case field of
        PriceFieldInput \<Rightarrow> Some (valueA, snd current)
      | PriceFieldOutput \<Rightarrow> Some (fst current, valueA)
      | PriceFieldOther _ \<Rightarrow> None)"

text \<open>Steps 4 to 6: the history row, the current price, the review entry.\<close>

definition approve_writes ::
  "(f64 \<Rightarrow> f64) \<Rightarrow> int \<Rightarrow> int \<Rightarrow> int \<Rightarrow> f64 \<Rightarrow> f64 \<Rightarrow> instant \<Rightarrow> unit db" where
  "approve_writes col i modelID sourceAID newInput newOutput begun =
     db_bind db_time (\<lambda>now.
     db_bind (stmt (insert_history
         \<lparr> hr_model_id = modelID, hr_input = col newInput, hr_output = col newOutput,
           hr_source_id = sourceAID, hr_confirmed_at = now, hr_recorded_at = now,
           hr_underlying = None \<rparr>)) (\<lambda>_.
     db_bind (stmt (upsert_price
         \<lparr> pr_id = 0, pr_model_id = modelID, pr_input = col newInput,
           pr_output = col newOutput, pr_source_id = sourceAID, pr_confirmed_at = now,
           pr_confidence = ConfidenceHigh, pr_created_at = begun, pr_underlying = None,
           pr_last_verified_at = None \<rparr>
         (\<lambda>p. p\<lparr> pr_input := col newInput, pr_output := col newOutput,
                 pr_confirmed_at := now, pr_confidence := ConfidenceHigh \<rparr>))) (\<lambda>_.
     db_bind (stmt (mark_review i ReviewStatusResolved begun)) (\<lambda>affected.
       if affected = 0 then db_throw ErrNotPending else db_return ()))))"

definition approve_tx :: "(f64 \<Rightarrow> f64) \<Rightarrow> int \<Rightarrow> instant \<Rightarrow> unit db" where
  "approve_tx col i begun =
     db_bind (db_on_no_rows (db_throw ErrNotPending)
       (select1 (\<lambda>t. map (\<lambda>q. (rq_model_id q, rq_source_a q, rq_value_a q, rq_field q))
          (filter (is_pending_id i) (t_review t)))))
     (\<lambda>(modelID, sourceAID, valueA, field).
     db_bind (db_on_no_rows (db_return (Fin 0, Fin 0))
       (select1 (\<lambda>t. map (\<lambda>p. (pr_input p, pr_output p)) (current_rows t modelID sourceAID))))
     (\<lambda>current.
       case approve_columns field valueA current of
         None \<Rightarrow> db_throw ErrUnknownField
       | Some (newInput, newOutput) \<Rightarrow>
           approve_writes col i modelID sourceAID newInput newOutput begun))"

definition pgx_Approve :: "int \<Rightarrow> unit db" where
  "pgx_Approve i db =
     transaction (\<lambda>begun. if int4 i then approve_tx (pg_numeric db 10) i begun else db_throw DbConstraint) db"

definition pgx_Reject :: "int \<Rightarrow> unit db" where
  "pgx_Reject i db =
     (if \<not> int4 i then (Inl DbConstraint, db)
      else db_bind (stmt (mark_review i ReviewStatusOverridden (pg_now db (pg_count db))))
        (\<lambda>affected. if affected = 0 then db_throw ErrNotPending else db_return ()) db)"

section \<open>review/handler.go\<close>

text \<open>The store as the handler sees it, and what a request is answered with.\<close>

record 's review_ops =
  ListPending :: "'s \<Rightarrow> (db_error + ReviewItem list) \<times> 's"
  Approve :: "int \<Rightarrow> 's \<Rightarrow> (db_error + unit) \<times> 's"
  Reject :: "int \<Rightarrow> 's \<Rightarrow> (db_error + unit) \<times> 's"

datatype http_reply = SendString nat string | SendHTML string | Redirect string nat

definition internal_error :: http_reply where
  "internal_error = SendString 500 ''internal server error''"

definition handle_List :: "'s review_ops \<Rightarrow> (ReviewItem list \<Rightarrow> string option) \<Rightarrow> 's \<Rightarrow> http_reply \<times> 's" where
  "handle_List ops tmpl s =
     (case ListPending ops s of
        (Inl _, s') \<Rightarrow> (internal_error, s')
      | (Inr items, s') \<Rightarrow>
          (case tmpl items of None \<Rightarrow> (internal_error, s') | Some page \<Rightarrow> (SendHTML page, s')))"

definition act :: "(int \<Rightarrow> 's \<Rightarrow> (db_error + unit) \<times> 's) \<Rightarrow> string \<Rightarrow> 's \<Rightarrow> http_reply \<times> 's" where
  "act op raw s =
     (case atoi raw of
        None \<Rightarrow> (SendString 400 ''invalid id: must be a positive integer'', s)
      | Some i \<Rightarrow>
          if i \<le> 0 then (SendString 400 ''invalid id: must be a positive integer'', s)
          else case op i s of
                 (Inl ErrNotPending, s') \<Rightarrow> (SendString 409 ''entry not found or already resolved'', s')
               | (Inl _, s') \<Rightarrow> (internal_error, s')
               | (Inr _, s') \<Rightarrow> (Redirect ''/admin/review'' 303, s'))"

definition handle_Approve :: "'s review_ops \<Rightarrow> string \<Rightarrow> 's \<Rightarrow> http_reply \<times> 's" where
  "handle_Approve ops = act (Approve ops)"

definition handle_Reject :: "'s review_ops \<Rightarrow> string \<Rightarrow> 's \<Rightarrow> http_reply \<times> 's" where
  "handle_Reject ops = act (Reject ops)"

definition pgx_review_ops :: "pg review_ops" where
  "pgx_review_ops = \<lparr> ListPending = pgx_ListPending, Approve = pgx_Approve, Reject = pgx_Reject \<rparr>"

text \<open>A request of an operator, and a session of them.\<close>

datatype request = ApproveReq string | RejectReq string

fun serve :: "'s review_ops \<Rightarrow> request \<Rightarrow> 's \<Rightarrow> http_reply \<times> 's" where
  "serve ops (ApproveReq raw) s = handle_Approve ops raw s"
| "serve ops (RejectReq raw) s = handle_Reject ops raw s"

fun serve_all :: "'s review_ops \<Rightarrow> request list \<Rightarrow> 's \<Rightarrow> http_reply list \<times> 's" where
  "serve_all ops [] s = ([], s)"
| "serve_all ops (q # qs) s =
     (let (a, s1) = serve ops q s; (as, s2) = serve_all ops qs s1 in (a # as, s2))"

fun request_id :: "request \<Rightarrow> int option" where
  "request_id (ApproveReq raw) = atoi raw"
| "request_id (RejectReq raw) = atoi raw"

section \<open>The contract of the store\<close>

text \<open>
  \<open>status\<close> is the state of an entry: an entry leaves \<open>pending\<close> by the operation that succeeds
  on it, nothing else changes a status, and an operation on an entry that is not pending fails.
\<close>

locale review_store =
  fixes ops :: "'s review_ops" and status :: "'s \<Rightarrow> int \<rightharpoonup> review_status" and ok :: "'s \<Rightarrow> bool"
  assumes ok_Approve: "ok s \<Longrightarrow> ok (snd (Approve ops i s))"
    and ok_Reject: "ok s \<Longrightarrow> ok (snd (Reject ops i s))"
    and Approve_ok: "ok s \<Longrightarrow> Approve ops i s = (Inr (), s') \<Longrightarrow>
      status s i = Some ReviewStatusPending \<and> status s' = (status s)(i \<mapsto> ReviewStatusResolved)"
    and Approve_err: "ok s \<Longrightarrow> Approve ops i s = (Inl e, s') \<Longrightarrow> status s' = status s"
    and Reject_ok: "ok s \<Longrightarrow> Reject ops i s = (Inr (), s') \<Longrightarrow>
      status s i = Some ReviewStatusPending \<and> status s' = (status s)(i \<mapsto> ReviewStatusOverridden)"
    and Reject_err: "ok s \<Longrightarrow> Reject ops i s = (Inl e, s') \<Longrightarrow> status s' = status s"
begin

lemma act_ok:
  assumes "ok s" "\<And>i s. ok s \<Longrightarrow> ok (snd (op i s))"
  shows "ok (snd (act op raw s))"
proof (cases "atoi raw")
  case (Some i)
  then show ?thesis
    using assms(1) assms(2) [OF assms(1), of i]
    by (auto simp: act_def split: prod.split sum.split db_error.split)
qed (use assms in \<open>simp add: act_def\<close>)

lemma serve_ok: "ok s \<Longrightarrow> ok (snd (serve ops q s))"
  by (cases q) (auto simp: handle_Approve_def handle_Reject_def intro: act_ok ok_Approve ok_Reject)

lemma act_cases:
  assumes "act op raw s = (a, s')"
  obtains (done_) i x where "atoi raw = Some i" "op i s = (Inr x, s')" "a = Redirect ''/admin/review'' 303"
  | (failed) i e where "atoi raw = Some i" "op i s = (Inl e, s')" "a \<noteq> Redirect ''/admin/review'' 303"
  | (refused) "s' = s" "a \<noteq> Redirect ''/admin/review'' 303"
  using assms
  by (auto simp: act_def internal_error_def split: option.splits if_splits prod.splits sum.splits
      db_error.splits)

lemma serve_decided:
  assumes "ok s" "status s i = Some st" "st \<noteq> ReviewStatusPending" "serve ops q s = (a, s')"
  shows "status s' i = Some st \<and> (request_id q = Some i \<longrightarrow> a \<noteq> Redirect ''/admin/review'' 303)"
proof (cases q)
  case (ApproveReq raw)
  then have "act (Approve ops) raw s = (a, s')" using assms(4) by (simp add: handle_Approve_def)
  then show ?thesis
  proof (cases rule: act_cases)
    case (done_ j x)
    then have "status s j = Some ReviewStatusPending \<and> status s' = (status s)(j \<mapsto> ReviewStatusResolved)"
      using Approve_ok [OF assms(1), of j s'] by simp
    then show ?thesis using assms(2,3) ApproveReq done_ by auto
  next
    case (failed j e)
    then show ?thesis using Approve_err [OF assms(1), of j e s'] assms(2) by simp
  qed (use assms in simp)
next
  case (RejectReq raw)
  then have "act (Reject ops) raw s = (a, s')" using assms(4) by (simp add: handle_Reject_def)
  then show ?thesis
  proof (cases rule: act_cases)
    case (done_ j x)
    then have "status s j = Some ReviewStatusPending \<and> status s' = (status s)(j \<mapsto> ReviewStatusOverridden)"
      using Reject_ok [OF assms(1), of j s'] by simp
    then show ?thesis using assms(2,3) RejectReq done_ by auto
  next
    case (failed j e)
    then show ?thesis using Reject_err [OF assms(1), of j e s'] assms(2) by simp
  qed (use assms in simp)
qed

lemma serve_redirect:
  assumes "ok s" "serve ops q s = (Redirect ''/admin/review'' 303, s')"
  shows "\<exists>i st. request_id q = Some i \<and> status s' i = Some st \<and> st \<noteq> ReviewStatusPending"
proof (cases q)
  case (ApproveReq raw)
  then have "act (Approve ops) raw s = (Redirect ''/admin/review'' 303, s')"
    using assms(2) by (simp add: handle_Approve_def)
  then show ?thesis
    by (cases rule: act_cases) (use ApproveReq Approve_ok [OF assms(1)] in auto)
next
  case (RejectReq raw)
  then have "act (Reject ops) raw s = (Redirect ''/admin/review'' 303, s')"
    using assms(2) by (simp add: handle_Reject_def)
  then show ?thesis
    by (cases rule: act_cases) (use RejectReq Reject_ok [OF assms(1)] in auto)
qed

lemma serve_all_decided:
  assumes "ok s" "status s i = Some st" "st \<noteq> ReviewStatusPending" "serve_all ops qs s = (as, s')"
  shows "status s' i = Some st \<and> (\<forall>(q, a) \<in> set (zip qs as). request_id q = Some i \<longrightarrow>
    a \<noteq> Redirect ''/admin/review'' 303)"
  using assms
proof (induction qs arbitrary: s as)
  case (Cons q qs)
  obtain a s1 where q: "serve ops q s = (a, s1)" by fastforce
  obtain as' where r: "serve_all ops qs s1 = (as', s')" "as = a # as'"
    using Cons.prems(4) q by (auto simp: Let_def split: prod.splits)
  have "ok s1" using serve_ok [OF Cons.prems(1), of q] q by simp
  then show ?case
    using serve_decided [OF Cons.prems(1-3) q] Cons.IH [OF _ _ Cons.prems(3) r(1)] r(2) by auto
qed simp

text \<open>Whatever operators send, an entry is actioned once.\<close>

lemma actioned_once:
  assumes "ok s" "serve_all ops qs s = (as, s')"
  shows "length (filter (\<lambda>(q, a). request_id q = Some i \<and> a = Redirect ''/admin/review'' 303)
    (zip qs as)) \<le> 1"
  using assms
proof (induction qs arbitrary: s as)
  case (Cons q qs)
  obtain a s1 where q: "serve ops q s = (a, s1)" by fastforce
  obtain as' where r: "serve_all ops qs s1 = (as', s')" "as = a # as'"
    using Cons.prems(2) q by (auto simp: Let_def split: prod.splits)
  have ok1: "ok s1" using serve_ok [OF Cons.prems(1), of q] q by simp
  show ?case
  proof (cases "request_id q = Some i \<and> a = Redirect ''/admin/review'' 303")
    case True
    then obtain st where "status s1 i = Some st" "st \<noteq> ReviewStatusPending"
      using serve_redirect [OF Cons.prems(1), of q s1] q by auto
    from serve_all_decided [OF ok1 this r(1)]
    have "filter (\<lambda>(q, a). request_id q = Some i \<and> a = Redirect ''/admin/review'' 303)
        (zip qs as') = []"
      by (auto simp: filter_empty_conv)
    then show ?thesis using True r(2) by simp
  next
    case False
    then show ?thesis using Cons.IH [OF ok1 r(1)] r(2) by auto
  qed
qed simp

end

section \<open>The tables keep the contract\<close>

definition status_of :: "pg \<Rightarrow> int \<rightharpoonup> review_status" where
  "status_of db = map_of (map (\<lambda>q. (rq_id q, rq_status q)) (t_review (pg_tables db)))"

text \<open>
  The invariant of the table: serial keys, at most one pending entry per model and field (the
  partial unique index), and a resolution time exactly on the entries that were actioned.
\<close>

definition review_wf :: "tables \<Rightarrow> bool" where
  "review_wf t \<longleftrightarrow> distinct (map rq_id (t_review t)) \<and>
     (\<forall>q \<in> set (t_review t). rq_id q < t_review_serial t \<and>
        (rq_resolved_at q = None \<longleftrightarrow> rq_status q = ReviewStatusPending)) \<and>
     distinct (map (\<lambda>q. (rq_model_id q, rq_field q))
       (filter (\<lambda>q. rq_status q = ReviewStatusPending) (t_review t)))"

definition actioned :: "int \<Rightarrow> review_status \<Rightarrow> instant \<Rightarrow> review_row \<Rightarrow> review_row" where
  "actioned i st now q = (if is_pending_id i q
     then q\<lparr> rq_status := st, rq_resolved_at := Some now \<rparr> else q)"

lemma actioned_fields [simp]:
  "rq_id (actioned i st now q) = rq_id q" "rq_model_id (actioned i st now q) = rq_model_id q"
  "rq_field (actioned i st now q) = rq_field q"
  by (simp_all add: actioned_def)

lemma mark_review_eq: "mark_review i st now t =
    Inr (length (filter (is_pending_id i) (t_review t)),
         t\<lparr> t_review := map (actioned i st now) (t_review t) \<rparr>)"
  by (simp add: mark_review_def actioned_def)

lemma distinct_pending_actioned:
  assumes "st \<noteq> ReviewStatusPending"
    and "distinct (map g (filter (\<lambda>q. rq_status q = ReviewStatusPending) qs))"
    and "\<And>q. g (actioned i st now q) = g q"
  shows "distinct (map g (filter (\<lambda>q. rq_status q = ReviewStatusPending)
      (map (actioned i st now) qs)))"
  using assms(2)
proof (induction qs)
  case (Cons q qs)
  have sub: "g ` set (filter (\<lambda>q. rq_status q = ReviewStatusPending) (map (actioned i st now) qs)) \<subseteq>
      g ` set (filter (\<lambda>q. rq_status q = ReviewStatusPending) qs)"
    using assms(1) by (auto simp: actioned_def split: if_splits)
  have keep: "rq_status (actioned i st now q) = ReviewStatusPending \<Longrightarrow> rq_status q = ReviewStatusPending"
    using assms(1) by (auto simp: actioned_def split: if_splits)
  show ?case
  proof (cases "rq_status (actioned i st now q) = ReviewStatusPending")
    case True
    then show ?thesis using Cons keep [OF True] sub assms(3) [of q] by auto
  next
    case False
    then show ?thesis using Cons by (auto split: if_splits)
  qed
qed simp

lemma mark_review_wf:
  assumes "review_wf t" "st \<noteq> ReviewStatusPending"
  shows "review_wf (t\<lparr> t_review := map (actioned i st now) (t_review t) \<rparr>)"
proof -
  have "map rq_id (map (actioned i st now) (t_review t)) = map rq_id (t_review t)" by simp
  moreover have "distinct (map (\<lambda>q. (rq_model_id q, rq_field q))
       (filter (\<lambda>q. rq_status q = ReviewStatusPending) (map (actioned i st now) (t_review t))))"
    using assms by (intro distinct_pending_actioned) (simp_all add: review_wf_def)
  moreover have "(rq_resolved_at (actioned i st now q) = None) =
      (rq_status (actioned i st now q) = ReviewStatusPending)" if "q \<in> set (t_review t)" for q
    using assms that by (auto simp: actioned_def review_wf_def is_pending_id_def)
  ultimately show ?thesis
    using assms(1) by (simp add: review_wf_def comp_def del: map_map)
qed

lemma actioned_none:
  "filter (is_pending_id i) qs = [] \<Longrightarrow> map (actioned i st now) qs = qs"
  by (rule map_idI) (auto simp: actioned_def filter_empty_conv)

lemma status_of_actioned:
  assumes "distinct (map rq_id qs)"
  shows "map_of (map (\<lambda>q. (rq_id q, rq_status q)) (map (actioned i st now) qs)) =
    (if filter (is_pending_id i) qs = [] then map_of (map (\<lambda>q. (rq_id q, rq_status q)) qs)
     else (map_of (map (\<lambda>q. (rq_id q, rq_status q)) qs))(i \<mapsto> st))"
  using assms
proof (induction qs)
  case (Cons q qs)
  show ?case
  proof (cases "rq_id q = i")
    case True
    then have none: "filter (is_pending_id i) qs = []"
      using Cons.prems by (auto simp: filter_empty_conv is_pending_id_def image_iff)
    show ?thesis
      using True none actioned_none [OF none, of st now]
      by (simp add: actioned_def [of i st now q] is_pending_id_def [of i q] fun_eq_iff
          del: map_map)
  next
    case False
    then have "\<not> is_pending_id i q" by (simp add: is_pending_id_def)
    then show ?thesis
      using Cons False by (auto simp: actioned_def [of i st now q] fun_eq_iff simp del: map_map)
  qed
qed simp

lemma pending_id_status:
  assumes "distinct (map rq_id qs)"
  shows "filter (is_pending_id i) qs \<noteq> [] \<longleftrightarrow>
    map_of (map (\<lambda>q. (rq_id q, rq_status q)) qs) i = Some ReviewStatusPending"
  using assms
proof (induction qs)
  case (Cons q qs)
  show ?case
  proof (cases "rq_id q = i")
    case True
    then have "filter (is_pending_id i) qs = []"
      using Cons.prems by (auto simp: filter_empty_conv is_pending_id_def image_iff)
    then show ?thesis using True by (simp add: is_pending_id_def [of i q])
  next
    case False
    then show ?thesis using Cons by (simp add: is_pending_id_def [of i q])
  qed
qed simp

lemma transaction_cases:
  assumes "transaction body db = (r, db')"
  obtains (failed) e where "r = Inl e" "pg_tables db' = pg_tables db"
  | (commit) x d1 d2 where "r = Inr x" "pg_same db d1"
      "body (pg_now db (pg_count db)) d1 = (Inr x, d2)" "pg_same d2 db'"
proof (cases r)
  case (Inl e)
  then show ?thesis
    using assms failed by (auto simp: transaction_def stmt_def split: prod.splits sum.splits if_splits)
next
  case (Inr x)
  then show ?thesis using assms commit transaction_Inr by metis
qed

lemma on_no_rows_Inr:
  assumes "db_on_no_rows alt (select1 q) db = (Inr x, db')"
  obtains (row) ys where "q (pg_tables db) = x # ys" "pg_same db db'"
  | (none) "q (pg_tables db) = []" "alt (pg_tick db) = (Inr x, db')"
  using assms
  by (auto simp: db_on_no_rows_def select1_def stmt_def first_row_def pg_same_def
      split: prod.splits sum.splits if_splits list.splits db_error.splits)

lemma stmt_mark:
  assumes "stmt (mark_review i st now) db = (Inr n, db')"
  shows "n = length (filter (is_pending_id i) (t_review (pg_tables db))) \<and>
    pg_tables db' = (pg_tables db)\<lparr> t_review := map (actioned i st now) (t_review (pg_tables db)) \<rparr> \<and>
    pg_frame db db'"
  using stmt_Inr [OF assms] by (simp add: mark_review_eq)

text \<open>What the history and the price rows say after an approval of entry \<open>q\<close>.\<close>

definition approve_write :: "pg \<Rightarrow> review_row \<Rightarrow> price_write option" where
  "approve_write db q =
     map_option (\<lambda>(i, out). ((rq_model_id q, rq_source_a q), i, out, ConfidenceHigh))
       (approve_columns (rq_field q) (rq_value_a q)
         (case price_of db (rq_model_id q, rq_source_a q) of
            None \<Rightarrow> (Fin 0, Fin 0) | Some (i, out, _) \<Rightarrow> (i, out)))"

lemma approve_writes_Inr:
  assumes valid: "pg_valid col db"
    and run: "approve_writes col i m s newI newO begun db = (Inr (), db')"
  shows "price_of db' = apply_write col (price_of db) ((m, s), newI, newO, ConfidenceHigh) \<and>
    history_of db' = history_of db @ [history_entry col ((m, s), newI, newO, ConfidenceHigh)] \<and>
    t_review (pg_tables db') = map (actioned i ReviewStatusResolved begun) (t_review (pg_tables db)) \<and>
    t_review_serial (pg_tables db') = t_review_serial (pg_tables db) \<and> pg_valid col db'"
proof -
  let ?now = "pg_now db (pg_count db)"
  define h where "h = \<lparr> hr_model_id = m, hr_input = col newI, hr_output = col newO,
    hr_source_id = s, hr_confirmed_at = ?now, hr_recorded_at = ?now, hr_underlying = None \<rparr>"
  obtain d2 d3 x new upd where
    h: "stmt (insert_history h) (pg_tick db) = (Inr x, d2)" and
    u: "stmt (upsert_price new upd) d2 = (Inr (), d3)" and
    k: "stmt (mark_review i ReviewStatusResolved begun) d3 = (Inr (length (filter (is_pending_id i) (t_review (pg_tables d3)))), db')" and
    new: "pr_model_id new = m" "pr_source_id new = s" "pr_input new = col newI"
      "pr_output new = col newO" "pr_confidence new = ConfidenceHigh" and
    upd: "\<And>p. pr_input (upd p) = col newI \<and> pr_output (upd p) = col newO \<and>
        pr_confidence (upd p) = ConfidenceHigh"
      "\<And>p. pr_model_id (upd p) = pr_model_id p \<and> pr_source_id (upd p) = pr_source_id p"
    using run stmt_mark
    by (fastforce simp: approve_writes_def db_bind_Inr db_time_def h_def db_throw_def db_return_def
        split: if_splits)
  have fresh: "\<forall>g \<in> set (t_history (pg_tables db)). hr_recorded_at g < ?now"
    using valid by (simp add: pg_valid_def)
  have hist: "hr_model_id h = m" "hr_source_id h = s" "hr_input h = col newI"
    "hr_output h = col newO" "hr_recorded_at h = ?now"
    by (simp_all add: h_def)
  note w = history_then_price [OF h u, unfolded hist, OF _ new(1-4)]
  have w: "price_of d3 = (price_of (pg_tick db))((m, s) \<mapsto> (col newI, col newO, ConfidenceHigh)) \<and>
    t_history (pg_tables d3) = t_history (pg_tables db) @ [h] \<and>
    t_review (pg_tables d3) = t_review (pg_tables db) \<and>
    t_review_serial (pg_tables d3) = t_review_serial (pg_tables db) \<and> pg_frame (pg_tick db) d3"
    using history_then_price [OF h u] fresh new upd hist by simp
  have k': "pg_tables db' = (pg_tables d3)\<lparr> t_review := map (actioned i ReviewStatusResolved begun)
      (t_review (pg_tables d3)) \<rparr>" "pg_frame d3 db'"
    using stmt_mark [OF k] by simp_all
  have p: "price_of db' = price_of d3" "price_of (pg_tick db) = price_of db"
    by (simp_all add: price_of_def k' current_rows_def)
  have "pg_frame (pg_tick db) db'" using w k'(2) pg_frame_trans by blast
  then have now: "?now < pg_now db' (pg_count db')" "pg_now db' = pg_now db"
    "pg_numeric db' = pg_numeric db"
    using valid by (auto simp: pg_frame_def pg_tick_def pg_valid_def strict_mono_def)
  have "pg_valid col db'"
    using valid fresh now unfolding pg_valid_def by (auto simp: w k' hist)
  then show ?thesis
    using w k'(1) p by (simp add: apply_write_def history_of_def history_entry_def hist)
qed

lemma approve_tx_Inr:
  assumes valid: "pg_valid (pg_numeric db 10) db"
    and run: "approve_tx (pg_numeric db 10) i begun db = (Inr (), db')"
  obtains q w qs where "filter (is_pending_id i) (t_review (pg_tables db)) = q # qs"
    "approve_write db q = Some w"
    "price_of db' = apply_write (pg_numeric db 10) (price_of db) w"
    "history_of db' = history_of db @ [history_entry (pg_numeric db 10) w]"
    "t_review (pg_tables db') = map (actioned i ReviewStatusResolved begun) (t_review (pg_tables db))"
    "t_review_serial (pg_tables db') = t_review_serial (pg_tables db)"
    "pg_valid (pg_numeric db 10) db'"
proof -
  let ?col = "pg_numeric db 10"
  obtain m s v f d1 d2 now_vals ni no where
    sel: "db_on_no_rows (db_throw ErrNotPending)
       (select1 (\<lambda>t. map (\<lambda>q. (rq_model_id q, rq_source_a q, rq_value_a q, rq_field q))
          (filter (is_pending_id i) (t_review t)))) db = (Inr (m, s, v, f), d1)" and
    price: "db_on_no_rows (db_return (Fin 0, Fin 0))
       (select1 (\<lambda>t. map (\<lambda>p. (pr_input p, pr_output p)) (current_rows t m s))) d1 =
       (Inr now_vals, d2)" and
    cols: "approve_columns f v now_vals = Some (ni, no)" and
    wr: "approve_writes ?col i m s ni no begun d2 = (Inr (), db')"
    using run
    by (auto simp: approve_tx_def db_bind_Inr db_throw_def split: option.splits prod.splits)
  obtain q qs where q: "filter (is_pending_id i) (t_review (pg_tables db)) = q # qs"
    "(m, s, v, f) = (rq_model_id q, rq_source_a q, rq_value_a q, rq_field q)" "pg_same db d1"
    using sel by (cases rule: on_no_rows_Inr) (auto simp: db_throw_def)
  have d2: "pg_same d1 d2 \<and> now_vals = (case price_of d1 (m, s) of
      None \<Rightarrow> (Fin 0, Fin 0) | Some (i, out, _) \<Rightarrow> (i, out))"
    using price
  proof (cases rule: on_no_rows_Inr)
    case (row ys)
    then show ?thesis by (auto simp: price_of_def split: list.splits)
  next
    case none
    then show ?thesis by (auto simp: price_of_def db_return_def pg_same_def)
  qed
  have same: "pg_same db d2" using q(3) d2 pg_frame_trans by (auto simp: pg_same_def)
  have view: "price_of d1 = price_of db" "price_of d2 = price_of db"
    "history_of d2 = history_of db" "pg_valid ?col d2" "t_review (pg_tables d2) = t_review (pg_tables db)"
    "t_review_serial (pg_tables d2) = t_review_serial (pg_tables db)"
    using pg_same_view [OF same] pg_same_view [OF q(3)] valid same by (auto simp: pg_same_def)
  have "approve_write db q = Some ((m, s), ni, no, ConfidenceHigh)"
    using cols d2 q(2) view(1) by (simp add: approve_write_def)
  then show thesis
    using that [OF q(1)] approve_writes_Inr [OF view(4) wr] view by simp
qed

lemma pgx_Approve_ok:
  assumes valid: "pg_valid (pg_numeric db 10) db"
    and run: "pgx_Approve i db = (Inr (), db')"
  obtains q w qs begun where "filter (is_pending_id i) (t_review (pg_tables db)) = q # qs"
    "approve_write db q = Some w"
    "price_of db' = apply_write (pg_numeric db 10) (price_of db) w"
    "history_of db' = history_of db @ [history_entry (pg_numeric db 10) w]"
    "t_review (pg_tables db') = map (actioned i ReviewStatusResolved begun) (t_review (pg_tables db))"
    "t_review_serial (pg_tables db') = t_review_serial (pg_tables db)"
    "pg_valid (pg_numeric db 10) db'"
  using run unfolding pgx_Approve_def
proof (cases rule: transaction_cases)
  case (commit x d1 d2)
  have d1: "pg_valid (pg_numeric db 10) d1" "pg_numeric d1 = pg_numeric db"
    "pg_tables d1 = pg_tables db" "price_of d1 = price_of db" "history_of d1 = history_of db"
    using pg_same_view [OF commit(2)] commit(2) valid by (auto simp: pg_same_def pg_frame_def)
  have d2: "price_of db' = price_of d2" "history_of db' = history_of d2"
    "pg_tables db' = pg_tables d2" "pg_valid (pg_numeric db 10) d2 \<Longrightarrow> pg_valid (pg_numeric db 10) db'"
    using pg_same_view [OF commit(4)] commit(4) by (auto simp: pg_same_def)
  have w: "approve_write d1 q = approve_write db q" for q
    by (simp add: approve_write_def d1)
  have "pg_valid (pg_numeric d1 10) d1" and
    "approve_tx (pg_numeric d1 10) i (pg_now db (pg_count db)) d1 = (Inr (), d2)"
    using d1 commit(3) by (auto simp: db_throw_def split: if_splits)
  then show thesis
    by (rule approve_tx_Inr) (rule that [where begun = "pg_now db (pg_count db)"]; simp add: d1 d2 w)
qed auto

lemma db_bind_frame':
  "(\<And>r d. m db = (r, d) \<Longrightarrow> pg_frame db d) \<Longrightarrow>
   (\<And>y d r d'. f y d = (r, d') \<Longrightarrow> pg_frame d d') \<Longrightarrow> db_bind m f db = (r, db') \<Longrightarrow> pg_frame db db'"
  by (rule db_bind_frame)

lemma on_no_rows_frame:
  assumes "db_on_no_rows alt (select1 q) db = (r, db')" "\<And>d r d'. alt d = (r, d') \<Longrightarrow> d' = d"
  shows "pg_frame db db'"
proof -
  obtain r1 d1 where s: "select1 q db = (r1, d1)" by fastforce
  then have "pg_frame db d1" using stmt_frame unfolding select1_def by blast
  moreover have "db' = d1"
    using assms s by (auto simp: db_on_no_rows_def split: sum.splits db_error.splits)
  ultimately show ?thesis by simp
qed

lemma approve_writes_frame: "approve_writes col i m s x y begun db = (r, db') \<Longrightarrow> pg_frame db db'"
  unfolding approve_writes_def
  by (erule db_bind_frame' [rotated 2];
      (erule db_bind_frame' [rotated 2])?; (erule db_bind_frame' [rotated 2])?;
      (erule db_bind_frame' [rotated 2])?;
      auto simp: db_time_def db_throw_def db_return_def split: if_splits dest: stmt_frame)

lemma approve_tx_frame: "approve_tx col i begun db = (r, db') \<Longrightarrow> pg_frame db db'"
  unfolding approve_tx_def
  apply (erule db_bind_frame' [rotated 2])
   apply (erule on_no_rows_frame; simp add: db_throw_def)
  apply (clarsimp split: prod.splits)
  apply (erule db_bind_frame' [rotated 2])
   apply (erule on_no_rows_frame; simp add: db_return_def)
  apply (auto simp: db_throw_def split: option.splits prod.splits dest: approve_writes_frame)
  done

lemma pgx_Approve_err: "pgx_Approve i db = (Inl e, db') \<Longrightarrow> pg_same db db'"
  unfolding pgx_Approve_def
  by (erule transaction_Inl) (auto simp: db_throw_def split: if_splits dest: approve_tx_frame)

lemma pgx_Reject_cases:
  assumes "pgx_Reject i db = (r, db')"
  obtains (failed) e where "r = Inl e" "pg_tables db' = pg_tables db" "pg_same db db'"
  | (done_) now where "r = Inr ()" "filter (is_pending_id i) (t_review (pg_tables db)) \<noteq> []"
      "pg_tables db' = (pg_tables db)\<lparr> t_review := map (actioned i ReviewStatusOverridden now)
         (t_review (pg_tables db)) \<rparr>" "pg_frame db db'"
proof (cases "int4 i")
  case False
  then show thesis using assms failed by (auto simp: pgx_Reject_def pg_same_def)
next
  case fits: True
  obtain r1 d1 where s: "stmt (mark_review i ReviewStatusOverridden (pg_now db (pg_count db))) db = (r1, d1)"
    by fastforce
  show thesis
  proof (cases r1)
    case (Inl e)
    then show thesis
      using assms s failed stmt_Inl [of "mark_review i ReviewStatusOverridden (pg_now db (pg_count db))" db e d1]
      by (auto simp: fits pgx_Reject_def db_bind_def pg_same_def)
  next
    case (Inr n)
    note k = stmt_mark [OF s [unfolded Inr]]
    show thesis
    proof (cases "filter (is_pending_id i) (t_review (pg_tables db)) = []")
      case True
      then have "pg_tables d1 = pg_tables db" using k actioned_none [OF True] by simp
      then show thesis
        using assms s Inr True k failed by (auto simp: fits pgx_Reject_def db_bind_def db_throw_def pg_same_def)
    next
      case False
      then show thesis
        using assms s Inr k done_ by (auto simp: fits pgx_Reject_def db_bind_def db_return_def)
    qed
  qed
qed

section \<open>Reachable states of the queue\<close>

lemma price_of_mark [simp]:
  "pg_tables db' = (pg_tables db)\<lparr> t_review := qs \<rparr> \<Longrightarrow> price_of db' = price_of db"
  "pg_tables db' = (pg_tables db)\<lparr> t_review := qs \<rparr> \<Longrightarrow> history_of db' = history_of db"
  by (simp_all add: price_of_def history_of_def current_rows_def)

lemma pgx_Reject_valid:
  assumes "pg_valid col db" "pgx_Reject i db = (r, db')"
  shows "pg_valid col db'"
  using assms(2)
proof (cases rule: pgx_Reject_cases)
  case (failed e)
  then show ?thesis using pg_same_view assms(1) by blast
next
  case (done_ now)
  have "pg_now db (pg_count db) \<le> pg_now db (pg_count db')"
    using done_(4) assms(1) by (auto simp: pg_frame_def pg_valid_def intro: strict_mono_leD)
  then show ?thesis using assms(1) done_(3,4) by (fastforce simp: pg_valid_def pg_frame_def)
qed

text \<open>The steps the program takes on the table: the reconciler flags and publishes, the operator
  approves and rejects, each succeeding or failing.\<close>

inductive queue_step :: "pg \<Rightarrow> pg \<Rightarrow> bool" where
  flag: "pgx_FlagDiscrepancy m a b f va vb d db = (r, db') \<Longrightarrow> queue_step db db'"
| publish: "pgx_PublishPrice m s i out c u db = (r, db') \<Longrightarrow> queue_step db db'"
| approve: "pgx_Approve i db = (r, db') \<Longrightarrow> queue_step db db'"
| reject: "pgx_Reject i db = (r, db') \<Longrightarrow> queue_step db db'"

inductive_cases queue_stepE: "queue_step db db'"

definition queue_inv :: "pg \<Rightarrow> bool" where
  "queue_inv db \<longleftrightarrow> pg_valid (pg_numeric db 10) db \<and> review_wf (pg_tables db)"

lemma insert_review_wf:
  assumes "insert_review q t = Inr ((), t')" "review_wf t"
    and "rq_status q = ReviewStatusPending" "rq_resolved_at q = None"
  shows "review_wf t' \<and> (t_review t' = t_review t \<or>
    t_review t' = t_review t @ [q\<lparr> rq_id := t_review_serial t \<rparr>])"
proof (cases "\<exists>g \<in> set (t_review t). rq_status g = ReviewStatusPending \<and>
    rq_model_id g = rq_model_id q \<and> rq_field g = rq_field q")
  case True
  then have "t' = t\<lparr> t_review_serial := t_review_serial t + 1 \<rparr>"
    using assms(1) by (auto simp: insert_review_def split: if_splits)
  then show ?thesis using assms(2) by (auto simp: review_wf_def)
next
  case False
  then have t': "t' = t\<lparr> t_review := t_review t @ [q\<lparr> rq_id := t_review_serial t \<rparr>],
      t_review_serial := t_review_serial t + 1 \<rparr>"
    using assms(1) by (auto simp: insert_review_def split: if_splits)
  have "t_review_serial t \<notin> rq_id ` set (t_review t)"
    using assms(2) by (auto simp: review_wf_def)
  then have "review_wf t'"
    using assms(2-) False unfolding t' by (auto simp: review_wf_def)
  then show ?thesis by (simp add: t')
qed

lemma queue_step_inv:
  assumes "queue_step db db'" "queue_inv db"
  shows "queue_inv db' \<and> (\<forall>q \<in> set (t_review (pg_tables db)).
    rq_status q \<noteq> ReviewStatusPending \<longrightarrow> q \<in> set (t_review (pg_tables db')))"
proof -
  have v: "pg_valid (pg_numeric db 10) db" and wf: "review_wf (pg_tables db)"
    using assms(2) by (simp_all add: queue_inv_def)
  have num: "pg_valid col db' \<Longrightarrow> pg_valid (pg_numeric db' 10) db'" for col
    by (simp add: pg_valid_def)
  have keep: "q \<in> set (map (actioned i st now) qs)" if "q \<in> set qs"
    "rq_status q \<noteq> ReviewStatusPending" for q i st now qs
    using that by (force simp: actioned_def is_pending_id_def image_iff)
  have same: ?thesis if "pg_same db db'"
    using pg_same_view [OF that] that v wf num by (auto simp: queue_inv_def pg_same_def)
  show ?thesis
    using assms(1)
  proof (cases rule: queue_step.cases)
    case (flag m a b f va vb d r)
    let ?row = "\<lparr> rq_id = 0, rq_model_id = m, rq_source_a = a, rq_source_b = b,
         rq_field = f, rq_value_a = pg_numeric db 10 va,
         rq_value_b = pg_numeric db 10 vb,
         rq_delta_pct = pg_numeric db 4 (f64_abs d), rq_status = ReviewStatusPending,
         rq_created_at = pg_now db (pg_count db), rq_resolved_at = None \<rparr>"
    have "pg_valid (pg_numeric db' 10) db'"
      using pgx_FlagDiscrepancy_frame [OF flag] v num by blast
    moreover have "review_wf (pg_tables db') \<and> set (t_review (pg_tables db)) \<subseteq> set (t_review (pg_tables db'))"
    proof (cases r)
      case (Inl e)
      then show ?thesis
        using stmt_Inl [of "insert_review ?row" db e db'] flag wf
        by (auto simp: pgx_FlagDiscrepancy_def pg_same_def)
    next
      case (Inr x)
      then have "insert_review ?row (pg_tables db) = Inr ((), pg_tables db')"
        using stmt_Inr [of "insert_review ?row" db x db'] flag by (simp add: pgx_FlagDiscrepancy_def)
      then show ?thesis using insert_review_wf [OF _ wf] by fastforce
    qed
    ultimately show ?thesis by (auto simp: queue_inv_def)
  next
    case (publish m s i out c u r)
    then show ?thesis
    proof (cases r)
      case (Inr x)
      then have "pgx_PublishPrice m s i out c u db = (Inr (), db')" using publish by simp
      note p = pgx_PublishPrice_ok [OF v this]
      then have "review_wf (pg_tables db')" using wf by (simp add: review_wf_def)
      then show ?thesis using p num by (simp add: queue_inv_def)
    qed (use same pgx_PublishPrice_err in blast)
  next
    case (approve i r)
    then show ?thesis
    proof (cases r)
      case (Inr x)
      then have "pgx_Approve i db = (Inr (), db')" using approve by simp
      from pgx_Approve_ok [OF v this] obtain begun where b:
        "t_review (pg_tables db') = map (actioned i ReviewStatusResolved begun) (t_review (pg_tables db))"
        "t_review_serial (pg_tables db') = t_review_serial (pg_tables db)"
        "pg_valid (pg_numeric db 10) db'" by metis
      have "review_wf ((pg_tables db)\<lparr> t_review := map (actioned i ReviewStatusResolved begun)
          (t_review (pg_tables db)) \<rparr>)"
        using wf by (rule mark_review_wf) simp
      then have "review_wf (pg_tables db')" using b by (simp add: review_wf_def)
      then show ?thesis using b(3) num keep unfolding b(1) by (simp add: queue_inv_def del: set_map)
    qed (use same pgx_Approve_err in blast)
  next
    case (reject i r)
    then show ?thesis
    proof (cases rule: pgx_Reject_cases)
      case (done_ now)
      have "review_wf (pg_tables db')" unfolding done_(3) using wf by (rule mark_review_wf) simp
      then show ?thesis
        using pgx_Reject_valid [OF v reject] num keep done_(3) by (simp add: queue_inv_def del: set_map)
    qed (use same in blast)
  qed
qed

lemma status_of_changed:
  assumes "review_wf (pg_tables db)"
    and "t_review (pg_tables db') = map (actioned i st now) (t_review (pg_tables db))"
    and "filter (is_pending_id i) (t_review (pg_tables db)) \<noteq> []"
  shows "status_of db i = Some ReviewStatusPending \<and> status_of db' = (status_of db)(i \<mapsto> st)"
  using assms status_of_actioned [of "t_review (pg_tables db)" i st now]
    pending_id_status [of "t_review (pg_tables db)" i]
  by (simp add: status_of_def review_wf_def del: map_map)

interpretation rq: review_store pgx_review_ops status_of queue_inv
proof
  fix s s' :: pg and i e
  assume inv: "queue_inv s"
  then have v: "pg_valid (pg_numeric s 10) s" and wf: "review_wf (pg_tables s)"
    by (simp_all add: queue_inv_def)
  show "queue_inv (snd (Approve pgx_review_ops i s))"
    using queue_step_inv [OF queue_step.approve inv, of i "fst (pgx_Approve i s)" "snd (pgx_Approve i s)"]
    by (simp add: pgx_review_ops_def)
  show "queue_inv (snd (Reject pgx_review_ops i s))"
    using queue_step_inv [OF queue_step.reject inv, of i "fst (pgx_Reject i s)" "snd (pgx_Reject i s)"]
    by (simp add: pgx_review_ops_def)
  show "status_of s i = Some ReviewStatusPending \<and> status_of s' = (status_of s)(i \<mapsto> ReviewStatusResolved)"
    if "Approve pgx_review_ops i s = (Inr (), s')"
  proof -
    have "pgx_Approve i s = (Inr (), s')" using that by (simp add: pgx_review_ops_def)
    from pgx_Approve_ok [OF v this] obtain q qs begun where
      "filter (is_pending_id i) (t_review (pg_tables s)) = q # qs"
      "t_review (pg_tables s') = map (actioned i ReviewStatusResolved begun) (t_review (pg_tables s))"
      by metis
    then show ?thesis by (intro status_of_changed [OF wf, of _ _ _ begun]) simp_all
  qed
  show "status_of s' = status_of s" if "Approve pgx_review_ops i s = (Inl e, s')"
    using pgx_Approve_err [of i s e s'] that by (simp add: pgx_review_ops_def pg_same_def status_of_def)
  show "status_of s i = Some ReviewStatusPending \<and> status_of s' = (status_of s)(i \<mapsto> ReviewStatusOverridden)"
    if "Reject pgx_review_ops i s = (Inr (), s')"
  proof -
    have "pgx_Reject i s = (Inr (), s')" using that by (simp add: pgx_review_ops_def)
    then show ?thesis
    proof (cases rule: pgx_Reject_cases)
      case (done_ now)
      then show ?thesis by (intro status_of_changed [OF wf, of _ _ _ now]) simp_all
    qed simp
  qed
  show "status_of s' = status_of s" if "Reject pgx_review_ops i s = (Inl e, s')"
  proof -
    have "pgx_Reject i s = (Inl e, s')" using that by (simp add: pgx_review_ops_def)
    then show ?thesis by (cases rule: pgx_Reject_cases) (simp_all add: status_of_def)
  qed
qed

section \<open>Properties\<close>

definition demo_flagged :: pg where
  "demo_flagged = snd (pgx_FlagDiscrepancy 7 2 3 PriceFieldInput (Fin (1 / 1024)) (Fin (1 / 512))
     (Fin (1 / 2)) demo_pg)"

lemma demo_flagged_inv: "queue_inv demo_flagged"
proof -
  have "queue_inv demo_pg"
    using demo_valid by (simp add: queue_inv_def demo_pg_def demo_tables_def review_wf_def NewWithStore_def)
  then show ?thesis
    using queue_step_inv [OF queue_step.flag [OF prod.collapse [symmetric]]]
    unfolding demo_flagged_def by blast
qed

lemma demo_flagged_valid: "pg_valid (pg_numeric demo_flagged 10) demo_flagged"
  using demo_flagged_inv by (simp add: queue_inv_def)

text \<open>
  C8. An approval publishes one price, or nothing. When \<open>Approve\<close> succeeds, the entry was pending,
  and one price is published for its model and source A: the column the entry is about takes
  value A, the other column keeps its current value, or zero where there is no current price. The history gains
  exactly this row, the current price of the model and source A becomes this row with high confidence,
  every other current price stays, and the entry alone becomes resolved. When it fails, for
  whatever reason, no table has changed.
\<close>

theorem approve_is_one_write:
  assumes "pg_valid (pg_numeric db 10) db" and "pgx_Approve i db = (r, db')"
  shows "case r of
      Inl _ \<Rightarrow> pg_tables db' = pg_tables db
    | Inr _ \<Rightarrow> \<exists>q x y now. is_pending_id i q \<and> q \<in> set (t_review (pg_tables db)) \<and>
        (case (rq_field q, price_of db (rq_model_id q, rq_source_a q)) of
           (PriceFieldInput, Some (_, old, _)) \<Rightarrow> x = rq_value_a q \<and> y = old
         | (PriceFieldInput, None) \<Rightarrow> x = rq_value_a q \<and> y = Fin 0
         | (PriceFieldOutput, Some (old, _, _)) \<Rightarrow> x = old \<and> y = rq_value_a q
         | (PriceFieldOutput, None) \<Rightarrow> x = Fin 0 \<and> y = rq_value_a q
         | (PriceFieldOther _, _) \<Rightarrow> False) \<and>
        price_of db' = (price_of db)((rq_model_id q, rq_source_a q) \<mapsto>
          (pg_numeric db 10 x, pg_numeric db 10 y, ConfidenceHigh)) \<and>
        history_of db' = history_of db @ [((rq_model_id q, rq_source_a q), pg_numeric db 10 x, pg_numeric db 10 y)] \<and>
        t_review (pg_tables db') =
          map (actioned i ReviewStatusResolved now) (t_review (pg_tables db))"
proof (cases r)
  case (Inl e)
  then show ?thesis using pgx_Approve_err assms(2) by (auto simp: pg_same_def)
next
  case (Inr _)
  then have "pgx_Approve i db = (Inr (), db')" using assms(2) by simp
  from pgx_Approve_ok [OF assms(1) this] obtain q w qs now where
    f: "filter (is_pending_id i) (t_review (pg_tables db)) = q # qs" and
    w: "approve_write db q = Some w" "price_of db' = apply_write (pg_numeric db 10) (price_of db) w"
      "history_of db' = history_of db @ [history_entry (pg_numeric db 10) w]"
      "t_review (pg_tables db') = map (actioned i ReviewStatusResolved now) (t_review (pg_tables db))"
    by metis
  have "q \<in> set (filter (is_pending_id i) (t_review (pg_tables db)))" using f by simp
  then have q: "is_pending_id i q" "q \<in> set (t_review (pg_tables db))" by simp_all
  obtain x y where xy: "w = ((rq_model_id q, rq_source_a q), x, y, ConfidenceHigh)"
    "approve_columns (rq_field q) (rq_value_a q) (case price_of db (rq_model_id q, rq_source_a q) of
       None \<Rightarrow> (Fin 0, Fin 0) | Some (a, b, _) \<Rightarrow> (a, b)) = Some (x, y)"
    using w(1) by (auto simp: approve_write_def)
  have columns: "case (rq_field q, price_of db (rq_model_id q, rq_source_a q)) of
         (PriceFieldInput, Some (_, old, _)) \<Rightarrow> x = rq_value_a q \<and> y = old
       | (PriceFieldInput, None) \<Rightarrow> x = rq_value_a q \<and> y = Fin 0
       | (PriceFieldOutput, Some (old, _, _)) \<Rightarrow> x = old \<and> y = rq_value_a q
       | (PriceFieldOutput, None) \<Rightarrow> x = Fin 0 \<and> y = rq_value_a q
       | (PriceFieldOther _, _) \<Rightarrow> False"
    using xy(2) by (auto simp: approve_columns_def split: price_field.splits option.splits)
  show ?thesis unfolding Inr sum.case
    by (intro exI [of _ q] exI [of _ x] exI [of _ y] exI [of _ now] conjI q columns)
      (simp_all add: w(2-4) xy(1) apply_write_def history_entry_def)
qed

text \<open>An entry about the output price, for a model that has a current price.\<close>

definition demo_output_entry :: pg where
  "demo_output_entry = snd (pgx_FlagDiscrepancy 7 2 3 PriceFieldOutput (Fin (1 / 1024)) (Fin (1 / 512)) (Fin (1 / 2))
     (snd (pgx_Approve 1 demo_flagged)))"

lemma demo_output_entry_valid: "pg_valid (pg_numeric demo_output_entry 10) demo_output_entry"
proof -
  have "queue_inv (snd (pgx_Approve 1 demo_flagged))"
    using queue_step_inv [OF queue_step.approve [OF prod.collapse [symmetric]] demo_flagged_inv] by blast
  then have "queue_inv demo_output_entry"
    using queue_step_inv [OF queue_step.flag [OF prod.collapse [symmetric]]] unfolding demo_output_entry_def by blast
  then show ?thesis by (simp add: queue_inv_def)
qed

theorem approve_is_one_write_witness:
  "length (history_of (snd (pgx_Approve 1 demo_flagged))) = 1 \<and>
   price_of (snd (pgx_Approve 1 demo_flagged)) (7, 2) = Some (Fin (1 / 1024), Fin 0, ConfidenceHigh) \<and>
   length (history_of (snd (pgx_Approve 2 demo_output_entry))) = 2 \<and>
   price_of (snd (pgx_Approve 2 demo_output_entry)) (7, 2) = Some (Fin (1 / 1024), Fin (1 / 1024), ConfidenceHigh)"
proof -
  have "fst (pgx_Approve 1 demo_flagged) = Inr ()" "fst (pgx_Approve 2 demo_output_entry) = Inr ()" by code_simp+
  then have "length (history_of (snd (pgx_Approve 1 demo_flagged))) = Suc (length (history_of demo_flagged))"
      "length (history_of (snd (pgx_Approve 2 demo_output_entry))) = Suc (length (history_of demo_output_entry))"
    using approve_is_one_write [OF demo_flagged_valid, of 1 "Inr ()" "snd (pgx_Approve 1 demo_flagged)"]
      approve_is_one_write [OF demo_output_entry_valid, of 2 "Inr ()" "snd (pgx_Approve 2 demo_output_entry)"]
    by (auto simp: prod_eq_iff)
  moreover have "history_of demo_flagged = []" "length (history_of demo_output_entry) = 1" by code_simp+
  moreover have "price_of (snd (pgx_Approve 1 demo_flagged)) (7, 2) = Some (Fin (1 / 1024), Fin 0, ConfidenceHigh)"
    "price_of (snd (pgx_Approve 2 demo_output_entry)) (7, 2) = Some (Fin (1 / 1024), Fin (1 / 1024), ConfidenceHigh)"
    by code_simp+
  ultimately show ?thesis by simp
qed

text \<open>
  C7. No double action: in every session of operator requests, in whatever order and however they
  fail, at most one request for an entry is answered with the redirect of a success.
\<close>

theorem entry_actioned_once:
  assumes "queue_inv db" and "serve_all pgx_review_ops qs db = (as, db')"
  shows "length (filter (\<lambda>(q, a). request_id q = Some i \<and> a = Redirect ''/admin/review'' 303)
    (zip qs as)) \<le> 1"
  using assms by (rule rq.actioned_once)

theorem entry_actioned_once_witness:
  "fst (serve_all pgx_review_ops [ApproveReq ''1'', RejectReq ''1'', ApproveReq ''+1''] demo_flagged) =
     [Redirect ''/admin/review'' 303, SendString 409 ''entry not found or already resolved'',
      SendString 409 ''entry not found or already resolved''] \<and>
   length (filter (\<lambda>(q, a). request_id q = Some 1 \<and> a = Redirect ''/admin/review'' 303)
     (zip [ApproveReq ''1'', RejectReq ''1'', ApproveReq ''+1'']
       (fst (serve_all pgx_review_ops [ApproveReq ''1'', RejectReq ''1'', ApproveReq ''+1'']
         demo_flagged)))) \<le> 1"
  using entry_actioned_once [OF demo_flagged_inv prod.collapse [symmetric]]
  by (intro conjI) code_simp

text \<open>
  C6. The review queue as a state machine: in every state reachable by flagging, publishing,
  approving and rejecting, the keys are distinct, a model and field has at most one pending
  entry, an entry has a resolution time exactly when it was actioned, and an actioned entry is
  never changed again.
\<close>

theorem queue_reachable:
  assumes "queue_step\<^sup>*\<^sup>* db db'" and "queue_inv db"
  shows "queue_inv db' \<and> (\<forall>q \<in> set (t_review (pg_tables db)).
    rq_status q \<noteq> ReviewStatusPending \<longrightarrow> q \<in> set (t_review (pg_tables db')))"
  using assms by (induction rule: rtranclp_induct) (use queue_step_inv in blast)+

theorem queue_reachable_witness:
  "queue_inv (snd (pgx_Reject 1 demo_flagged)) \<and>
   map rq_status (t_review (pg_tables (snd (pgx_Reject 1 demo_flagged)))) = [ReviewStatusOverridden]"
proof
  have "queue_step\<^sup>*\<^sup>* demo_flagged (snd (pgx_Reject 1 demo_flagged))"
    by (intro r_into_rtranclp queue_step.reject [OF prod.collapse [symmetric]])
  from queue_reachable [OF this demo_flagged_inv]
  show "queue_inv (snd (pgx_Reject 1 demo_flagged))" by simp
  show "map rq_status (t_review (pg_tables (snd (pgx_Reject 1 demo_flagged)))) = [ReviewStatusOverridden]"
    by code_simp
qed

text \<open>
  Approving an entry whose source A has no current price publishes a free model: the column that
  the entry is not about becomes zero, in the prices and in the history, with high confidence. The reconciler
  itself never writes such a row.
\<close>

theorem approve_unpriced_source:
  assumes "pg_valid (pg_numeric db 10) db" and "pgx_Approve i db = (Inr (), db')"
    and "\<forall>q \<in> set (t_review (pg_tables db)). is_pending_id i q \<longrightarrow>
        price_of db (rq_model_id q, rq_source_a q) = None"
  shows "\<exists>k i out. price_of db' k = Some (i, out, ConfidenceHigh) \<and>
      last (history_of db') = (k, i, out) \<and>
      (i = pg_numeric db 10 (Fin 0) \<or> out = pg_numeric db 10 (Fin 0))"
proof -
  from pgx_Approve_ok [OF assms(1,2)] obtain q w qs where
    f: "filter (is_pending_id i) (t_review (pg_tables db)) = q # qs" and
    w: "approve_write db q = Some w" "price_of db' = apply_write (pg_numeric db 10) (price_of db) w"
      "history_of db' = history_of db @ [history_entry (pg_numeric db 10) w]"
    by metis
  have "q \<in> set (filter (is_pending_id i) (t_review (pg_tables db)))" using f by simp
  then have "price_of db (rq_model_id q, rq_source_a q) = None" using assms(3) by simp
  then show ?thesis
    using w by (cases "rq_field q")
      (auto simp: approve_write_def approve_columns_def apply_write_def history_entry_def)
qed

theorem approve_unpriced_source_witness:
  "\<exists>k i out. price_of (snd (pgx_Approve 1 demo_flagged)) k = Some (i, out, ConfidenceHigh) \<and>
      last (history_of (snd (pgx_Approve 1 demo_flagged))) = (k, i, out) \<and> (i = Fin 0 \<or> out = Fin 0)"
proof -
  have ok: "pgx_Approve 1 demo_flagged = (Inr (), snd (pgx_Approve 1 demo_flagged))"
  proof -
    have "fst (pgx_Approve 1 demo_flagged) = Inr ()" by code_simp
    then show ?thesis by (simp add: prod_eq_iff)
  qed
  have "price_of demo_flagged = (\<lambda>_. None)"
    by (simp add: demo_flagged_def price_of_def pgx_FlagDiscrepancy_def stmt_def insert_review_def
        demo_pg_def demo_tables_def current_rows_def pg_tick_def has_model_def has_source_def fun_eq_iff)
  moreover have "pg_numeric demo_flagged 10 = (\<lambda>x. x)"
    by (simp add: demo_flagged_def pgx_FlagDiscrepancy_def stmt_def insert_review_def
        demo_pg_def demo_tables_def pg_tick_def has_model_def has_source_def)
  ultimately show ?thesis
    using approve_unpriced_source [OF demo_flagged_valid ok] by simp
qed

end
