(* ===== verification/Worker_Pipeline.thy ===== *)
theory Worker_Pipeline
  imports Review_Queue
begin

text \<open>
  The scrape pipeline of the worker: \<open>internal/worker/store.go\<close> on the pricing tables and
  \<open>runPipeline\<close> of \<open>internal/worker/handlers.go\<close>, which connects a scraper, the diff engine and
  the reconciler. What a scraper fetches is an argument.
\<close>

section \<open>worker/store.go\<close>

definition nameFromSlug :: "string \<Rightarrow> string" where
  "nameFromSlug slug =
     (case index_byte slug CHR ''/'' of
        None \<Rightarrow> slug
      | Some firstSlash \<Rightarrow>
          if firstSlash = length slug - 1 then slug
          else let remainder = drop (firstSlash + 1) slug in
            if CHR ''/'' \<in> set remainder
            then case last_index_byte slug CHR ''/'' of
                   Some lastSlash \<Rightarrow>
                     if lastSlash < length slug - 1 then drop (lastSlash + 1) slug else remainder
                 | None \<Rightarrow> remainder
            else remainder)"

definition normalizeModality :: "string \<Rightarrow> string" where
  "normalizeModality raw =
     (let s = to_lower raw in
      if s \<in> {''text'', ''text->text''} then ''text''
      else if s \<in> {''multimodal'', ''text+image->text''} then ''multimodal''
      else if s \<in> {''image'', ''text->image'', ''image_generation''} then ''image''
      else if s \<in> {''audio'', ''audio_transcription'', ''audio_speech'', ''text->audio''} then ''audio''
      else if s = ''embedding'' then ''embedding''
      else ''text'')"

definition to_Model :: "model_row \<Rightarrow> Model" where
  "to_Model m = \<lparr> mdl_ID = mr_id m, mdl_Provider = mr_provider m, mdl_Name = mr_name m,
     mdl_Slug = mr_slug m, mdl_Modality = mr_modality m, mdl_ContextWindow = mr_context_window m,
     mdl_CreatedAt = mr_created_at m, mdl_UpdatedAt = mr_updated_at m \<rparr>"

definition to_Price :: "price_row \<Rightarrow> Price" where
  "to_Price p = \<lparr> prc_ID = pr_id p, prc_ModelID = pr_model_id p,
     prc_InputCostPerToken = pr_input p, prc_OutputCostPerToken = pr_output p,
     prc_SourceID = pr_source_id p, prc_ConfirmedAt = pr_confirmed_at p,
     prc_Confidence = pr_confidence p, prc_CreatedAt = pr_created_at p,
     prc_LastVerifiedAt = None \<rparr>"

definition pgx_FetchModels :: "Model list db" where
  "pgx_FetchModels = select (\<lambda>t. map to_Model (sort_key mr_id (t_models t)))"

definition prices_of_source :: "tables \<Rightarrow> string \<Rightarrow> price_row list" where
  "prices_of_source t sourceName =
     concat (map (\<lambda>p. map (\<lambda>_. p)
       (filter (\<lambda>s. fst s = pr_source_id p \<and> snd s = sourceName) (t_sources t))) (t_prices t))"

definition pgx_FetchPricesBySource :: "string \<Rightarrow> Price list db" where
  "pgx_FetchPricesBySource sourceName =
     select (\<lambda>t. map to_Price (prices_of_source t sourceName))"

text \<open>
  One row of \<open>EnsureModels\<close>: the \<open>CHECK\<close> on the modality, the range of the \<open>INTEGER\<close> column, the
  unique slug, \<open>COALESCE\<close> of the context window and the trigger on \<open>updated_at\<close>.
\<close>

definition modality_check :: "string \<Rightarrow> bool" where
  "modality_check s = (s \<in> {''text'', ''multimodal'', ''image'', ''audio'', ''embedding''})"

definition int4_ok :: "int option \<Rightarrow> bool" where
  "int4_ok w = (case w of None \<Rightarrow> True | Some n \<Rightarrow> - (2 ^ 31) \<le> n \<and> n < 2 ^ 31)"

definition upsert_model :: "ScrapedModel \<Rightarrow> instant \<Rightarrow> tables \<Rightarrow> db_error + (unit \<times> tables)" where
  "upsert_model m now t =
     (let modality = normalizeModality (scr_Modality m) in
      if \<not> modality_check modality \<or> \<not> int4_ok (scr_ContextWindow m) then Inl DbConstraint
      else if scr_Slug m \<in> set (map mr_slug (t_models t))
      then Inr ((), t\<lparr> t_models := map (\<lambda>r. if mr_slug r = scr_Slug m
             then r\<lparr> mr_context_window := (case scr_ContextWindow m of
                       Some w \<Rightarrow> Some w | None \<Rightarrow> mr_context_window r),
                     mr_modality := modality, mr_provider := scr_Provider m,
                     mr_updated_at := now \<rparr>
             else r) (t_models t), t_model_serial := t_model_serial t + 1 \<rparr>)
      else Inr ((), t\<lparr> t_models := t_models t @
             [\<lparr> mr_id = t_model_serial t, mr_provider = scr_Provider m,
                mr_name = nameFromSlug (scr_Slug m), mr_slug = scr_Slug m,
                mr_modality = modality, mr_context_window = scr_ContextWindow m,
                mr_created_at = now, mr_updated_at = now \<rparr>],
             t_model_serial := t_model_serial t + 1 \<rparr>))"

definition ensure_one :: "nat \<times> pg \<Rightarrow> ScrapedModel \<Rightarrow> nat \<times> pg" where
  "ensure_one acc m =
     (case acc of (failures, db) \<Rightarrow>
        (case stmt (upsert_model m (pg_now db (pg_count db))) db of
           (Inl _, db') \<Rightarrow> (failures + 1, db') | (Inr _, db') \<Rightarrow> (failures, db')))"

definition pgx_EnsureModels :: "ScrapedModel list \<Rightarrow> unit db" where
  "pgx_EnsureModels scraped db =
     (let (failures, db') = foldl ensure_one (0, db) scraped in
      if failures = length scraped then (Inl DbFault, db') else (Inr (), db'))"

definition mark_verified :: "string \<Rightarrow> string list \<Rightarrow> instant \<Rightarrow> tables \<Rightarrow> db_error + (unit \<times> tables)" where
  "mark_verified sourceName slugs now t =
     Inr ((), t\<lparr> t_prices := map (\<lambda>p.
         if (\<exists>m \<in> set (t_models t). mr_id m = pr_model_id p \<and> mr_slug m \<in> set slugs) \<and>
            (\<exists>s \<in> set (t_sources t). fst s = pr_source_id p \<and> snd s = sourceName)
         then p\<lparr> pr_last_verified_at := Some now \<rparr> else p) (t_prices t) \<rparr>)"

definition pgx_MarkVerified :: "string \<Rightarrow> string list \<Rightarrow> unit db" where
  "pgx_MarkVerified sourceName slugs db =
     (if slugs = [] then (Inr (), db)
      else stmt (mark_verified sourceName slugs (pg_now db (pg_count db))) db)"

section \<open>worker/handlers.go\<close>

datatype pipe_error = FetchFailed | NoModels | EnsureFailed | FetchModelsFailed | FetchPricesFailed

definition on_db :: "'a db \<Rightarrow> pg reconciler \<Rightarrow> (db_error + 'a) \<times> pg reconciler" where
  "on_db m r = on_store m r"

definition pipeline_body ::
  "rec_env \<Rightarrow> string \<Rightarrow> ScrapedModel list option \<Rightarrow> pg reconciler
    \<Rightarrow> (pipe_error + unit) \<times> pg reconciler" where
  "pipeline_body env sourceName fetched r =
     (case fetched of
        None \<Rightarrow> (Inl FetchFailed, r)
      | Some scraped \<Rightarrow>
          if scraped = [] then (Inl NoModels, r)
          else case on_db (pgx_EnsureModels scraped) r of
            (Inl _, r1) \<Rightarrow> (Inl EnsureFailed, r1)
          | (Inr _, r1) \<Rightarrow>
             (case on_db pgx_FetchModels r1 of
                (Inl _, r2) \<Rightarrow> (Inl FetchModelsFailed, r2)
              | (Inr storedModels, r2) \<Rightarrow>
                 (case on_db (pgx_FetchPricesBySource sourceName) r2 of
                    (Inl _, r3) \<Rightarrow> (Inl FetchPricesFailed, r3)
                  | (Inr storedPrices, r3) \<Rightarrow>
                      let r4 = Reconcile pgx_ops env (Diff storedPrices storedModels scraped) r3;
                          (_, r5) = on_db (pgx_MarkVerified sourceName (map scr_Slug scraped)) r4
                      in (Inr (), emit (Metric (''source_last_success_timestamp:'' @ sourceName))
                            (tick r5)))))"

definition runPipeline ::
  "rec_env \<Rightarrow> string \<Rightarrow> ScrapedModel list option \<Rightarrow> pg reconciler
    \<Rightarrow> (pipe_error + unit) \<times> pg reconciler" where
  "runPipeline env sourceName fetched r =
     (let (res, r') = pipeline_body env sourceName fetched r;
          status = (case res of Inl _ \<Rightarrow> ''error'' | Inr _ \<Rightarrow> ''success'')
      in (res, emit (Metric (''scraper_runs_total:'' @ sourceName @ '':'' @ status)) r'))"

text \<open>The six handlers differ in the source name and the scraper.\<close>

definition HandleOpenRouterScrape where "HandleOpenRouterScrape env = runPipeline env ''openrouter''"
definition HandleLiteLLMScrape where "HandleLiteLLMScrape env = runPipeline env ''litellm''"
definition HandleHuggingFaceScrape where
  "HandleHuggingFaceScrape env = runPipeline env ''huggingface_inference_providers''"
definition HandleOpenAIScrape where "HandleOpenAIScrape env = runPipeline env ''openai''"
definition HandleAnthropicScrape where "HandleAnthropicScrape env = runPipeline env ''anthropic''"
definition HandleGeminiScrape where "HandleGeminiScrape env = runPipeline env ''google''"

text \<open>
  A benchmark scrape: the capability scores are recomputed only after a successful scrape, and
  the task succeeds only if both did. Scrape and recomputation are steps on any state.
\<close>

definition runBenchmarkScrape ::
  "('s \<Rightarrow> 'e option \<times> 's) \<Rightarrow> ('s \<Rightarrow> 'e option \<times> 's) \<Rightarrow> 's \<Rightarrow> ('e option \<times> string) \<times> 's" where
  "runBenchmarkScrape scrape recompute s =
     (case scrape s of
        (Some e, s1) \<Rightarrow> ((Some e, ''error''), s1)
      | (None, s1) \<Rightarrow>
         (case recompute s1 of
            (Some e, s2) \<Rightarrow> ((Some e, ''error''), s2)
          | (None, s2) \<Rightarrow> ((None, ''success''), s2)))"

section \<open>The reads and writes of the worker keep prices and history\<close>

definition price_view :: "pg \<Rightarrow> pg \<Rightarrow> bool" where
  "price_view db db' \<longleftrightarrow> price_of db' = price_of db \<and> history_of db' = history_of db \<and>
     flags_of db' = flags_of db \<and> (\<forall>col. pg_valid col db \<longrightarrow> pg_valid col db')"

lemma price_view_refl: "price_view db db"
  by (simp add: price_view_def)

lemma price_view_trans: "price_view a b \<Longrightarrow> price_view b c \<Longrightarrow> price_view a c"
  by (simp add: price_view_def)

lemma pg_same_price_view: "pg_same db db' \<Longrightarrow> price_view db db'"
  using pg_same_view by (simp add: price_view_def)

lemma pg_frame_valid:
  assumes "pg_frame db db'" "t_history (pg_tables db') = t_history (pg_tables db)" "pg_valid col db"
  shows "pg_valid col db'"
proof -
  have "pg_now db (pg_count db) \<le> pg_now db (pg_count db')"
    using assms by (auto simp: pg_frame_def pg_valid_def intro: strict_mono_leD)
  then show ?thesis using assms by (fastforce simp: pg_valid_def pg_frame_def)
qed

lemma ensure_one_view:
  assumes "ensure_one (n, db) m = (n', db')"
  shows "price_view db db'"
proof -
  obtain res where s: "stmt (upsert_model m (pg_now db (pg_count db))) db = (res, db')"
    using assms by (auto simp: ensure_one_def split: prod.splits sum.splits)
  have t: "t_prices (pg_tables db') = t_prices (pg_tables db) \<and>
      t_history (pg_tables db') = t_history (pg_tables db) \<and>
      t_review (pg_tables db') = t_review (pg_tables db)"
    using s by (auto simp: stmt_def upsert_model_def Let_def split: if_splits sum.splits)
  then show ?thesis
    using pg_frame_valid [OF stmt_frame [OF s]]
    by (simp add: price_view_def price_of_def history_of_def flags_of_def current_rows_def)
qed

lemma EnsureModels_view: "price_view db (snd (pgx_EnsureModels scraped db))"
proof -
  have "price_view db (snd (foldl ensure_one (n, db) scraped))" for n
  proof (induction scraped arbitrary: n db)
    case (Cons m ms)
    obtain n' db' where e: "ensure_one (n, db) m = (n', db')" by fastforce
    show ?case using price_view_trans [OF ensure_one_view [OF e] Cons.IH [of db' n']] e by simp
  qed (simp add: price_view_refl)
  from this [of 0] show ?thesis by (simp add: pgx_EnsureModels_def case_prod_beta)
qed

lemma MarkVerified_view: "price_view db (snd (pgx_MarkVerified src slugs db))"
proof (cases "slugs = []")
  case False
  obtain res db' where s: "stmt (mark_verified src slugs (pg_now db (pg_count db))) db = (res, db')"
    by fastforce
  have f: "filter (same_price_key m k) (map (\<lambda>p. if Q p then p\<lparr> pr_last_verified_at := w \<rparr> else p) ps) =
      map (\<lambda>p. if Q p then p\<lparr> pr_last_verified_at := w \<rparr> else p) (filter (same_price_key m k) ps)"
    for m k Q w ps
    by (induction ps) (auto simp: same_price_key_def)
  have t: "t_history (pg_tables db') = t_history (pg_tables db) \<and>
      t_review (pg_tables db') = t_review (pg_tables db)"
    using s by (auto simp: stmt_def mark_verified_def split: if_splits)
  have p: "price_of db' = price_of db"
    using s by (auto simp: stmt_def mark_verified_def price_of_def current_rows_def f
        split: if_splits list.splits intro!: ext)
  show ?thesis
    using t p False s pg_frame_valid [OF stmt_frame [OF s]]
    by (simp add: price_view_def history_of_def flags_of_def pgx_MarkVerified_def)
qed (simp add: pgx_MarkVerified_def price_view_refl)

section \<open>The price index of the diff engine is the join of the tables\<close>

lemma foldl_map_upd: "foldl (\<lambda>m x. m(f x \<mapsto> g x)) m0 xs = m0 ++ map_of (rev (map (\<lambda>x. (f x, g x)) xs))"
  by (induction xs arbitrary: m0) (auto simp: map_add_def fun_eq_iff split: option.split)

lemma map_of_rev_distinct:
  assumes "distinct (map fst xs)"
  shows "map_of (rev xs) = map_of xs"
  using assms by (intro map_of_eqI) (auto simp: map_of_eq_Some_iff rev_map [symmetric])

lemma id_to_slug_distinct:
  assumes "distinct (map mdl_ID ms)" "m \<in> set ms"
  shows "id_to_slug ms (mdl_ID m) = Some (mdl_Slug m)"
proof -
  have d: "distinct (map fst (map (\<lambda>x. (mdl_ID x, mdl_Slug x)) ms))" using assms(1) by (simp add: comp_def)
  have "id_to_slug ms = map_of (map (\<lambda>x. (mdl_ID x, mdl_Slug x)) ms)"
    unfolding id_to_slug_def foldl_map_upd using map_of_rev_distinct [OF d] by simp
  then show ?thesis using assms(2) d by (auto intro!: map_of_is_SomeI)
qed

lemma id_to_slug_Some: "id_to_slug ms i = Some slug \<Longrightarrow> \<exists>m \<in> set ms. mdl_ID m = i \<and> mdl_Slug m = slug"
  unfolding id_to_slug_def foldl_map_upd by (auto dest!: map_of_SomeD)

lemma slug_fold_Some:
  assumes "p \<in> set ps" "sl (prc_ModelID p) = Some slug"
    and "\<And>q. q \<in> set ps \<Longrightarrow> sl (prc_ModelID q) = Some slug \<Longrightarrow> q = p"
  shows "foldl (\<lambda>m p. case sl (prc_ModelID p) of Some slug \<Rightarrow> m(slug \<mapsto> p) | None \<Rightarrow> m) m0 ps slug = Some p"
  using assms
proof (induction ps rule: rev_induct)
  case (snoc q qs)
  show ?case
  proof (cases "sl (prc_ModelID q) = Some slug")
    case True
    then show ?thesis using snoc.prems(3) [of q] by simp
  next
    case False
    then have "p \<in> set qs" using snoc.prems(1,2) by auto
    moreover have "r = p" if "r \<in> set qs" "sl (prc_ModelID r) = Some slug" for r
      using snoc.prems(3) [of r] that by simp
    ultimately have "foldl (\<lambda>m p. case sl (prc_ModelID p) of Some slug \<Rightarrow> m(slug \<mapsto> p) | None \<Rightarrow> m)
        m0 qs slug = Some p"
      using snoc.IH snoc.prems(2) by blast
    then show ?thesis using False by (simp split: option.split)
  qed
qed simp

definition tables_wf :: "tables \<Rightarrow> bool" where
  "tables_wf t \<longleftrightarrow> distinct (map mr_id (t_models t)) \<and> distinct (map mr_slug (t_models t)) \<and>
     distinct (map (\<lambda>p. (pr_model_id p, pr_source_id p)) (t_prices t)) \<and>
     distinct (map fst (t_sources t)) \<and> distinct (map snd (t_sources t))"

lemma prices_of_source_set:
  "p \<in> set (prices_of_source t src) \<longleftrightarrow> p \<in> set (t_prices t) \<and> (pr_source_id p, src) \<in> set (t_sources t)"
  by (force simp: prices_of_source_def)

lemma unique_by:
  "distinct (map f xs) \<Longrightarrow> x \<in> set xs \<Longrightarrow> y \<in> set xs \<Longrightarrow> f x = f y \<Longrightarrow> x = y"
  by (meson distinct_map inj_onD)

lemma slug_to_price_join:
  assumes wf: "tables_wf t" and m: "m \<in> set (t_models t)" and p: "p \<in> set (t_prices t)"
    and keys: "pr_model_id p = mr_id m" "(pr_source_id p, src) \<in> set (t_sources t)"
  shows "slug_to_price (map to_Price (prices_of_source t src))
      (map to_Model (sort_key mr_id (t_models t))) (mr_slug m) = Some (to_Price p)"
proof -
  let ?ms = "map to_Model (sort_key mr_id (t_models t))"
  let ?ps = "map to_Price (prices_of_source t src)"
  have ids: "distinct (map mdl_ID ?ms)"
    using wf by (auto simp: tables_wf_def to_Model_def comp_def distinct_map)
  have sl: "id_to_slug ?ms (mr_id r) = Some (mr_slug r)" if "r \<in> set (t_models t)" for r
    using id_to_slug_distinct [OF ids, of "to_Model r"] that by (simp add: to_Model_def)
  have pin: "p \<in> set (prices_of_source t src)" using p keys by (simp add: prices_of_source_set)
  have uniq: "q = to_Price p" if q: "q \<in> set ?ps" "id_to_slug ?ms (prc_ModelID q) = Some (mr_slug m)" for q
  proof -
    obtain q' where q': "q = to_Price q'" "q' \<in> set (t_prices t)" "(pr_source_id q', src) \<in> set (t_sources t)"
      using q(1) by (auto simp: prices_of_source_set)
    obtain r where r: "r \<in> set (t_models t)" "mr_id r = pr_model_id q'" "mr_slug r = mr_slug m"
      using id_to_slug_Some [OF q(2)] q' by (auto simp: to_Price_def to_Model_def)
    have "r = m" using wf r(1,3) m by (auto simp: tables_wf_def intro: unique_by)
    moreover have "(pr_source_id q', src) = (pr_source_id p, src)"
      using wf keys(2) q'(3) by (intro unique_by [of snd "t_sources t"]) (auto simp: tables_wf_def)
    ultimately have "q' = p"
      using wf q'(2) p keys(1) r(2)
      by (intro unique_by [of "\<lambda>p. (pr_model_id p, pr_source_id p)" "t_prices t"]) (auto simp: tables_wf_def)
    then show ?thesis using q' by simp
  qed
  have ne: "?ps \<noteq> []" "?ms \<noteq> []"
    using pin m by (metis empty_iff list.set(1) map_is_Nil_conv)
      (use m in \<open>metis empty_iff list.set(1) map_is_Nil_conv set_sort\<close>)
  have "foldl (\<lambda>mp p. case id_to_slug ?ms (prc_ModelID p) of Some slug \<Rightarrow> mp(slug \<mapsto> p) | None \<Rightarrow> mp)
      Map.empty ?ps (mr_slug m) = Some (to_Price p)"
    using pin sl [OF m] keys(1) uniq
    by (intro slug_fold_Some) (auto simp: to_Price_def)
  then show ?thesis using ne unfolding slug_to_price_def by simp
qed

section \<open>A scrape that reports the stored prices\<close>

definition unchanged :: "tables \<Rightarrow> string \<Rightarrow> ScrapedModel \<Rightarrow> bool" where
  "unchanged t src s = (\<exists>m \<in> set (t_models t). \<exists>p \<in> set (t_prices t).
     mr_slug m = scr_Slug s \<and> pr_model_id p = mr_id m \<and> (pr_source_id p, src) \<in> set (t_sources t) \<and>
     f64_lt (f64_abs (f64_sub (scr_InputCostPerToken s) (pr_input p))) diff_epsilon \<and>
     f64_lt (f64_abs (f64_sub (scr_OutputCostPerToken s) (pr_output p))) diff_epsilon)"

lemma Diff_unchanged:
  assumes "tables_wf t" "\<And>s. s \<in> set scraped \<Longrightarrow> unchanged t src s"
  shows "Diff (map to_Price (prices_of_source t src)) (map to_Model (sort_key mr_id (t_models t))) scraped = []"
proof -
  have "diff_one (slug_to_price (map to_Price (prices_of_source t src))
      (map to_Model (sort_key mr_id (t_models t)))) s = []" if s: "s \<in> set scraped" for s
  proof -
    obtain m p where mp: "m \<in> set (t_models t)" "p \<in> set (t_prices t)" "mr_slug m = scr_Slug s"
      "pr_model_id p = mr_id m" "(pr_source_id p, src) \<in> set (t_sources t)"
      and lt: "f64_lt (f64_abs (f64_sub (scr_InputCostPerToken s) (pr_input p))) diff_epsilon"
      "f64_lt (f64_abs (f64_sub (scr_OutputCostPerToken s) (pr_output p))) diff_epsilon"
      using assms(2) [OF s] by (auto simp: unchanged_def)
    have "slug_to_price (map to_Price (prices_of_source t src))
      (map to_Model (sort_key mr_id (t_models t))) (scr_Slug s) = Some (to_Price p)"
      using slug_to_price_join [OF assms(1) mp(1,2,4,5)] mp(3) by simp
    then show ?thesis using lt by (simp add: diff_one_def fieldDiff_def to_Price_def)
  qed
  then show ?thesis by (simp add: Diff_def)
qed

text \<open>Refreshing the metadata of known models moves no key.\<close>

definition same_keys :: "tables \<Rightarrow> tables \<Rightarrow> bool" where
  "same_keys t t' \<longleftrightarrow> map mr_id (t_models t') = map mr_id (t_models t) \<and>
     map mr_slug (t_models t') = map mr_slug (t_models t) \<and> t_prices t' = t_prices t \<and>
     t_sources t' = t_sources t"

lemma ensure_one_keys:
  assumes "ensure_one (n, db) s = (n', db')" "scr_Slug s \<in> set (map mr_slug (t_models (pg_tables db)))"
  shows "same_keys (pg_tables db) (pg_tables db')"
proof -
  have "map mr_id (map (\<lambda>r. if P r then r\<lparr> mr_context_window := w r, mr_modality := md,
      mr_provider := pv, mr_updated_at := u \<rparr> else r) ms) = map mr_id ms"
    "map mr_slug (map (\<lambda>r. if P r then r\<lparr> mr_context_window := w r, mr_modality := md,
      mr_provider := pv, mr_updated_at := u \<rparr> else r) ms) = map mr_slug ms" for P w md pv u ms
    by simp_all
  then show ?thesis
    using assms
    by (auto simp: ensure_one_def stmt_def upsert_model_def same_keys_def Let_def pg_tick_def
        simp del: map_map split: if_splits prod.splits sum.splits)
qed

lemma EnsureModels_keys:
  assumes "\<And>s. s \<in> set scraped \<Longrightarrow> scr_Slug s \<in> set (map mr_slug (t_models (pg_tables db)))"
  shows "same_keys (pg_tables db) (pg_tables (snd (pgx_EnsureModels scraped db)))"
proof -
  have "same_keys (pg_tables db) (pg_tables (snd (foldl ensure_one (n, db) scraped)))" for n
    using assms
  proof (induction scraped arbitrary: n db)
    case (Cons s ss)
    obtain n' db' where e: "ensure_one (n, db) s = (n', db')" by fastforce
    have k: "same_keys (pg_tables db) (pg_tables db')" using ensure_one_keys [OF e] Cons.prems by simp
    have "same_keys (pg_tables db') (pg_tables (snd (foldl ensure_one (n', db') ss)))"
      using Cons.IH [of db' n'] Cons.prems k by (simp add: same_keys_def del: set_map)
    then show ?case using k e by (simp add: same_keys_def)
  qed (simp add: same_keys_def)
  from this [of 0] show ?thesis by (simp add: pgx_EnsureModels_def case_prod_beta)
qed

lemma model_of_keys:
  assumes "same_keys t t'" "m \<in> set (t_models t)"
  shows "\<exists>m' \<in> set (t_models t'). mr_id m' = mr_id m \<and> mr_slug m' = mr_slug m"
proof -
  obtain k where k: "k < length (t_models t)" "t_models t ! k = m" using assms(2) by (auto simp: in_set_conv_nth)
  have l: "length (t_models t') = length (t_models t)" using assms(1) by (metis same_keys_def length_map)
  have "mr_id (t_models t' ! k) = mr_id m" "mr_slug (t_models t' ! k) = mr_slug m"
    using assms(1) k l by (metis same_keys_def nth_map)+
  then show ?thesis using k l by (metis nth_mem)
qed

lemma unchanged_keys:
  assumes "same_keys t t'"
  shows "unchanged t src s \<Longrightarrow> unchanged t' src s" "tables_wf t \<Longrightarrow> tables_wf t'"
  using assms model_of_keys [OF assms] unfolding unchanged_def
  by (fastforce simp: same_keys_def) (use assms in \<open>simp add: tables_wf_def same_keys_def\<close>)

section \<open>The pipeline\<close>

lemma on_db_store [simp]:
  "rc_store (snd (on_db m r)) = snd (m (rc_store r))" "rc_pending (snd (on_db m r)) = rc_pending r"
  "fst (on_db m r) = fst (m (rc_store r))"
  by (simp_all add: on_db_def frame_simps)

lemma on_db_run: "on_db m r = (x, r') \<Longrightarrow> m (rc_store r) = (x, rc_store r')"
  by (metis on_db_store(1,3) fst_conv snd_conv prod.collapse)

lemma FetchModels_Inr:
  "pgx_FetchModels db = (Inr ms, db') \<Longrightarrow>
    ms = map to_Model (sort_key mr_id (t_models (pg_tables db))) \<and> pg_tables db' = pg_tables db"
  by (auto simp: pgx_FetchModels_def select_def stmt_def split: if_splits)

lemma FetchPrices_Inr:
  "pgx_FetchPricesBySource src db = (Inr ps, db') \<Longrightarrow>
    ps = map to_Price (prices_of_source (pg_tables db) src) \<and> pg_tables db' = pg_tables db"
  by (auto simp: pgx_FetchPricesBySource_def select_def stmt_def split: if_splits)

lemma Fetch_view:
  "price_view db (snd (pgx_FetchModels db))" "price_view db (snd (pgx_FetchPricesBySource src db))"
  unfolding pgx_FetchModels_def pgx_FetchPricesBySource_def
  by (rule pg_same_price_view, rule select_same)+

text \<open>A run stops early, or goes through all its stages.\<close>

lemma pipeline_cases:
  assumes "runPipeline env src fetched r = (res, r')"
  obtains (early) e where "res = Inl e" "price_view (rc_store r) (rc_store r')"
      "rc_pending r' = rc_pending r"
  | (full) scraped r1 ms ps r3 where "fetched = Some scraped" "scraped \<noteq> []" "res = Inr ()"
      "r1 = snd (on_db (pgx_EnsureModels scraped) r)"
      "ms = map to_Model (sort_key mr_id (t_models (pg_tables (rc_store r1))))"
      "ps = map to_Price (prices_of_source (pg_tables (rc_store r1)) src)"
      "price_view (rc_store r) (rc_store r3)" "rc_pending r3 = rc_pending r"
      "price_view (rc_store (Reconcile pgx_ops env (Diff ps ms scraped) r3)) (rc_store r')"
      "rc_pending r' = rc_pending (Reconcile pgx_ops env (Diff ps ms scraped) r3)"
proof (cases fetched)
  case None
  then show ?thesis
    using assms early by (auto simp: runPipeline_def pipeline_body_def frame_simps price_view_refl)
next
  case (Some scraped)
  show ?thesis
  proof (cases "scraped = []")
    case True
    then show ?thesis
      using assms early Some by (auto simp: runPipeline_def pipeline_body_def frame_simps price_view_refl)
  next
    case ne: False
    obtain e1 r1 where 1: "on_db (pgx_EnsureModels scraped) r = (e1, r1)" by fastforce
    have v1: "price_view (rc_store r) (rc_store r1)" "rc_pending r1 = rc_pending r"
      using EnsureModels_view on_db_store(1,2) [of "pgx_EnsureModels scraped" r] 1 by auto
    obtain e2 r2 where 2: "on_db pgx_FetchModels r1 = (e2, r2)" by fastforce
    have v2: "price_view (rc_store r1) (rc_store r2)" "rc_pending r2 = rc_pending r"
      using Fetch_view(1) on_db_store(1,2) [of pgx_FetchModels r1] 2 v1 by auto
    obtain e3 r3 where 3: "on_db (pgx_FetchPricesBySource src) r2 = (e3, r3)" by fastforce
    have v3: "price_view (rc_store r2) (rc_store r3)" "rc_pending r3 = rc_pending r"
      using Fetch_view(2) on_db_store(1,2) [of "pgx_FetchPricesBySource src" r2] 3 v2 by auto
    show ?thesis
    proof (cases "\<exists>x y z. e1 = Inr x \<and> e2 = Inr y \<and> e3 = Inr z")
      case False
      then consider x where "e1 = Inl x" | x y where "e1 = Inr x" "e2 = Inl y"
        | x y z where "e1 = Inr x" "e2 = Inr y" "e3 = Inl z"
        by (metis sum.exhaust)
      then obtain e where "res = Inl e" "r' = emit (Metric (''scraper_runs_total:'' @ src @ '':error'')) r1 \<or>
          r' = emit (Metric (''scraper_runs_total:'' @ src @ '':error'')) r2 \<or>
          r' = emit (Metric (''scraper_runs_total:'' @ src @ '':error'')) r3"
        using assms Some ne 1 2 3 by cases (auto simp: runPipeline_def pipeline_body_def)
      moreover have "price_view (rc_store r) (rc_store r2)" "price_view (rc_store r) (rc_store r3)"
        using v1 v2 v3 price_view_trans by blast+
      ultimately show ?thesis using early v1 v2 v3 by (auto simp: frame_simps)
    next
      case True
      then obtain x ms ps where e: "e1 = Inr x" "e2 = Inr ms" "e3 = Inr ps" by blast
      have ms: "ms = map to_Model (sort_key mr_id (t_models (pg_tables (rc_store r1))))"
        "pg_tables (rc_store r2) = pg_tables (rc_store r1)"
        using FetchModels_Inr [OF on_db_run [OF 2 [unfolded e(2)]]] by simp_all
      have ps: "ps = map to_Price (prices_of_source (pg_tables (rc_store r1)) src)"
        using FetchPrices_Inr [OF on_db_run [OF 3 [unfolded e(3)]]] ms(2) by simp
      let ?r4 = "Reconcile pgx_ops env (Diff ps ms scraped) r3"
      obtain u r5 where 5: "on_db (pgx_MarkVerified src (map scr_Slug scraped)) ?r4 = (u, r5)" by fastforce
      have "res = Inr () \<and> r' = emit (Metric (''scraper_runs_total:'' @ src @ '':success''))
          (emit (Metric (''source_last_success_timestamp:'' @ src)) (tick r5))"
        using assms Some ne 1 2 3 e 5 by (simp add: runPipeline_def pipeline_body_def)
      moreover have "rc_store r5 = snd (pgx_MarkVerified src (map scr_Slug scraped) (rc_store ?r4))"
        "rc_pending r5 = rc_pending ?r4"
        using on_db_store(1,2) [of "pgx_MarkVerified src (map scr_Slug scraped)" ?r4] 5 by auto
      ultimately have r': "res = Inr ()"
        "rc_store r' = snd (pgx_MarkVerified src (map scr_Slug scraped) (rc_store ?r4))"
        "rc_pending r' = rc_pending ?r4"
        by (simp_all add: frame_simps)
      have "price_view (rc_store r) (rc_store r3)"
        using v1(1) v2(1) v3(1) price_view_trans by blast
      show ?thesis
        by (rule full [OF Some ne r'(1) _ ms(1) ps])
          (use 1 v3(2) r'(2,3) MarkVerified_view \<open>price_view (rc_store r) (rc_store r3)\<close> in simp_all)
    qed
  qed
qed

definition scrape_provider :: "ScrapedModel \<Rightarrow> string" where
  "scrape_provider s = (if scr_UnderlyingProvider s \<noteq> [] then scr_UnderlyingProvider s else scr_SourceName s)"

lemma fieldDiff_origin:
  "fieldDiff slug src up f old new = Some d \<Longrightarrow>
    ModelSlug d = slug \<and> DiffSource d = src \<and> UnderlyingProvider d = up"
  by (auto simp: fieldDiff_def Let_def split: if_splits)

lemma diff_one_origin:
  assumes "d \<in> set (diff_one ix s)"
  shows "ModelSlug d = scr_Slug s \<and> DiffSource d = scr_SourceName s \<and>
    UnderlyingProvider d = scr_UnderlyingProvider s"
proof (cases "ix (scr_Slug s)")
  case None
  then show ?thesis using assms by (auto simp: diff_one_def newModelDiff_def split: if_splits)
next
  case (Some p)
  then show ?thesis using assms by (auto simp: diff_one_def dest: fieldDiff_origin [OF sym] split: option.splits)
qed

lemma Diff_origin:
  assumes "d \<in> set (Diff ps ms scraped)"
  shows "\<exists>s \<in> set scraped. ModelSlug d = scr_Slug s \<and> effectiveProvider d = scrape_provider s"
proof -
  obtain s where "s \<in> set scraped" "d \<in> set (diff_one (slug_to_price ps ms) s)"
    using assms by (auto simp: Diff_def)
  then show ?thesis
    using diff_one_origin by (fastforce simp: effectiveProvider_def scrape_provider_def)
qed

lemma Reconcile_slug_provider:
  assumes "\<And>d. d \<in> set batch \<Longrightarrow> effectiveProvider d = f (ModelSlug d)"
  shows "pg.evolves col {ConfidenceLow, ConfidenceMedium} False (rc_store r)
    (rc_store (Reconcile pgx_ops env batch r))"
proof (intro pg.evolves_Reconcile disjI1 allI ballI)
  fix ids g
  assume "g \<in> set (group_diffs ids batch)"
  then have g: "snd g = grouped ids (fst g) batch"
    using group_diffs_mem(1) [of "fst g" "snd g"] by simp
  have "effectiveProvider d = f (fst (fst g))" if d: "d \<in> set (snd g)" for d
  proof -
    have "d \<in> set batch" "diff_key d = fst g" using d unfolding g by (auto simp: grouped_def)
    then show ?thesis using assms [of d] by (metis diff_key_def fst_conv)
  qed
  then show "length (remdups (map effectiveProvider (snd g))) < 2"
    by (intro one_provider [where p = "f (fst (fst g))"]) simp
qed auto

lemma evolves_price_view:
  "price_view db db' \<Longrightarrow> pg.evolves col C flag db db'"
  unfolding pg.evolves_def price_view_def by (auto intro!: exI [of _ "[]"])

text \<open>
  C9. Multi-source agreement is out of reach of the scheduled pipeline: a run for one source, whose
  rows for a slug name one effective provider, never flags a discrepancy and never writes a
  price with high confidence, however often and with whatever other sources it runs; what it
  writes to prices and history are complete writes.
\<close>

theorem pipeline_one_source:
  assumes "pg_valid col (rc_store r)" and "runPipeline env src (Some scraped) r = (res, r')"
    and "\<forall>s \<in> set scraped. scrape_provider s = f (scr_Slug s)"
  shows "flags_of (rc_store r') = flags_of (rc_store r) \<and>
    (\<exists>ws. history_of (rc_store r') = history_of (rc_store r) @ map (history_entry col) ws \<and>
      price_of (rc_store r') = foldl (apply_write col) (price_of (rc_store r)) ws \<and>
      list_all complete_write ws \<and>
      write_confidence ` set ws \<subseteq> {ConfidenceLow, ConfidenceMedium})"
proof -
  let ?C = "{ConfidenceLow, ConfidenceMedium}"
  have "pg.evolves col ?C False (rc_store r) (rc_store r')"
    using assms(2)
  proof (cases rule: pipeline_cases)
    case (early e)
    then show ?thesis by (intro evolves_price_view)
  next
    case (full scraped' r1 ms ps r3)
    have "effectiveProvider d = f (ModelSlug d)" if "d \<in> set (Diff ps ms scraped')" for d
      using Diff_origin [OF that] assms(3) full(1) by auto
    then have "pg.evolves col ?C False (rc_store r3) (rc_store (Reconcile pgx_ops env (Diff ps ms scraped') r3))"
      by (rule Reconcile_slug_provider)
    then show ?thesis
      using evolves_price_view [OF full(7)] evolves_price_view [OF full(9)] pg.evolves_trans by metis
  qed
  then show ?thesis using assms(1) unfolding pg.evolves_def by blast
qed

definition demo_scrape :: ScrapedModel where
  "demo_scrape = \<lparr> scr_Slug = ''openai/gpt'', scr_Provider = ''openai'',
     scr_InputCostPerToken = Fin (1 / 1024), scr_OutputCostPerToken = Fin (1 / 512),
     scr_ContextWindow = Some 128000, scr_Modality = ''text->text'', scr_SourceName = ''litellm'',
     scr_UnderlyingProvider = [] \<rparr>"

theorem pipeline_one_source_witness:
  "flags_of (rc_store (snd (runPipeline demo_env ''litellm'' (Some [demo_scrape]) (NewWithStore demo_pg)))) = [] \<and>
   price_of (rc_store (snd (runPipeline demo_env ''litellm'' (Some [demo_scrape]) (NewWithStore demo_pg)))) (7, 2)
     = Some (Fin (1 / 1024), Fin (1 / 512), ConfidenceLow)"
proof
  show "price_of (rc_store (snd (runPipeline demo_env ''litellm'' (Some [demo_scrape])
      (NewWithStore demo_pg)))) (7, 2) = Some (Fin (1 / 1024), Fin (1 / 512), ConfidenceLow)"
    by code_simp
  have "\<forall>s \<in> set [demo_scrape]. scrape_provider s = ''litellm''"
    by (simp add: demo_scrape_def scrape_provider_def)
  from pipeline_one_source [OF demo_valid prod.collapse [symmetric] this]
  show "flags_of (rc_store (snd (runPipeline demo_env ''litellm'' (Some [demo_scrape])
      (NewWithStore demo_pg)))) = []"
    by (simp add: NewWithStore_def demo_pg_def demo_tables_def flags_of_def)
qed

text \<open>
  C10. Steady state: when every scraped row is within the engine's epsilon of the price the tables
  hold for its slug and this source, a run of the pipeline changes no price, no history row, no
  review entry and no pending change, whatever fails on the way.
\<close>

theorem pipeline_steady_state:
  assumes "tables_wf (pg_tables (rc_store r))"
    and "\<forall>s \<in> set scraped. unchanged (pg_tables (rc_store r)) src s"
    and "runPipeline env src (Some scraped) r = (res, r')"
  shows "price_of (rc_store r') = price_of (rc_store r) \<and>
    history_of (rc_store r') = history_of (rc_store r) \<and>
    flags_of (rc_store r') = flags_of (rc_store r) \<and> rc_pending r' = rc_pending r"
  using assms(3)
proof (cases rule: pipeline_cases)
  case (early e)
  then show ?thesis by (simp add: price_view_def)
next
  case (full scraped' r1 ms ps r3)
  have "same_keys (pg_tables (rc_store r)) (pg_tables (rc_store r1))"
    unfolding full(4) on_db_store
  proof (rule EnsureModels_keys)
    fix s assume "s \<in> set scraped'"
    then have "unchanged (pg_tables (rc_store r)) src s" using assms(2) full(1) by simp
    then show "scr_Slug s \<in> set (map mr_slug (t_models (pg_tables (rc_store r))))"
      by (auto simp: unchanged_def) (metis imageI)
  qed
  note k = unchanged_keys [OF this]
  have "Diff ps ms scraped' = []"
    unfolding full(5,6) using k(2) [OF assms(1)] k(1) assms(2) full(1) by (intro Diff_unchanged) auto
  then have "Reconcile pgx_ops env (Diff ps ms scraped') r3 = emit (Metric ''no_change'') r3"
    by (simp add: Reconcile_def)
  then show ?thesis
    using full(7-10) by (auto simp: price_view_def frame_simps)
qed

definition demo_settled :: "pg reconciler" where
  "demo_settled = NewWithStore (snd (pgx_PublishPrice 7 2 (Fin (1 / 1024)) (Fin (1 / 512)) ConfidenceLow [] demo_pg))"

theorem pipeline_steady_state_witness:
  "history_of (rc_store (snd (runPipeline demo_env ''litellm'' (Some [demo_scrape]) demo_settled))) =
    [((7, 2), Fin (1 / 1024), Fin (1 / 512))]"
proof -
  let ?t = "pg_tables (rc_store demo_settled)"
  have m: "map (\<lambda>m. (mr_id m, mr_slug m)) (t_models ?t) = [(7, ''openai/gpt'')]"
    "t_sources ?t = [(1, ''huggingface_inference_providers''), (2, ''litellm''), (3, ''openai'')]"
    "map (\<lambda>p. (pr_model_id p, pr_source_id p, pr_input p, pr_output p)) (t_prices ?t) =
      [(7, 2, Fin (1 / 1024), Fin (1 / 512))]"
    by code_simp+
  have m': "\<exists>m. t_models ?t = [m] \<and> mr_id m = 7 \<and> mr_slug m = ''openai/gpt''"
    "\<exists>p. t_prices ?t = [p] \<and> pr_model_id p = 7 \<and> pr_source_id p = 2 \<and>
       pr_input p = Fin (1 / 1024) \<and> pr_output p = Fin (1 / 512)"
    using m(1,3) by (auto simp: map_eq_Cons_conv)
  have e: "f64_lt (f64_abs (f64_sub (Fin (1 / 1024)) (Fin (1 / 1024)))) diff_epsilon"
    "f64_lt (f64_abs (f64_sub (Fin (1 / 512)) (Fin (1 / 512)))) diff_epsilon"
    by code_simp+
  have "tables_wf ?t" "\<forall>s \<in> set [demo_scrape]. unchanged ?t ''litellm'' s"
    using m' m(2) e by (auto simp: tables_wf_def unchanged_def demo_scrape_def)
  from pipeline_steady_state [OF this prod.collapse [symmetric]]
  have "history_of (rc_store (snd (runPipeline demo_env ''litellm'' (Some [demo_scrape]) demo_settled))) =
      history_of (rc_store demo_settled)"
    by blast
  moreover have "history_of (rc_store demo_settled) = [((7, 2), Fin (1 / 1024), Fin (1 / 512))]"
    by code_simp
  ultimately show ?thesis by simp
qed

end
