(* ===== verification/Capability_Scores.thy ===== *)
theory Capability_Scores
  imports Go_Text
begin

text \<open>
  The pure part of \<open>internal/intelligence\<close>: the aggregation of benchmark evidence into capability
  scores (\<open>aggregator.go\<close>) and the composite score of a model for a use case (\<open>scorer.go\<close>). Go ranges over
  maps in an unspecified order, and floating-point sums depend on it: a map that is ranged over
  is a list here, in the order of the run, and the theorems hold for each order.
\<close>

section \<open>Tables of the aggregator\<close>

definition DimensionBenchmarks :: "(string \<times> (string \<times> f64) list) list" where
  "DimensionBenchmarks = [
     (''quality'', [(''MMLU-Pro'', Fin 1), (''GPQA Diamond'', Fin 1)]),
     (''reasoning'', [(''GPQA Diamond'', Fin 1), (''MATH-500'', Fin 1), (''AIME 2025'', Fin 1)]),
     (''coding'', [(''SWE-bench Verified'', Fin 1), (''LiveCodeBench'', Fin 1)]),
     (''tool_use'', [(''BFCL V3'', Fin 1)]),
     (''agentic'', [(''SWE-bench Verified'', Fin (1 / 2)), (''BFCL V3'', Fin (1 / 2))]),
     (''finance'', [(''CFA'', Fin 1)]),
     (''writing'', [(''WritingBench'', Fin 1)]),
     (''video'', [(''Video-MME'', Fin 1)]),
     (''instruction'', [(''IFEval'', Fin 1)]),
     (''preference'', [(''Chatbot Arena'', Fin 1)]),
     (''structured_output'', [(''BFCL V3'', Fin (1 / 2)), (''IFEval'', Fin (1 / 2))])]"

definition StalenessThresholdDays :: int where
  "StalenessThresholdDays = 90"

text \<open>Go's zero time, on the time line of \<open>instant\<close> (nanoseconds since the Unix epoch).\<close>

definition zero_time :: instant where
  "zero_time = - 62135596800 * second"

record scoreEntry =
  se_Normalized :: f64
  se_EvaluatedAt :: instant
  se_Confidence :: string

record AggregatedResult =
  ar_Dimension :: string
  ar_Score :: f64
  ar_Confidence :: string
  ar_BenchmarkCount :: int
  ar_Freshness :: string

section \<open>Aggregation\<close>

definition normalize_confidence :: "string \<Rightarrow> string \<times> nat" where
  "normalize_confidence v =
     (if v = ''high'' then (''high'', 2) else if v = ''medium'' then (''medium'', 1) else (''low'', 0))"

definition lowerConfidence :: "string \<Rightarrow> string \<Rightarrow> string" where
  "lowerConfidence a b =
     (let (na, ra) = normalize_confidence a; (nb, rb) = normalize_confidence b in
      if rb < ra then nb else na)"

record agg_state =
  ag_sum :: f64
  ag_total :: f64
  ag_oldest :: instant
  ag_evidence :: string
  ag_count :: nat

definition agg_start :: agg_state where
  "agg_start = \<lparr> ag_sum = Fin 0, ag_total = Fin 0, ag_oldest = zero_time, ag_evidence = ''high'',
     ag_count = 0 \<rparr>"

definition agg_step :: "(string \<rightharpoonup> scoreEntry) \<Rightarrow> agg_state \<Rightarrow> string \<times> f64 \<Rightarrow> agg_state" where
  "agg_step scores st bw =
     (case scores (fst bw) of
        None \<Rightarrow> st
      | Some e \<Rightarrow> \<lparr>
          ag_sum = f64_add (ag_sum st) (f64_mul (se_Normalized e) (snd bw)),
          ag_total = f64_add (ag_total st) (snd bw),
          ag_oldest = (if ag_oldest st = zero_time \<or> se_EvaluatedAt e < ag_oldest st
                       then se_EvaluatedAt e else ag_oldest st),
          ag_evidence = lowerConfidence (ag_evidence st) (se_Confidence e),
          ag_count = ag_count st + 1 \<rparr>)"

definition Aggregate ::
  "string \<Rightarrow> (string \<times> f64) list \<Rightarrow> (string \<rightharpoonup> scoreEntry) \<Rightarrow> instant \<Rightarrow> AggregatedResult option" where
  "Aggregate dimension weights scores now =
     (let st = foldl (agg_step scores) agg_start weights in
      if ag_count st = 0 then None
      else
        let freshness = (if ag_oldest st \<noteq> zero_time \<and>
                           StalenessThresholdDays * 24 * hour < now - ag_oldest st
                         then ''stale'' else ''fresh'');
            coverage = (if f64_le (f64_of_int (int (length weights))) (f64_of_int (int (ag_count st)))
                        then ''high'' else if 2 \<le> ag_count st then ''medium'' else ''low'')
        in Some \<lparr> ar_Dimension = dimension, ar_Score = f64_div (ag_sum st) (ag_total st),
                  ar_Confidence = lowerConfidence coverage (ag_evidence st),
                  ar_BenchmarkCount = int (ag_count st), ar_Freshness = freshness \<rparr>)"

section \<open>The composite score\<close>

datatype UseCase = UseCaseFinance | UseCaseCoding | UseCaseAgentic | UseCaseWriting | UseCaseVideo
  | UseCaseReasoning | UseCaseGeneral | UseCaseOther string

datatype Priority = PriorityQuality | PriorityCost | PrioritySpeed | PriorityBalanced
  | PriorityOther string

definition ValidUseCases :: "UseCase \<Rightarrow> bool" where
  "ValidUseCases uc = (case uc of UseCaseOther _ \<Rightarrow> False | _ \<Rightarrow> True)"

definition ValidPriorities :: "Priority \<Rightarrow> bool" where
  "ValidPriorities p = (case p of PriorityOther _ \<Rightarrow> False | _ \<Rightarrow> True)"

fun useCaseDimensions :: "UseCase \<Rightarrow> string list option" where
  "useCaseDimensions UseCaseFinance = Some [''finance'', ''quality'']"
| "useCaseDimensions UseCaseCoding = Some [''coding'', ''reasoning'']"
| "useCaseDimensions UseCaseAgentic = Some [''agentic'', ''tool_use'', ''reasoning'']"
| "useCaseDimensions UseCaseWriting = Some [''writing'', ''instruction'']"
| "useCaseDimensions UseCaseVideo = Some [''video'']"
| "useCaseDimensions UseCaseReasoning = Some [''reasoning'', ''quality'']"
| "useCaseDimensions UseCaseGeneral = Some [''quality'', ''preference'']"
| "useCaseDimensions (UseCaseOther _) = None"

definition PrimaryDimensions :: "UseCase \<Rightarrow> string list" where
  "PrimaryDimensions uc =
     (case useCaseDimensions uc of Some dims \<Rightarrow> dims
      | None \<Rightarrow> (case useCaseDimensions UseCaseGeneral of Some dims \<Rightarrow> dims | None \<Rightarrow> []))"

definition priority_weight :: "Priority \<Rightarrow> bool \<Rightarrow> f64 \<Rightarrow> f64" where
  "priority_weight pri primary w =
     (case pri of
        PriorityQuality \<Rightarrow> f64_mul w (if primary then Fin 2 else Fin (1 / 2))
      | PriorityCost \<Rightarrow> if primary then f64_mul w (Fin (3 / 4)) else w
      | PrioritySpeed \<Rightarrow> if primary then f64_mul w (Fin (1 / 2)) else w
      | _ \<Rightarrow> w)"

definition dimensionWeights :: "UseCase \<Rightarrow> Priority \<Rightarrow> string \<rightharpoonup> f64" where
  "dimensionWeights uc pri dm =
     (if dm \<in> set (map fst DimensionBenchmarks)
      then let primary = dm \<in> set (PrimaryDimensions uc)
           in Some (priority_weight pri primary (if primary then Fin 1 else Fin (1 / 4)))
      else None)"

record CapabilityScore =
  cs_ModelID :: int
  cs_Dimension :: string
  cs_Score :: "f64 option"
  cs_Confidence :: string
  cs_BenchmarkCount :: int
  cs_Freshness :: string

definition scoreByDim :: "CapabilityScore list \<Rightarrow> string \<rightharpoonup> f64" where
  "scoreByDim capScores =
     foldl (\<lambda>m cs. case cs_Score cs of Some x \<Rightarrow> m(cs_Dimension cs \<mapsto> x) | None \<Rightarrow> m)
       Map.empty capScores"

definition score_step ::
  "(string \<rightharpoonup> f64) \<Rightarrow> (string \<rightharpoonup> f64) \<Rightarrow> f64 \<times> f64 \<Rightarrow> string \<Rightarrow> f64 \<times> f64" where
  "score_step weights scores st dm =
     (case (weights dm, scores dm) of
        (Some w, Some x) \<Rightarrow> (f64_add (fst st) (f64_mul x w), f64_add (snd st) w)
      | _ \<Rightarrow> st)"

text \<open>\<open>dims\<close> is the order in which the run ranges over the weights.\<close>

definition weighted_sums :: "string list \<Rightarrow> UseCase \<Rightarrow> Priority \<Rightarrow> CapabilityScore list \<Rightarrow> f64 \<times> f64" where
  "weighted_sums dims uc pri capScores =
     foldl (score_step (dimensionWeights uc pri) (scoreByDim capScores)) (Fin 0, Fin 0) dims"

definition ScoreModel :: "string list \<Rightarrow> UseCase \<Rightarrow> Priority \<Rightarrow> CapabilityScore list \<Rightarrow> f64" where
  "ScoreModel dims uc pri capScores =
     (if capScores = [] then Fin 0
      else let (weightedSum, totalWeight) = weighted_sums dims uc pri capScores in
        if f64_eq totalWeight (Fin 0) then Fin 0
        else f64_min (Fin 100) (f64_max (Fin 0) (f64_div weightedSum totalWeight)))"

section \<open>Weighted means in binary64\<close>

text \<open>
  Every weight of the program is a small number of eighths. Then the sum of the weights is
  exact and the rounded weighted sum of scores between 0 and 100 stays below its bound, so that the
  quotient is between 0 and 100, too.
\<close>

definition in_range :: "f64 \<Rightarrow> bool" where
  "in_range x = (f64_le (Fin 0) x \<and> f64_le x (Fin 100))"

definition eighths :: "f64 \<Rightarrow> bool" where
  "eighths w = (\<exists>k. w = Fin (of_int k / 8) \<and> 1 \<le> k \<and> k \<le> 16)"

definition mean_inv :: "nat \<Rightarrow> f64 \<times> f64 \<Rightarrow> bool" where
  "mean_inv n st = (\<exists>K r. snd st = Fin (of_int K / 8) \<and> int n \<le> K \<and> K \<le> 16 * int n \<and>
     fst st = Fin r \<and> 0 \<le> r \<and> r \<le> 100 * (of_int K / 8))"

lemma f64_between: "f64_le (Fin a) x \<Longrightarrow> f64_le x (Fin b) \<Longrightarrow> \<exists>r. x = Fin r \<and> a \<le> r \<and> r \<le> b"
  by (cases x) (auto simp: f64_le_def f64_eq_def)

lemma round64_between:
  assumes "0 \<le> x" "x \<le> of_int p / 8" "\<bar>p\<bar> < 2 ^ 53"
  shows "\<exists>r. round64 x = Fin r \<and> 0 \<le> r \<and> r \<le> of_int p / 8"
proof -
  have "round64 (of_int p / 8) = Fin (of_int p / 8)"
    using round64_dyadic [OF assms(3), of 3] by simp
  then have "f64_le (round64 x) (Fin (of_int p / 8))" using round64_mono [OF assms(2)] by simp
  with round64_nonneg [OF assms(1)] show ?thesis by (rule f64_between)
qed

lemma mean_inv_start: "mean_inv 0 (Fin 0, Fin 0)"
  by (auto simp: mean_inv_def)

lemma mean_inv_step:
  assumes "mean_inv n (s, t)" "in_range x" "eighths w" "n < 1000000"
  shows "mean_inv (Suc n) (f64_add s (f64_mul x w), f64_add t w)"
proof -
  obtain K r where K: "t = Fin (of_int K / 8)" "int n \<le> K" "K \<le> 16 * int n"
    "s = Fin r" "0 \<le> r" "r \<le> 100 * (of_int K / 8)"
    using assms(1) by (auto simp: mean_inv_def)
  obtain k where k: "w = Fin (of_int k / 8)" "1 \<le> k" "k \<le> 16"
    using assms(3) by (auto simp: eighths_def)
  obtain v where v: "x = Fin v" "0 \<le> v" "v \<le> 100"
    using assms(2) f64_between unfolding in_range_def by blast
  have "v * (of_int k / 8) \<le> 100 * (of_int k / 8)"
    using v(3) k(2) by (intro mult_right_mono) simp_all
  then have le1: "v * (of_int k / 8) \<le> of_int (100 * k) / 8" by simp
  have ge1: "0 \<le> v * (of_int k / 8)" using v(2) k(2) by simp
  obtain y where y: "round64 (v * (of_int k / 8)) = Fin y" "0 \<le> y" "y \<le> of_int (100 * k) / 8"
    using round64_between [OF ge1 le1] k by auto
  have mul: "f64_mul x w = Fin y" using v(1) k(1) y(1) by (simp add: f64_mul_def)
  have "r + y \<le> of_int (100 * (K + k)) / 8"
    using K(6) y(3) by (simp add: add_divide_distrib distrib_left)
  moreover have "\<bar>100 * (K + k)\<bar> < 2 ^ 53" using K(2,3) k assms(4) by simp
  ultimately obtain z where z: "round64 (r + y) = Fin z" "0 \<le> z" "z \<le> of_int (100 * (K + k)) / 8"
    using round64_between [of "r + y" "100 * (K + k)"] K(5) y(2) by auto
  have sum: "f64_add s (f64_mul x w) = Fin z" using mul K(4) z(1) by (simp add: f64_add_def)
  have "round64 (of_int (K + k) / 2 ^ 3) = Fin (of_int (K + k) / 2 ^ 3)"
    using K(2,3) k assms(4) by (intro round64_dyadic) simp_all
  then have tot: "f64_add t w = Fin (of_int (K + k) / 8)"
    using K(1) k(1) by (simp add: f64_add_def add_divide_distrib)
  show ?thesis
    using sum tot K(2,3) k z(2,3) unfolding mean_inv_def
    by (intro exI [of _ "K + k"] exI [of _ z]) auto
qed

lemma mean_in_range:
  assumes "mean_inv n (s, t)" "0 < n"
  shows "in_range (f64_div s t) \<and> \<not> f64_eq t (Fin 0)"
proof -
  obtain K r where K: "t = Fin (of_int K / 8)" "int n \<le> K" "s = Fin r" "0 \<le> r"
    "r \<le> 100 * (of_int K / 8)"
    using assms(1) by (auto simp: mean_inv_def)
  have pos: "(0::rat) < of_int K / 8" using K(2) assms(2) by simp
  have "r / (of_int K / 8) \<le> of_int 800 / 8" "0 \<le> r / (of_int K / 8)"
    using K(4,5) pos by (simp_all add: pos_divide_le_eq mult.commute)
  then obtain q where "round64 (r / (of_int K / 8)) = Fin q" "0 \<le> q" "q \<le> of_int 800 / 8"
    using round64_between [of "r / (of_int K / 8)" 800] by auto
  then show ?thesis
    using K(1,3) pos by (auto simp: f64_div_def in_range_def f64_eq_def)
qed

section \<open>Facts about the aggregation\<close>

lemma eighths_table:
  assumes "(d, ws) \<in> set DimensionBenchmarks" "bw \<in> set ws"
  shows "eighths (snd bw)"
proof -
  have one: "eighths (Fin 1)" unfolding eighths_def by (intro exI [of _ 8]) simp
  have half: "eighths (Fin (1 / 2))" unfolding eighths_def by (intro exI [of _ 4]) simp
  have "snd bw = Fin 1 \<or> snd bw = Fin (1 / 2)"
    using assms by (auto simp: DimensionBenchmarks_def)
  then show ?thesis using one half by auto
qed

lemma agg_mean:
  assumes "\<And>b e. scores b = Some e \<Longrightarrow> in_range (se_Normalized e)"
    and "\<And>bw. bw \<in> set weights \<Longrightarrow> eighths (snd bw)"
    and "mean_inv (ag_count st) (ag_sum st, ag_total st)" "ag_count st + length weights < 1000000"
  shows "mean_inv (ag_count (foldl (agg_step scores) st weights))
    (ag_sum (foldl (agg_step scores) st weights), ag_total (foldl (agg_step scores) st weights))"
  using assms(2-)
proof (induction weights arbitrary: st)
  case (Cons bw weights)
  let ?st = "agg_step scores st bw"
  have "mean_inv (ag_count ?st) (ag_sum ?st, ag_total ?st) \<and> ag_count ?st \<le> Suc (ag_count st)"
  proof (cases "scores (fst bw)")
    case None
    then show ?thesis using Cons.prems(2) by (simp add: agg_step_def)
  next
    case (Some e)
    then show ?thesis
      using mean_inv_step [OF Cons.prems(2) assms(1) [OF Some] Cons.prems(1) [of bw]] Cons.prems(3)
      by (simp add: agg_step_def)
  qed
  then have "mean_inv (ag_count (foldl (agg_step scores) ?st weights))
    (ag_sum (foldl (agg_step scores) ?st weights), ag_total (foldl (agg_step scores) ?st weights))"
    using Cons.prems by (intro Cons.IH) auto
  then show ?case by simp
qed simp

definition used :: "(string \<rightharpoonup> scoreEntry) \<Rightarrow> (string \<times> f64) list \<Rightarrow> scoreEntry list" where
  "used scores weights = List.map_filter (\<lambda>bw. scores (fst bw)) weights"

definition conf_rank :: "string \<Rightarrow> nat" where
  "conf_rank c = snd (normalize_confidence c)"

lemma conf_rank_lower: "conf_rank (lowerConfidence a b) = min (conf_rank a) (conf_rank b)"
  by (auto simp: conf_rank_def lowerConfidence_def normalize_confidence_def Let_def)

lemma agg_evidence:
  "conf_rank (ag_evidence (foldl (agg_step scores) st weights)) =
    fold (\<lambda>e m. min m (conf_rank (se_Confidence e))) (used scores weights) (conf_rank (ag_evidence st)) \<and>
   ag_count (foldl (agg_step scores) st weights) = ag_count st + length (used scores weights)"
  by (induction weights arbitrary: st)
    (auto simp: used_def agg_step_def conf_rank_lower map_filter_simps split: option.split)

lemma agg_oldest:
  assumes "\<forall>e \<in> set (used scores weights). se_EvaluatedAt e \<noteq> zero_time"
  shows "ag_oldest (foldl (agg_step scores) st weights) =
    (if used scores weights = [] then ag_oldest st
     else let m = Min (se_EvaluatedAt ` set (used scores weights))
          in if ag_oldest st = zero_time then m else min (ag_oldest st) m)"
  using assms
proof (induction weights arbitrary: st)
  case (Cons bw weights)
  show ?case
  proof (cases "scores (fst bw)")
    case None
    then show ?thesis using Cons by (simp add: used_def agg_step_def map_filter_simps)
  next
    case (Some e)
    have u: "used scores (bw # weights) = e # used scores weights"
      using Some by (simp add: used_def map_filter_simps)
    have ne: "se_EvaluatedAt e \<noteq> zero_time" using Cons.prems u by simp
    let ?st = "agg_step scores st bw"
    have o: "ag_oldest ?st = (if ag_oldest st = zero_time then se_EvaluatedAt e
        else min (ag_oldest st) (se_EvaluatedAt e))"
      using Some by (auto simp: agg_step_def)
    have IH: "ag_oldest (foldl (agg_step scores) ?st weights) =
      (if used scores weights = [] then ag_oldest ?st
       else let m = Min (se_EvaluatedAt ` set (used scores weights))
            in if ag_oldest ?st = zero_time then m else min (ag_oldest ?st) m)"
      using Cons u by simp
    show ?thesis
    proof (cases "ag_oldest st = zero_time \<or> ag_oldest ?st \<noteq> zero_time")
      case True
      then have "ag_oldest ?st \<noteq> zero_time" using o ne by auto
      then show ?thesis
        using IH o u by (cases "used scores weights = []") (auto simp: Let_def min.assoc)
    next
      case False
      then show ?thesis using o ne by (auto simp: min_def split: if_splits)
    qed
  qed
qed (simp add: used_def)

lemma fold_min_le:
  "fold (\<lambda>e m. min m (h e)) xs m \<le> m \<and> (\<forall>e \<in> set xs. fold (\<lambda>e m. min m (h e)) xs m \<le> (h e :: nat))"
proof (induction xs arbitrary: m)
  case (Cons x xs)
  from Cons.IH [of "min m (h x)"] show ?case by simp
qed simp

section \<open>Properties\<close>

lemma Aggregate_range:
  assumes "(dimension, ws) \<in> set DimensionBenchmarks" and "mset weights = mset ws"
    and "\<forall>b e. scores b = Some e \<longrightarrow> in_range (se_Normalized e)"
  shows "case Aggregate dimension weights scores now of
      None \<Rightarrow> used scores weights = []
    | Some r \<Rightarrow> in_range (ar_Score r) \<and> ar_Dimension r = dimension \<and>
        ar_BenchmarkCount r = int (length (used scores weights)) \<and> used scores weights \<noteq> []"
proof -
  let ?st = "foldl (agg_step scores) agg_start weights"
  have len: "length weights \<le> 3"
    using mset_eq_length [OF assms(2)] assms(1) by (auto simp: DimensionBenchmarks_def)
  have "mean_inv (ag_count ?st) (ag_sum ?st, ag_total ?st)"
  proof (rule agg_mean)
    show "in_range (se_Normalized e)" if "scores b = Some e" for b e using assms(3) that by blast
    show "eighths (snd bw)" if "bw \<in> set weights" for bw
      using eighths_table [OF assms(1)] that mset_eq_setD [OF assms(2)] by simp
  qed (use len mean_inv_start in \<open>simp_all add: agg_start_def\<close>)
  moreover have "ag_count ?st = length (used scores weights)"
    using agg_evidence [of scores agg_start weights] by (simp add: agg_start_def)
  ultimately show ?thesis
    using mean_in_range [of "ag_count ?st"] by (auto simp: Aggregate_def Let_def)
qed

text \<open>
  C12. The aggregate of a dimension of the table is a score between 0 and 100 whenever the evidence is,
  in every order of the map and after all roundings, so that the \<open>CHECK\<close> of the capability table
  accepts it; it exists exactly when some benchmark of the dimension has evidence, and it counts these
  benchmarks.
\<close>

theorem Aggregate_in_range:
  assumes "(dimension, ws) \<in> set DimensionBenchmarks" and "mset weights = mset ws"
    and "\<forall>b e. scores b = Some e \<longrightarrow> in_range (se_Normalized e)"
  shows "case Aggregate dimension weights scores now of
      None \<Rightarrow> used scores weights = []
    | Some r \<Rightarrow> in_range (ar_Score r) \<and> ar_Dimension r = dimension \<and>
        ar_BenchmarkCount r = int (length (used scores weights)) \<and> used scores weights \<noteq> []"
  using assms by (rule Aggregate_range)

definition demo_scores :: "string \<rightharpoonup> scoreEntry" where
  "demo_scores = [''GPQA Diamond'' \<mapsto> \<lparr> se_Normalized = Fin 60, se_EvaluatedAt = 5, se_Confidence = ''high'' \<rparr>,
     ''MATH-500'' \<mapsto> \<lparr> se_Normalized = Fin 90, se_EvaluatedAt = 7, se_Confidence = ''low'' \<rparr>]"

theorem Aggregate_in_range_witness:
  "\<exists>r. Aggregate ''reasoning'' [(''AIME 2025'', Fin 1), (''GPQA Diamond'', Fin 1), (''MATH-500'', Fin 1)]
      demo_scores 9 = Some r \<and> in_range (ar_Score r) \<and> ar_Score r = Fin 75"
proof -
  let ?w = "[(''AIME 2025'', Fin 1), (''GPQA Diamond'', Fin 1), (''MATH-500'', Fin 1)]"
  have t: "(''reasoning'', [(''GPQA Diamond'', Fin 1), (''MATH-500'', Fin 1), (''AIME 2025'', Fin 1)])
      \<in> set DimensionBenchmarks"
    by (simp add: DimensionBenchmarks_def)
  have s: "\<forall>b e. demo_scores b = Some e \<longrightarrow> in_range (se_Normalized e)"
    by (auto simp: demo_scores_def in_range_def)
  have "map_option ar_Score (Aggregate ''reasoning'' ?w demo_scores 9) = Some (Fin 75)"
    by code_simp
  then obtain r where r: "Aggregate ''reasoning'' ?w demo_scores 9 = Some r" "ar_Score r = Fin 75"
    by auto
  have "mset ?w = mset [(''GPQA Diamond'', Fin 1), (''MATH-500'', Fin 1), (''AIME 2025'', Fin 1)]" by simp
  from Aggregate_in_range [OF t this s, of 9] r show ?thesis by auto
qed

text \<open>
  What a capability score says about its trust: its confidence ranks no higher than the confidence of
  any piece of evidence it uses, it is high only if every benchmark of the dimension has evidence,
  and medium only with two; it is fresh exactly when all of its evidence is at most 90 days old.
\<close>

theorem Aggregate_trust:
  assumes "Aggregate dimension weights scores now = Some r" and "length weights < 1000000"
    and "\<forall>e \<in> set (used scores weights). se_EvaluatedAt e \<noteq> zero_time"
  shows "(\<forall>e \<in> set (used scores weights). conf_rank (ar_Confidence r) \<le> conf_rank (se_Confidence e)) \<and>
    (conf_rank (ar_Confidence r) = 2 \<longrightarrow> length (used scores weights) = length weights) \<and>
    (conf_rank (ar_Confidence r) = 1 \<longrightarrow>
       2 \<le> length (used scores weights) \<or> length (used scores weights) = length weights) \<and>
    (ar_Freshness r = ''fresh'' \<longleftrightarrow>
      (\<forall>e \<in> set (used scores weights). now - se_EvaluatedAt e \<le> 90 * 24 * hour))"
proof -
  let ?st = "foldl (agg_step scores) agg_start weights" and ?u = "used scores weights"
  have cnt: "ag_count ?st = length ?u"
    using agg_evidence [of scores agg_start weights] by (simp add: agg_start_def)
  have le: "length ?u \<le> length weights"
    by (induction weights) (auto simp: used_def map_filter_simps split: option.split)
  have ne: "?u \<noteq> []" using assms(1) cnt by (auto simp: Aggregate_def Let_def split: if_splits)
  define cov where "cov = (if f64_le (f64_of_int (int (length weights))) (f64_of_int (int (ag_count ?st)))
      then ''high'' else if 2 \<le> ag_count ?st then ''medium'' else ''low'')"
  have r: "ar_Confidence r = lowerConfidence cov (ag_evidence ?st)"
    "ar_Freshness r = (if ag_oldest ?st \<noteq> zero_time \<and> 90 * 24 * hour < now - ag_oldest ?st
       then ''stale'' else ''fresh'')"
    using assms(1) by (auto simp: Aggregate_def Let_def cov_def StalenessThresholdDays_def split: if_splits)
  have conv: "f64_of_int (int n) = Fin (of_int (int n))" if "n \<le> length weights" for n
    using that assms(2) by (intro f64_of_int_exact) simp
  have cov: "cov = (if length ?u = length weights then ''high'' else if 2 \<le> length ?u then ''medium'' else ''low'')"
    using conv [of "length weights"] conv [OF le] le by (auto simp: cov_def cnt)
  have rank: "conf_rank (ar_Confidence r) = min (conf_rank cov)
      (fold (\<lambda>e m. min m (conf_rank (se_Confidence e))) ?u (conf_rank ''high''))"
    using agg_evidence [of scores agg_start weights] by (simp add: r conf_rank_lower agg_start_def)
  note low = fold_min_le [of "\<lambda>e. conf_rank (se_Confidence e)" ?u "conf_rank ''high''"]
  have old: "ag_oldest ?st = Min (se_EvaluatedAt ` set ?u)"
    using agg_oldest [OF assms(3), of agg_start] ne by (simp add: agg_start_def Let_def)
  have "Min (se_EvaluatedAt ` set ?u) \<in> se_EvaluatedAt ` set ?u" using ne by (intro Min_in) auto
  then have nz: "Min (se_EvaluatedAt ` set ?u) \<noteq> zero_time" using assms(3) by auto
  have "Min (se_EvaluatedAt ` set ?u) \<ge> now - 90 * 24 * hour \<longleftrightarrow>
      (\<forall>e \<in> set ?u. se_EvaluatedAt e \<ge> now - 90 * 24 * hour)"
    using ne by (subst Min_ge_iff) auto
  then have fresh: "ar_Freshness r = ''fresh'' \<longleftrightarrow>
      (\<forall>e \<in> set ?u. now - se_EvaluatedAt e \<le> 90 * 24 * hour)"
    using r(2) old nz by (auto simp: not_less algebra_simps)
  have "\<forall>e \<in> set ?u. conf_rank (ar_Confidence r) \<le> conf_rank (se_Confidence e)"
    using rank low by (metis min.coboundedI2)
  moreover have "conf_rank (ar_Confidence r) \<le> conf_rank cov" using rank by simp
  moreover have "conf_rank cov = 2 \<longleftrightarrow> length ?u = length weights"
    "conf_rank cov = 0 \<longleftrightarrow> length ?u \<noteq> length weights \<and> \<not> 2 \<le> length ?u"
    "conf_rank cov \<le> 2"
    by (auto simp: cov conf_rank_def normalize_confidence_def)
  ultimately show ?thesis using fresh by (metis le_0_eq le_antisym not_one_le_zero)
qed

theorem Aggregate_trust_witness:
  "\<exists>r. Aggregate ''reasoning'' [(''AIME 2025'', Fin 1), (''GPQA Diamond'', Fin 1), (''MATH-500'', Fin 1)]
      demo_scores 9 = Some r \<and> conf_rank (ar_Confidence r) \<le> 0 \<and> ar_Freshness r = ''fresh''"
proof -
  let ?w = "[(''AIME 2025'', Fin 1), (''GPQA Diamond'', Fin 1), (''MATH-500'', Fin 1)]"
  have u: "used demo_scores ?w =
      [\<lparr> se_Normalized = Fin 60, se_EvaluatedAt = 5, se_Confidence = ''high'' \<rparr>,
       \<lparr> se_Normalized = Fin 90, se_EvaluatedAt = 7, se_Confidence = ''low'' \<rparr>]"
    by (simp add: used_def demo_scores_def map_filter_simps)
  have "Aggregate ''reasoning'' ?w demo_scores 9 \<noteq> None"
    by code_simp
  then obtain r where r: "Aggregate ''reasoning'' ?w demo_scores 9 = Some r" by auto
  have "\<forall>e \<in> set (used demo_scores ?w). se_EvaluatedAt e \<noteq> zero_time"
    unfolding u by (simp add: zero_time_def second_def)
  from Aggregate_trust [OF r _ this] show ?thesis
    unfolding u using r by (auto simp: conf_rank_def normalize_confidence_def hour_def minute_def second_def)
qed

lemma weights_eighths:
  assumes "dimensionWeights uc pri dm = Some w"
  shows "eighths w"
proof -
  have e: "eighths (Fin (of_int k / 8))" if "1 \<le> k" "k \<le> 16" for k
    using that by (auto simp: eighths_def)
  have v: "f64_mul (Fin 1) (Fin 2) = Fin (of_int 16 / 8)"
    "f64_mul (Fin 1) (Fin (3 / 4)) = Fin (of_int 6 / 8)"
    "f64_mul (Fin 1) (Fin (1 / 2)) = Fin (of_int 4 / 8)"
    "f64_mul (Fin (1 / 4)) (Fin (1 / 2)) = Fin (of_int 1 / 8)"
    "Fin 1 = Fin (of_int 8 / 8)" "Fin (1 / 4) = Fin (of_int 2 / 8)"
    by code_simp+
  have "w \<in> {f64_mul (Fin 1) (Fin 2), f64_mul (Fin 1) (Fin (3 / 4)), f64_mul (Fin 1) (Fin (1 / 2)),
      f64_mul (Fin (1 / 4)) (Fin (1 / 2)), Fin 1, Fin (1 / 4)}"
    using assms by (auto simp: dimensionWeights_def priority_weight_def Let_def
        split: if_splits Priority.splits)
  then show ?thesis unfolding v(1-4) using e [of 16] e [of 6] e [of 4] e [of 1] e [of 8] e [of 2] by auto
qed

lemma score_fold:
  assumes "\<And>dm x. scores dm = Some x \<Longrightarrow> in_range x" "\<And>dm w. weights dm = Some w \<Longrightarrow> eighths w"
    and "mean_inv n st" "n + length dims < 1000000"
  shows "\<exists>n'. mean_inv n' (foldl (score_step weights scores) st dims) \<and> n \<le> n' \<and>
    (n' = n \<longleftrightarrow> (\<forall>dm \<in> set dims. weights dm = None \<or> scores dm = None)) \<and>
    (n' = n \<longrightarrow> foldl (score_step weights scores) st dims = st)"
  using assms(3,4)
proof (induction dims arbitrary: n st)
  case (Cons dm dims)
  show ?case
  proof (cases "weights dm = None \<or> scores dm = None")
    case True
    then have "score_step weights scores st dm = st" by (auto simp: score_step_def split: option.split)
    then show ?thesis using Cons.IH [OF Cons.prems(1)] Cons.prems(2) True by simp
  next
    case False
    then obtain w x where wx: "weights dm = Some w" "scores dm = Some x" by auto
    have "mean_inv (Suc n) (score_step weights scores st dm)"
      using mean_inv_step [of n "fst st" "snd st" x w] Cons.prems wx assms(1,2)
      by (simp add: score_step_def)
    from Cons.IH [OF this] obtain n' where
      "mean_inv n' (foldl (score_step weights scores) (score_step weights scores st dm) dims)" "Suc n \<le> n'"
      using Cons.prems(2) by auto
    then show ?thesis using wx by (intro exI [of _ n']) auto
  qed
qed auto

lemma scoreByDim_range:
  assumes "\<forall>cs \<in> set capScores. \<forall>x. cs_Score cs = Some x \<longrightarrow> in_range x"
  shows "scoreByDim capScores dm = Some x \<Longrightarrow> in_range x"
proof -
  have "\<forall>dm x. foldl (\<lambda>m cs. case cs_Score cs of Some x \<Rightarrow> m(cs_Dimension cs \<mapsto> x) | None \<Rightarrow> m)
       Map.empty capScores dm = Some x \<longrightarrow> in_range x"
    using assms by (induction capScores rule: rev_induct) (auto split: option.splits)
  then show "scoreByDim capScores dm = Some x \<Longrightarrow> in_range x" by (simp add: scoreByDim_def)
qed

text \<open>
  The composite score needs no clamp: whatever the use case, the priority and the order of the map, the
  weighted mean of scores between 0 and 100 is between 0 and 100 before \<open>math.Min\<close> and \<open>math.Max\<close>
  are applied, and the division is never by zero.
\<close>

theorem ScoreModel_clamp_redundant:
  assumes "\<forall>cs \<in> set capScores. \<forall>x. cs_Score cs = Some x \<longrightarrow> in_range x" and "length dims < 1000000"
  shows "in_range (ScoreModel dims uc pri capScores) \<and>
    ScoreModel dims uc pri capScores =
      (if \<forall>dm \<in> set dims. dimensionWeights uc pri dm = None \<or> scoreByDim capScores dm = None then Fin 0
       else f64_div (fst (weighted_sums dims uc pri capScores)) (snd (weighted_sums dims uc pri capScores)))"
proof -
  obtain s t where st: "weighted_sums dims uc pri capScores = (s, t)" by fastforce
  have ex: "\<exists>n. mean_inv n (s, t) \<and>
    (n = 0 \<longleftrightarrow> (\<forall>dm \<in> set dims. dimensionWeights uc pri dm = None \<or> scoreByDim capScores dm = None)) \<and>
    (n = 0 \<longrightarrow> (s, t) = (Fin 0, Fin 0))"
  proof -
    have r: "in_range x" if "scoreByDim capScores dm = Some x" for dm x
      using scoreByDim_range [OF assms(1) that] .
    have w: "eighths w" if "dimensionWeights uc pri dm = Some w" for dm w
      using weights_eighths [OF that] .
    have "\<exists>n'. mean_inv n' (weighted_sums dims uc pri capScores) \<and> 0 \<le> n' \<and>
      (n' = 0 \<longleftrightarrow> (\<forall>dm \<in> set dims. dimensionWeights uc pri dm = None \<or> scoreByDim capScores dm = None)) \<and>
      (n' = 0 \<longrightarrow> weighted_sums dims uc pri capScores = (Fin 0, Fin 0))"
      unfolding weighted_sums_def
    proof (rule score_fold)
      show "in_range x" if "scoreByDim capScores dm = Some x" for dm x using that by (rule r)
      show "eighths w" if "dimensionWeights uc pri dm = Some w" for dm w using that by (rule w)
      show "mean_inv 0 (Fin 0, Fin 0)" by (rule mean_inv_start)
      show "0 + length dims < 1000000" using assms(2) by simp
    qed
    then show ?thesis unfolding st by (rule ex_forward) (elim conjE, intro conjI; assumption)
  qed
  then obtain n where n: "mean_inv n (s, t)"
    "n = 0 \<longleftrightarrow> (\<forall>dm \<in> set dims. dimensionWeights uc pri dm = None \<or> scoreByDim capScores dm = None)"
    "n = 0 \<longrightarrow> (s, t) = (Fin 0, Fin 0)"
    by (elim exE conjE)
  show ?thesis
  proof (cases "n = 0")
    case True
    then show ?thesis using n st by (auto simp: ScoreModel_def in_range_def f64_eq_def)
  next
    case False
    then obtain d where "scoreByDim capScores d \<noteq> None" using n(2) by auto
    then have ne: "capScores \<noteq> []" by (auto simp: scoreByDim_def)
    have m: "in_range (f64_div s t)" "\<not> f64_eq t (Fin 0)" using mean_in_range [OF n(1)] False by auto
    then obtain q where q: "f64_div s t = Fin q" "0 \<le> q" "q \<le> 100"
      using f64_between unfolding in_range_def by blast
    have "f64_min (Fin 100) (f64_max (Fin 0) (Fin q)) = Fin q"
      using q(2,3) by (auto simp: f64_min_def f64_max_def)
    then show ?thesis using m q False n(2) st ne by (auto simp: ScoreModel_def)
  qed
qed

definition demo_caps :: "CapabilityScore list" where
  "demo_caps = [\<lparr> cs_ModelID = 7, cs_Dimension = ''coding'', cs_Score = Some (Fin 90), cs_Confidence = ''low'',
      cs_BenchmarkCount = 2, cs_Freshness = ''fresh'' \<rparr>,
    \<lparr> cs_ModelID = 7, cs_Dimension = ''video'', cs_Score = Some (Fin 40), cs_Confidence = ''low'',
      cs_BenchmarkCount = 1, cs_Freshness = ''fresh'' \<rparr>]"

theorem ScoreModel_clamp_redundant_witness:
  "in_range (ScoreModel [''video'', ''coding'', ''quality''] UseCaseCoding PriorityBalanced demo_caps) \<and>
   ScoreModel [''video'', ''coding'', ''quality''] UseCaseCoding PriorityBalanced demo_caps = Fin 80"
proof
  have "\<forall>cs \<in> set demo_caps. \<forall>x. cs_Score cs = Some x \<longrightarrow> in_range x"
    by (simp add: demo_caps_def in_range_def)
  from ScoreModel_clamp_redundant [OF this, of "[''video'', ''coding'', ''quality'']" UseCaseCoding PriorityBalanced]
  have "length [''video'', ''coding'', ''quality''] < 1000000 \<Longrightarrow>
    in_range (ScoreModel [''video'', ''coding'', ''quality''] UseCaseCoding PriorityBalanced demo_caps)"
    by (rule conjunct1)
  then show "in_range (ScoreModel [''video'', ''coding'', ''quality''] UseCaseCoding PriorityBalanced demo_caps)"
    by simp
  show "ScoreModel [''video'', ''coding'', ''quality''] UseCaseCoding PriorityBalanced demo_caps = Fin 80"
    by code_simp
qed

text \<open>
  The aggregate of one and the same evidence is not a function of the evidence: for the three
  benchmarks of the reasoning dimension two orders of the map give different scores.
\<close>

theorem Aggregate_order_dependent:
  "\<exists>scores w1 w2. mset w1 = mset w2 \<and> (\<exists>ws. (''reasoning'', ws) \<in> set DimensionBenchmarks \<and> mset ws = mset w1) \<and>
    map_option ar_Score (Aggregate ''reasoning'' w1 scores 0) \<noteq>
    map_option ar_Score (Aggregate ''reasoning'' w2 scores 0)"
proof -
  let ?e = "\<lambda>x. \<lparr> se_Normalized = x, se_EvaluatedAt = 0, se_Confidence = ''high'' \<rparr>"
  let ?s = "[''GPQA Diamond'' \<mapsto> ?e (round64 (207 / 10)), ''MATH-500'' \<mapsto> ?e (round64 (844 / 10)),
    ''AIME 2025'' \<mapsto> ?e (round64 (583 / 10))]"
  let ?a = "(''GPQA Diamond'', Fin 1)" and ?b = "(''MATH-500'', Fin 1)" and ?c = "(''AIME 2025'', Fin 1)"
  have "map_option ar_Score (Aggregate ''reasoning'' [?a, ?b, ?c] ?s 0) \<noteq>
      map_option ar_Score (Aggregate ''reasoning'' [?b, ?c, ?a] ?s 0)"
    by code_simp
  moreover have "(''reasoning'', [?a, ?b, ?c]) \<in> set DimensionBenchmarks"
    by (simp add: DimensionBenchmarks_def)
  moreover have "mset [?a, ?b, ?c] = mset [?b, ?c, ?a]" by simp
  ultimately show ?thesis by blast
qed

end
