(* ===== verification/Selection.thy ===== *)
theory Selection
  imports Prelude "HOL-Library.Product_Lexorder" "HOL-Library.List_Lexorder" "HOL-Library.Char_ord"
begin

text \<open>
  The loop that several components run over a slice: keep, for each key, the best candidate seen
  so far. Wherever the comparison is the order of some rank, what is kept does not depend on the
  order of the slice.
\<close>

definition keep_better ::
  "('a \<Rightarrow> 'a \<Rightarrow> bool) \<Rightarrow> ('a \<Rightarrow> 'k) \<Rightarrow> ('k \<rightharpoonup> 'a) \<Rightarrow> 'a \<Rightarrow> ('k \<rightharpoonup> 'a)" where
  "keep_better better key sel c =
     (case sel (key c) of
        None \<Rightarrow> sel(key c \<mapsto> c)
      | Some current \<Rightarrow> if better c current then sel(key c \<mapsto> c) else sel)"

definition select_best :: "('a \<Rightarrow> 'a \<Rightarrow> bool) \<Rightarrow> ('a \<Rightarrow> 'k) \<Rightarrow> 'a list \<Rightarrow> 'k \<rightharpoonup> 'a" where
  "select_best better key xs = foldl (keep_better better key) Map.empty xs"

lemma select_best_snoc:
  "select_best better key (xs @ [x]) = keep_better better key (select_best better key xs) x"
  by (simp add: select_best_def)

text \<open>
  The comparisons of the code are the orders of ranks, on the values that occur and between
  candidates for the same key.
\<close>

locale ranked_choice =
  fixes better :: "'a \<Rightarrow> 'a \<Rightarrow> bool" and key :: "'a \<Rightarrow> 'k" and rank :: "'a \<Rightarrow> 'r::linorder"
    and ok :: "'a \<Rightarrow> bool"
  assumes better_rank: "ok a \<Longrightarrow> ok b \<Longrightarrow> key a = key b \<Longrightarrow> better a b \<longleftrightarrow> rank a < rank b"
begin

lemma chosen:
  assumes "list_all ok xs" "select_best better key xs k = Some x"
  shows "x \<in> set xs \<and> key x = k \<and> (\<forall>y \<in> set xs. key y = k \<longrightarrow> rank x \<le> rank y)"
  using assms
proof (induction xs arbitrary: x rule: rev_induct)
  case (snoc c xs)
  have ok: "ok c" "list_all ok xs" using snoc.prems(1) by simp_all
  show ?case
  proof (cases "key c = k")
    case False
    then have "select_best better key xs k = Some x"
      using snoc.prems(2) by (auto simp: select_best_snoc keep_better_def split: option.splits if_splits)
    then show ?thesis using snoc.IH [OF ok(2)] False by simp
  next
    case k: True
    show ?thesis
    proof (cases "select_best better key xs k")
      case None
      have "key y \<noteq> k" if "y \<in> set xs" for y
        using None that
      proof (induction xs rule: rev_induct)
        case (snoc d ys)
        then show ?case
          by (auto simp: select_best_snoc keep_better_def split: option.splits if_splits)
      qed simp
      then show ?thesis
        using None snoc.prems(2) k by (auto simp: select_best_snoc keep_better_def)
    next
      case (Some cur)
      note cur = snoc.IH [OF ok(2) Some]
      have "ok cur" using cur ok(2) by (auto simp: list_all_iff)
      then have b: "better c cur \<longleftrightarrow> rank c < rank cur" using ok(1) cur k by (intro better_rank) simp_all
      show ?thesis
        using Some snoc.prems(2) k cur b
        by (auto simp: select_best_snoc keep_better_def split: if_splits)
    qed
  qed
qed (simp add: select_best_def)

lemma chosen_None:
  "select_best better key xs k = None \<longleftrightarrow> (\<forall>y \<in> set xs. key y \<noteq> k)"
proof (induction xs rule: rev_induct)
  case (snoc c xs)
  then show ?case
    by (auto simp: select_best_snoc keep_better_def split: option.splits if_splits)
qed (simp add: select_best_def)

lemma order_irrelevant:
  assumes "list_all ok xs" "set xs = set ys"
  shows "map_option rank (select_best better key xs k) = map_option rank (select_best better key ys k)"
proof -
  have ok: "list_all ok ys" using assms by (simp add: list_all_iff)
  show ?thesis
  proof (cases "select_best better key xs k")
    case None
    then have "select_best better key ys k = None" using assms(2) by (simp add: chosen_None)
    then show ?thesis using None by simp
  next
    case (Some x)
    then obtain y where y: "select_best better key ys k = Some y"
      using assms(2) chosen_None by (metis option.distinct(1) option.exhaust)
    then have "rank x = rank y"
      using chosen [OF assms(1) Some] chosen [OF ok y] assms(2) by (auto intro: antisym)
    then show ?thesis using Some y by simp
  qed
qed

end

end
