(* ===== verification/Intelligence_Store.thy ===== *)
theory Intelligence_Store
  imports Price_Tables Capability_Scores Selection
begin

text \<open>
  The stores and the recomputation of \<open>internal/intelligence\<close> over the benchmark tables:
  \<open>benchmark_store.go\<close>, \<open>capability_store.go\<close>, \<open>lookup.go\<close> and the database part of
  \<open>aggregator.go\<close>. A \<open>NUMERIC\<close> column without a scale keeps a float as it is.
\<close>

section \<open>lookup.go\<close>

definition LookupBenchmarkID :: "string \<Rightarrow> string db" where
  "LookupBenchmarkID name =
     select1 (\<lambda>t. map bm_id (filter (\<lambda>b. to_lower (bm_name b) = to_lower name) (t_benchmarks t)))"

definition LookupModelIDBySlug :: "string \<Rightarrow> int db" where
  "LookupModelIDBySlug slug =
     select1 (\<lambda>t. map mr_id (filter (\<lambda>m. mr_slug m = slug) (t_models t)))"

definition LookupBenchmarkByName :: "string \<Rightarrow> (string \<times> string) db" where
  "LookupBenchmarkByName name =
     select1 (\<lambda>t. map (\<lambda>b. (bm_id b, bm_name b))
       (filter (\<lambda>b. to_lower (bm_name b) = to_lower name) (t_benchmarks t)))"

section \<open>benchmark_store.go\<close>

text \<open>\<open>BenchmarkScore\<close> has the columns of the row; the database fills the key and \<open>ingested_at\<close>.\<close>

definition confidence_check :: "string \<Rightarrow> bool" where
  "confidence_check c = (c \<in> {''high'', ''medium'', ''low''})"

definition score_check :: "f64 option \<Rightarrow> bool" where
  "score_check s = (case s of None \<Rightarrow> True | Some x \<Rightarrow> in_range x)"

definition same_evidence :: "score_row \<Rightarrow> score_row \<Rightarrow> bool" where
  "same_evidence a b = (sr_model_id a = sr_model_id b \<and> sr_benchmark_id a = sr_benchmark_id b \<and>
     sr_benchmark_version a = sr_benchmark_version b)"

definition upsert_score :: "score_row \<Rightarrow> tables \<Rightarrow> db_error + (unit \<times> tables)" where
  "upsert_score s t =
     (if \<not> score_check (sr_normalized_score s) \<or> \<not> confidence_check (sr_confidence s)
      then Inl DbConstraint
      else if \<exists>r \<in> set (t_scores t). same_evidence r s
      then Inr ((), t\<lparr> t_scores := map (\<lambda>r. if same_evidence r s
             then r\<lparr> sr_last_observed_at := max (sr_last_observed_at r) (sr_last_observed_at s) \<rparr>
             else r) (t_scores t) \<rparr>)
      else if \<not> has_model t (sr_model_id s) \<or> sr_benchmark_id s \<notin> set (map bm_id (t_benchmarks t))
      then Inl DbConstraint
      else Inr ((), t\<lparr> t_scores := t_scores t @ [s] \<rparr>))"

definition UpsertBenchmarkScore :: "score_row \<Rightarrow> unit db" where
  "UpsertBenchmarkScore s db =
     stmt (upsert_score (s\<lparr> sr_id := pg_uuid db (pg_count db),
                            sr_ingested_at := pg_now db (pg_count db) \<rparr>)) db"

definition desc_nulls_last :: "f64 option \<Rightarrow> f64 option \<Rightarrow> bool" where
  "desc_nulls_last x y = (case (x, y) of
     (Some a, Some b) \<Rightarrow> f64_lt b a | (Some a, None) \<Rightarrow> True | (None, _) \<Rightarrow> False)"

definition asc_nulls_last :: "string option \<Rightarrow> string option \<Rightarrow> bool" where
  "asc_nulls_last x y = (case (x, y) of
     (Some a, Some b) \<Rightarrow> a < b | (Some a, None) \<Rightarrow> True | (None, _) \<Rightarrow> False)"

text \<open>The \<open>ORDER BY\<close> after the benchmark: the row that \<open>DISTINCT ON\<close> keeps comes first.\<close>

definition score_before :: "score_row \<Rightarrow> score_row \<Rightarrow> bool" where
  "score_before a b =
     (if sr_last_observed_at a \<noteq> sr_last_observed_at b
      then sr_last_observed_at b < sr_last_observed_at a
      else if sr_evaluated_at a \<noteq> sr_evaluated_at b then sr_evaluated_at b < sr_evaluated_at a
      else if sr_normalized_score a \<noteq> sr_normalized_score b
      then desc_nulls_last (sr_normalized_score a) (sr_normalized_score b)
      else if sr_raw_score a \<noteq> sr_raw_score b then desc_nulls_last (sr_raw_score a) (sr_raw_score b)
      else if sr_source_model_name a \<noteq> sr_source_model_name b
      then asc_nulls_last (sr_source_model_name a) (sr_source_model_name b)
      else if sr_source_entry_name a \<noteq> sr_source_entry_name b
      then asc_nulls_last (sr_source_entry_name a) (sr_source_entry_name b)
      else if sr_source_url a \<noteq> sr_source_url b then sr_source_url a < sr_source_url b
      else if sr_confidence a \<noteq> sr_confidence b then sr_confidence a < sr_confidence b
      else if sr_benchmark_version a \<noteq> sr_benchmark_version b
      then sr_benchmark_version a < sr_benchmark_version b
      else sr_id b < sr_id a)"

definition candidates :: "tables \<Rightarrow> int \<Rightarrow> score_row list" where
  "candidates t modelID =
     filter (\<lambda>r. sr_model_id r = modelID \<and> sr_normalized_score r \<noteq> None) (t_scores t)"

definition active_rows :: "score_row list \<Rightarrow> score_row list" where
  "active_rows rows =
     List.map_filter (select_best score_before sr_benchmark_id rows)
       (sort (remdups (map sr_benchmark_id rows)))"

definition GetActiveBenchmarkScores :: "int \<Rightarrow> score_row list db" where
  "GetActiveBenchmarkScores modelID = select (\<lambda>t. active_rows (candidates t modelID))"

section \<open>capability_store.go\<close>

definition dimension_check :: "string \<Rightarrow> bool" where
  "dimension_check d = (d \<in> {''quality'', ''coding'', ''tool_use'', ''agentic'', ''finance'', ''writing'',
     ''video'', ''reasoning'', ''instruction'', ''structured_output'', ''preference'', ''latency'',
     ''cost_efficiency''})"

definition same_cap :: "int \<Rightarrow> string \<Rightarrow> capability_row \<Rightarrow> bool" where
  "same_cap m d c = (cr_model_id c = m \<and> cr_dimension c = d)"

definition upsert_capability :: "capability_row \<Rightarrow> tables \<Rightarrow> db_error + (unit \<times> tables)" where
  "upsert_capability c t =
     (if \<not> dimension_check (cr_dimension c) \<or> \<not> score_check (cr_score c) \<or>
         \<not> confidence_check (cr_confidence c) \<or> cr_freshness c \<notin> {''fresh'', ''stale''}
      then Inl DbConstraint
      else if \<exists>r \<in> set (t_capabilities t). same_cap (cr_model_id c) (cr_dimension c) r
      then Inr ((), t\<lparr> t_capabilities := map (\<lambda>r.
             if same_cap (cr_model_id c) (cr_dimension c) r
             then r\<lparr> cr_score := cr_score c, cr_confidence := cr_confidence c,
                     cr_benchmark_count := cr_benchmark_count c, cr_freshness := cr_freshness c,
                     cr_computed_at := cr_computed_at c \<rparr>
             else r) (t_capabilities t) \<rparr>)
      else if \<not> has_model t (cr_model_id c) then Inl DbConstraint
      else Inr ((), t\<lparr> t_capabilities := t_capabilities t @ [c] \<rparr>))"

definition UpsertCapabilityScore :: "instant \<Rightarrow> CapabilityScore \<Rightarrow> unit db" where
  "UpsertCapabilityScore begun s db =
     stmt (upsert_capability \<lparr> cr_id = pg_uuid db (pg_count db), cr_model_id = cs_ModelID s,
       cr_dimension = cs_Dimension s, cr_score = cs_Score s, cr_confidence = cs_Confidence s,
       cr_benchmark_count = cs_BenchmarkCount s, cr_freshness = cs_Freshness s,
       cr_computed_at = begun \<rparr>) db"

definition to_CapabilityScore :: "capability_row \<Rightarrow> CapabilityScore" where
  "to_CapabilityScore c = \<lparr> cs_ModelID = cr_model_id c, cs_Dimension = cr_dimension c,
     cs_Score = cr_score c, cs_Confidence = cr_confidence c,
     cs_BenchmarkCount = cr_benchmark_count c, cs_Freshness = cr_freshness c \<rparr>"

definition GetCapabilityScores :: "int \<Rightarrow> CapabilityScore list db" where
  "GetCapabilityScores modelID =
     select (\<lambda>t. map to_CapabilityScore
       (filter (\<lambda>c. cr_model_id c = modelID) (t_capabilities t)))"

section \<open>aggregator.go on the tables\<close>

definition fetchBenchmarksByID :: "(string \<rightharpoonup> string) db" where
  "fetchBenchmarksByID db =
     (case select (\<lambda>t. map (\<lambda>b. (bm_id b, bm_name b)) (t_benchmarks t)) db of
        (Inl e, db') \<Rightarrow> (Inl e, db')
      | (Inr rows, db') \<Rightarrow> (Inr (foldl (\<lambda>m b. m(fst b \<mapsto> snd b)) Map.empty rows), db'))"

definition name_score :: "(string \<rightharpoonup> string) \<Rightarrow> (string \<rightharpoonup> scoreEntry) \<Rightarrow> score_row \<Rightarrow> string \<rightharpoonup> scoreEntry" where
  "name_score benchmarksByID m s =
     (case (sr_normalized_score s, benchmarksByID (sr_benchmark_id s)) of
        (Some x, Some name) \<Rightarrow>
          m(name \<mapsto> \<lparr> se_Normalized = x, se_EvaluatedAt = sr_evaluated_at s,
                      se_Confidence = sr_confidence s \<rparr>)
      | _ \<Rightarrow> m)"

definition scoreByName :: "(string \<rightharpoonup> string) \<Rightarrow> score_row list \<Rightarrow> string \<rightharpoonup> scoreEntry" where
  "scoreByName benchmarksByID rows = foldl (name_score benchmarksByID) Map.empty rows"

text \<open>\<open>order d\<close> is the order in which the run ranges over the weights of dimension \<open>d\<close>.\<close>

fun upsert_dimensions ::
  "(string \<Rightarrow> (string \<times> f64) list) \<Rightarrow> int \<Rightarrow> instant \<Rightarrow> (string \<rightharpoonup> scoreEntry) \<Rightarrow> instant
    \<Rightarrow> string list \<Rightarrow> string list \<Rightarrow> string list db" where
  "upsert_dimensions order modelID begun scores now [] active = db_return active"
| "upsert_dimensions order modelID begun scores now (d # ds) active =
     (case Aggregate d (order d) scores now of
        None \<Rightarrow> upsert_dimensions order modelID begun scores now ds active
      | Some r \<Rightarrow>
          db_bind (UpsertCapabilityScore begun
              \<lparr> cs_ModelID = modelID, cs_Dimension = ar_Dimension r, cs_Score = Some (ar_Score r),
                cs_Confidence = ar_Confidence r, cs_BenchmarkCount = ar_BenchmarkCount r,
                cs_Freshness = ar_Freshness r \<rparr>)
            (\<lambda>_. upsert_dimensions order modelID begun scores now ds (active @ [ar_Dimension r])))"

definition delete_obsolete :: "int \<Rightarrow> string list \<Rightarrow> tables \<Rightarrow> db_error + (unit \<times> tables)" where
  "delete_obsolete modelID active t =
     Inr ((), t\<lparr> t_capabilities := filter (\<lambda>c. \<not> (cr_model_id c = modelID \<and>
        cr_dimension c \<notin> set active)) (t_capabilities t) \<rparr>)"

definition sorted_dimensions :: "string list" where
  "sorted_dimensions = sort (map fst DimensionBenchmarks)"

definition compute_tx ::
  "(string \<Rightarrow> (string \<times> f64) list) \<Rightarrow> int \<Rightarrow> (string \<rightharpoonup> string) \<Rightarrow> instant \<Rightarrow> unit db" where
  "compute_tx order modelID benchmarksByID begun =
     db_bind (stmt (\<lambda>t. Inr ((), t))) (\<lambda>_.
     db_bind (GetActiveBenchmarkScores modelID) (\<lambda>rows.
     db_bind db_time (\<lambda>now.
     db_bind (upsert_dimensions order modelID begun (scoreByName benchmarksByID rows) now
                sorted_dimensions []) (\<lambda>active.
       stmt (delete_obsolete modelID active)))))"

definition computeCapabilityScoresWithBenchmarks ::
  "(string \<Rightarrow> (string \<times> f64) list) \<Rightarrow> int \<Rightarrow> (string \<rightharpoonup> string) \<Rightarrow> unit db" where
  "computeCapabilityScoresWithBenchmarks order modelID benchmarksByID =
     transaction (compute_tx order modelID benchmarksByID)"

definition ComputeCapabilityScores :: "(string \<Rightarrow> (string \<times> f64) list) \<Rightarrow> int \<Rightarrow> unit db" where
  "ComputeCapabilityScores order modelID =
     db_bind fetchBenchmarksByID (computeCapabilityScoresWithBenchmarks order modelID)"

fun compute_models ::
  "(string \<Rightarrow> (string \<times> f64) list) \<Rightarrow> (string \<rightharpoonup> string) \<Rightarrow> int list \<Rightarrow> unit db" where
  "compute_models order benchmarksByID [] = db_return ()"
| "compute_models order benchmarksByID (i # is) =
     db_bind (computeCapabilityScoresWithBenchmarks order i benchmarksByID)
       (\<lambda>_. compute_models order benchmarksByID is)"

text \<open>The rows of the \<open>UNION\<close> come in an order that the database chooses; the one of the tables stands for it.\<close>

definition computeAllCapabilityScores :: "(string \<Rightarrow> (string \<times> f64) list) \<Rightarrow> unit db" where
  "computeAllCapabilityScores order =
     db_bind fetchBenchmarksByID (\<lambda>benchmarksByID.
     db_bind (select (\<lambda>t. remdups (map sr_model_id (t_scores t) @ map cr_model_id (t_capabilities t))))
       (\<lambda>modelIDs. compute_models order benchmarksByID modelIDs))"

datatype recompute_metric = RecomputeDuration | RecomputeFailure | LastRecompute

definition observeRecompute :: "(db_error + unit) \<Rightarrow> recompute_metric list" where
  "observeRecompute res =
     RecomputeDuration # (case res of Inl _ \<Rightarrow> [RecomputeFailure] | Inr _ \<Rightarrow> [LastRecompute])"

definition ComputeAllCapabilityScores ::
  "(string \<Rightarrow> (string \<times> f64) list) \<Rightarrow> pg \<Rightarrow> (db_error + unit) \<times> recompute_metric list \<times> pg" where
  "ComputeAllCapabilityScores order db =
     (let (res, db') = computeAllCapabilityScores order db in (res, observeRecompute res, db'))"

section \<open>The active evidence\<close>

definition desc_rank :: "f64 option \<Rightarrow> int \<times> rat" where
  "desc_rank x = (case x of Some (Fin a) \<Rightarrow> (0, - a) | _ \<Rightarrow> (1, 0))"

definition asc_rank :: "string option \<Rightarrow> int \<times> string" where
  "asc_rank x = (case x of Some a \<Rightarrow> (0, a) | None \<Rightarrow> (1, []))"

type_synonym score_order =
  "int \<times> int \<times> (int \<times> rat) \<times> (int \<times> rat) \<times> (int \<times> string) \<times> (int \<times> string) \<times> string \<times> string \<times> string"

definition score_rank :: "score_row \<Rightarrow> score_order" where
  "score_rank r = (- sr_last_observed_at r, - sr_evaluated_at r, desc_rank (sr_normalized_score r),
     desc_rank (sr_raw_score r), asc_rank (sr_source_model_name r), asc_rank (sr_source_entry_name r),
     sr_source_url r, sr_confidence r, sr_benchmark_version r)"

definition finite_score :: "f64 option \<Rightarrow> bool" where
  "finite_score x = (case x of Some y \<Rightarrow> f64_finite y | None \<Rightarrow> True)"

text \<open>The unique key of the evidence table, and scores that are numbers.\<close>

definition evidence_wf :: "score_row list \<Rightarrow> bool" where
  "evidence_wf rows \<longleftrightarrow>
     distinct (map (\<lambda>r. (sr_model_id r, sr_benchmark_id r, sr_benchmark_version r)) rows) \<and>
     list_all (\<lambda>r. finite_score (sr_normalized_score r) \<and> finite_score (sr_raw_score r)) rows"

lemma desc_rank_lt:
  assumes "finite_score x" "finite_score y" "x \<noteq> y"
  shows "desc_rank x \<noteq> desc_rank y \<and> (desc_rank x < desc_rank y \<longleftrightarrow> desc_nulls_last x y)"
  using assms
  by (cases x; cases y) (auto simp: desc_rank_def desc_nulls_last_def finite_score_def f64_finite_def
      less_prod_def split: f64.split)

lemma asc_rank_lt:
  assumes "x \<noteq> y"
  shows "asc_rank x \<noteq> asc_rank y \<and> (asc_rank x < asc_rank y \<longleftrightarrow> asc_nulls_last x y)"
  using assms by (cases x; cases y) (auto simp: asc_rank_def asc_nulls_last_def less_prod_def)

lemma lex_step: "((a :: 'a::linorder), (b :: 'b::linorder)) < (a', b') \<longleftrightarrow> (if a \<noteq> a' then a < a' else b < b')"
  by (auto simp: less_prod_def)

lemma score_before_rank:
  assumes "finite_score (sr_normalized_score a)" "finite_score (sr_normalized_score b)"
    "finite_score (sr_raw_score a)" "finite_score (sr_raw_score b)"
    and "a = b \<or> sr_benchmark_version a \<noteq> sr_benchmark_version b"
  shows "score_before a b \<longleftrightarrow> score_rank a < score_rank b"
proof (cases "a = b")
  case True
  then show ?thesis by (simp add: score_before_def)
next
  case False
  then have v: "sr_benchmark_version a \<noteq> sr_benchmark_version b" using assms(5) by simp
  have d: "x \<noteq> y \<longleftrightarrow> desc_rank x \<noteq> desc_rank y" "desc_rank x \<noteq> desc_rank y \<Longrightarrow> desc_nulls_last x y \<longleftrightarrow> desc_rank x < desc_rank y"
    if "finite_score x" "finite_score y" for x y
    using desc_rank_lt [OF that] by auto
  have s: "x \<noteq> y \<longleftrightarrow> asc_rank x \<noteq> asc_rank y" "asc_rank x \<noteq> asc_rank y \<Longrightarrow> asc_nulls_last x y \<longleftrightarrow> asc_rank x < asc_rank y" for x y
    using asc_rank_lt [of x y] by auto
  show ?thesis
    unfolding score_before_def score_rank_def lex_step neg_less_iff_less neg_equal_iff_equal
      d(1) [OF assms(1,2)] d(1) [OF assms(3,4)] s(1)
    using v d(2) [OF assms(1,2)] d(2) [OF assms(3,4)] s(2) by auto
qed

interpretation evidence: ranked_choice score_before sr_benchmark_id score_rank
    "\<lambda>r. evidence_wf rows \<and> r \<in> set rows \<and> sr_model_id r = m" for rows m
proof
  fix a b
  assume a: "evidence_wf rows \<and> a \<in> set rows \<and> sr_model_id a = m"
    and b: "evidence_wf rows \<and> b \<in> set rows \<and> sr_model_id b = m"
    and k: "sr_benchmark_id a = sr_benchmark_id b"
  have inj: "inj_on (\<lambda>r. (sr_model_id r, sr_benchmark_id r, sr_benchmark_version r)) (set rows)"
    using a by (simp add: evidence_wf_def distinct_map)
  then have "a = b \<or> sr_benchmark_version a \<noteq> sr_benchmark_version b"
    using a b k by (auto dest: inj_onD)
  then show "score_before a b = (score_rank a < score_rank b)"
    using a b by (intro score_before_rank) (auto simp: evidence_wf_def list_all_iff)
qed

lemma candidates_ok: "evidence_wf (t_scores t) \<Longrightarrow>
    list_all (\<lambda>r. evidence_wf (t_scores t) \<and> r \<in> set (t_scores t) \<and> sr_model_id r = m) (candidates t m)"
  by (simp add: candidates_def list_all_iff)

lemma active_row:
  assumes "evidence_wf (t_scores t)" "r \<in> set (active_rows (candidates t m))"
  shows "r \<in> set (candidates t m) \<and> (\<forall>q \<in> set (candidates t m).
    sr_benchmark_id q = sr_benchmark_id r \<longrightarrow> score_rank r \<le> score_rank q)"
proof -
  obtain b where "select_best score_before sr_benchmark_id (candidates t m) b = Some r"
    using assms(2) by (auto simp: active_rows_def List.map_filter_def)
  from evidence.chosen [OF candidates_ok [OF assms(1)] this] show ?thesis by auto
qed

lemma active_rows_benchmarks:
  "map sr_benchmark_id (active_rows rows) = sort (remdups (map sr_benchmark_id rows))"
proof -
  have sel: "select_best score_before sr_benchmark_id rows b = Some r \<Longrightarrow> sr_benchmark_id r = b" for b r
  proof (induction rows arbitrary: r rule: rev_induct)
    case (snoc c rows)
    then show ?case
      by (auto simp: select_best_snoc keep_better_def split: option.splits if_splits)
  qed (simp add: select_best_def)
  have ex: "\<exists>r. select_best score_before sr_benchmark_id rows b = Some r" if "b \<in> set (map sr_benchmark_id rows)" for b
    using that evidence.chosen_None [of rows b] by fastforce
  have "map sr_benchmark_id (List.map_filter (select_best score_before sr_benchmark_id rows) bs) = bs"
    if "set bs \<subseteq> set (map sr_benchmark_id rows)" for bs
    using that by (induction bs) (use ex sel in \<open>fastforce simp: map_filter_simps\<close>)+
  then show ?thesis by (simp add: active_rows_def del: set_map)
qed

lemma active_rows_perm:
  assumes "evidence_wf (t_scores t)" "mset (t_scores t') = mset (t_scores t)"
  shows "active_rows (candidates t' m) = active_rows (candidates t m)"
proof -
  have mc: "mset (candidates t' m) = mset (candidates t m)"
    using assms(2) by (simp add: candidates_def)
  then have sc: "set (candidates t' m) = set (candidates t m)" by (rule mset_eq_setD)
  note ok = candidates_ok [OF assms(1), of m]
  have ok': "list_all (\<lambda>r. evidence_wf (t_scores t) \<and> r \<in> set (t_scores t) \<and> sr_model_id r = m) (candidates t' m)"
    using ok sc by (simp add: list_all_iff)
  have "select_best score_before sr_benchmark_id (candidates t' m) =
      select_best score_before sr_benchmark_id (candidates t m)"
  proof
    fix b
    let ?s = "select_best score_before sr_benchmark_id (candidates t m) b"
    let ?s' = "select_best score_before sr_benchmark_id (candidates t' m) b"
    have r: "map_option score_rank ?s' = map_option score_rank ?s"
      using evidence.order_irrelevant [OF ok' sc] .
    show "?s' = ?s"
    proof (cases ?s)
      case (Some x)
      then obtain y where y: "?s' = Some y" "score_rank y = score_rank x" using r by auto
      have x: "x \<in> set (candidates t m)" "sr_benchmark_id x = b"
        using evidence.chosen [OF ok Some] by auto
      have y': "y \<in> set (candidates t m)" "sr_benchmark_id y = b"
        using evidence.chosen [OF ok' y(1)] sc by auto
      have "sr_benchmark_version y = sr_benchmark_version x" using y(2) by (simp add: score_rank_def)
      moreover have "inj_on (\<lambda>r. (sr_model_id r, sr_benchmark_id r, sr_benchmark_version r)) (set (t_scores t))"
        using assms(1) by (simp add: evidence_wf_def distinct_map)
      ultimately have "y = x"
        using x y' by (auto simp: candidates_def dest: inj_onD)
      then show ?thesis using Some y by simp
    qed (use r in simp)
  qed
  moreover have "sort (remdups (map sr_benchmark_id (candidates t' m))) =
      sort (remdups (map sr_benchmark_id (candidates t m)))"
    using sc by (intro sorted_distinct_set_unique) simp_all
  ultimately show ?thesis by (simp add: active_rows_def)
qed

section \<open>Recomputation replaces the rows of a model\<close>

type_synonym cap_view = "int \<times> string \<rightharpoonup> f64 option \<times> string \<times> int \<times> string"

definition cap_view :: "tables \<Rightarrow> cap_view" where
  "cap_view t = map_of (map (\<lambda>c. ((cr_model_id c, cr_dimension c),
     (cr_score c, cr_confidence c, cr_benchmark_count c, cr_freshness c))) (t_capabilities t))"

definition result_view :: "AggregatedResult \<Rightarrow> f64 option \<times> string \<times> int \<times> string" where
  "result_view r = (Some (ar_Score r), ar_Confidence r, ar_BenchmarkCount r, ar_Freshness r)"

definition caps_only :: "tables \<Rightarrow> tables \<Rightarrow> bool" where
  "caps_only t t' \<longleftrightarrow> (\<exists>cs. t' = t\<lparr> t_capabilities := cs \<rparr>)"

lemma caps_only_refl: "caps_only t t"
  unfolding caps_only_def by (intro exI [of _ "t_capabilities t"]) simp

lemma caps_only_trans: "caps_only a b \<Longrightarrow> caps_only b c \<Longrightarrow> caps_only a c"
  by (auto simp: caps_only_def)

lemma upsert_capability_view:
  assumes "upsert_capability c t = Inr (x, t')"
  shows "cap_view t' = (cap_view t)((cr_model_id c, cr_dimension c) \<mapsto>
      (cr_score c, cr_confidence c, cr_benchmark_count c, cr_freshness c)) \<and> caps_only t t'"
proof (cases "\<exists>r \<in> set (t_capabilities t). same_cap (cr_model_id c) (cr_dimension c) r")
  case True
  let ?k = "\<lambda>c. ((cr_model_id c, cr_dimension c), (cr_score c, cr_confidence c, cr_benchmark_count c, cr_freshness c))"
  let ?u = "\<lambda>r. if same_cap (cr_model_id c) (cr_dimension c) r
             then r\<lparr> cr_score := cr_score c, cr_confidence := cr_confidence c,
                     cr_benchmark_count := cr_benchmark_count c, cr_freshness := cr_freshness c,
                     cr_computed_at := cr_computed_at c \<rparr> else r"
  have "map_of (map ?k (map ?u rs)) = (if \<exists>r \<in> set rs. same_cap (cr_model_id c) (cr_dimension c) r
      then (map_of (map ?k rs))(fst (?k c) \<mapsto> snd (?k c)) else map_of (map ?k rs))" for rs
    by (induction rs) (auto simp: same_cap_def fun_eq_iff)
  then show ?thesis
    using True assms by (auto simp: upsert_capability_def cap_view_def caps_only_def split: if_splits)
next
  case False
  then have t': "t' = t\<lparr> t_capabilities := t_capabilities t @ [c] \<rparr>"
    using assms by (auto simp: upsert_capability_def split: if_splits)
  have "cap_view t (cr_model_id c, cr_dimension c) = None"
    using False by (auto simp: cap_view_def map_of_eq_None_iff same_cap_def)
  then show ?thesis
    by (auto simp: t' cap_view_def caps_only_def map_add_def fun_eq_iff split: option.split)
qed

lemma upsert_dimensions_Inr:
  assumes "upsert_dimensions order m begun sc now ds act db = (Inr act', db')"
  shows "cap_view (pg_tables db') = (\<lambda>(i, d). if i = m \<and> d \<in> set ds \<and> Aggregate d (order d) sc now \<noteq> None
        then map_option result_view (Aggregate d (order d) sc now) else cap_view (pg_tables db) (i, d)) \<and>
    act' = act @ filter (\<lambda>d. Aggregate d (order d) sc now \<noteq> None) ds \<and>
    caps_only (pg_tables db) (pg_tables db')"
  using assms
proof (induction ds arbitrary: act db)
  case Nil
  then show ?case by (auto simp: db_return_def caps_only_refl)
next
  case (Cons d ds)
  show ?case
  proof (cases "Aggregate d (order d) sc now")
    case None
    then show ?thesis using Cons.IH [of act db] Cons.prems by (auto simp: fun_eq_iff)
  next
    case (Some r)
    then have d: "ar_Dimension r = d" by (auto simp: Aggregate_def Let_def split: if_splits)
    let ?cs = "\<lparr> cs_ModelID = m, cs_Dimension = ar_Dimension r, cs_Score = Some (ar_Score r),
                cs_Confidence = ar_Confidence r, cs_BenchmarkCount = ar_BenchmarkCount r,
                cs_Freshness = ar_Freshness r \<rparr>"
    obtain x db1 where 1: "UpsertCapabilityScore begun ?cs db = (Inr x, db1)"
      and 2: "upsert_dimensions order m begun sc now ds (act @ [ar_Dimension r]) db1 = (Inr act', db')"
      using Cons.prems Some by (auto simp: db_bind_Inr)
    have v: "cap_view (pg_tables db1) = (cap_view (pg_tables db))((m, d) \<mapsto> result_view r)"
      "caps_only (pg_tables db) (pg_tables db1)"
      using stmt_Inr [OF 1 [unfolded UpsertCapabilityScore_def]] upsert_capability_view
      by (fastforce simp: result_view_def d)+
    show ?thesis
      using Cons.IH [OF 2] v Some d by (auto simp: fun_eq_iff intro: caps_only_trans)
  qed
qed

lemma delete_obsolete_view:
  assumes "delete_obsolete m act t = Inr (x, t')"
  shows "cap_view t' = (\<lambda>(i, d). if i = m \<and> d \<notin> set act then None else cap_view t (i, d)) \<and> caps_only t t'"
proof -
  let ?k = "\<lambda>c. ((cr_model_id c, cr_dimension c), (cr_score c, cr_confidence c, cr_benchmark_count c, cr_freshness c))"
  let ?p = "\<lambda>c. \<not> (cr_model_id c = m \<and> cr_dimension c \<notin> set act)"
  have k: "map_of (map ?k (filter ?p rs)) = (\<lambda>(i, d). if i = m \<and> d \<notin> set act then None
      else map_of (map ?k rs) (i, d))" for rs
    by (induction rs) (auto simp: fun_eq_iff)
  have "t' = t\<lparr> t_capabilities := filter ?p (t_capabilities t) \<rparr>"
    using assms by (simp add: delete_obsolete_def)
  then show ?thesis using k [of "t_capabilities t"] by (auto simp: cap_view_def caps_only_def)
qed

definition evidence_of :: "tables \<Rightarrow> (string \<rightharpoonup> string) \<Rightarrow> int \<Rightarrow> string \<rightharpoonup> scoreEntry" where
  "evidence_of t benchmarksByID m = scoreByName benchmarksByID (active_rows (candidates t m))"

lemma compute_Inr:
  assumes "computeCapabilityScoresWithBenchmarks order m byID db = (Inr x, db')"
  obtains now where "cap_view (pg_tables db') = (\<lambda>(i, d). if i = m
      then (if d \<in> set sorted_dimensions
            then map_option result_view (Aggregate d (order d) (evidence_of (pg_tables db) byID m) now)
            else None)
      else cap_view (pg_tables db) (i, d))"
    "caps_only (pg_tables db) (pg_tables db')"
proof -
  obtain d1 d2 where d: "pg_same db d1" "compute_tx order m byID (pg_now db (pg_count db)) d1 = (Inr x, d2)"
    "pg_same d2 db'"
    using transaction_Inr [OF assms [unfolded computeCapabilityScoresWithBenchmarks_def]] by blast
  obtain d3 d4 now act d6 where
    3: "stmt (\<lambda>t. Inr ((), t)) d1 = (Inr (), d3)" and
    4: "GetActiveBenchmarkScores m d3 = (Inr (active_rows (candidates (pg_tables d3) m)), d4)" and
    5: "upsert_dimensions order m (pg_now db (pg_count db))
       (scoreByName byID (active_rows (candidates (pg_tables d3) m))) now sorted_dimensions [] (pg_tick d4) =
       (Inr act, d6)" and
    6: "stmt (delete_obsolete m act) d6 = (Inr x, d2)"
    using d(2) by (auto simp: compute_tx_def db_bind_Inr db_time_def GetActiveBenchmarkScores_def
        select_def stmt_def split: if_splits sum.splits)
  have t: "pg_tables d1 = pg_tables db" "pg_tables d3 = pg_tables d1" "pg_tables d4 = pg_tables d3"
    "pg_tables db' = pg_tables d2"
    using d(1,3) 3 4 by (auto simp: pg_same_def stmt_def GetActiveBenchmarkScores_def select_def split: if_splits)
  let ?ev = "evidence_of (pg_tables db) byID m"
  note u = upsert_dimensions_Inr [OF 5]
  note v = delete_obsolete_view [OF conjunct1 [OF stmt_Inr [OF 6]]]
  have "cap_view (pg_tables db') = (\<lambda>(i, d). if i = m
      then (if d \<in> set sorted_dimensions then map_option result_view (Aggregate d (order d) ?ev now) else None)
      else cap_view (pg_tables db) (i, d))"
    using u v by (auto simp: fun_eq_iff t evidence_of_def)
  moreover have "caps_only (pg_tables db) (pg_tables db')"
    using u v caps_only_trans by (auto simp: t)
  ultimately show thesis using that by blast
qed

section \<open>Recomputation is never rejected\<close>

text \<open>\<open>order\<close> ranges over the weights of every dimension.\<close>

definition range_order :: "(string \<Rightarrow> (string \<times> f64) list) \<Rightarrow> bool" where
  "range_order order \<longleftrightarrow> (\<forall>(d, ws) \<in> set DimensionBenchmarks. mset (order d) = mset ws)"

lemma Aggregate_checks:
  assumes "range_order order" "d \<in> set (map fst DimensionBenchmarks)"
    and "\<forall>b e. scores b = Some e \<longrightarrow> in_range (se_Normalized e)"
    and r: "Aggregate d (order d) scores now = Some r"
  shows "dimension_check (ar_Dimension r) \<and> score_check (Some (ar_Score r)) \<and>
    confidence_check (ar_Confidence r) \<and> ar_Freshness r \<in> {''fresh'', ''stale''}"
proof -
  obtain ws where ws: "(d, ws) \<in> set DimensionBenchmarks" using assms(2) by auto
  then have "mset (order d) = mset ws" using assms(1) by (auto simp: range_order_def)
  from Aggregate_range [OF ws this assms(3), of now] r
  have "in_range (ar_Score r)" "ar_Dimension r = d" by auto
  moreover have "dimension_check d"
    using ws by (auto simp: DimensionBenchmarks_def dimension_check_def)
  moreover have "ar_Freshness r \<in> {''fresh'', ''stale''}"
    using r by (auto simp: Aggregate_def Let_def split: if_splits)
  moreover have "confidence_check (lowerConfidence a b)" for a b
    by (auto simp: confidence_check_def lowerConfidence_def normalize_confidence_def Let_def)
  then have "confidence_check (ar_Confidence r)"
    using r by (auto simp: Aggregate_def Let_def split: if_splits)
  ultimately show ?thesis by (simp add: score_check_def)
qed

lemma has_model_caps_only: "caps_only t t' \<Longrightarrow> has_model t' m = has_model t m"
  by (auto simp: caps_only_def has_model_def)

lemma UpsertCapability_err:
  assumes "has_model (pg_tables db) (cs_ModelID s)" "dimension_check (cs_Dimension s)"
    "score_check (cs_Score s)" "confidence_check (cs_Confidence s)" "cs_Freshness s \<in> {''fresh'', ''stale''}"
  shows "case UpsertCapabilityScore begun s db of (Inl e, db') \<Rightarrow> e = DbFault
    | (Inr x, db') \<Rightarrow> caps_only (pg_tables db) (pg_tables db')"
proof -
  have u: "\<exists>t'. upsert_capability \<lparr> cr_id = pg_uuid db (pg_count db), cr_model_id = cs_ModelID s,
       cr_dimension = cs_Dimension s, cr_score = cs_Score s, cr_confidence = cs_Confidence s,
       cr_benchmark_count = cs_BenchmarkCount s, cr_freshness = cs_Freshness s,
       cr_computed_at = begun \<rparr> (pg_tables db) = Inr ((), t')"
    using assms by (simp add: upsert_capability_def)
  then obtain t' where t': "upsert_capability \<lparr> cr_id = pg_uuid db (pg_count db), cr_model_id = cs_ModelID s,
       cr_dimension = cs_Dimension s, cr_score = cs_Score s, cr_confidence = cs_Confidence s,
       cr_benchmark_count = cs_BenchmarkCount s, cr_freshness = cs_Freshness s,
       cr_computed_at = begun \<rparr> (pg_tables db) = Inr ((), t')" by blast
  show ?thesis
    using conjunct2 [OF upsert_capability_view [OF t']]
    by (simp add: UpsertCapabilityScore_def stmt_def t' pg_tick_def)
qed

lemma upsert_dimensions_err:
  assumes "range_order order" "set ds \<subseteq> set (map fst DimensionBenchmarks)"
    and "\<forall>b e. sc b = Some e \<longrightarrow> in_range (se_Normalized e)"
    and "has_model (pg_tables db) m"
  shows "case upsert_dimensions order m begun sc now ds act db of (Inl e, _) \<Rightarrow> e = DbFault | _ \<Rightarrow> True"
  using assms(2,4)
proof (induction ds arbitrary: act db)
  case (Cons d ds)
  show ?case
  proof (cases "Aggregate d (order d) sc now")
    case None
    then show ?thesis using Cons by simp
  next
    case (Some r)
    note c = Aggregate_checks [OF assms(1) _ assms(3) Some]
    let ?cs = "\<lparr> cs_ModelID = m, cs_Dimension = ar_Dimension r, cs_Score = Some (ar_Score r),
                cs_Confidence = ar_Confidence r, cs_BenchmarkCount = ar_BenchmarkCount r,
                cs_Freshness = ar_Freshness r \<rparr>"
    have u: "case UpsertCapabilityScore begun ?cs db of (Inl e, db') \<Rightarrow> e = DbFault
      | (Inr x, db') \<Rightarrow> caps_only (pg_tables db) (pg_tables db')"
      using c Cons.prems by (intro UpsertCapability_err) simp_all
    obtain res db1 where 1: "UpsertCapabilityScore begun ?cs db = (res, db1)" by fastforce
    show ?thesis
    proof (cases res)
      case (Inl e)
      then show ?thesis using Some u 1 by (simp add: db_bind_def)
    next
      case (Inr x)
      then have "has_model (pg_tables db1) m" using u 1 Cons.prems(2) has_model_caps_only by simp
      then show ?thesis using Some 1 Inr Cons.IH [of db1] Cons.prems(1) by (simp add: db_bind_def)
    qed
  qed
qed (simp add: db_return_def)

lemma scoreByName_range:
  assumes "\<forall>r \<in> set rows. score_check (sr_normalized_score r)"
  shows "\<forall>b e. scoreByName byID rows b = Some e \<longrightarrow> in_range (se_Normalized e)"
  using assms
proof (induction rows rule: rev_induct)
  case (snoc r rows)
  then show ?case
    by (auto simp: scoreByName_def name_score_def score_check_def split: option.splits if_splits)
qed (simp add: scoreByName_def)

lemma active_rows_subset: "set (active_rows rows) \<subseteq> set rows"
proof -
  have "select_best score_before sr_benchmark_id rows b = Some r \<Longrightarrow> r \<in> set rows" for b r
  proof (induction rows arbitrary: r rule: rev_induct)
    case (snoc c rows)
    then show ?case by (auto simp: select_best_snoc keep_better_def split: option.splits if_splits)
  qed (simp add: select_best_def)
  then show ?thesis by (auto simp: active_rows_def List.map_filter_def)
qed

lemma compute_err:
  assumes "range_order order" "has_model (pg_tables db) m"
    and "\<forall>r \<in> set (t_scores (pg_tables db)). score_check (sr_normalized_score r)"
    and "computeCapabilityScoresWithBenchmarks order m byID db = (Inl e, db')"
  shows "e = DbFault"
proof -
  have body: "e' = DbFault" if b: "compute_tx order m byID now d1 = (Inl e', d2)"
    and t: "pg_tables d1 = pg_tables db" for now d1 d2 e'
  proof -
    obtain r3 d3 where 3: "stmt (\<lambda>t. Inr ((), t)) d1 = (r3, d3)" by fastforce
    obtain r4 d4 where 4: "GetActiveBenchmarkScores m d3 = (r4, d4)" by fastforce
    have t3: "pg_tables d3 = pg_tables db" "pg_tables d4 = pg_tables db"
      using 3 4 t by (auto simp: stmt_def GetActiveBenchmarkScores_def select_def split: if_splits)
    show ?thesis
    proof (cases "\<exists>x y. r3 = Inr x \<and> r4 = Inr y")
      case False
      then show ?thesis
        using b 3 4 by (auto simp: compute_tx_def db_bind_def stmt_def GetActiveBenchmarkScores_def select_def
            split: if_splits sum.splits)
    next
      case True
      then obtain x rows where xy: "r3 = Inr x" "r4 = Inr rows" by blast
      then have rows: "rows = active_rows (candidates (pg_tables db) m)"
        using 4 t3 by (auto simp: GetActiveBenchmarkScores_def select_def stmt_def split: if_splits)
      have "set rows \<subseteq> set (t_scores (pg_tables db))"
        using active_rows_subset [of "candidates (pg_tables db) m"] by (auto simp: rows candidates_def)
      then have sc: "\<forall>b e. scoreByName byID rows b = Some e \<longrightarrow> in_range (se_Normalized e)"
        using assms(3) by (intro scoreByName_range) auto
      obtain r5 d5 where 5: "upsert_dimensions order m now (scoreByName byID rows) (pg_now d4 (pg_count d4))
          sorted_dimensions [] (pg_tick d4) = (r5, d5)" by fastforce
      have "case (r5, d5) of (Inl e, _) \<Rightarrow> e = DbFault | _ \<Rightarrow> True"
        unfolding 5 [symmetric] using assms(2) t3
        by (intro upsert_dimensions_err [OF assms(1) _ sc]) (simp_all add: sorted_dimensions_def)
      moreover obtain r6 d6 where 6: "compute_tx order m byID now d1 =
          (case r5 of Inl e \<Rightarrow> (Inl e, d5) | Inr act \<Rightarrow> stmt (delete_obsolete m act) d5)"
        using 3 4 5 xy by (simp add: compute_tx_def db_bind_def db_time_def split: sum.split)
      ultimately show ?thesis
        using b by (auto simp: stmt_def delete_obsolete_def split: sum.splits if_splits)
    qed
  qed
  show ?thesis
    using assms(4) body
    by (auto simp: computeCapabilityScoresWithBenchmarks_def transaction_def stmt_def pg_tick_def
        split: if_splits prod.splits sum.splits)
qed

section \<open>Properties\<close>

definition demo_intel :: pg where
  "demo_intel = \<lparr> pg_tables = \<lparr> t_sources = [], t_models = [\<lparr> mr_id = 7, mr_provider = ''openai'',
        mr_name = ''gpt'', mr_slug = ''openai/gpt'', mr_modality = ''text'', mr_context_window = None,
        mr_created_at = 0, mr_updated_at = 0 \<rparr>],
     t_prices = [], t_history = [], t_review = [], t_webhooks = [], t_price_serial = 1,
     t_review_serial = 1, t_model_serial = 8,
     t_benchmarks = [\<lparr> bm_id = ''b1'', bm_name = ''SWE-bench Verified'' \<rparr>, \<lparr> bm_id = ''b2'', bm_name = ''CFA'' \<rparr>],
     t_scores = [\<lparr> sr_id = ''s1'', sr_model_id = 7, sr_benchmark_id = ''b1'', sr_raw_score = Some (Fin 40),
        sr_normalized_score = Some (Fin 40), sr_benchmark_version = ''v1'', sr_source_url = ''u'',
        sr_source_model_name = None, sr_source_entry_name = None, sr_confidence = ''high'',
        sr_evaluated_at = 1, sr_ingested_at = 1, sr_last_observed_at = 1 \<rparr>,
       \<lparr> sr_id = ''s2'', sr_model_id = 7, sr_benchmark_id = ''b1'', sr_raw_score = Some (Fin 60),
        sr_normalized_score = Some (Fin 60), sr_benchmark_version = ''v2'', sr_source_url = ''u'',
        sr_source_model_name = None, sr_source_entry_name = None, sr_confidence = ''low'',
        sr_evaluated_at = 2, sr_ingested_at = 2, sr_last_observed_at = 2 \<rparr>],
     t_capabilities = [\<lparr> cr_id = ''c'', cr_model_id = 7, cr_dimension = ''finance'', cr_score = Some (Fin 5),
        cr_confidence = ''low'', cr_benchmark_count = 1, cr_freshness = ''fresh'', cr_computed_at = 0 \<rparr>],
     t_identities = [], t_tokens = [], t_keys = [] \<rparr>,
     pg_count = 3, pg_fault = (\<lambda>_. False), pg_now = int, pg_numeric = (\<lambda>_ x. x),
     pg_uuid = (\<lambda>n. replicate n CHR ''f'') \<rparr>"

definition demo_order :: "string \<Rightarrow> (string \<times> f64) list" where
  "demo_order d = (case map_of DimensionBenchmarks d of Some ws \<Rightarrow> ws | None \<Rightarrow> [])"

definition demo_names :: "string \<rightharpoonup> string" where
  "demo_names = [''b1'' \<mapsto> ''SWE-bench Verified'', ''b2'' \<mapsto> ''CFA'']"

lemma demo_range_order: "range_order demo_order"
  unfolding range_order_def demo_order_def by code_simp

text \<open>
  C11. Recomputation refines its specification: after a successful run for a model the capability
  rows of the model are exactly the aggregates of its active evidence, dimension by dimension,
  obsolete rows are gone, and no other row of any table has changed; after a failed run no table
  has changed.
\<close>

theorem recompute_replaces:
  assumes "computeCapabilityScoresWithBenchmarks order m byID db = (res, db')"
  shows "case res of
      Inl _ \<Rightarrow> pg_tables db' = pg_tables db
    | Inr _ \<Rightarrow> \<exists>now. cap_view (pg_tables db') = (\<lambda>(i, d). if i = m
          then (if d \<in> set sorted_dimensions
                then map_option result_view (Aggregate d (order d) (evidence_of (pg_tables db) byID m) now)
                else None)
          else cap_view (pg_tables db) (i, d)) \<and> caps_only (pg_tables db) (pg_tables db')"
proof (cases res)
  case (Inl e)
  then show ?thesis
    using assms unfolding computeCapabilityScoresWithBenchmarks_def
    by (auto simp: transaction_def stmt_def split: prod.splits sum.splits if_splits)
next
  case (Inr x)
  then have "computeCapabilityScoresWithBenchmarks order m byID db = (Inr x, db')" using assms by simp
  then show ?thesis unfolding Inr sum.case by (rule compute_Inr) (rule exI, rule conjI)
qed

theorem recompute_replaces_witness:
  "cap_view (pg_tables (snd (computeCapabilityScoresWithBenchmarks demo_order 7 demo_names demo_intel)))
     (7, ''finance'') = None \<and>
   map (\<lambda>c. (cr_dimension c, cr_score c, cr_confidence c)) (t_capabilities (pg_tables
     (snd (computeCapabilityScoresWithBenchmarks demo_order 7 demo_names demo_intel)))) =
     [(''agentic'', Some (Fin 60), ''low''), (''coding'', Some (Fin 60), ''low'')]"
proof
  let ?run = "computeCapabilityScoresWithBenchmarks demo_order 7 demo_names demo_intel"
  have "fst ?run = Inr ()" by code_simp
  then obtain db' where run: "?run = (Inr (), db')" by (cases ?run) auto
  from recompute_replaces [OF run] obtain now where now:
    "cap_view (pg_tables db') (7, ''finance'') =
      (if ''finance'' \<in> set sorted_dimensions
       then map_option result_view (Aggregate ''finance'' (demo_order ''finance'')
         (evidence_of (pg_tables demo_intel) demo_names 7) now) else None)"
    by auto
  have "evidence_of (pg_tables demo_intel) demo_names 7 ''CFA'' = None" by code_simp
  then have "Aggregate ''finance'' (demo_order ''finance'') (evidence_of (pg_tables demo_intel) demo_names 7) now = None"
    by (simp add: Aggregate_def demo_order_def DimensionBenchmarks_def agg_step_def agg_start_def Let_def)
  then show "cap_view (pg_tables (snd ?run)) (7, ''finance'') = None" using now run by simp
  show "map (\<lambda>c. (cr_dimension c, cr_score c, cr_confidence c)) (t_capabilities (pg_tables (snd ?run))) =
     [(''agentic'', Some (Fin 60), ''low''), (''coding'', Some (Fin 60), ''low'')]"
    by code_simp
qed

text \<open>
  A recomputation fails only when the database does: over evidence that satisfies the constraints of
  its table no statement of the run violates a constraint, in every order of the maps.
\<close>

theorem recompute_never_rejected:
  assumes "range_order order" and "has_model (pg_tables db) m"
    and "\<forall>r \<in> set (t_scores (pg_tables db)). score_check (sr_normalized_score r)"
  shows "fst (computeCapabilityScoresWithBenchmarks order m byID db) \<in> {Inr (), Inl DbFault}"
proof -
  obtain res db' where run: "computeCapabilityScoresWithBenchmarks order m byID db = (res, db')" by fastforce
  show ?thesis
  proof (cases res)
    case (Inl e)
    then show ?thesis using compute_err [OF assms] run by simp
  qed (use run in simp)
qed

theorem recompute_never_rejected_witness:
  "fst (computeCapabilityScoresWithBenchmarks demo_order 7 demo_names demo_intel) \<in> {Inr (), Inl DbFault} \<and>
   fst (computeCapabilityScoresWithBenchmarks demo_order 7 demo_names demo_intel) = Inr ()"
proof
  have "has_model (pg_tables demo_intel) 7" by (simp add: demo_intel_def has_model_def)
  moreover have "\<forall>r \<in> set (t_scores (pg_tables demo_intel)). score_check (sr_normalized_score r)"
    by (simp add: demo_intel_def score_check_def in_range_def)
  ultimately show "fst (computeCapabilityScoresWithBenchmarks demo_order 7 demo_names demo_intel) \<in> {Inr (), Inl DbFault}"
    by (rule recompute_never_rejected [OF demo_range_order])
  show "fst (computeCapabilityScoresWithBenchmarks demo_order 7 demo_names demo_intel) = Inr ()"
    by code_simp
qed

text \<open>
  Which evidence counts does not depend on how the database stores it: two evidence tables with the
  same rows in different orders have the same active rows, one for each benchmark with a
  normalised score, and an active row was observed no earlier than any other row for its
  benchmark.
\<close>

theorem active_evidence_stable:
  assumes "evidence_wf (t_scores t)" and "mset (t_scores t') = mset (t_scores t)"
  shows "active_rows (candidates t' m) = active_rows (candidates t m) \<and>
    map sr_benchmark_id (active_rows (candidates t m)) = sort (remdups (map sr_benchmark_id (candidates t m))) \<and>
    (\<forall>r \<in> set (active_rows (candidates t m)). \<forall>q \<in> set (candidates t m).
      sr_benchmark_id q = sr_benchmark_id r \<longrightarrow> sr_last_observed_at q \<le> sr_last_observed_at r)"
proof (intro conjI ballI impI)
  show "active_rows (candidates t' m) = active_rows (candidates t m)"
    by (rule active_rows_perm [OF assms])
  show "map sr_benchmark_id (active_rows (candidates t m)) = sort (remdups (map sr_benchmark_id (candidates t m)))"
    by (rule active_rows_benchmarks)
  fix r q assume "r \<in> set (active_rows (candidates t m))" "q \<in> set (candidates t m)"
    "sr_benchmark_id q = sr_benchmark_id r"
  then have "score_rank r \<le> score_rank q" using active_row [OF assms(1)] by blast
  then show "sr_last_observed_at q \<le> sr_last_observed_at r"
    by (auto simp: score_rank_def less_eq_prod_def)
qed

theorem active_evidence_stable_witness:
  "active_rows (candidates ((pg_tables demo_intel)\<lparr> t_scores := rev (t_scores (pg_tables demo_intel)) \<rparr>) 7) =
    active_rows (candidates (pg_tables demo_intel) 7) \<and>
   map sr_id (active_rows (candidates (pg_tables demo_intel) 7)) = [''s2'']"
proof
  have "evidence_wf (t_scores (pg_tables demo_intel))"
    by (simp add: demo_intel_def evidence_wf_def finite_score_def f64_finite_def)
  from active_evidence_stable [OF this, of "(pg_tables demo_intel)\<lparr> t_scores := rev (t_scores (pg_tables demo_intel)) \<rparr>" 7]
  show "active_rows (candidates ((pg_tables demo_intel)\<lparr> t_scores := rev (t_scores (pg_tables demo_intel)) \<rparr>) 7) =
    active_rows (candidates (pg_tables demo_intel) 7)"
    by simp
  show "map sr_id (active_rows (candidates (pg_tables demo_intel) 7)) = [''s2'']" by code_simp
qed

end
