(* ===== verification/Slugmap.thy ===== *)
theory Slugmap
  imports Go_Text
begin

text \<open>
  The resolver of leaderboard names, \<open>internal/scraper/slugmap\<close>: an exact table, then prefix
  rules in order of decreasing specificity.
\<close>

definition canonicalMap :: "(string \<times> string) list" where
  "canonicalMap = [
     (''gpt-4o'', ''openai/gpt-4o''),
     (''gpt-4o-2024-05-13'', ''openai/gpt-4o''),
     (''gpt-4o-2024-08-06'', ''openai/gpt-4o''),
     (''gpt-4o-2024-11-20'', ''openai/gpt-4o''),
     (''gpt-4o-mini'', ''openai/gpt-4o-mini''),
     (''gpt-4o-mini-2024-07-18'', ''openai/gpt-4o-mini''),
     (''gpt-4-turbo'', ''openai/gpt-4-turbo''),
     (''gpt-4-turbo-2024-04-09'', ''openai/gpt-4-turbo''),
     (''gpt-4-1'', ''openai/gpt-4.1''),
     (''gpt-4.1'', ''openai/gpt-4.1''),
     (''gpt-4.1-mini'', ''openai/gpt-4.1-mini''),
     (''gpt-4.1-nano'', ''openai/gpt-4.1-nano''),
     (''o1'', ''openai/o1''),
     (''o1-preview'', ''openai/o1-preview''),
     (''o1-mini'', ''openai/o1-mini''),
     (''o3'', ''openai/o3''),
     (''o1-2024-12-17'', ''openai/o1''),
     (''o3-mini'', ''openai/o3-mini''),
     (''o3-20250416'', ''openai/o3''),
     (''o3__high'', ''openai/o3''),
     (''o3-mini-2025-01-31__low'', ''openai/o3-mini''),
     (''o3-mini-2025-01-31__medium'', ''openai/o3-mini''),
     (''o3-mini-2025-01-31__high'', ''openai/o3-mini''),
     (''o4-mini'', ''openai/o4-mini''),
     (''o4-mini-20250416'', ''openai/o4-mini''),
     (''o4-mini__high'', ''openai/o4-mini''),
     (''o4-mini__medium'', ''openai/o4-mini''),
     (''o4-mini__low'', ''openai/o4-mini''),
     (''claude-3-5-sonnet'', ''anthropic/claude-3-5-sonnet''),
     (''claude-3-5-sonnet-20241022'', ''anthropic/claude-3-5-sonnet''),
     (''claude-3-5-sonnet-20240620'', ''anthropic/claude-3-5-sonnet''),
     (''claude-3.5-sonnet'', ''anthropic/claude-3-5-sonnet''),
     (''claude-3-5-haiku'', ''anthropic/claude-3-5-haiku''),
     (''claude-3-5-haiku-20241022'', ''anthropic/claude-3-5-haiku''),
     (''claude-3.5-haiku'', ''anthropic/claude-3-5-haiku''),
     (''claude-3-7-sonnet-20250219'', ''anthropic/claude-3.7-sonnet''),
     (''claude-sonnet-4-20250514'', ''anthropic/claude-sonnet-4''),
     (''claude-4-sonnet-20250514'', ''anthropic/claude-sonnet-4''),
     (''claude-opus-4-20250514'', ''anthropic/claude-opus-4''),
     (''claude-4-opus-20250514'', ''anthropic/claude-opus-4''),
     (''claude-opus-4-6'', ''anthropic/claude-opus-4.6''),
     (''claude-sonnet-4-6'', ''anthropic/claude-sonnet-4.6''),
     (''claude-sonnet-4-5'', ''anthropic/claude-sonnet-4.5''),
     (''claude-sonnet-4-5-20250929'', ''anthropic/claude-sonnet-4.5''),
     (''claude-sonnet-4.5'', ''anthropic/claude-sonnet-4.5''),
     (''claude-opus-4-5'', ''anthropic/claude-opus-4.5''),
     (''claude-opus-4-5-20251101'', ''anthropic/claude-opus-4.5''),
     (''claude-4-5-opus'', ''anthropic/claude-opus-4.5''),
     (''claude-haiku-4-5-20251001'', ''anthropic/claude-haiku-4.5''),
     (''claude-3-opus'', ''anthropic/claude-3-opus''),
     (''claude-3-opus-20240229'', ''anthropic/claude-3-opus''),
     (''claude-3-haiku'', ''anthropic/claude-3-haiku''),
     (''claude-3-haiku-20240307'', ''anthropic/claude-3-haiku''),
     (''gemini-2.0-flash'', ''google/gemini-2.0-flash''),
     (''gemini-2.0-flash-001'', ''google/gemini-2.0-flash''),
     (''gemini-2.5-pro'', ''google/gemini-2.5-pro''),
     (''gemini-2.5-pro-preview'', ''google/gemini-2.5-pro''),
     (''gemini-2.5-flash'', ''google/gemini-2.5-flash''),
     (''gemini-2.5-flash-preview'', ''google/gemini-2.5-flash''),
     (''gemini-1.5-pro'', ''google/gemini-1.5-pro''),
     (''gemini-1.5-pro-latest'', ''google/gemini-1.5-pro''),
     (''gemini-1.5-flash'', ''google/gemini-1.5-flash''),
     (''gemini-1.5-flash-latest'', ''google/gemini-1.5-flash''),
     (''gemini-pro'', ''google/gemini-pro''),
     (''llama-3.3-70b-instruct'', ''meta-llama/llama-3.3-70b-instruct''),
     (''meta-llama/llama-3.3-70b-instruct'', ''meta-llama/llama-3.3-70b-instruct''),
     (''llama-3.1-405b-instruct'', ''meta-llama/llama-3.1-405b-instruct''),
     (''meta-llama/llama-3.1-405b-instruct'', ''meta-llama/llama-3.1-405b-instruct''),
     (''llama-3.1-70b-instruct'', ''meta-llama/llama-3.1-70b-instruct''),
     (''llama-3.1-8b-instruct'', ''meta-llama/llama-3.1-8b-instruct''),
     (''mistral-large'', ''mistralai/mistral-large''),
     (''mistral-large-latest'', ''mistralai/mistral-large''),
     (''mistral-large-2411'', ''mistralai/mistral-large''),
     (''mistral-small'', ''mistralai/mistral-small''),
     (''deepseek-v3'', ''deepseek/deepseek-chat''),
     (''deepseek-chat'', ''deepseek/deepseek-chat''),
     (''deepseek-r1'', ''deepseek/deepseek-reasoner''),
     (''deepseek-reasoner'', ''deepseek/deepseek-reasoner'')]"

definition prefixFallbacks :: "(string \<times> string) list" where
  "prefixFallbacks = [
     (''claude-opus-4-5'', ''anthropic/claude-opus-4.5''),
     (''claude-sonnet-4-5'', ''anthropic/claude-sonnet-4.5''),
     (''claude-3-7-sonnet'', ''anthropic/claude-3.7-sonnet''),
     (''claude-3-5-sonnet'', ''anthropic/claude-3-5-sonnet''),
     (''claude-3-5-haiku'', ''anthropic/claude-3-5-haiku''),
     (''gpt-4o-mini'', ''openai/gpt-4o-mini''),
     (''gpt-4o'', ''openai/gpt-4o''),
     (''gpt-4-turbo'', ''openai/gpt-4-turbo''),
     (''gpt-4.1-mini'', ''openai/gpt-4.1-mini''),
     (''gpt-4.1'', ''openai/gpt-4.1''),
     (''o4-mini'', ''openai/o4-mini''),
     (''o3-mini'', ''openai/o3-mini''),
     (''gemini-2.5-pro'', ''google/gemini-2.5-pro''),
     (''gemini-2.5-flash'', ''google/gemini-2.5-flash''),
     (''gemini-2.0-flash'', ''google/gemini-2.0-flash''),
     (''gemini-1.5-pro'', ''google/gemini-1.5-pro''),
     (''gemini-1.5-flash'', ''google/gemini-1.5-flash''),
     (''llama-3.3-70b'', ''meta-llama/llama-3.3-70b-instruct''),
     (''llama-3.1-405b'', ''meta-llama/llama-3.1-405b-instruct''),
     (''mistral-large'', ''mistralai/mistral-large'')]"

datatype Outcome = OutcomeResolved | OutcomeUnknown | OutcomeAmbiguous

fun outcome_string :: "Outcome \<Rightarrow> string" where
  "outcome_string OutcomeResolved = ''resolved''"
| "outcome_string OutcomeUnknown = ''unknown''"
| "outcome_string OutcomeAmbiguous = ''ambiguous''"

definition hasKnownVariantPrefix :: "string \<Rightarrow> string \<Rightarrow> bool" where
  "hasKnownVariantPrefix name prefix =
     (if \<not> has_prefix name prefix \<or> length name = length prefix then False
      else name ! length prefix \<in> {CHR ''-'', CHR ''_''})"

text \<open>The loop over the rules; its state is the first match, if any.\<close>

fun prefix_loop :: "string \<Rightarrow> (string \<times> string) list \<Rightarrow> string option \<Rightarrow> string \<times> Outcome" where
  "prefix_loop name [] first =
     (case first of None \<Rightarrow> ([], OutcomeUnknown) | Some s \<Rightarrow> (s, OutcomeResolved))"
| "prefix_loop name ((prefix, slug) # rules) first =
     (if \<not> hasKnownVariantPrefix name prefix then prefix_loop name rules first
      else case first of
             None \<Rightarrow> prefix_loop name rules (Some slug)
           | Some s \<Rightarrow> if slug \<noteq> s then (s, OutcomeAmbiguous) else prefix_loop name rules first)"

definition ResolveOutcome :: "string \<Rightarrow> string \<times> Outcome" where
  "ResolveOutcome name =
     (let normalized = to_lower (trim_space name) in
      case map_of canonicalMap normalized of
        Some s \<Rightarrow> (s, OutcomeResolved)
      | None \<Rightarrow> prefix_loop normalized prefixFallbacks None)"

definition Resolve :: "string \<Rightarrow> string \<times> bool" where
  "Resolve name = (let (slug, outcome) = ResolveOutcome name in (slug, outcome \<noteq> OutcomeUnknown))"

section \<open>The loop against its specification\<close>

definition matching :: "string \<Rightarrow> (string \<times> string) list \<Rightarrow> (string \<times> string) list" where
  "matching name rules = filter (\<lambda>r. hasKnownVariantPrefix name (fst r)) rules"

lemma prefix_loop_Some:
  "prefix_loop name rules (Some s) =
     (s, if \<forall>r \<in> set (matching name rules). snd r = s then OutcomeResolved else OutcomeAmbiguous)"
  by (induction name rules "Some s" rule: prefix_loop.induct) (auto simp: matching_def)

lemma prefix_loop_None:
  "prefix_loop name rules None =
     (case matching name rules of
        [] \<Rightarrow> ([], OutcomeUnknown)
      | r # rs \<Rightarrow> (snd r, if \<forall>q \<in> set rs. snd q = snd r then OutcomeResolved else OutcomeAmbiguous))"
proof (induction rules)
  case (Cons r rules)
  then show ?case by (cases r) (auto simp: matching_def prefix_loop_Some)
qed (simp add: matching_def)

text \<open>
  \<open>decreasing specificity\<close>: no later rule of the table extends an earlier one.
\<close>

fun specific_first :: "(string \<times> string) list \<Rightarrow> bool" where
  "specific_first [] = True"
| "specific_first (r # rs) = (list_all (\<lambda>q. \<not> has_prefix (fst q) (fst r)) rs \<and> specific_first rs)"

lemma prefixFallbacks_specific: "specific_first prefixFallbacks"
  by code_simp

lemma variant_prefix: "hasKnownVariantPrefix name p \<Longrightarrow> has_prefix name p"
  by (simp add: hasKnownVariantPrefix_def split: if_splits)

lemma prefix_linear: "has_prefix s p \<Longrightarrow> has_prefix s q \<Longrightarrow> length p \<le> length q \<Longrightarrow> has_prefix q p"
  by (induction s p arbitrary: q rule: has_prefix.induct) (case_tac q; auto)+

lemma first_match_longest:
  assumes "specific_first rules" "matching name rules = r # rs" "q \<in> set rs"
  shows "length (fst q) < length (fst r)"
  using assms
proof (induction rules)
  case (Cons t rules)
  show ?case
  proof (cases "hasKnownVariantPrefix name (fst t)")
    case True
    then have "r = t" "rs = matching name rules" using Cons.prems(2) by (simp_all add: matching_def)
    then have q: "q \<in> set rules" "hasKnownVariantPrefix name (fst q)"
      using Cons.prems(3) by (simp_all add: matching_def)
    then have "\<not> has_prefix (fst q) (fst t)" using Cons.prems(1) by (auto simp: list_all_iff)
    then show ?thesis
      using prefix_linear [of name "fst t" "fst q"] variant_prefix True q(2) \<open>r = t\<close> by force
  next
    case False
    then show ?thesis using Cons by (simp add: matching_def)
  qed
qed (simp add: matching_def)

lemma normalized_idem: "to_lower (trim_space (to_lower (trim_space s))) = to_lower (trim_space s)"
proof -
  have sp: "is_space (lower_char c) = is_space c" for c
  proof (cases "is_upper c")
    case True
    then have b: "65 \<le> (of_char c :: nat)" "(of_char c :: nat) \<le> 90"
      by (simp_all add: is_upper_def less_eq_char_def)
    have "(of_char (lower_char c) :: nat) = of_char c + 32"
      using True b by (simp add: lower_char_def take_bit_nat_eq_self)
    then have "(of_char (lower_char c) :: nat) \<ge> 97" using b by simp
    then have "\<not> is_space (lower_char c)" by (auto simp: is_space_def)
    moreover have "\<not> is_space c" using b by (auto simp: is_space_def)
    ultimately show ?thesis by simp
  qed (simp add: lower_char_def)
  have dw: "dropWhile is_space (map lower_char xs) = map lower_char (dropWhile is_space xs)" for xs
    by (induction xs) (simp_all add: sp)
  have "trim_space (to_lower xs) = to_lower (trim_space xs)" for xs
    by (simp add: trim_space_def trim_left_func_def trim_right_func_def to_lower_def dw rev_map)
  then show ?thesis by simp
qed

section \<open>Properties\<close>

text \<open>
  C14. The resolver against its specification: an exact entry decides; otherwise the result is the slug
  of the longest matching prefix rule, it is ambiguous exactly when another matching rule names a
  different slug, and unknown exactly when no rule matches.
\<close>

theorem ResolveOutcome_spec:
  "ResolveOutcome name =
    (let n = to_lower (trim_space name); ms = matching n prefixFallbacks in
     case map_of canonicalMap n of
       Some s \<Rightarrow> (s, OutcomeResolved)
     | None \<Rightarrow>
         if ms = [] then ([], OutcomeUnknown)
         else (snd (hd ms), if \<exists>q \<in> set ms. snd q \<noteq> snd (hd ms) then OutcomeAmbiguous else OutcomeResolved)) \<and>
   (\<forall>q \<in> set (tl (matching (to_lower (trim_space name)) prefixFallbacks)).
      length (fst q) < length (fst (hd (matching (to_lower (trim_space name)) prefixFallbacks))))"
proof
  let ?n = "to_lower (trim_space name)"
  show "ResolveOutcome name =
    (let n = ?n; ms = matching n prefixFallbacks in
     case map_of canonicalMap n of
       Some s \<Rightarrow> (s, OutcomeResolved)
     | None \<Rightarrow>
         if ms = [] then ([], OutcomeUnknown)
         else (snd (hd ms), if \<exists>q \<in> set ms. snd q \<noteq> snd (hd ms) then OutcomeAmbiguous else OutcomeResolved))"
    by (cases "matching ?n prefixFallbacks")
      (auto simp: ResolveOutcome_def Let_def prefix_loop_None split: option.split)
  show "\<forall>q \<in> set (tl (matching ?n prefixFallbacks)).
      length (fst q) < length (fst (hd (matching ?n prefixFallbacks)))"
  proof (cases "matching ?n prefixFallbacks")
    case (Cons r rs)
    then show ?thesis using first_match_longest [OF prefixFallbacks_specific Cons] by simp
  qed simp
qed

lemma demo_matches:
  "to_lower (trim_space '' GPT-4.1-Mini-2025'') = ''gpt-4.1-mini-2025''"
  "matching ''gpt-4.1-mini-2025'' prefixFallbacks =
    [(''gpt-4.1-mini'', ''openai/gpt-4.1-mini''), (''gpt-4.1'', ''openai/gpt-4.1'')]"
  "map_of canonicalMap ''gpt-4.1-mini-2025'' = None"
  by code_simp+

theorem ResolveOutcome_spec_witness:
  "ResolveOutcome '' GPT-4.1-Mini-2025'' = (''openai/gpt-4.1-mini'', OutcomeAmbiguous) \<and>
   length ''gpt-4.1'' < length ''gpt-4.1-mini''"
  using ResolveOutcome_spec [of "'' GPT-4.1-Mini-2025''"] demo_matches by simp

text \<open>
  The case of the letters and surrounding white space never change an answer, and \<open>Resolve\<close>
  succeeds on every name that \<open>ResolveOutcome\<close> does not call unknown, ambiguous ones included, with
  the same slug.
\<close>

theorem Resolve_normalizes:
  "Resolve (to_lower (trim_space name)) = Resolve name \<and>
   Resolve name = (fst (ResolveOutcome name), snd (ResolveOutcome name) \<noteq> OutcomeUnknown)"
  by (simp add: Resolve_def ResolveOutcome_def normalized_idem case_prod_beta)

end
