(* ===== verification/Benchmark_Scrapers.thy ===== *)
theory Benchmark_Scrapers
  imports Intelligence_Store Slugmap
begin

text \<open>
  The two benchmark scrapers, \<open>internal/scraper/swebench\<close> and \<open>internal/scraper/livecodebench\<close>,
  from the decoded leaderboard to the evidence table. What the HTTP client returns, decoded, is an
  argument, as are the order in which Go ranges over a map (a rank of its keys) and the content
  hash that names a version of the evidence.
\<close>

section \<open>Dates\<close>

text \<open>\<open>time.Parse("2006-01-02", s)\<close>, in UTC.\<close>

definition leap_year :: "int \<Rightarrow> bool" where
  "leap_year y = (y mod 4 = 0 \<and> (y mod 100 \<noteq> 0 \<or> y mod 400 = 0))"

definition days_in_month :: "int \<Rightarrow> int \<Rightarrow> int" where
  "days_in_month y m = (if m = 2 then (if leap_year y then 29 else 28)
     else if m \<in> {4, 6, 9, 11} then 30 else 31)"

text \<open>Days since 1 January 1970 of a day of the proleptic Gregorian calendar.\<close>

definition days_before_year :: "int \<Rightarrow> int" where
  "days_before_year y = (let p = y - 1 in 365 * p + p div 4 - p div 100 + p div 400 - 719162)"

definition days_of_date :: "int \<Rightarrow> int \<Rightarrow> int \<Rightarrow> int" where
  "days_of_date y m d =
     days_before_year y + sum_list (map (days_in_month y) [1..m - 1]) + (d - 1)"

definition parse_date :: "string \<Rightarrow> instant option" where
  "parse_date s =
     (if length s \<noteq> 10 \<or> s ! 4 \<noteq> CHR ''-'' \<or> s ! 7 \<noteq> CHR ''-'' then None
      else
        let ys = take 4 s; ms = take 2 (drop 5 s); ds = drop 8 s in
        if \<not> all_digits ys \<or> \<not> all_digits ms \<or> \<not> all_digits ds then None
        else
          let y = digits_value ys; m = digits_value ms; d = digits_value ds in
          if m < 1 \<or> 12 < m \<or> d < 1 \<or> days_in_month y m < d then None
          else Some (days_of_date y m d * 24 * hour))"

section \<open>swebench/scraper.go\<close>

record leaderboardEntry =
  le_Name :: string
  le_Resolved :: f64
  le_Date :: string
  le_Tags :: "string list"

record leaderboard =
  lb_Name :: string
  lb_Results :: "leaderboardEntry list"

record resolvedEntry =
  re_entry :: leaderboardEntry
  re_sourceModelName :: string
  re_slug :: string
  re_modelID :: int
  re_evaluatedAt :: instant

definition model_tag :: string where
  "model_tag = ''Model: ''"

fun extract_loop :: "string list \<Rightarrow> string \<Rightarrow> string \<times> bool" where
  "extract_loop [] model = (model, model \<noteq> [])"
| "extract_loop (tag # tags) model =
     (if \<not> has_prefix tag model_tag then extract_loop tags model
      else let candidate = trim_space (trim_prefix tag model_tag) in
        if candidate = [] then extract_loop tags model
        else if model \<noteq> [] \<and> candidate \<noteq> model then ([], False)
        else extract_loop tags candidate)"

definition extractModelFromTags :: "string list \<Rightarrow> string \<times> bool" where
  "extractModelFromTags tags = extract_loop tags []"

definition betterResolvedEntry :: "resolvedEntry \<Rightarrow> resolvedEntry \<Rightarrow> bool" where
  "betterResolvedEntry a b =
     (if \<not> f64_eq (le_Resolved (re_entry a)) (le_Resolved (re_entry b))
      then f64_lt (le_Resolved (re_entry b)) (le_Resolved (re_entry a))
      else if re_evaluatedAt a \<noteq> re_evaluatedAt b then re_evaluatedAt b < re_evaluatedAt a
      else if le_Name (re_entry a) \<noteq> le_Name (re_entry b)
      then le_Name (re_entry a) < le_Name (re_entry b)
      else re_sourceModelName a < re_sourceModelName b)"

definition selectBestEntries :: "resolvedEntry list \<Rightarrow> int \<rightharpoonup> resolvedEntry" where
  "selectBestEntries entries = select_best betterResolvedEntry re_modelID entries"

datatype bench_error = BenchLookup | BenchFetch | BenchNoLeaderboard | BenchUpsert

definition fetchVerifiedEntries :: "leaderboard list option \<Rightarrow> bench_error + leaderboardEntry list" where
  "fetchVerifiedEntries decoded =
     (case decoded of
        None \<Rightarrow> Inl BenchFetch
      | Some lbs \<Rightarrow>
          (case List.find (\<lambda>lb. lb_Name lb = ''Verified'') lbs of
             None \<Rightarrow> Inl BenchNoLeaderboard | Some lb \<Rightarrow> Inr (lb_Results lb)))"

text \<open>The loop over the entries: what is resolved, the counters and the metric of each resolution.\<close>

record swe_state =
  sw_resolved :: "resolvedEntry list"
  sw_skipped :: nat
  sw_noTag :: nat
  sw_invalidDate :: nat
  sw_outcomes :: "Outcome list"
  sw_db :: pg

definition swe_entry :: "swe_state \<Rightarrow> leaderboardEntry \<Rightarrow> swe_state" where
  "swe_entry st e =
     (if f64_le (le_Resolved e) (Fin 0) then st\<lparr> sw_skipped := sw_skipped st + 1 \<rparr>
      else
        let (modelName, ok) = extractModelFromTags (le_Tags e) in
        if \<not> ok then st\<lparr> sw_noTag := sw_noTag st + 1 \<rparr>
        else
          let (slug, outcome) = ResolveOutcome modelName;
              st1 = st\<lparr> sw_outcomes := sw_outcomes st @ [outcome] \<rparr> in
          if outcome = OutcomeUnknown then st1\<lparr> sw_skipped := sw_skipped st1 + 1 \<rparr>
          else
            let (res, db) = LookupModelIDBySlug slug (sw_db st1); st2 = st1\<lparr> sw_db := db \<rparr> in
            case res of
              Inl _ \<Rightarrow> st2\<lparr> sw_skipped := sw_skipped st2 + 1 \<rparr>
            | Inr modelID \<Rightarrow>
                (case parse_date (le_Date e) of
                   None \<Rightarrow> st2\<lparr> sw_invalidDate := sw_invalidDate st2 + 1 \<rparr>
                 | Some evaluatedAt \<Rightarrow>
                     st2\<lparr> sw_resolved := sw_resolved st2 @
                       [\<lparr> re_entry = e, re_sourceModelName = modelName, re_slug = slug,
                          re_modelID = modelID, re_evaluatedAt = evaluatedAt \<rparr>] \<rparr>))"

definition swe_score :: "(resolvedEntry \<Rightarrow> string) \<Rightarrow> string \<Rightarrow> instant \<Rightarrow> resolvedEntry \<Rightarrow> score_row" where
  "swe_score version benchmarkID observedAt c =
     \<lparr> sr_id = [], sr_model_id = re_modelID c, sr_benchmark_id = benchmarkID,
       sr_raw_score = Some (le_Resolved (re_entry c)),
       sr_normalized_score = Some (le_Resolved (re_entry c)),
       sr_benchmark_version = version c, sr_source_url = ''https://www.swebench.com/'',
       sr_source_model_name = Some (re_sourceModelName c),
       sr_source_entry_name = Some (le_Name (re_entry c)), sr_confidence = ''low'',
       sr_evaluated_at = re_evaluatedAt c, sr_ingested_at = 0, sr_last_observed_at = observedAt \<rparr>"

text \<open>The upserts stop at the first error; what was written before stays.\<close>

fun upsert_scores :: "score_row list \<Rightarrow> pg \<Rightarrow> bool \<times> pg" where
  "upsert_scores [] db = (True, db)"
| "upsert_scores (s # ss) db =
     (case UpsertBenchmarkScore s db of
        (Inl _, db') \<Rightarrow> (False, db') | (Inr _, db') \<Rightarrow> upsert_scores ss db')"

definition swe_Scrape ::
  "(int \<Rightarrow> nat) \<Rightarrow> (resolvedEntry \<Rightarrow> string) \<Rightarrow> leaderboard list option \<Rightarrow> pg
    \<Rightarrow> (bench_error + nat) \<times> pg" where
  "swe_Scrape rank version decoded db =
     (case LookupBenchmarkID ''SWE-bench Verified'' db of
        (Inl _, db1) \<Rightarrow> (Inl BenchLookup, db1)
      | (Inr benchmarkID, db1) \<Rightarrow>
         (case fetchVerifiedEntries decoded of
            Inl e \<Rightarrow> (Inl e, db1)
          | Inr entries \<Rightarrow>
              let observedAt = pg_now db1 (pg_count db1);
                  st = foldl swe_entry \<lparr> sw_resolved = [], sw_skipped = 0, sw_noTag = 0,
                         sw_invalidDate = 0, sw_outcomes = [], sw_db = pg_tick db1 \<rparr> entries;
                  selected = selectBestEntries (sw_resolved st);
                  ids = sort_key rank (remdups (map re_modelID (sw_resolved st)));
                  (ok, db2) = upsert_scores
                    (map (swe_score version benchmarkID observedAt) (List.map_filter selected ids))
                    (sw_db st)
              in (if ok then Inr (length ids) else Inl BenchUpsert, db2)))"

section \<open>livecodebench/scraper.go\<close>

record lcbModel =
  lm_ModelName :: string
  lm_ModelRepr :: string
  lm_ModelStyle :: string

record lcbPerformance =
  lp_Model :: string
  lp_Pass1 :: f64

record lcbData =
  ld_Models :: "lcbModel list"
  ld_Performances :: "lcbPerformance list"

record resolvedModel =
  rm_modelID :: int
  rm_slug :: string
  rm_modelName :: string
  rm_repr :: string
  rm_average :: f64
  rm_count :: int

definition betterResolvedModel :: "resolvedModel \<Rightarrow> resolvedModel \<Rightarrow> bool" where
  "betterResolvedModel a b =
     (if rm_count a \<noteq> rm_count b then rm_count b < rm_count a
      else if rm_repr a \<noteq> rm_repr b then rm_repr a < rm_repr b
      else rm_modelName a < rm_modelName b)"

definition selectBestResolvedModels :: "resolvedModel list \<Rightarrow> int \<rightharpoonup> resolvedModel" where
  "selectBestResolvedModels cs = select_best betterResolvedModel rm_modelID cs"

definition name_model :: "(string \<rightharpoonup> string) \<Rightarrow> lcbModel \<Rightarrow> (string \<rightharpoonup> string)" where
  "name_model reprToName model =
     (case reprToName (lm_ModelRepr model) of
        None \<Rightarrow> reprToName(lm_ModelRepr model \<mapsto> lm_ModelName model)
      | Some current \<Rightarrow>
          if lm_ModelName model < current
          then reprToName(lm_ModelRepr model \<mapsto> lm_ModelName model) else reprToName)"

definition modelNamesByRepresentation :: "lcbModel list \<Rightarrow> string \<rightharpoonup> string" where
  "modelNamesByRepresentation models = foldl name_model Map.empty models"

definition lcb_resolveSlug :: "string \<Rightarrow> string \<Rightarrow> string \<times> Outcome" where
  "lcb_resolveSlug modelName repr =
     (let (slug, outcome) = ResolveOutcome modelName in
      if outcome = OutcomeUnknown then ResolveOutcome repr else (slug, outcome))"

definition lcb_add :: "(string \<rightharpoonup> f64 \<times> int) \<Rightarrow> lcbPerformance \<Rightarrow> (string \<rightharpoonup> f64 \<times> int)" where
  "lcb_add aggs p =
     (let (s, n) = (case aggs (lp_Model p) of None \<Rightarrow> (Fin 0, 0) | Some a \<Rightarrow> a)
      in aggs(lp_Model p \<mapsto> (f64_add s (lp_Pass1 p), n + 1)))"

definition lcb_aggregate :: "lcbPerformance list \<Rightarrow> string \<rightharpoonup> f64 \<times> int" where
  "lcb_aggregate performances = foldl lcb_add Map.empty performances"

record lcb_state =
  lc_candidates :: "resolvedModel list"
  lc_skipped :: nat
  lc_outcomes :: "Outcome list"
  lc_db :: pg

definition lcb_model ::
  "(string \<rightharpoonup> string) \<Rightarrow> (string \<rightharpoonup> f64 \<times> int) \<Rightarrow> lcb_state \<Rightarrow> string \<Rightarrow> lcb_state" where
  "lcb_model reprToName aggs st repr =
     (case aggs repr of
        None \<Rightarrow> st
      | Some (s, n) \<Rightarrow>
          if n = 0 then st
          else
            let avgPass1 = f64_div s (f64_of_int n); modelName = go_get [] reprToName repr;
                (slug, outcome) = lcb_resolveSlug modelName repr;
                st1 = st\<lparr> lc_outcomes := lc_outcomes st @ [outcome] \<rparr> in
            if outcome = OutcomeUnknown then st1\<lparr> lc_skipped := lc_skipped st1 + 1 \<rparr>
            else
              let (res, db) = LookupModelIDBySlug slug (lc_db st1); st2 = st1\<lparr> lc_db := db \<rparr> in
              case res of
                Inl _ \<Rightarrow> st2\<lparr> lc_skipped := lc_skipped st2 + 1 \<rparr>
              | Inr modelID \<Rightarrow>
                  st2\<lparr> lc_candidates := lc_candidates st2 @
                    [\<lparr> rm_modelID = modelID, rm_slug = slug, rm_modelName = modelName,
                       rm_repr = repr, rm_average = avgPass1, rm_count = n \<rparr>] \<rparr>)"

definition lcb_score :: "(resolvedModel \<Rightarrow> string) \<Rightarrow> string \<Rightarrow> instant \<Rightarrow> resolvedModel \<Rightarrow> score_row" where
  "lcb_score version benchmarkID now c =
     \<lparr> sr_id = [], sr_model_id = rm_modelID c, sr_benchmark_id = benchmarkID,
       sr_raw_score = Some (rm_average c), sr_normalized_score = Some (rm_average c),
       sr_benchmark_version = version c,
       sr_source_url = ''https://livecodebench.github.io/leaderboard.html'',
       sr_source_model_name = Some (rm_modelName c), sr_source_entry_name = Some (rm_repr c),
       sr_confidence = ''high'', sr_evaluated_at = now, sr_ingested_at = 0,
       sr_last_observed_at = now \<rparr>"

definition lcb_Scrape ::
  "(string \<Rightarrow> nat) \<Rightarrow> (int \<Rightarrow> nat) \<Rightarrow> (resolvedModel \<Rightarrow> string) \<Rightarrow> lcbData option \<Rightarrow> pg
    \<Rightarrow> (bench_error + nat) \<times> pg" where
  "lcb_Scrape repr_rank id_rank version decoded db =
     (case LookupBenchmarkID ''LiveCodeBench'' db of
        (Inl _, db1) \<Rightarrow> (Inl BenchLookup, db1)
      | (Inr benchmarkID, db1) \<Rightarrow>
         (case decoded of
            None \<Rightarrow> (Inl BenchFetch, db1)
          | Some data \<Rightarrow>
              let reprToName = modelNamesByRepresentation (ld_Models data);
                  aggs = lcb_aggregate (ld_Performances data);
                  now = pg_now db1 (pg_count db1);
                  reprs = sort_key repr_rank (remdups (map lp_Model (ld_Performances data)));
                  st = foldl (lcb_model reprToName aggs)
                         \<lparr> lc_candidates = [], lc_skipped = 0, lc_outcomes = [], lc_db = pg_tick db1 \<rparr>
                         reprs;
                  selected = selectBestResolvedModels (lc_candidates st);
                  ids = sort_key id_rank (remdups (map rm_modelID (lc_candidates st)));
                  (ok, db2) = upsert_scores
                    (map (lcb_score version benchmarkID now) (List.map_filter selected ids)) (lc_db st)
              in (if ok then Inr (length ids) else Inl BenchUpsert, db2)))"

section \<open>Selection does not depend on the order\<close>

definition entry_rank :: "resolvedEntry \<Rightarrow> rat \<times> int \<times> string \<times> string" where
  "entry_rank a = (case le_Resolved (re_entry a) of Fin x \<Rightarrow> - x | _ \<Rightarrow> 0, - re_evaluatedAt a,
     le_Name (re_entry a), re_sourceModelName a)"

definition model_rank :: "resolvedModel \<Rightarrow> int \<times> string \<times> string" where
  "model_rank a = (- rm_count a, rm_repr a, rm_modelName a)"

interpretation swe_choice: ranked_choice betterResolvedEntry re_modelID entry_rank
    "\<lambda>a. f64_finite (le_Resolved (re_entry a))"
proof
  fix a b :: resolvedEntry
  assume "f64_finite (le_Resolved (re_entry a))" "f64_finite (le_Resolved (re_entry b))"
  then obtain x y where xy: "le_Resolved (re_entry a) = Fin x" "le_Resolved (re_entry b) = Fin y"
    by (auto simp: f64_finite_def)
  show "betterResolvedEntry a b \<longleftrightarrow> entry_rank a < entry_rank b"
    by (auto simp: betterResolvedEntry_def entry_rank_def xy lex_step f64_eq_def)
qed

interpretation lcb_choice: ranked_choice betterResolvedModel rm_modelID model_rank "\<lambda>_. True"
  by unfold_locales (auto simp: betterResolvedModel_def model_rank_def lex_step)

section \<open>Evidence is immutable\<close>

text \<open>
  \<open>evidence_grows\<close>: rows are only added at the end, and an existing row changes at most in when it was
  last observed, which never moves back.
\<close>

definition observed_later :: "score_row \<Rightarrow> score_row \<Rightarrow> bool" where
  "observed_later r r' \<longleftrightarrow> r' = r\<lparr> sr_last_observed_at := sr_last_observed_at r' \<rparr> \<and>
     sr_last_observed_at r \<le> sr_last_observed_at r'"

definition evidence_grows :: "pg \<Rightarrow> pg \<Rightarrow> bool" where
  "evidence_grows db db' \<longleftrightarrow> (\<exists>old new. t_scores (pg_tables db') = old @ new \<and>
     list_all2 observed_later (t_scores (pg_tables db)) old)"

lemma observed_later_refl: "observed_later r r"
  by (simp add: observed_later_def)

lemma observed_later_trans: "observed_later a b \<Longrightarrow> observed_later b c \<Longrightarrow> observed_later a c"
  unfolding observed_later_def
  by (metis (no_types, lifting) order_trans score_row.update_convs(13) score_row.surjective
      score_row.select_convs(13))

lemma evidence_grows_same: "t_scores (pg_tables db') = t_scores (pg_tables db) \<Longrightarrow> evidence_grows db db'"
  unfolding evidence_grows_def
  by (intro exI [of _ "t_scores (pg_tables db)"] exI [of _ "[]"])
    (simp add: list_all2_refl observed_later_refl)

lemma evidence_grows_trans:
  assumes "evidence_grows a b" "evidence_grows b c"
  shows "evidence_grows a c"
proof -
  obtain old new where 1: "t_scores (pg_tables b) = old @ new"
    "list_all2 observed_later (t_scores (pg_tables a)) old"
    using assms(1) by (auto simp: evidence_grows_def)
  obtain old' new' where 2: "t_scores (pg_tables c) = old' @ new'"
    "list_all2 observed_later (old @ new) old'"
    using assms(2) 1(1) by (auto simp: evidence_grows_def)
  obtain u v where uv: "old' = u @ v" "list_all2 observed_later old u"
    using 2(2) by (auto simp: list_all2_append1)
  have "list_all2 observed_later (t_scores (pg_tables a)) u"
    using list_all2_trans [OF observed_later_trans 1(2) uv(2)] .
  then show ?thesis
    using 2(1) uv(1) unfolding evidence_grows_def by (intro exI [of _ u] exI [of _ "v @ new'"]) simp
qed

lemma upsert_score_grows:
  assumes "upsert_score s t = Inr (x, t')"
  shows "\<exists>old new. t_scores t' = old @ new \<and> list_all2 observed_later (t_scores t) old"
proof (cases "\<exists>r \<in> set (t_scores t). same_evidence r s")
  case True
  let ?f = "\<lambda>r. if same_evidence r s
      then r\<lparr> sr_last_observed_at := max (sr_last_observed_at r) (sr_last_observed_at s) \<rparr> else r"
  have "observed_later r (?f r)" for r by (simp add: observed_later_def)
  then have "list_all2 observed_later rs (map ?f rs)" for rs
    by (induction rs) simp_all
  moreover have "t_scores t' = map ?f (t_scores t)"
    using True assms by (auto simp: upsert_score_def split: if_splits)
  ultimately have "list_all2 observed_later (t_scores t) (t_scores t')" by simp
  then show ?thesis by (metis append_Nil2)
next
  case False
  then have "t_scores t' = t_scores t @ [s]"
    using assms by (auto simp: upsert_score_def split: if_splits)
  then show ?thesis by (intro exI conjI) (auto intro: list_all2_refl observed_later_refl)
qed

lemma UpsertBenchmarkScore_grows: "evidence_grows db (snd (UpsertBenchmarkScore s db))"
proof (cases "UpsertBenchmarkScore s db")
  case (Pair res db')
  show ?thesis
  proof (cases res)
    case (Inl e)
    then have "pg_tables db' = pg_tables db"
      using stmt_Inl Pair unfolding UpsertBenchmarkScore_def pg_same_def by blast
    then show ?thesis using Pair by (simp add: evidence_grows_same)
  next
    case (Inr x)
    then show ?thesis
      using stmt_Inr [OF Pair [unfolded UpsertBenchmarkScore_def Inr]] upsert_score_grows Pair
      by (auto simp: evidence_grows_def)
  qed
qed

lemma upsert_scores_grows: "evidence_grows db (snd (upsert_scores ss db))"
proof (induction ss arbitrary: db)
  case (Cons s ss)
  obtain res db1 where 1: "UpsertBenchmarkScore s db = (res, db1)" by fastforce
  have g: "evidence_grows db db1" using UpsertBenchmarkScore_grows [of db s] 1 by simp
  show ?case
  proof (cases res)
    case (Inr x)
    then show ?thesis using g evidence_grows_trans Cons.IH [of db1] 1 by simp
  qed (use g 1 in simp)
qed (simp add: evidence_grows_same)

lemma lookup_scores:
  "t_scores (pg_tables (snd (LookupModelIDBySlug slug db))) = t_scores (pg_tables db)"
  "t_scores (pg_tables (snd (LookupBenchmarkID name db))) = t_scores (pg_tables db)"
  using select1_same unfolding LookupModelIDBySlug_def LookupBenchmarkID_def pg_same_def by metis+

lemma swe_entry_scores:
  "t_scores (pg_tables (sw_db (swe_entry st e))) = t_scores (pg_tables (sw_db st))"
  using lookup_scores(1) [of "fst (ResolveOutcome (fst (extractModelFromTags (le_Tags e))))" "sw_db st"]
  by (auto simp: swe_entry_def Let_def case_prod_beta split: sum.split option.split)

lemma swe_entries_scores:
  "t_scores (pg_tables (sw_db (foldl swe_entry st es))) = t_scores (pg_tables (sw_db st))"
  by (rule foldl_frame) (rule swe_entry_scores)

lemma lcb_model_scores:
  "t_scores (pg_tables (lc_db (lcb_model rn aggs st repr))) = t_scores (pg_tables (lc_db st))"
  using lookup_scores(1) [of "fst (lcb_resolveSlug (go_get [] rn repr) repr)" "lc_db st"]
  by (auto simp: lcb_model_def Let_def case_prod_beta split: sum.split option.split)

lemma lcb_models_scores:
  "t_scores (pg_tables (lc_db (foldl (lcb_model rn aggs) st rs))) = t_scores (pg_tables (lc_db st))"
  by (rule foldl_frame) (rule lcb_model_scores)

lemma upsert_scores_after:
  "t_scores (pg_tables db1) = t_scores (pg_tables db) \<Longrightarrow> evidence_grows db (snd (upsert_scores ss db1))"
  using evidence_grows_trans [OF evidence_grows_same upsert_scores_grows] by simp

lemma swe_Scrape_grows: "evidence_grows db (snd (swe_Scrape rank version decoded db))"
proof -
  obtain res db1 where 1: "LookupBenchmarkID ''SWE-bench Verified'' db = (res, db1)" by fastforce
  have t1: "t_scores (pg_tables db1) = t_scores (pg_tables db)" using lookup_scores(2) 1 by (metis snd_conv)
  show ?thesis
    by (auto simp: swe_Scrape_def 1 Let_def case_prod_beta evidence_grows_same pg_tick_def t1
        swe_entries_scores intro!: upsert_scores_after split: sum.split)
qed

lemma lcb_Scrape_grows: "evidence_grows db (snd (lcb_Scrape rr ir version decoded db))"
proof -
  obtain res db1 where 1: "LookupBenchmarkID ''LiveCodeBench'' db = (res, db1)" by fastforce
  have t1: "t_scores (pg_tables db1) = t_scores (pg_tables db)" using lookup_scores(2) 1 by (metis snd_conv)
  show ?thesis
    by (auto simp: lcb_Scrape_def 1 Let_def case_prod_beta evidence_grows_same pg_tick_def t1
        lcb_models_scores intro!: upsert_scores_after split: sum.split option.split)
qed

lemma remdups_single: "remdups (c # cs) = [x] \<longleftrightarrow> x = c \<and> (\<forall>d \<in> set cs. d = c)"
proof
  assume "remdups (c # cs) = [x]"
  then have "set (c # cs) = {x}" by (metis list.set(1) list.set(2) set_remdups)
  then show "x = c \<and> (\<forall>d \<in> set cs. d = c)" by auto
next
  assume "x = c \<and> (\<forall>d \<in> set cs. d = c)"
  moreover have "(\<forall>d \<in> set cs. d = c) \<Longrightarrow> remdups (c # cs) = [c]" by (induction cs) auto
  ultimately show "remdups (c # cs) = [x]" by simp
qed

section \<open>Attribution\<close>

definition model_candidates :: "string list \<Rightarrow> string list" where
  "model_candidates tags = filter (\<lambda>c. c \<noteq> [])
     (map (\<lambda>t. trim_space (trim_prefix t model_tag)) (filter (\<lambda>t. has_prefix t model_tag) tags))"

lemma extract_loop_spec:
  "extract_loop tags model =
    (if model \<noteq> [] then (if \<forall>c \<in> set (model_candidates tags). c = model then (model, True) else ([], False))
     else case model_candidates tags of [] \<Rightarrow> ([], False)
       | c # cs \<Rightarrow> if \<forall>d \<in> set cs. d = c then (c, True) else ([], False))"
proof (induction tags arbitrary: model)
  case (Cons tag tags)
  have ne: "c \<noteq> []" if "c \<in> set (model_candidates ts)" for c ts using that by (auto simp: model_candidates_def)
  show ?case
  proof (cases "has_prefix tag model_tag \<and> trim_space (trim_prefix tag model_tag) \<noteq> []")
    case False
    then show ?thesis using Cons by (auto simp: model_candidates_def Let_def)
  next
    case True
    then show ?thesis using Cons by (auto simp: model_candidates_def Let_def)
  qed
qed (auto simp: model_candidates_def)

section \<open>Properties\<close>

text \<open>
  A leaderboard entry is attributed to a model exactly when its non-empty model tags name one and the
  same model; a system of several models is never attributed to one of them.
\<close>

theorem extractModel_unambiguous:
  "extractModelFromTags tags =
    (case remdups (model_candidates tags) of [c] \<Rightarrow> (c, True) | _ \<Rightarrow> ([], False))"
proof (cases "model_candidates tags")
  case Nil
  then show ?thesis by (simp add: extractModelFromTags_def extract_loop_spec)
next
  case (Cons c cs)
  show ?thesis
  proof (cases "\<forall>d \<in> set cs. d = c")
    case True
    then have "remdups (c # cs) = [c]" by (simp only: remdups_single)
    then show ?thesis using True Cons by (simp only: extractModelFromTags_def extract_loop_spec) simp
  next
    case False
    then have "\<forall>x. remdups (c # cs) \<noteq> [x]" by (metis remdups_single)
    moreover have "(case l of [c] \<Rightarrow> (c, True) | _ \<Rightarrow> ([], False)) = ([] :: string, False)"
      if "\<forall>x. l \<noteq> [x]" for l
      using that by (cases l; cases "tl l") auto
    ultimately have "(case remdups (c # cs) of [c] \<Rightarrow> (c, True) | _ \<Rightarrow> ([], False)) = ([], False)"
      by blast
    moreover have "extractModelFromTags tags = ([], False)"
      using False Cons by (simp only: extractModelFromTags_def extract_loop_spec list.case if_False simp_thms)
    ultimately show ?thesis unfolding Cons by simp
  qed
qed

text \<open>
  Both scrapers choose the same submission for a model in whatever order the leaderboard lists them
  and Go ranges over its maps, and what they choose is best by the declared policy: no entry for the
  model ranks before it.
\<close>

theorem selection_order_irrelevant:
  assumes "\<forall>e \<in> set es. f64_finite (le_Resolved (re_entry e))" and "set es' = set es" and "set ms' = set ms"
  shows "map_option entry_rank (selectBestEntries es' i) = map_option entry_rank (selectBestEntries es i) \<and>
    map_option model_rank (selectBestResolvedModels ms' i) = map_option model_rank (selectBestResolvedModels ms i) \<and>
    (case selectBestEntries es i of
       None \<Rightarrow> \<forall>e \<in> set es. re_modelID e \<noteq> i
     | Some b \<Rightarrow> b \<in> set es \<and> re_modelID b = i \<and>
         (\<forall>e \<in> set es. re_modelID e = i \<longrightarrow> \<not> betterResolvedEntry e b))"
proof (intro conjI)
  have ok: "list_all (\<lambda>a. f64_finite (le_Resolved (re_entry a))) es" using assms(1) by (simp add: list_all_iff)
  have ok': "list_all (\<lambda>a. f64_finite (le_Resolved (re_entry a))) es'" using ok assms(2) by (simp add: list_all_iff)
  show "map_option entry_rank (selectBestEntries es' i) = map_option entry_rank (selectBestEntries es i)"
    unfolding selectBestEntries_def using swe_choice.order_irrelevant [OF ok' assms(2)] .
  show "map_option model_rank (selectBestResolvedModels ms' i) = map_option model_rank (selectBestResolvedModels ms i)"
    unfolding selectBestResolvedModels_def
    by (rule lcb_choice.order_irrelevant) (simp_all add: assms(3) list_all_iff)
  show "case selectBestEntries es i of
       None \<Rightarrow> \<forall>e \<in> set es. re_modelID e \<noteq> i
     | Some b \<Rightarrow> b \<in> set es \<and> re_modelID b = i \<and>
         (\<forall>e \<in> set es. re_modelID e = i \<longrightarrow> \<not> betterResolvedEntry e b)"
  proof (cases "selectBestEntries es i")
    case None
    then have "\<forall>e \<in> set es. re_modelID e \<noteq> i"
      using swe_choice.chosen_None [of es i] by (simp add: selectBestEntries_def)
    then show ?thesis using None by simp
  next
    case (Some b)
    note c = swe_choice.chosen [OF ok Some [unfolded selectBestEntries_def]]
    have "\<not> betterResolvedEntry e b" if "e \<in> set es" "re_modelID e = i" for e
      using c that assms(1) swe_choice.better_rank [of e b] by auto
    then show ?thesis using c Some by simp
  qed
qed

definition demo_entry :: "string \<Rightarrow> f64 \<Rightarrow> resolvedEntry" where
  "demo_entry n x = \<lparr> re_entry = \<lparr> le_Name = n, le_Resolved = x, le_Date = ''2025-01-02'', le_Tags = [] \<rparr>,
     re_sourceModelName = ''gpt-4o'', re_slug = ''openai/gpt-4o'', re_modelID = 7, re_evaluatedAt = 3 \<rparr>"

theorem selection_order_irrelevant_witness:
  "map_option entry_rank (selectBestEntries [demo_entry ''b'' (Fin 30), demo_entry ''a'' (Fin 40)] 7) =
   map_option entry_rank (selectBestEntries [demo_entry ''a'' (Fin 40), demo_entry ''b'' (Fin 30)] 7) \<and>
   map_option (le_Name \<circ> re_entry)
     (selectBestEntries [demo_entry ''b'' (Fin 30), demo_entry ''a'' (Fin 40)] 7) = Some ''a''"
proof
  have "\<forall>e \<in> set [demo_entry ''a'' (Fin 40), demo_entry ''b'' (Fin 30)]. f64_finite (le_Resolved (re_entry e))"
    by (simp add: demo_entry_def f64_finite_def)
  from selection_order_irrelevant [OF this, of "[demo_entry ''b'' (Fin 30), demo_entry ''a'' (Fin 40)]" "[]" "[]" 7]
  show "map_option entry_rank (selectBestEntries [demo_entry ''b'' (Fin 30), demo_entry ''a'' (Fin 40)] 7) =
   map_option entry_rank (selectBestEntries [demo_entry ''a'' (Fin 40), demo_entry ''b'' (Fin 30)] 7)"
    by auto
  show "map_option (le_Name \<circ> re_entry)
     (selectBestEntries [demo_entry ''b'' (Fin 30), demo_entry ''a'' (Fin 40)] 7) = Some ''a''"
    by code_simp
qed

text \<open>
  C13. Evidence is immutable: a run of either scraper, successful or not, in whatever order it writes, keeps
  every row of the evidence table in its place with its scores and provenance, moves the time of
  the last observation only forward, and otherwise only appends rows.
\<close>

theorem scrapes_keep_evidence:
  "evidence_grows db (snd (swe_Scrape rank version decoded db)) \<and>
   evidence_grows db (snd (lcb_Scrape repr_rank id_rank version' decoded' db))"
  by (rule conjI [OF swe_Scrape_grows lcb_Scrape_grows])

end
