(* ===== verification/Signup_Guarantees.thy ===== *)
theory Signup_Guarantees
  imports Signup_Store Traces
begin

text \<open>
  What the signup store guarantees: the constraints hold in every reachable state, a token is
  consumed at most once, a verification is never taken back, and an identity has at most one
  active key, which a replacement swaps for the new one or leaves alone.
\<close>

section \<open>Well-formed tables\<close>

definition active_owners :: "tables \<Rightarrow> string list" where
  "active_owners t = map ky_identity_id (filter (\<lambda>k. ky_status k = ''active'') (t_keys t))"

definition key_consistent :: "key_row \<Rightarrow> bool" where
  "key_consistent k = ((ky_status k = ''active'' \<and> ky_revoked_at k = None) \<or>
     (ky_status k = ''revoked'' \<and> ky_revoked_at k \<noteq> None))"

definition signup_wf :: "tables \<Rightarrow> bool" where
  "signup_wf t \<longleftrightarrow>
     distinct (map id_id (t_identities t)) \<and> distinct (map id_email (t_identities t)) \<and>
     list_all (\<lambda>r. email_check (id_email r)) (t_identities t) \<and>
     distinct (map tk_id (t_tokens t)) \<and> distinct (map tk_token_hash (t_tokens t)) \<and>
     list_all (\<lambda>r. has_identity t (tk_identity_id r)) (t_tokens t) \<and>
     distinct (map ky_id (t_keys t)) \<and> distinct (map ky_provider_key_id (t_keys t)) \<and>
     distinct (active_owners t) \<and>
     list_all (\<lambda>k. has_identity t (ky_identity_id k) \<and> key_consistent k) (t_keys t)"

definition token_spent :: "string \<Rightarrow> tables \<Rightarrow> bool" where
  "token_spent h t = list_ex (\<lambda>r. tk_token_hash r = h \<and> tk_used_at r \<noteq> None) (t_tokens t)"

definition verified :: "string \<Rightarrow> tables \<Rightarrow> instant option" where
  "verified i t = (case filter (\<lambda>r. id_id r = i) (t_identities t) of
     [] \<Rightarrow> None | r # _ \<Rightarrow> id_email_verified_at r)"

text \<open>How the tables may change: \<open>signup_wf\<close> is kept, spent tokens and verifications stay.\<close>

definition signup_evolves :: "tables \<Rightarrow> tables \<Rightarrow> bool" where
  "signup_evolves t t' \<longleftrightarrow> (signup_wf t \<longrightarrow> signup_wf t' \<and>
     (\<forall>h. token_spent h t \<longrightarrow> token_spent h t') \<and>
     (\<forall>i v. verified i t = Some v \<longrightarrow> verified i t' = Some v))"

interpretation signup: table_preorder signup_evolves
  by unfold_locales (auto simp: signup_evolves_def)

section \<open>Each statement keeps the tables well-formed\<close>

lemma has_identity_map:
  "(\<And>r. id_id (f r) = id_id r) \<Longrightarrow>
    has_identity (t\<lparr> t_identities := map f (t_identities t) \<rparr>) = has_identity t"
  by (simp add: has_identity_def fun_eq_iff comp_def)

lemma has_identity_append:
  "has_identity t i \<Longrightarrow> has_identity (t\<lparr> t_identities := t_identities t @ rs \<rparr>) i"
  by (simp add: has_identity_def)

lemma has_identity_other [simp]:
  "has_identity (t\<lparr> t_tokens := x \<rparr>) = has_identity t" "has_identity (t\<lparr> t_keys := y \<rparr>) = has_identity t"
  by (simp_all add: has_identity_def fun_eq_iff)

lemma signup_views [simp]:
  "token_spent h (t\<lparr> t_identities := x \<rparr>) = token_spent h t" "token_spent h (t\<lparr> t_keys := y \<rparr>) = token_spent h t"
  "verified i (t\<lparr> t_tokens := z \<rparr>) = verified i t" "verified i (t\<lparr> t_keys := y \<rparr>) = verified i t"
  "active_owners (t\<lparr> t_identities := x \<rparr>) = active_owners t" "active_owners (t\<lparr> t_tokens := z \<rparr>) = active_owners t"
  by (simp_all add: token_spent_def verified_def active_owners_def)

lemma verified_map:
  assumes "\<And>r. id_id (f r) = id_id r"
    and "\<And>r v. id_email_verified_at r = Some v \<Longrightarrow> id_email_verified_at (f r) = Some v"
    and "verified i t = Some v"
  shows "verified i (t\<lparr> t_identities := map f (t_identities t) \<rparr>) = Some v"
proof -
  have "filter (\<lambda>r. id_id r = i) (map f rs) = map f (filter (\<lambda>r. id_id r = i) rs)" for rs
    using assms(1) by (induction rs) auto
  then show ?thesis using assms(2,3) by (auto simp: verified_def split: list.splits)
qed

lemma identities_map_evolves:
  assumes "\<And>r. id_id (f r) = id_id r" "\<And>r. id_email (f r) = id_email r"
    and "\<And>r v. id_email_verified_at r = Some v \<Longrightarrow> id_email_verified_at (f r) = Some v"
  shows "signup_evolves t (t\<lparr> t_identities := map f (t_identities t) \<rparr>)"
  using assms verified_map [of f, OF assms(1,3)]
  by (auto simp: signup_evolves_def signup_wf_def comp_def list_all_iff has_identity_map)

lemma upsert_identity_evolves:
  assumes "upsert_identity new now t = Inr (x, t')"
  shows "signup_evolves t t'"
proof (cases "filter (\<lambda>r. id_email r = id_email new) (t_identities t)")
  case Nil
  then have t': "t' = t\<lparr> t_identities := t_identities t @ [new] \<rparr>" and new: "\<not> has_identity t (id_id new)"
    and e: "email_check (id_email new)"
    using assms by (auto simp: upsert_identity_def split: if_splits)
  have "id_email new \<notin> id_email ` set (t_identities t)" using Nil by (auto simp: filter_empty_conv)
  moreover have "verified i t' = Some v" if "verified i t = Some v" for i v
    using that by (auto simp: verified_def t' split: list.splits)
  ultimately show ?thesis
    using e new unfolding t' signup_evolves_def signup_wf_def
    by (auto simp: list_all_iff has_identity_append) (auto simp: has_identity_def)
next
  case (Cons r rs)
  then have "t' = t\<lparr> t_identities := map (\<lambda>x. if id_email x = id_email new then x\<lparr> id_updated_at := now \<rparr> else x)
      (t_identities t) \<rparr>"
    using assms by (auto simp: upsert_identity_def split: if_splits)
  then show ?thesis using identities_map_evolves by auto
qed

lemma verify_email_evolves: "verify_email i now t = Inr (x, t') \<Longrightarrow> signup_evolves t t'"
  using identities_map_evolves by (auto simp: verify_email_def split: option.split)

lemma insert_token_evolves: "insert_token new t = Inr (x, t') \<Longrightarrow> signup_evolves t t'"
  by (auto simp: insert_token_def signup_evolves_def signup_wf_def list_all_iff token_spent_def split: if_splits)

lemma tokens_map_evolves:
  assumes "\<And>r. tk_id (f r) = tk_id r" "\<And>r. tk_token_hash (f r) = tk_token_hash r"
    and "\<And>r. tk_identity_id (f r) = tk_identity_id r"
    and "\<And>r. tk_used_at r \<noteq> None \<Longrightarrow> tk_used_at (f r) \<noteq> None"
  shows "signup_evolves t (t\<lparr> t_tokens := map f (t_tokens t) \<rparr>)"
proof -
  have "token_spent h t \<Longrightarrow> token_spent h (t\<lparr> t_tokens := map f (t_tokens t) \<rparr>)" for h
    using assms(2,4) by (force simp: token_spent_def list_ex_iff)
  then show ?thesis
    using assms(1-3) by (auto simp: signup_evolves_def signup_wf_def comp_def list_all_iff)
qed

lemma mark_used_evolves:
  assumes "mark_used i now t = Inr (x, t')"
  shows "signup_evolves t t'"
proof -
  have t': "t' = t\<lparr> t_tokens := map (\<lambda>r. if usable i now r then r\<lparr> tk_used_at := Some now \<rparr> else r) (t_tokens t) \<rparr>"
    using assms by (auto simp: mark_used_def split: if_splits)
  show ?thesis unfolding t' by (rule tokens_map_evolves) auto
qed

lemma prune_tokens_evolves: "prune_tokens now t = Inr (x, t') \<Longrightarrow> signup_evolves t t'"
  by (auto simp: prune_tokens_def Let_def signup_evolves_def signup_wf_def list_all_iff token_spent_def
      list_ex_iff distinct_map_filter)

lemma insert_key_evolves: "insert_key new t = Inr (x, t') \<Longrightarrow> ky_status new = ''active'' \<Longrightarrow>
    ky_revoked_at new = None \<Longrightarrow> signup_evolves t t'"
  by (auto simp: insert_key_def signup_evolves_def signup_wf_def list_all_iff active_owners_def
      filter_empty_conv is_active_def key_consistent_def split: if_splits)

lemma keys_map_evolves:
  assumes "\<And>k. ky_id (f k) = ky_id k" "\<And>k. ky_provider_key_id (f k) = ky_provider_key_id k"
    and "\<And>k. ky_identity_id (f k) = ky_identity_id k"
    and "\<And>k. key_consistent k \<Longrightarrow> key_consistent (f k)"
    and "\<And>k. ky_status (f k) = ''active'' \<Longrightarrow> ky_status k = ''active''"
  shows "signup_evolves t (t\<lparr> t_keys := map f (t_keys t) \<rparr>)"
proof -
  have "active_owners (t\<lparr> t_keys := map f (t_keys t) \<rparr>) =
      map ky_identity_id (filter (\<lambda>k. ky_status (f k) = ''active'')
        (filter (\<lambda>k. ky_status k = ''active'') (t_keys t)))"
  proof -
    have "filter (\<lambda>k. ky_status (f k) = ''active'') ks =
        filter (\<lambda>k. ky_status (f k) = ''active'') (filter (\<lambda>k. ky_status k = ''active'') ks)" for ks
      using assms(5) by (induction ks) auto
    then show ?thesis using assms(3) by (simp add: active_owners_def filter_map comp_def del: filter_filter)
  qed
  then have "distinct (active_owners t) \<Longrightarrow> distinct (active_owners (t\<lparr> t_keys := map f (t_keys t) \<rparr>))"
    by (simp only: active_owners_def distinct_map_filter)
  then show ?thesis
    using assms(1-4) by (auto simp: signup_evolves_def signup_wf_def comp_def list_all_iff)
qed

lemma revoke_key_evolves:
  assumes "revoke_key i p now t = Inr (x, t')"
  shows "signup_evolves t t'"
proof -
  have t': "t' = t\<lparr> t_keys := map (\<lambda>k. if is_active i k \<and> ky_provider_key_id k = p
      then k\<lparr> ky_status := ''revoked'', ky_revoked_at := Some now \<rparr> else k) (t_keys t) \<rparr>"
    using assms by (simp add: revoke_key_def Let_def)
  show ?thesis unfolding t' by (rule keys_map_evolves) (auto simp: key_consistent_def split: if_splits)
qed

section \<open>Each operation moves the tables so\<close>

lemma UpsertIdentity_moves: "moves signup_evolves (UpsertIdentity e ip ua)"
  unfolding UpsertIdentity_def Let_def by (intro signup.rules) (rule upsert_identity_evolves)

lemma MarkEmailVerified_moves: "moves signup_evolves (MarkEmailVerified i)"
  unfolding MarkEmailVerified_def by (intro signup.rules) (auto intro: verify_email_evolves)

lemma InsertToken_moves: "moves signup_evolves (InsertToken i h e)"
  unfolding InsertToken_def by (intro signup.rules) (rule insert_token_evolves)

lemma ConsumeToken_moves: "moves signup_evolves (ConsumeToken h)"
proof -
  have d: "moves signup_evolves (disambiguate i)" for i
    unfolding disambiguate_def by (intro signup.rules) (auto split: prod.split)
  have u: "moves signup_evolves (stmt (mark_used i now))" for i now
    by (rule signup.moves_stmt) (rule mark_used_evolves)
  have "moves signup_evolves (consume_tx h begun)" for begun
    unfolding consume_tx_def
    by (intro signup.rules) (auto split: prod.split intro!: signup.rules d u)
  then show ?thesis
    by (auto simp: ConsumeToken_def intro!: signup.rules)
qed

lemma DeleteExpiredTokens_moves: "moves signup_evolves DeleteExpiredTokens"
  unfolding DeleteExpiredTokens_def
  by (rule moves_at) (rule signup.moves_stmt, rule prune_tokens_evolves)

lemma add_key_moves: "moves signup_evolves (add_key i p now)"
  unfolding add_key_def
  by (rule moves_at, intro signup.rules) (rule insert_key_evolves, assumption, simp_all)

lemma InsertKey_moves: "moves signup_evolves (InsertKey i p)"
  by (auto simp: InsertKey_def Let_def intro!: signup.rules add_key_moves)

lemma RevokeKey_moves: "moves signup_evolves (RevokeKey i p)"
  unfolding RevokeKey_def Let_def
  by (intro signup.rules) (auto intro: revoke_key_evolves)

lemma RevokeAndInsertKey_moves: "moves signup_evolves (RevokeAndInsertKey i old new)"
proof -
  have "moves signup_evolves (stmt (revoke_key i old begun))" for begun
    by (rule signup.moves_stmt) (rule revoke_key_evolves)
  then show ?thesis
    by (auto simp: RevokeAndInsertKey_def replace_tx_def Let_def intro!: signup.rules add_key_moves
        revoke_key_evolves)
qed

section \<open>Runs of the store\<close>

datatype signup_op =
    OpUpsertIdentity string string string
  | OpMarkEmailVerified string
  | OpInsertToken string string instant
  | OpConsumeToken string
  | OpDeleteExpired
  | OpInsertKey string string
  | OpRevokeKey string string
  | OpReplaceKey string string string

definition succeeds :: "'a db \<Rightarrow> pg \<Rightarrow> bool \<times> pg" where
  "succeeds m db = (case m db of (Inl _, db') \<Rightarrow> (False, db') | (Inr _, db') \<Rightarrow> (True, db'))"

fun exec :: "signup_op \<Rightarrow> pg \<Rightarrow> bool \<times> pg" where
  "exec (OpUpsertIdentity e ip ua) = succeeds (UpsertIdentity e ip ua)"
| "exec (OpMarkEmailVerified i) = succeeds (MarkEmailVerified i)"
| "exec (OpInsertToken i h e) = succeeds (InsertToken i h e)"
| "exec (OpConsumeToken h) = succeeds (ConsumeToken h)"
| "exec OpDeleteExpired = succeeds DeleteExpiredTokens"
| "exec (OpInsertKey i p) = succeeds (InsertKey i p)"
| "exec (OpRevokeKey i p) = succeeds (RevokeKey i p)"
| "exec (OpReplaceKey i old new) = succeeds (RevokeAndInsertKey i old new)"

lemma succeeds_moves: "moves R m \<Longrightarrow> succeeds m db = (ok, db') \<Longrightarrow> R (pg_tables db) (pg_tables db')"
  by (auto simp: succeeds_def split: prod.splits sum.splits dest: moves_apply)

lemma exec_evolves: "exec op db = (ok, db') \<Longrightarrow> signup_evolves (pg_tables db) (pg_tables db')"
  by (cases op) (auto elim!: succeeds_moves [rotated] intro: UpsertIdentity_moves MarkEmailVerified_moves
      InsertToken_moves ConsumeToken_moves DeleteExpiredTokens_moves InsertKey_moves RevokeKey_moves
      RevokeAndInsertKey_moves)

lemma run_evolves: "run_all exec ops db = (oks, db') \<Longrightarrow> signup_evolves (pg_tables db) (pg_tables db')"
proof (induction ops arbitrary: db oks)
  case (Cons op ops)
  obtain ok db1 oks' where r: "exec op db = (ok, db1)" "run_all exec ops db1 = (oks', db')"
    using run_all_Cons [OF Cons.prems] .
  show ?case using signup.trans [OF exec_evolves [OF r(1)] Cons.IH [OF r(2)]] .
qed (simp add: signup.refl)

section \<open>Consuming a token\<close>

lemma on_no_rows_success:
  assumes "db_on_no_rows alt m db = (Inr x, db')" "\<And>d d'. alt d \<noteq> (Inr x, d')"
  shows "m db = (Inr x, db')"
  using assms by (auto simp: db_on_no_rows_def split: prod.splits sum.splits db_error.splits)

lemma select1_Inr:
  assumes "select1 q db = (Inr x, db')"
  shows "(\<exists>ys. q (pg_tables db) = x # ys) \<and> pg_tables db' = pg_tables db"
  using assms
  by (auto simp: select1_def stmt_def first_row_def pg_tick_def split: if_splits sum.splits list.splits)

lemma disambiguate_fails: "disambiguate i d \<noteq> (Inr x, d')"
  by (auto simp: disambiguate_def db_bind_def db_throw_def split: prod.splits sum.splits)

lemma consume_tx_Inr:
  assumes "consume_tx h begun d = (Inr m, d')"
  obtains r rs now where "filter (\<lambda>r. tk_token_hash r = h) (t_tokens (pg_tables d)) = r # rs"
    "tk_used_at r = None" "mark_used (tk_id r) now (pg_tables d) = Inr (now, pg_tables d')"
    "m = (scanToken r)\<lparr> mlt_UsedAt := Some now \<rparr>"
proof -
  obtain r serverNow d1 where sel: "db_on_no_rows (db_throw ErrNotFound)
       (at_clock (\<lambda>now. select1 (\<lambda>t. map (\<lambda>r. (r, now))
          (filter (\<lambda>r. tk_token_hash r = h) (t_tokens t))))) d = (Inr (r, serverNow), d1)"
    and cont: "(if tk_used_at r \<noteq> None then db_throw ErrTokenConsumed
       else if \<not> serverNow < tk_expires_at r then db_throw ErrTokenExpired
       else db_bind (db_on_no_rows (disambiguate (tk_id r)) (at_clock (\<lambda>now. stmt (mark_used (tk_id r) now))))
            (\<lambda>usedAt. db_return ((scanToken r)\<lparr> mlt_UsedAt := Some usedAt \<rparr>))) d1 = (Inr m, d')"
    using assms unfolding consume_tx_def by (auto simp: db_bind_Inr split: prod.splits)
  from on_no_rows_success [OF sel] have
    "select1 (\<lambda>t. map (\<lambda>r. (r, pg_now d (pg_count d))) (filter (\<lambda>r. tk_token_hash r = h) (t_tokens t))) d
      = (Inr (r, serverNow), d1)"
    by (simp add: db_throw_def at_clock_def)
  from select1_Inr [OF this] obtain rs where
    rows: "filter (\<lambda>r. tk_token_hash r = h) (t_tokens (pg_tables d)) = r # rs" and t1: "pg_tables d1 = pg_tables d"
    by (auto simp: Cons_eq_map_conv map_eq_Cons_conv)
  have unused: "tk_used_at r = None" using cont by (auto simp: db_throw_def split: if_splits)
  obtain now d2 where "db_on_no_rows (disambiguate (tk_id r)) (at_clock (\<lambda>now. stmt (mark_used (tk_id r) now))) d1 = (Inr now, d2)"
    and fin: "d' = d2" "m = (scanToken r)\<lparr> mlt_UsedAt := Some now \<rparr>"
    using cont by (auto simp: db_throw_def db_bind_Inr db_return_def split: if_splits)
  then have "stmt (mark_used (tk_id r) (pg_now d1 (pg_count d1))) d1 = (Inr now, d2)"
    using on_no_rows_success disambiguate_fails by (fastforce simp: at_clock_def)
  from stmt_Inr [OF this]
  have "mark_used (tk_id r) (pg_now d1 (pg_count d1)) (pg_tables d1) = Inr (now, pg_tables d2)" by simp
  moreover then have "now = pg_now d1 (pg_count d1)" by (auto simp: mark_used_def split: if_splits)
  ultimately show thesis using that [OF rows unused] t1 fin by simp
qed

lemma distinct_map_unique: "distinct (map f xs) \<Longrightarrow> x \<in> set xs \<Longrightarrow> y \<in> set xs \<Longrightarrow> f x = f y \<Longrightarrow> x = y"
  by (auto simp: distinct_map inj_on_def)

lemma ConsumeToken_spends:
  assumes wf: "signup_wf (pg_tables db)" and run: "ConsumeToken h db = (Inr m, db')"
  shows "\<not> token_spent h (pg_tables db) \<and> token_spent h (pg_tables db')"
proof -
  obtain d1 d2 where t: "pg_tables d1 = pg_tables db" "pg_tables db' = pg_tables d2"
    and body: "consume_tx h (pg_now db (pg_count db)) d1 = (Inr m, d2)"
    using run by (auto simp: ConsumeToken_def db_throw_def pg_same_def split: if_splits elim!: transaction_Inr)
  obtain r rs now where r: "filter (\<lambda>r. tk_token_hash r = h) (t_tokens (pg_tables d1)) = r # rs"
    "tk_used_at r = None" "mark_used (tk_id r) now (pg_tables d1) = Inr (now, pg_tables d2)"
    using consume_tx_Inr [OF body] by metis
  let ?ts = "t_tokens (pg_tables db)"
  have mem: "r \<in> set ?ts" "tk_token_hash r = h"
    using r(1) t by (metis (mono_tags) filter_eq_ConsD in_set_conv_decomp list.set_intros(1) mem_Collect_eq set_filter)+
  have ids: "distinct (map tk_id ?ts)" "distinct (map tk_token_hash ?ts)"
    using wf by (simp_all add: signup_wf_def)
  have "\<not> token_spent h (pg_tables db)"
  proof
    assume "token_spent h (pg_tables db)"
    then obtain r' where "r' \<in> set ?ts" "tk_token_hash r' = h" "tk_used_at r' \<noteq> None"
      unfolding token_spent_def list_ex_iff by blast
    then show False using distinct_map_unique [OF ids(2) mem(1), of r'] mem(2) r(2) by simp
  qed
  moreover have "usable (tk_id r) now r"
  proof -
    have "filter (usable (tk_id r) now) ?ts \<noteq> []" using r(3) t by (auto simp: mark_used_def split: if_splits)
    then obtain r' where "r' \<in> set ?ts" "usable (tk_id r) now r'" by (auto simp: filter_empty_conv)
    then have "r' = r" using distinct_map_unique [OF ids(1) mem(1), of r'] by (simp add: usable_def)
    then show ?thesis using \<open>usable (tk_id r) now r'\<close> by simp
  qed
  moreover have "t_tokens (pg_tables d2) =
      map (\<lambda>r. if usable (tk_id r') now r then r\<lparr> tk_used_at := Some now \<rparr> else r) ?ts" if "r' = r" for r'
    using r(3) t that by (auto simp: mark_used_def split: if_splits dest!: arg_cong [where f = t_tokens])
  ultimately have "r\<lparr> tk_used_at := Some now \<rparr> \<in> set (t_tokens (pg_tables d2))"
    using mem(1) by (auto intro!: image_eqI [where x = r])
  then have "token_spent h (pg_tables db')"
    using mem(2) unfolding token_spent_def list_ex_iff t
    by (intro bexI [where x = "r\<lparr> tk_used_at := Some now \<rparr>"]) simp_all
  with \<open>\<not> token_spent h (pg_tables db)\<close> show ?thesis by simp
qed

interpretation token: one_shot exec "\<lambda>db. signup_wf (pg_tables db)" "\<lambda>db. token_spent h (pg_tables db)"
  "\<lambda>op ok. op = OpConsumeToken h \<and> ok" for h
proof
  fix op db ok db'
  assume wf: "signup_wf (pg_tables db)" and run: "exec op db = (ok, db')"
  have ev: "signup_evolves (pg_tables db) (pg_tables db')" using exec_evolves [OF run] .
  show "signup_wf (pg_tables db')" using ev wf by (simp add: signup_evolves_def)
  show "token_spent h (pg_tables db')" if "op = OpConsumeToken h \<and> ok"
    using that run ConsumeToken_spends [OF wf, of h]
    by (auto simp: succeeds_def split: prod.splits sum.splits)
  show "token_spent h (pg_tables db') \<and> \<not> (op = OpConsumeToken h \<and> ok)" if "token_spent h (pg_tables db)"
    using that ev wf run ConsumeToken_spends [OF wf, of h]
    by (auto simp: signup_evolves_def succeeds_def split: prod.splits sum.splits)
qed

section \<open>A link that was sent works until it expires\<close>

text \<open>
  \<open>link_open i h e t\<close>: the token with hash \<open>h\<close> waits for identity \<open>i\<close> until \<open>e\<close>.
\<close>

definition link_open :: "string \<Rightarrow> string \<Rightarrow> instant \<Rightarrow> tables \<Rightarrow> bool" where
  "link_open i h e t = list_ex (\<lambda>r. tk_token_hash r = h \<and> tk_identity_id r = i \<and>
     tk_expires_at r = e \<and> tk_used_at r = None) (t_tokens t)"

interpretation same_tokens: table_preorder "\<lambda>t t'. t_tokens t' = t_tokens t"
  by unfold_locales auto

lemma exec_other_tokens:
  assumes "exec op db = (ok, db')"
    "op \<notin> range OpConsumeToken \<union> {OpDeleteExpired} \<union> {OpInsertToken i h e |i h e. True}"
  shows "t_tokens (pg_tables db') = t_tokens (pg_tables db)"
proof -
  let ?R = "\<lambda>t t'. t_tokens t' = t_tokens t"
  have add: "moves ?R (add_key i p now)" for i p now
    unfolding add_key_def by (rule moves_at, intro same_tokens.rules) (auto simp: insert_key_def split: if_splits)
  have rev: "moves ?R (stmt (revoke_key i p now))" for i p now
    by (rule same_tokens.moves_stmt) (auto simp: revoke_key_def Let_def)
  have "moves ?R (UpsertIdentity e ip ua)" for e ip ua
    unfolding UpsertIdentity_def Let_def
    by (intro same_tokens.rules) (auto simp: upsert_identity_def split: if_splits list.splits)
  moreover have "moves ?R (MarkEmailVerified i)" for i
    unfolding MarkEmailVerified_def by (intro same_tokens.rules) (auto simp: verify_email_def)
  moreover have "moves ?R (InsertKey i p)" for i p
    by (auto simp: InsertKey_def Let_def intro!: same_tokens.rules add)
  moreover have "moves ?R (RevokeKey i p)" for i p
    unfolding RevokeKey_def Let_def by (intro same_tokens.rules) (auto simp: revoke_key_def Let_def)
  moreover have "moves ?R (RevokeAndInsertKey i old new)" for i old new
    by (auto simp: RevokeAndInsertKey_def replace_tx_def Let_def intro!: same_tokens.rules add rev
        simp: revoke_key_def)
  ultimately show ?thesis
    using assms by (cases op) (auto elim!: succeeds_moves [rotated])
qed

lemma link_open_iff: "link_open i h e t \<longleftrightarrow> (\<exists>r \<in> set (t_tokens t). tk_token_hash r = h \<and>
    tk_identity_id r = i \<and> tk_expires_at r = e \<and> tk_used_at r = None)"
  by (simp add: link_open_def list_ex_iff)

text \<open>A run of operations whose clock readings all come before \<open>e\<close> does not lose the link.\<close>

definition clock_before :: "instant \<Rightarrow> pg \<Rightarrow> pg \<Rightarrow> bool" where
  "clock_before e db db' \<longleftrightarrow> mono (pg_now db) \<and> pg_now db (pg_count db') < e"

lemma consume_other_link:
  assumes wf: "signup_wf (pg_tables db)" and run: "ConsumeToken h' db = (res, db')" and "h' \<noteq> h"
    and link: "link_open i h e (pg_tables db)"
  shows "link_open i h e (pg_tables db')"
proof (cases res)
  case (Inl err)
  then have "pg_tables db' = pg_tables db"
    using run transaction_rolls_back by (auto simp: ConsumeToken_def db_throw_def split: if_splits)
  then show ?thesis using link by simp
next
  case (Inr m)
  obtain d1 d2 where t: "pg_tables d1 = pg_tables db" "pg_tables db' = pg_tables d2"
    and body: "consume_tx h' (pg_now db (pg_count db)) d1 = (Inr m, d2)"
    using run Inr by (auto simp: ConsumeToken_def db_throw_def pg_same_def split: if_splits elim!: transaction_Inr)
  obtain r rs now where r: "filter (\<lambda>r. tk_token_hash r = h') (t_tokens (pg_tables d1)) = r # rs"
    "mark_used (tk_id r) now (pg_tables d1) = Inr (now, pg_tables d2)"
    using consume_tx_Inr [OF body] by metis
  have mem: "r \<in> set (t_tokens (pg_tables db))" "tk_token_hash r = h'"
    using r(1) t by (metis (mono_tags) filter_eq_ConsD in_set_conv_decomp list.set_intros(1) mem_Collect_eq set_filter)+
  obtain q where q: "q \<in> set (t_tokens (pg_tables db))" "tk_token_hash q = h" "tk_identity_id q = i"
    "tk_expires_at q = e" "tk_used_at q = None"
    using link by (auto simp: link_open_iff)
  have "distinct (map tk_id (t_tokens (pg_tables db)))" using wf by (simp add: signup_wf_def)
  then have "tk_id q \<noteq> tk_id r" using distinct_map_unique [of tk_id _ q r] q mem assms(3) by auto
  moreover have "t_tokens (pg_tables d2) = map (\<lambda>x. if usable (tk_id r) now x then x\<lparr> tk_used_at := Some now \<rparr> else x)
      (t_tokens (pg_tables db))"
    using r(2) t by (auto simp: mark_used_def split: if_splits dest!: arg_cong [where f = t_tokens])
  ultimately have "q \<in> set (t_tokens (pg_tables db'))"
    using q(1) t by (auto simp: usable_def image_iff intro!: bexI [where x = q])
  then show ?thesis using q by (auto simp: link_open_iff)
qed

lemma prune_keeps_link:
  assumes "DeleteExpiredTokens db = (res, db')" "pg_now db (pg_count db) < e"
    and "link_open i h e (pg_tables db)"
  shows "link_open i h e (pg_tables db')"
  using assms
  by (auto simp: DeleteExpiredTokens_def stmt_def prune_tokens_def Let_def link_open_iff pg_tick_def
      split: if_splits)

interpretation more_tokens: table_preorder "\<lambda>t t'. set (t_tokens t) \<subseteq> set (t_tokens t')"
  by unfold_locales auto

lemma insert_token_keeps_link:
  assumes "InsertToken i' h' e' db = (res, db')" "link_open i h e (pg_tables db)"
  shows "link_open i h e (pg_tables db')"
proof -
  have "moves (\<lambda>t t'. set (t_tokens t) \<subseteq> set (t_tokens t')) (InsertToken i' h' e')"
    unfolding InsertToken_def
    by (intro more_tokens.rules) (auto simp: insert_token_def split: if_splits)
  then show ?thesis using assms moves_apply by (fastforce simp: link_open_iff)
qed

lemma succeeds_run: "succeeds m db = (ok, db') \<Longrightarrow> \<exists>res. m db = (res, db')"
  by (auto simp: succeeds_def split: prod.splits sum.splits)

lemma succeeds_framed: "framed m \<Longrightarrow> succeeds m db = (ok, db') \<Longrightarrow> pg_frame db db'"
  using succeeds_run framed_apply by metis

lemma exec_frame: "exec op db = (ok, db') \<Longrightarrow> pg_frame db db'"
proof -
  have add: "framed (add_key i p now)" for i p now
    unfolding add_key_def by (rule framed_at, intro framed_rules)
  have "framed (disambiguate i :: instant db)" for i
    unfolding disambiguate_def by (intro framed_rules) (auto split: prod.split intro: framed_rules)
  then have "framed (consume_tx h begun)" for h begun
    unfolding consume_tx_def by (auto intro!: framed_rules split: prod.split)
  then have "framed (ConsumeToken h)" for h
    by (auto simp: ConsumeToken_def intro!: framed_rules)
  moreover have "framed (UpsertIdentity e ip ua)" for e ip ua
    unfolding UpsertIdentity_def Let_def by (intro framed_rules)
  moreover have "framed (MarkEmailVerified i)" for i
    unfolding MarkEmailVerified_def by (intro framed_rules) (auto intro: framed_rules)
  moreover have "framed (InsertToken i h e)" for i h e
    unfolding InsertToken_def by (intro framed_rules)
  moreover have "framed DeleteExpiredTokens"
    unfolding DeleteExpiredTokens_def by (rule framed_at, rule framed_stmt)
  moreover have "framed (InsertKey i p)" for i p
    by (auto simp: InsertKey_def Let_def intro!: framed_rules add)
  moreover have "framed (RevokeKey i p)" for i p
    unfolding RevokeKey_def Let_def by (intro framed_rules) (auto intro: framed_rules)
  moreover have "framed (RevokeAndInsertKey i old new)" for i old new
    by (auto simp: RevokeAndInsertKey_def replace_tx_def Let_def intro!: framed_rules add)
  ultimately show "exec op db = (ok, db') \<Longrightarrow> pg_frame db db'"
    by (cases op) (auto elim!: succeeds_framed [rotated])
qed

lemma exec_keeps_link:
  assumes run: "exec op db = (ok, db')" and wf: "signup_wf (pg_tables db)" and op: "op \<noteq> OpConsumeToken h"
    and link: "link_open i h e (pg_tables db)" and "pg_now db (pg_count db) < e"
  shows "link_open i h e (pg_tables db')"
proof (cases "op \<in> range OpConsumeToken \<union> {OpDeleteExpired} \<union> {OpInsertToken i h e |i h e. True}")
  case False
  then show ?thesis using exec_other_tokens [OF run] link by (simp add: link_open_def)
next
  case True
  then consider h' where "op = OpConsumeToken h'" | "op = OpDeleteExpired" | i' h' e' where "op = OpInsertToken i' h' e'"
    by auto
  then show ?thesis
  proof cases
    case 1
    then show ?thesis using run op succeeds_run consume_other_link [OF wf _ _ link] by (metis exec.simps(4))
  next
    case 2
    then show ?thesis using run succeeds_run prune_keeps_link [OF _ assms(5) link] by (metis exec.simps(5))
  next
    case 3
    then show ?thesis using run succeeds_run insert_token_keeps_link [OF _ link] by (metis exec.simps(3))
  qed
qed

lemma run_keeps_link:
  assumes "run_all exec ops db = (oks, db')" "signup_wf (pg_tables db)" "OpConsumeToken h \<notin> set ops"
    "link_open i h e (pg_tables db)" "clock_before e db db'"
  shows "link_open i h e (pg_tables db') \<and> pg_frame db db'"
  using assms
proof (induction ops arbitrary: db oks)
  case (Cons op ops)
  obtain ok d oks' where r: "exec op db = (ok, d)" "run_all exec ops d = (oks', db')"
    using run_all_Cons [OF Cons.prems(1)] by metis
  have fr: "pg_frame db d" using exec_frame [OF r(1)] .
  have "pg_frame d db'"
    using run_all_invariant [of "pg_frame d" d exec ops oks' db'] exec_frame pg_frame_trans r(2) by auto
  then have "pg_frame db db'" using fr pg_frame_trans by blast
  then have "pg_now db (pg_count db) < e"
    using Cons.prems(5) by (auto simp: clock_before_def pg_frame_def dest: monoD [of _ "pg_count db"])
  moreover have "op \<noteq> OpConsumeToken h" using Cons.prems(3) by auto
  ultimately have "link_open i h e (pg_tables d)"
    using exec_keeps_link [OF r(1) Cons.prems(2)] Cons.prems(4) by blast
  moreover have "signup_wf (pg_tables d)"
    using exec_evolves [OF r(1)] Cons.prems(2) by (simp add: signup_evolves_def)
  moreover have "clock_before e d db'" using Cons.prems(5) fr by (auto simp: clock_before_def pg_frame_def)
  ultimately show ?case
    using Cons.IH [OF r(2)] Cons.prems(3) \<open>pg_frame db db'\<close> by simp
qed simp

text \<open>A consumption that nothing disturbs.\<close>

lemma consume_open_link:
  assumes wf: "signup_wf (pg_tables db)" and link: "link_open i h e (pg_tables db)"
    and up: "\<And>n. \<not> pg_fault db n" and clock: "\<And>n. n \<le> pg_count db + 2 \<Longrightarrow> pg_now db n < e"
    and "h \<noteq> []"
  shows "\<exists>m db'. ConsumeToken h db = (Inr m, db') \<and> mlt_IdentityID m = i \<and> mlt_UsedAt m \<noteq> None"
proof -
  obtain q where q: "q \<in> set (t_tokens (pg_tables db))" "tk_token_hash q = h" "tk_identity_id q = i"
    "tk_expires_at q = e" "tk_used_at q = None"
    using link by (auto simp: link_open_iff)
  have "distinct (map tk_token_hash (t_tokens (pg_tables db)))" using wf by (simp add: signup_wf_def)
  then have "\<forall>r \<in> set (t_tokens (pg_tables db)). tk_token_hash r = h \<longrightarrow> r = q"
    using distinct_map_unique [of tk_token_hash _ _ q] q by auto
  note only = this
  obtain q' rs where rows': "filter (\<lambda>r. tk_token_hash r = h) (t_tokens (pg_tables db)) = q' # rs"
    using q(1,2) by (cases "filter (\<lambda>r. tk_token_hash r = h) (t_tokens (pg_tables db))")
      (auto simp: filter_empty_conv)
  have "q' \<in> set (filter (\<lambda>r. tk_token_hash r = h) (t_tokens (pg_tables db)))" unfolding rows' by simp
  then have "q' = q" using only by (simp only: set_filter mem_Collect_eq)
  then have rows: "filter (\<lambda>r. tk_token_hash r = h) (t_tokens (pg_tables db)) = q # rs" using rows' by simp
  have "usable (tk_id q) (pg_now db (Suc (Suc (pg_count db)))) q" 
    using q clock [of "Suc (Suc (pg_count db))"] by (simp add: usable_def)
  then have use: "filter (usable (tk_id q) (pg_now db (Suc (Suc (pg_count db))))) (t_tokens (pg_tables db)) \<noteq> []"
    using q(1) by (auto simp: filter_empty_conv)
  have "pg_now db (Suc (pg_count db)) < e" using clock by simp
  then show ?thesis
    using assms(5) q use
    by (simp add: ConsumeToken_def transaction_def stmt_def up pg_tick_def consume_tx_def db_bind_def
        db_on_no_rows_def at_clock_def select1_def first_row_def rows mark_used_def db_return_def scanToken_def)
qed

section \<open>Replacing a key\<close>

definition active_keys :: "string \<Rightarrow> tables \<Rightarrow> string list" where
  "active_keys i t = map ky_provider_key_id (filter (is_active i) (t_keys t))"

lemma active_owners_count:
  assumes "signup_wf t"
  shows "length (active_keys i t) \<le> 1"
proof -
  have "length (filter (is_active i) ks) = count_list (map ky_identity_id (filter (\<lambda>k. ky_status k = ''active'') ks)) i" for ks
    by (induction ks) (auto simp: is_active_def)
  moreover have "count_list os i \<le> 1" if "distinct os" for os
    using that by (induction os) (auto simp: count_list_0_iff)
  moreover have "distinct (active_owners t)" using assms by (simp add: signup_wf_def)
  ultimately show ?thesis by (simp add: active_keys_def active_owners_def)
qed

lemma add_key_Inr:
  assumes "add_key i p now db = (Inr k, db')"
  shows "active_keys i (pg_tables db) = [] \<and>
    (\<forall>j. active_keys j (pg_tables db') = active_keys j (pg_tables db) @ (if j = i then [p] else [])) \<and>
    kr_ProviderKeyID k = p \<and> kr_IdentityID k = i"
proof -
  let ?new = "\<lparr> ky_id = pg_uuid db (pg_count db), ky_identity_id = i, ky_provider_key_id = p,
    ky_status = ''active'', ky_created_at = now, ky_revoked_at = None \<rparr>"
  obtain r where st: "stmt (insert_key ?new) db = (Inr r, db')" and k: "k = scanKey r"
    using assms by (auto simp: add_key_def db_map_error_def db_bind_def db_return_def split: prod.splits sum.splits)
  from stmt_Inr [OF st] have "insert_key ?new (pg_tables db) = Inr (r, pg_tables db')" by simp
  then have r: "r = ?new" and none: "filter (is_active i) (t_keys (pg_tables db)) = []"
    and t: "t_keys (pg_tables db') = t_keys (pg_tables db) @ [?new]"
    by (auto simp: insert_key_def split: if_splits dest!: arg_cong [where f = t_keys])
  show ?thesis
    using none by (simp add: active_keys_def t k r scanKey_def) (simp add: is_active_def)
qed

lemma active_keys_revoke:
  "active_keys j (t\<lparr> t_keys := map (\<lambda>k. if is_active i k \<and> ky_provider_key_id k = p
      then k\<lparr> ky_status := ''revoked'', ky_revoked_at := r \<rparr> else k) (t_keys t) \<rparr>) =
   filter (\<lambda>q. \<not> (j = i \<and> q = p)) (active_keys j t)"
proof -
  have "map ky_provider_key_id (filter (is_active j) (map (\<lambda>k. if is_active i k \<and> ky_provider_key_id k = p
      then k\<lparr> ky_status := ''revoked'', ky_revoked_at := r \<rparr> else k) ks)) =
    filter (\<lambda>q. \<not> (j = i \<and> q = p)) (map ky_provider_key_id (filter (is_active j) ks))" for ks
    by (induction ks) (auto simp: is_active_def)
  then show ?thesis by (simp add: active_keys_def)
qed

lemma replace_tx_Inr:
  assumes "replace_tx i old new begun d = (Inr k, d')"
  shows "(\<forall>q \<in> set (active_keys i (pg_tables d)). old \<noteq> [] \<and> q = old) \<and>
    active_keys i (pg_tables d') = [new] \<and>
    (\<forall>j. j \<noteq> i \<longrightarrow> active_keys j (pg_tables d') = active_keys j (pg_tables d)) \<and>
    kr_ProviderKeyID k = new \<and> kr_IdentityID k = i"
proof -
  obtain n d1 where step: "(if old = [] then db_return 0 else stmt (revoke_key i old begun)) d = (Inr n, d1)"
    and add: "add_key i new begun d1 = (Inr k, d')"
    using assms by (auto simp: replace_tx_def db_bind_Inr)
  have mid: "active_keys j (pg_tables d1) =
      filter (\<lambda>q. \<not> (old \<noteq> [] \<and> j = i \<and> q = old)) (active_keys j (pg_tables d))" for j
  proof (cases "old = []")
    case True
    then show ?thesis using step by (simp add: db_return_def)
  next
    case False
    then have "revoke_key i old begun (pg_tables d) = Inr (n, pg_tables d1)"
      using step stmt_Inr [of "revoke_key i old begun" d n d1] by simp
    then show ?thesis
      using active_keys_revoke [of j i old "Some begun" "pg_tables d"] False
      by (auto simp: revoke_key_def Let_def)
  qed
  show ?thesis
    using add_key_Inr [OF add] mid by (auto simp: filter_empty_conv)
qed

lemma RevokeAndInsertKey_cases:
  assumes "RevokeAndInsertKey i old new db = (res, db')"
  shows "case res of
      Inl e \<Rightarrow> pg_tables db' = pg_tables db
    | Inr k \<Rightarrow> active_keys i (pg_tables db') = [trim_space new] \<and> kr_ProviderKeyID k = trim_space new \<and>
        set (active_keys i (pg_tables db)) \<subseteq> {old} - {[]} \<and>
        (\<forall>j. j \<noteq> i \<longrightarrow> active_keys j (pg_tables db') = active_keys j (pg_tables db))"
proof (cases res)
  case (Inl e)
  then show ?thesis
    using assms transaction_rolls_back
    by (auto simp: RevokeAndInsertKey_def Let_def db_throw_def split: if_splits)
next
  case (Inr k)
  obtain d1 d2 where t: "pg_tables d1 = pg_tables db" "pg_tables db' = pg_tables d2"
    and body: "replace_tx i old (trim_space new) (pg_now db (pg_count db)) d1 = (Inr k, d2)"
    using assms Inr
    by (auto simp: RevokeAndInsertKey_def Let_def db_throw_def pg_same_def split: if_splits elim!: transaction_Inr)
  show ?thesis using replace_tx_Inr [OF body] t Inr by auto
qed

section \<open>A concrete database\<close>

definition demo_signup :: pg where
  "demo_signup = \<lparr> pg_tables = \<lparr> t_sources = [], t_models = [], t_prices = [], t_history = [],
     t_review = [], t_webhooks = [], t_price_serial = 1, t_review_serial = 1, t_model_serial = 1,
     t_benchmarks = [], t_scores = [], t_capabilities = [],
     t_identities = [\<lparr> id_id = ''i1'', id_email = ''a@b.c'', id_email_verified_at = Some 5,
       id_ip_hash = None, id_ua_hash = None, id_created_at = 1, id_updated_at = 5 \<rparr>],
     t_tokens = [\<lparr> tk_id = ''t1'', tk_identity_id = ''i1'', tk_token_hash = ''h1'', tk_expires_at = 90,
       tk_used_at = None, tk_created_at = 2 \<rparr>],
     t_keys = [\<lparr> ky_id = ''k1'', ky_identity_id = ''i1'', ky_provider_key_id = ''key_1'',
       ky_status = ''active'', ky_created_at = 6, ky_revoked_at = None \<rparr>] \<rparr>,
     pg_count = 10, pg_fault = (\<lambda>_. False), pg_now = int, pg_numeric = (\<lambda>_ x. x),
     pg_uuid = (\<lambda>n. replicate n CHR ''f'') \<rparr>"

lemma demo_signup_wf: "signup_wf (pg_tables demo_signup)"
  by code_simp

section \<open>Properties\<close>

text \<open>
  C15. The schema is kept by every sequence of operations of the signup store, whatever fails on the
  way: e-mails, hashes and provider keys stay unique and normalised, every identity has at most one
  active key, and an e-mail address that was verified stays verified with its first timestamp.
\<close>

theorem signup_invariant:
  assumes "signup_wf (pg_tables db)" and "run_all exec ops db = (oks, db')"
  shows "signup_wf (pg_tables db') \<and> length (active_keys i (pg_tables db')) \<le> 1 \<and>
    (verified i (pg_tables db) = Some v \<longrightarrow> verified i (pg_tables db') = Some v)"
  using run_evolves [OF assms(2)] assms(1) active_owners_count [of "pg_tables db'" i]
  by (simp add: signup_evolves_def)

theorem signup_invariant_witness:
  "let ops = [OpUpsertIdentity '' New@B.c '' [] [], OpInsertKey ''i1'' ''key_2'', OpRevokeKey ''i1'' ''key_1'',
        OpInsertKey ''i1'' ''key_2'', OpMarkEmailVerified ''i1'', OpDeleteExpired];
     r = run_all exec ops demo_signup
   in fst r = [True, False, True, True, True, True] \<and> signup_wf (pg_tables (snd r)) \<and>
     active_keys ''i1'' (pg_tables (snd r)) = [''key_2''] \<and> length (active_keys ''i1'' (pg_tables (snd r))) \<le> 1 \<and>
     verified ''i1'' (pg_tables (snd r)) = Some 5"
proof -
  let ?ops = "[OpUpsertIdentity '' New@B.c '' [] [], OpInsertKey ''i1'' ''key_2'', OpRevokeKey ''i1'' ''key_1'',
    OpInsertKey ''i1'' ''key_2'', OpMarkEmailVerified ''i1'', OpDeleteExpired]"
  let ?r = "run_all exec ?ops demo_signup"
  have "run_all exec ?ops demo_signup = (fst ?r, snd ?r)" by simp
  from signup_invariant [OF demo_signup_wf this, of "''i1''" 5]
  have "signup_wf (pg_tables (snd ?r)) \<and> length (active_keys ''i1'' (pg_tables (snd ?r))) \<le> 1 \<and>
      (verified ''i1'' (pg_tables demo_signup) = Some 5 \<longrightarrow> verified ''i1'' (pg_tables (snd ?r)) = Some 5)" .
  moreover have "verified ''i1'' (pg_tables demo_signup) = Some 5" by code_simp
  moreover have "fst ?r = [True, False, True, True, True, True] \<and>
      active_keys ''i1'' (pg_tables (snd ?r)) = [''key_2'']" by code_simp
  ultimately show ?thesis by (simp only: Let_def simp_thms)
qed

text \<open>
  C16. A magic link is good for one sign-in: in every sequence of operations, of all attempts to
  consume the token with a given hash at most one succeeds.
\<close>

theorem token_consumed_once:
  assumes "signup_wf (pg_tables db)" and "run_all exec ops db = (oks, db')"
  shows "length (filter (\<lambda>(op, ok). op = OpConsumeToken h \<and> ok) (zip ops oks)) \<le> 1"
  using assms by (rule token.at_most_once)

theorem token_consumed_once_witness:
  "let ops = [OpConsumeToken ''h1'', OpInsertToken ''i1'' ''h1'' 95, OpConsumeToken ''h1''];
     r = run_all exec ops demo_signup
   in fst r = [True, False, False] \<and>
     length (filter (\<lambda>(op, ok). op = OpConsumeToken ''h1'' \<and> ok) (zip ops (fst r))) \<le> 1"
proof -
  let ?ops = "[OpConsumeToken ''h1'', OpInsertToken ''i1'' ''h1'' 95, OpConsumeToken ''h1'']"
  let ?r = "run_all exec ?ops demo_signup"
  have "run_all exec ?ops demo_signup = (fst ?r, snd ?r)" by simp
  from token_consumed_once [OF demo_signup_wf this, of "''h1''"]
  have "length (filter (\<lambda>(op, ok). op = OpConsumeToken ''h1'' \<and> ok) (zip ?ops (fst ?r))) \<le> 1" .
  moreover have "fst ?r = [True, False, False]" by code_simp
  ultimately show ?thesis by (simp only: Let_def simp_thms)
qed

text \<open>
  C17. A magic link works until it expires: a token that is stored and unused survives every other
  operation, the pruning of expired tokens included, as long as the clock has not reached its
  expiry, and then an attempt that meets no fault of the database consumes it for its identity.
\<close>

theorem link_works_until_expiry:
  assumes "signup_wf (pg_tables db)" and "link_open i h e (pg_tables db)" and "h \<noteq> []"
    and "run_all exec ops db = (oks, db')" and "OpConsumeToken h \<notin> set ops"
    and "mono (pg_now db)" and "pg_now db (pg_count db' + 2) < e" and "pg_fault db' = (\<lambda>_. False)"
  shows "\<exists>m db''. ConsumeToken h db' = (Inr m, db'') \<and> mlt_IdentityID m = i \<and> mlt_UsedAt m \<noteq> None"
proof -
  have le: "pg_now db n < e" if "n \<le> pg_count db' + 2" for n
    using assms(7) monoD [OF assms(6) that] by simp
  then have "clock_before e db db'" using assms(6) by (simp add: clock_before_def)
  from run_keeps_link [OF assms(4,1,5,2) this] have link: "link_open i h e (pg_tables db')" and "pg_frame db db'"
    by simp_all
  moreover have "signup_wf (pg_tables db')" using run_evolves [OF assms(4)] assms(1) by (simp add: signup_evolves_def)
  moreover have "\<not> pg_fault db' n" for n using assms(8) by simp
  ultimately show ?thesis
    using consume_open_link [OF _ link _ _ assms(3)] le by (simp add: pg_frame_def)
qed

theorem link_works_until_expiry_witness:
  "let db = snd (run_all exec [OpDeleteExpired, OpUpsertIdentity ''x@y.z'' [] []] demo_signup)
   in (\<exists>m db'. ConsumeToken ''h1'' db = (Inr m, db') \<and> mlt_IdentityID m = ''i1'' \<and> mlt_UsedAt m \<noteq> None)"
proof -
  let ?ops = "[OpDeleteExpired, OpUpsertIdentity ''x@y.z'' [] []]"
  let ?r = "run_all exec ?ops demo_signup"
  have run: "run_all exec ?ops demo_signup = (fst ?r, snd ?r)" by simp
  have "link_open ''i1'' ''h1'' 90 (pg_tables demo_signup)" by code_simp
  moreover have "pg_frame demo_signup (snd ?r)"
    using run_all_invariant [of "pg_frame demo_signup", OF pg_frame_refl _ run] exec_frame pg_frame_trans by blast
  then have "pg_fault (snd ?r) = (\<lambda>_. False)" by (simp add: pg_frame_def demo_signup_def)
  moreover have "mono (pg_now demo_signup)" by (simp add: demo_signup_def mono_def)
  moreover have "pg_now demo_signup (pg_count (snd ?r) + 2) < 90" by code_simp
  ultimately show ?thesis
    using link_works_until_expiry [OF demo_signup_wf _ _ run, of "''i1''" "''h1''" 90] by simp
qed

text \<open>
  Replacing a key is atomic: when it succeeds, the identity has exactly the new key active, the
  old one was the only active key there was, and no other identity's keys have changed; when it
  fails, nothing has changed.
\<close>

theorem replace_key_atomic:
  assumes "RevokeAndInsertKey i old new db = (res, db')"
  shows "case res of
      Inl e \<Rightarrow> pg_tables db' = pg_tables db
    | Inr k \<Rightarrow> active_keys i (pg_tables db') = [trim_space new] \<and> kr_ProviderKeyID k = trim_space new \<and>
        set (active_keys i (pg_tables db)) \<subseteq> {old} - {[]} \<and>
        (\<forall>j. j \<noteq> i \<longrightarrow> active_keys j (pg_tables db') = active_keys j (pg_tables db))"
  using assms by (rule RevokeAndInsertKey_cases)

theorem replace_key_atomic_witness:
  "let r = RevokeAndInsertKey ''i1'' ''key_1'' '' key_2'' demo_signup
   in (case fst r of Inl e \<Rightarrow> False | Inr k \<Rightarrow> kr_ProviderKeyID k = ''key_2'') \<and>
     active_keys ''i1'' (pg_tables demo_signup) = [''key_1''] \<and>
     active_keys ''i1'' (pg_tables (snd r)) = [''key_2'']"
proof -
  let ?r = "RevokeAndInsertKey ''i1'' ''key_1'' '' key_2'' demo_signup"
  have "?r = (fst ?r, snd ?r)" by simp
  note R = replace_key_atomic [OF this]
  have ok: "(case fst ?r of Inl e \<Rightarrow> False | Inr k \<Rightarrow> True)" by code_simp
  have "trim_space '' key_2'' = ''key_2''" by code_simp
  then have "active_keys ''i1'' (pg_tables (snd ?r)) = [''key_2''] \<and>
      (case fst ?r of Inl e \<Rightarrow> False | Inr k \<Rightarrow> kr_ProviderKeyID k = ''key_2'')"
    using R ok by (cases "fst ?r") simp_all
  moreover have "active_keys ''i1'' (pg_tables demo_signup) = [''key_1'']" by code_simp
  ultimately show ?thesis by (simp only: Let_def simp_thms)
qed

end
