(* ===== verification/Auth_Guarantees.thy ===== *)
theory Auth_Guarantees
  imports Auth_Handlers Signup_Guarantees
begin

text \<open>
  What the signup endpoints guarantee together: the answer to a link request says nothing about the
  accounts, the keys of the registry stay live at the provider and no key is lost track of, and a
  session opened by a link belongs to the identity the link was sent to.
\<close>

section \<open>The provider\<close>

text \<open>
  What is documented of Unkey: creating a key gives a fresh identifier and leaves the others alone,
  and deleting a key touches no other. \<open>unkey_reliable\<close> adds that an answer tells what happened.
\<close>

type_synonym unkey_server = "nat \<Rightarrow> string \<Rightarrow> string \<Rightarrow> string list \<Rightarrow> (int \<times> string) option \<times> string list"

definition unkey_sound :: "unkey_server \<Rightarrow> bool" where
  "unkey_sound srv \<longleftrightarrow>
     (\<forall>n api owner keys ans keys'. srv n createURL (create_payload api owner) keys = (ans, keys') \<longrightarrow>
        set keys \<subseteq> set keys' \<and>
        (\<forall>k p. create_result ans = Some (k, p) \<longrightarrow> k \<in> set keys' - set keys \<and> trim_space k = k \<and> valid_utf8 k)) \<and>
     (\<forall>n k keys ans keys'. valid_utf8 k \<longrightarrow> srv n deleteURL (delete_payload k) keys = (ans, keys') \<longrightarrow>
        set keys - {k} \<subseteq> set keys' \<and> set keys' \<subseteq> set keys)"

definition unkey_reliable :: "unkey_server \<Rightarrow> bool" where
  "unkey_reliable srv \<longleftrightarrow>
     (\<forall>n api owner keys ans keys'. srv n createURL (create_payload api owner) keys = (ans, keys') \<longrightarrow>
        set keys' = set keys \<union> (case create_result ans of None \<Rightarrow> {} | Some (k, p) \<Rightarrow> {k})) \<and>
     (\<forall>n k keys ans keys'. valid_utf8 k \<longrightarrow> srv n deleteURL (delete_payload k) keys = (ans, keys') \<longrightarrow>
        set keys' = set keys - {k})"

definition provider :: "bool \<Rightarrow> unkey_server \<Rightarrow> bool" where
  "provider exact srv \<longleftrightarrow> unkey_sound srv \<and> (exact \<longrightarrow> unkey_reliable srv)"

lemma CreateKey_step:
  assumes "provider exact (uk_serve u)" "CreateKey own api owner u = (res, u')"
  shows "uk_serve u' = uk_serve u \<and> set (uk_live u) \<subseteq> set (uk_live u') \<and>
    (\<forall>k p. res = Some (k, p) \<longrightarrow> k \<in> set (uk_live u') - set (uk_live u) \<and> trim_space k = k \<and> valid_utf8 k) \<and>
    (exact \<longrightarrow> set (uk_live u') = set (uk_live u) \<union> (case res of None \<Rightarrow> {} | Some (k, p) \<Rightarrow> {k}))"
proof -
  let ?a = "if api = [] then own else api"
  obtain ans keys where s: "uk_serve u (uk_count u) createURL (create_payload ?a owner) (uk_live u) = (ans, keys)"
    by fastforce
  then have "res = create_result ans" "uk_live u' = keys" "uk_serve u' = uk_serve u"
    using assms(2) by (auto simp: CreateKey_def unkey_do_def Let_def)
  then show ?thesis
    using assms(1) s by (auto simp: provider_def unkey_sound_def unkey_reliable_def)
qed

lemma RevokeKey_step:
  assumes "provider exact (uk_serve u)" "unkey_RevokeKey k u = (res, u')" "valid_utf8 k"
  shows "uk_serve u' = uk_serve u \<and> set (uk_live u) - {k} \<subseteq> set (uk_live u') \<and> set (uk_live u') \<subseteq> set (uk_live u) \<and>
    (exact \<longrightarrow> set (uk_live u') = set (uk_live u) - {k})"
proof -
  obtain ans keys where s: "uk_serve u (uk_count u) deleteURL (delete_payload k) (uk_live u) = (ans, keys)"
    by fastforce
  then have "uk_live u' = keys" "uk_serve u' = uk_serve u"
    using assms(2) by (auto simp: unkey_RevokeKey_def unkey_do_def Let_def)
  then show ?thesis
    using assms(1,3) s unfolding provider_def unkey_sound_def unkey_reliable_def by metis
qed

section \<open>Registry and provider agree\<close>

abbreviation registry :: "world \<Rightarrow> string \<Rightarrow> string list" where
  "registry w i \<equiv> active_keys i (pg_tables (ww_db w))"

abbreviation live_keys :: "world \<Rightarrow> string set" where
  "live_keys w \<equiv> set (uk_live (ww_unkey w))"

definition accounts :: "bool \<Rightarrow> world \<Rightarrow> bool" where
  "accounts exact w \<longleftrightarrow> signup_wf (pg_tables (ww_db w)) \<and> (\<forall>i. set (registry w i) \<subseteq> {k \<in> live_keys w. valid_utf8 k}) \<and>
     (exact \<longrightarrow> live_keys w \<subseteq> (\<Union>i. set (registry w i)))"

definition kept :: "bool \<Rightarrow> world \<Rightarrow> world \<Rightarrow> bool" where
  "kept exact w w' \<longleftrightarrow> uk_serve (ww_unkey w') = uk_serve (ww_unkey w) \<and>
     (provider exact (uk_serve (ww_unkey w)) \<longrightarrow> accounts exact w \<longrightarrow> accounts exact w' \<and>
       (\<forall>i. registry w i \<noteq> [] \<longrightarrow> registry w' i \<noteq> []))"

lemma kept_refl [simp]: "kept exact w w"
  by (simp add: kept_def)

lemma kept_trans: "kept exact a b \<Longrightarrow> kept exact b c \<Longrightarrow> kept exact a c"
  by (auto simp: kept_def)

text \<open>A step that leaves the registry and the provider alone.\<close>

definition quiet_tables :: "tables \<Rightarrow> tables \<Rightarrow> bool" where
  "quiet_tables t t' \<longleftrightarrow> t_keys t' = t_keys t \<and> signup_evolves t t'"

interpretation quiet: table_preorder quiet_tables
  by unfold_locales (auto simp: quiet_tables_def intro: signup.refl signup.trans)

definition quiet_step :: "world \<Rightarrow> world \<Rightarrow> bool" where
  "quiet_step w w' \<longleftrightarrow> ww_unkey w' = ww_unkey w \<and> quiet_tables (pg_tables (ww_db w)) (pg_tables (ww_db w'))"

lemma quiet_step_refl [simp]: "quiet_step w w"
  by (simp add: quiet_step_def quiet.refl)

lemma quiet_step_trans: "quiet_step a b \<Longrightarrow> quiet_step b c \<Longrightarrow> quiet_step a c"
  using quiet.trans by (auto simp: quiet_step_def)

lemma quiet_kept: "quiet_step w w' \<Longrightarrow> kept exact w w'"
  by (auto simp: quiet_step_def quiet_tables_def kept_def accounts_def active_keys_def signup_evolves_def)

lemma moves_quiet: "moves signup_evolves m \<Longrightarrow> moves (\<lambda>t t'. t_keys t' = t_keys t) m \<Longrightarrow> moves quiet_tables m"
  by (simp add: moves_def quiet_tables_def)

interpretation same_keys: table_preorder "\<lambda>t t'. t_keys t' = t_keys t"
  by unfold_locales auto

lemma UpsertIdentity_quiet: "moves quiet_tables (UpsertIdentity e ip ua)"
  by (rule moves_quiet [OF UpsertIdentity_moves], unfold UpsertIdentity_def Let_def, intro same_keys.rules)
    (auto simp: upsert_identity_def split: if_splits list.splits)

lemma MarkEmailVerified_quiet: "moves quiet_tables (MarkEmailVerified i)"
  by (rule moves_quiet [OF MarkEmailVerified_moves], unfold MarkEmailVerified_def, intro same_keys.rules)
    (auto simp: verify_email_def)

lemma InsertToken_quiet: "moves quiet_tables (InsertToken i h e)"
  by (rule moves_quiet [OF InsertToken_moves], unfold InsertToken_def, intro same_keys.rules)
    (auto simp: insert_token_def split: if_splits)

lemma ConsumeToken_quiet: "moves quiet_tables (ConsumeToken h)"
proof (rule moves_quiet [OF ConsumeToken_moves])
  let ?R = "\<lambda>t t'. t_keys t' = t_keys t"
  have d: "moves ?R (disambiguate i)" for i
    unfolding disambiguate_def by (intro same_keys.rules) (auto split: prod.split)
  have "moves ?R (consume_tx h begun)" for begun
    unfolding consume_tx_def by (intro same_keys.rules)
      (auto simp: mark_used_def split: prod.split if_splits intro!: same_keys.rules d)
  then show "moves ?R (ConsumeToken h)" by (auto simp: ConsumeToken_def intro!: same_keys.rules)
qed

lemma GetIdentityByID_quiet: "moves quiet_tables (GetIdentityByID i)"
  unfolding GetIdentityByID_def by (intro quiet.rules)

lemma GetActiveKey_quiet: "moves quiet_tables (GetActiveKey i)"
  unfolding GetActiveKey_def by (intro quiet.rules)

lemmas quiet_ops = UpsertIdentity_quiet MarkEmailVerified_quiet InsertToken_quiet ConsumeToken_quiet
  GetIdentityByID_quiet GetActiveKey_quiet

lemma on_pg_quiet: "moves quiet_tables m \<Longrightarrow> on_pg m w = (r, w') \<Longrightarrow> quiet_step w w'"
  by (auto simp: on_pg_def quiet_step_def split: prod.splits dest: moves_apply)

lemma quiet_other:
  "on_redis f w = (x, w') \<Longrightarrow> quiet_step w w'" "time_now w = (t, w') \<Longrightarrow> quiet_step w w'"
  "GenerateRawToken w = (y, w') \<Longrightarrow> quiet_step w w'" "SendMagicLink e u w = (ok, w') \<Longrightarrow> quiet_step w w'"
  by (auto simp: on_redis_def time_now_def GenerateRawToken_def SendMagicLink_def quiet_step_def quiet.refl split: prod.splits)

section \<open>Steps that change keys\<close>

lemma active_key_owner:
  assumes "signup_wf t" "k \<in> set (active_keys i t)" "k \<in> set (active_keys j t)"
  shows "i = j"
proof -
  obtain a b where "a \<in> set (t_keys t)" "b \<in> set (t_keys t)" "is_active i a" "is_active j b"
    "ky_provider_key_id a = k" "ky_provider_key_id b = k"
    using assms(2,3) by (auto simp: active_keys_def)
  moreover have "distinct (map ky_provider_key_id (t_keys t))" using assms(1) by (simp add: signup_wf_def)
  ultimately have "a = b" using distinct_map_unique [of ky_provider_key_id "t_keys t" a b] by simp
  then show ?thesis using \<open>is_active i a\<close> \<open>is_active j b\<close> by (simp add: is_active_def)
qed

lemma InsertKey_cases:
  assumes "InsertKey i p db = (res, db')"
  shows "case res of
      Inl e \<Rightarrow> pg_tables db' = pg_tables db
    | Inr k \<Rightarrow> (\<forall>j. active_keys j (pg_tables db') = active_keys j (pg_tables db) @ (if j = i then [trim_space p] else []))"
proof (cases res)
  case (Inl e)
  then show ?thesis
    using assms by (auto simp: InsertKey_def Let_def db_throw_def at_clock_def add_key_def db_map_error_def
        db_bind_def db_return_def stmt_def pg_tick_def split: if_splits sum.splits prod.splits)
next
  case (Inr k)
  then have "add_key i (trim_space p) (pg_now db (pg_count db)) db = (Inr k, db')"
    using assms by (auto simp: InsertKey_def Let_def db_throw_def at_clock_def split: if_splits)
  then show ?thesis using add_key_Inr Inr by fastforce
qed

lemma on_unkey_iff: "on_unkey f w = (r, w') \<longleftrightarrow> (\<exists>u. f (ww_unkey w) = (r, u) \<and> w' = w\<lparr> ww_unkey := u \<rparr>)"
  by (auto simp: on_unkey_def split: prod.splits)

lemma on_pg_iff: "on_pg m w = (r, w') \<longleftrightarrow> (\<exists>db. m (ww_db w) = (r, db) \<and> w' = w\<lparr> ww_db := db \<rparr>)"
  by (auto simp: on_pg_def split: prod.splits)

text \<open>Creating a key and storing it, with the clean-up when that fails.\<close>

definition settle :: "string \<Rightarrow> world \<Rightarrow> db_error + KeyRecord \<Rightarrow> string \<Rightarrow> world" where
  "settle k w res old = (case res of
     Inl _ \<Rightarrow> snd (on_unkey (unkey_RevokeKey k) w)
   | Inr _ \<Rightarrow> if old \<noteq> [] then snd (on_unkey (unkey_RevokeKey old) w) else w)"

lemma accountsI:
  assumes "signup_wf (pg_tables (ww_db w))" "\<And>i. set (registry w i) \<subseteq> {k \<in> live_keys w. valid_utf8 k}"
    and "\<And>k. exact \<Longrightarrow> k \<in> live_keys w \<Longrightarrow> \<exists>i. k \<in> set (registry w i)"
  shows "accounts exact w"
  using assms by (auto simp: accounts_def)

text \<open>Where the registry swaps an old key for a new one, the provider must, too.\<close>

lemma registry_swap:
  assumes acc: "accounts exact w" and wf': "signup_wf (pg_tables (ww_db w'))"
    and new: "registry w' i = [k]" and was: "set (registry w i) \<subseteq> {old} - {[]}"
    and others: "\<And>j. j \<noteq> i \<Longrightarrow> registry w' j = registry w j"
    and fresh: "k \<notin> live_keys w" "valid_utf8 k"
    and live: "insert k (live_keys w) - (if old = [] then {} else {old}) \<subseteq> live_keys w'"
      "exact \<Longrightarrow> live_keys w' = insert k (live_keys w) - (if old = [] then {} else {old})"
    and old: "old \<noteq> [] \<Longrightarrow> old \<in> set (registry w i)"
  shows "accounts exact w' \<and> (\<forall>j. registry w j \<noteq> [] \<longrightarrow> registry w' j \<noteq> [])"
proof -
  have wf: "signup_wf (pg_tables (ww_db w))" using acc by (simp add: accounts_def)
  have reg_live: "set (registry w j) \<subseteq> {x \<in> live_keys w. valid_utf8 x}" for j
    using acc by (simp add: accounts_def)
  have not_old: "old \<notin> set (registry w' j)" if "old \<noteq> []" for j
  proof (cases "j = i")
    case True
    then show ?thesis using new old [OF that] fresh(1) reg_live [of i] by auto
  next
    case False
    then show ?thesis using others active_key_owner [OF wf] old [OF that] by metis
  qed
  have "set (registry w' j) \<subseteq> {x \<in> insert k (live_keys w). valid_utf8 x}" for j
    using new others [of j] reg_live [of j] fresh(2) by (cases "j = i") auto
  note bound = this
  have sub: "set (registry w' j) \<subseteq> {x \<in> live_keys w'. valid_utf8 x}" for j
  proof
    fix x
    assume x: "x \<in> set (registry w' j)"
    then have "x \<in> insert k (live_keys w)" "valid_utf8 x" using bound by blast+
    moreover have "old \<noteq> [] \<Longrightarrow> x \<noteq> old" using not_old x by blast
    ultimately show "x \<in> {x \<in> live_keys w'. valid_utf8 x}" using live(1) by (auto split: if_splits)
  qed
  have known: "\<exists>j. x \<in> set (registry w' j)" if ex: exact and x: "x \<in> live_keys w'" for x
  proof (cases "x = k")
    case False
    then have "x \<in> live_keys w" "old \<noteq> [] \<Longrightarrow> x \<noteq> old" using x live(2) [OF ex] by (auto split: if_splits)
    then obtain j where j: "x \<in> set (registry w j)" using acc ex by (auto simp: accounts_def)
    have "j \<noteq> i" using was j \<open>old \<noteq> [] \<Longrightarrow> x \<noteq> old\<close> by auto
    then show ?thesis using others j by metis
  qed (use new in \<open>auto intro: exI [of _ i]\<close>)
  have "registry w' j \<noteq> []" if "registry w j \<noteq> []" for j
    using that new others [of j] by (cases "j = i") auto
  then show ?thesis using accountsI [OF wf' sub known] by blast
qed

lemma settle_kept:
  assumes create: "on_unkey (CreateKey api [] i) w = (Some (k, plain), w1)"
    and store: "on_pg m w1 = (res, w2)" "moves signup_evolves m"
    and fail: "\<And>e. res = Inl e \<Longrightarrow> pg_tables (ww_db w2) = pg_tables (ww_db w1)"
    and success: "\<And>r. res = Inr r \<Longrightarrow> trim_space k = k \<Longrightarrow> registry w2 i = [k] \<and>
      set (registry w1 i) \<subseteq> {old} - {[]} \<and> (\<forall>j. j \<noteq> i \<longrightarrow> registry w2 j = registry w1 j)"
    and old: "old \<noteq> [] \<Longrightarrow> old \<in> set (registry w i)"
  shows "kept exact w (settle k w2 res old)"
proof -
  let ?sv = "uk_serve (ww_unkey w)" and ?w3 = "settle k w2 res old"
  obtain u where u: "CreateKey api [] i (ww_unkey w) = (Some (k, plain), u)" "w1 = w\<lparr> ww_unkey := u \<rparr>"
    using create by (auto simp: on_unkey_iff)
  obtain db where db: "m (ww_db w) = (res, db)" "w2 = w1\<lparr> ww_db := db \<rparr>"
    using store u by (auto simp: on_pg_iff)
  obtain ok v where v: "unkey_RevokeKey (case res of Inl _ \<Rightarrow> k | Inr _ \<Rightarrow> old) u = (ok, v)" by fastforce
  have reg1: "registry w1 j = registry w j" for j by (simp add: u(2))
  have w3: "?w3 = (if (\<exists>r. res = Inr r) \<and> old = [] then w2 else w2\<lparr> ww_unkey := v \<rparr>)"
    using v db u by (auto simp: settle_def on_unkey_def split: sum.splits prod.splits)
  have srv: "uk_serve (ww_unkey ?w3) = ?sv"
  proof -
    have "uk_serve u = ?sv" "uk_serve v = uk_serve u"
      using u(1) v by (auto simp: CreateKey_def unkey_RevokeKey_def unkey_do_def Let_def split: prod.splits)
    then show ?thesis using w3 db u by simp
  qed
  have "accounts exact ?w3 \<and> (\<forall>j. registry w j \<noteq> [] \<longrightarrow> registry ?w3 j \<noteq> [])"
    if prov: "provider exact ?sv" and acc: "accounts exact w"
  proof -
    let ?L = "live_keys w"
    note c = CreateKey_step [OF prov u(1)]
    then have prov': "provider exact (uk_serve u)" using prov by simp
    have "old \<noteq> [] \<Longrightarrow> valid_utf8 old" using old acc by (auto simp: accounts_def)
    then have utf8: "valid_utf8 k" "valid_utf8 old"
      using c by (cases "old = []"; auto simp: valid_utf8.simps [of "[]"])+
    have "valid_utf8 (case res of Inl _ \<Rightarrow> k | Inr _ \<Rightarrow> old)" using utf8 by (simp split: sum.split)
    note d = RevokeKey_step [OF prov' v this]
    have wf: "signup_wf (pg_tables (ww_db w))" using acc by (simp add: accounts_def)
    have wf3: "signup_wf (pg_tables (ww_db ?w3))"
      using moves_apply [OF store(2) db(1)] wf w3 db u by (simp add: signup_evolves_def)
    have reg_live: "set (registry w j) \<subseteq> {x \<in> ?L. valid_utf8 x}" for j using acc by (simp add: accounts_def)
    have live_reg: "exact \<Longrightarrow> x \<in> ?L \<Longrightarrow> \<exists>j. x \<in> set (registry w j)" for x
      using acc by (auto simp: accounts_def)
    have k: "k \<in> set (uk_live u)" "k \<notin> ?L" "trim_space k = k" "?L \<subseteq> set (uk_live u)"
      "exact \<Longrightarrow> set (uk_live u) = insert k ?L" using c by auto
    show ?thesis
    proof (cases res)
      case (Inl e)
      then have L3: "?L \<subseteq> live_keys ?w3" "exact \<Longrightarrow> live_keys ?w3 = ?L"
        using d w3 k by auto
      have reg3: "registry ?w3 j = registry w j" for j using fail [OF Inl] w3 db u Inl by simp
      have "accounts exact ?w3"
      proof (rule accountsI [OF wf3])
        show "set (registry ?w3 j) \<subseteq> {x \<in> live_keys ?w3. valid_utf8 x}" for j
          unfolding reg3 using reg_live [of j] L3(1) by blast
        show "\<exists>j. x \<in> set (registry ?w3 j)" if ex: exact "x \<in> live_keys ?w3" for x
          unfolding reg3 using live_reg [OF ex(1)] L3(2) [OF ex(1)] ex(2) by simp
      qed
      then show ?thesis using reg3 by simp
    next
      case (Inr r)
      have "insert k ?L - (if old = [] then {} else {old}) \<subseteq> live_keys ?w3"
        "exact \<Longrightarrow> live_keys ?w3 = insert k ?L - (if old = [] then {} else {old})"
        using d w3 k Inr db u by auto
      then show ?thesis
        using registry_swap [OF acc wf3 _ _ _ k(2) utf8(1) _ _ old] success [OF Inr k(3)] reg1 w3 by simp
    qed
  qed
  then show ?thesis using srv by (simp add: kept_def)
qed

lemma create_fails_kept:
  assumes "on_unkey (CreateKey api [] i) w = (None, w')"
  shows "kept exact w w'"
proof -
  obtain u where u: "CreateKey api [] i (ww_unkey w) = (None, u)" "w' = w\<lparr> ww_unkey := u \<rparr>"
    using assms by (auto simp: on_unkey_iff)
  have "uk_serve u = uk_serve (ww_unkey w)"
    using u(1) by (auto simp: CreateKey_def unkey_do_def Let_def split: prod.splits)
  then show ?thesis using CreateKey_step [OF _ u(1)] u(2) unfolding kept_def accounts_def by fastforce
qed

section \<open>The handlers\<close>

lemma check_identity_quiet: "check_identity i w = (r, w') \<Longrightarrow> quiet_step w w'"
  by (auto simp: check_identity_def split: prod.splits sum.splits dest: on_pg_quiet [OF GetIdentityByID_quiet])

lemma check_identity_reply: "check_identity i w = (Some out, w') \<Longrightarrow> out \<noteq> ok_json v"
  by (auto simp: check_identity_def problem_def ok_json_def split: prod.splits sum.splits if_splits)

lemma GetActiveKey_Inr:
  assumes "GetActiveKey i db = (Inr k, db')"
  shows "kr_ProviderKeyID k \<in> set (active_keys i (pg_tables db)) \<and> pg_tables db' = pg_tables db"
proof -
  have "select1 (\<lambda>t. map scanKey (filter (is_active i) (t_keys t))) db = (Inr k, db')"
    using assms unfolding GetActiveKey_def by (rule on_no_rows_success) (simp add: db_throw_def)
  from select1_Inr [OF this] obtain ys where
    ys: "map scanKey (filter (is_active i) (t_keys (pg_tables db))) = k # ys" "pg_tables db' = pg_tables db" by auto
  have "map kr_ProviderKeyID (map scanKey (filter (is_active i) (t_keys (pg_tables db)))) = active_keys i (pg_tables db)"
    by (simp add: active_keys_def scanKey_def)
  then show ?thesis using ys by (metis list.set_intros(1) list.simps(9))
qed

lemma replace_key_kept:
  assumes "replace_key h i old w = (out, w')" "old \<noteq> [] \<Longrightarrow> old \<in> set (registry w i)"
  shows "kept exact w w'"
proof (cases "fst (on_unkey (CreateKey (hn_apiID h) [] i) w)")
  case None
  then show ?thesis
    using assms(1) create_fails_kept by (auto simp: replace_key_def split: prod.splits)
next
  case (Some kp)
  then obtain k plain w1 where c: "on_unkey (CreateKey (hn_apiID h) [] i) w = (Some (k, plain), w1)"
    by (metis prod.collapse)
  obtain res w2 where s: "on_pg (RevokeAndInsertKey i old k) w1 = (res, w2)" by fastforce
  obtain db where db: "RevokeAndInsertKey i old k (ww_db w1) = (res, db)" "w2 = w1\<lparr> ww_db := db \<rparr>"
    using s by (auto simp: on_pg_iff)
  have "w' = settle k w2 res old"
    using assms(1) c s by (auto simp: replace_key_def settle_def split: sum.splits)
  moreover have "kept exact w (settle k w2 res old)"
    using settle_kept [OF c s RevokeAndInsertKey_moves _ _ assms(2)] RevokeAndInsertKey_cases [OF db(1)] db(2)
    by (auto split: sum.splits)
  ultimately show ?thesis by simp
qed

lemma IssueKey_kept: "IssueKey h session q w = (out, w') \<Longrightarrow> kept exact w w'"
proof (cases session)
  case (Some s)
  let ?i = "sp_IdentityID s"
  assume run: "IssueKey h session q w = (out, w')"
  obtain c w1 where c: "check_identity ?i w = (c, w1)" by fastforce
  obtain g w2 where g: "on_pg (GetActiveKey ?i) w1 = (g, w2)" by fastforce
  have k1: "kept exact w w1" using check_identity_quiet [OF c] quiet_kept by blast
  have k2: "kept exact w w2"
    using kept_trans [OF k1] quiet_kept [OF on_pg_quiet [OF GetActiveKey_quiet g]] by blast
  obtain n w3 where n: "on_unkey (CreateKey (hn_apiID h) [] ?i) w2 = (n, w3)" by fastforce
  show ?thesis
  proof (cases "c = None \<and> g = Inl ErrNotFound \<and> n \<noteq> None")
    case False
    then show ?thesis
      using run Some c g n k1 k2 kept_trans [OF k2] create_fails_kept
      by (auto simp: IssueKey_def split: option.splits sum.splits if_splits)
  next
    case True
    then obtain k plain where kp: "n = Some (k, plain)" by auto
    obtain res w4 where r: "on_pg (InsertKey ?i k) w3 = (res, w4)" by fastforce
    obtain db where db: "InsertKey ?i k (ww_db w3) = (res, db)" "w4 = w3\<lparr> ww_db := db \<rparr>"
      using r by (auto simp: on_pg_iff)
    have none: "registry w3 ?i = []" if "res = Inr x" for x
    proof -
      have "add_key ?i (trim_space k) (pg_now (ww_db w3) (pg_count (ww_db w3))) (ww_db w3) = (Inr x, db)"
        using db(1) that by (auto simp: InsertKey_def Let_def db_throw_def at_clock_def split: if_splits)
      then show ?thesis using add_key_Inr by blast
    qed
    have "w' = settle k w4 res []"
      using run Some c g n True kp r by (auto simp: IssueKey_def settle_def split: sum.splits)
    moreover have "kept exact w2 (settle k w4 res [])"
      using settle_kept [OF n [unfolded kp] r InsertKey_moves, of "[]" exact] InsertKey_cases [OF db(1)] none db(2)
      by (auto split: sum.splits)
    ultimately show ?thesis using kept_trans [OF k2] by simp
  qed
qed (simp add: IssueKey_def)

lemma RegenerateKey_kept: "RegenerateKey h session q w = (out, w') \<Longrightarrow> kept exact w w'"
proof (cases session)
  case (Some s)
  let ?i = "sp_IdentityID s"
  assume run: "RegenerateKey h session q w = (out, w')"
  obtain v w1 where v: "guard_regenerate h ?i w = (v, w1)" by fastforce
  obtain c w2 where c: "check_identity ?i w1 = (c, w2)" by fastforce
  obtain g w3 where g: "on_pg (GetActiveKey ?i) w2 = (g, w3)" by fastforce
  have k1: "kept exact w w1"
    using v by (auto simp: guard_regenerate_def split: option.splits intro: quiet_kept quiet_other(1))
  have k2: "kept exact w w2" using kept_trans [OF k1] check_identity_quiet [OF c] quiet_kept by blast
  have k3: "kept exact w w3"
    using kept_trans [OF k2] quiet_kept [OF on_pg_quiet [OF GetActiveKey_quiet g]] by blast
  have reg: "kr_ProviderKeyID e \<in> set (registry w3 ?i)" if "g = Inr e" for e
    using g that GetActiveKey_Inr by (fastforce simp: on_pg_iff)
  have tail: "kept exact w3 w'" if "replace_key h ?i old w3 = (out, w')" "old \<noteq> [] \<Longrightarrow> old \<in> set (registry w3 ?i)" for old
    using replace_key_kept that by blast
  show ?thesis
    using run Some v c g k1 k2 k3 kept_trans [OF k3 tail] reg
    by (auto simp: RegenerateKey_def split: option.splits sum.splits if_splits)
qed (simp add: RegenerateKey_def)

lemma send_link_quiet: "send_link h q email w = (out, w') \<Longrightarrow> quiet_step w w'"
proof -
  assume run: "send_link h q email w = (out, w')"
  obtain r w1 where a: "on_pg (UpsertIdentity email (hashField (RealIP [] q)) (hashField (rq_agent q))) w = (r, w1)"
    by fastforce
  obtain raw w2 where b: "GenerateRawToken w1 = (raw, w2)" by fastforce
  obtain now w3 where c: "time_now w2 = (now, w3)" by fastforce
  have k1: "quiet_step w w1" using on_pg_quiet [OF UpsertIdentity_quiet a] .
  have k2: "quiet_step w w2" using quiet_step_trans [OF k1 quiet_other(3) [OF b]] .
  have k3: "quiet_step w w3" using quiet_step_trans [OF k2 quiet_other(2) [OF c]] .
  have k4: "quiet_step w w4" if "on_pg (InsertToken i hash e) w3 = (x, w4)" for i hash e x w4
    using quiet_step_trans [OF k3 on_pg_quiet [OF InsertToken_quiet that]] .
  have "quiet_step w w5" if "on_pg (InsertToken i hash e) w3 = (x, w4)" "SendMagicLink email u w4 = (ok, w5)" for i hash e x w4 u ok w5
    using quiet_step_trans [OF k4 [OF that(1)] quiet_other(4) [OF that(2)]] .
  then show ?thesis
    using run a b c k1 k2 k4 by (auto simp: send_link_def split: sum.splits option.splits prod.splits bool.splits)
qed

lemma send_link_reply: "fst (send_link h q email w) = genericOK"
  by (simp add: send_link_def split: sum.split option.split prod.split bool.split)

lemma RequestLink_quiet: "RequestLink h q w = (out, w') \<Longrightarrow> quiet_step w w'"
proof -
  assume run: "RequestLink h q w = (out, w')"
  have "quiet_step w w'" if guard: "guard_link h q e w = (v, w1)" and step: "w' = w1 \<or> w' = snd (send_link h q e w1)" for e v w1
  proof -
    have "quiet_step w w1" using guard quiet_other(1) by (auto simp: guard_link_def split: option.splits)
    moreover have "quiet_step w1 (snd (send_link h q e w1))" using send_link_quiet by (metis prod.collapse)
    ultimately show ?thesis using step quiet_step_trans by blast
  qed
  moreover have "w' = w \<or> (\<exists>e v w1. guard_link h q e w = (v, w1) \<and> (w' = w1 \<or> w' = snd (send_link h q e w1)))"
    using run by (auto simp: RequestLink_def Let_def split: option.splits if_splits prod.splits guard_error.splits) (metis snd_conv)+
  ultimately show ?thesis by auto
qed

lemma open_session_quiet: "open_session h i w = (out, w') \<Longrightarrow> quiet_step w w'"
proof -
  assume run: "open_session h i w = (out, w')"
  obtain r w1 where a: "on_pg (MarkEmailVerified i) w = (r, w1)" by fastforce
  obtain x w2 where b: "on_pg (GetIdentityByID i) w1 = (x, w2)" by fastforce
  obtain now w3 where c: "time_now w2 = (now, w3)" by fastforce
  have k1: "quiet_step w w1" using on_pg_quiet [OF MarkEmailVerified_quiet a] .
  have k2: "quiet_step w w2" using quiet_step_trans [OF k1 on_pg_quiet [OF GetIdentityByID_quiet b]] .
  have k3: "quiet_step w w3" using quiet_step_trans [OF k2 quiet_other(2) [OF c]] .
  have "w' \<in> {w1, w2, w3}"
    using run a b c by (auto simp: open_session_def Let_def split: sum.splits if_splits)
  then show ?thesis using k1 k2 k3 by auto
qed

lemma Verify_quiet: "Verify h q w = (out, w') \<Longrightarrow> quiet_step w w'"
proof -
  assume run: "Verify h q w = (out, w')"
  obtain r w1 where c: "on_pg (ConsumeToken (HashToken (trim_space (rq_token q)))) w = (r, w1)" by fastforce
  have k: "quiet_step w w1" using on_pg_quiet [OF ConsumeToken_quiet c] .
  have "w' = w \<or> w' = w1 \<or> (\<exists>i. open_session h i w1 = (out, w'))"
    using run c by (auto simp: Verify_def Let_def split: if_splits sum.splits)
  then consider "w' = w" | "w' = w1" | i where "open_session h i w1 = (out, w')" by blast
  then show ?thesis
  proof cases
    case 3
    then show ?thesis using quiet_step_trans [OF k open_session_quiet [OF 3]] by blast
  qed (use k in simp_all)
qed

lemma Me_quiet: "Me h session q w = (out, w') \<Longrightarrow> quiet_step w w'"
  using quiet_step_trans [OF on_pg_quiet [OF GetIdentityByID_quiet] on_pg_quiet [OF GetActiveKey_quiet]]
    on_pg_quiet [OF GetIdentityByID_quiet]
  by (auto simp: Me_def split: option.splits prod.splits sum.splits)

lemma sessionFromCookie_quiet: "sessionFromCookie h q w = (s, w') \<Longrightarrow> quiet_step w w'"
  using quiet_other(2) by (auto simp: sessionFromCookie_def Let_def split: if_splits prod.splits sum.splits)

lemma RequireSession_kept:
  assumes "\<And>s q w out w'. next h s q w = (out, w') \<Longrightarrow> kept exact w w'" "RequireSession h (next h) q w = (out, w')"
  shows "kept exact w w'"
proof -
  obtain s w1 where s: "sessionFromCookie h q w = (s, w1)" by fastforce
  have k: "kept exact w w1" using sessionFromCookie_quiet [OF s] quiet_kept by blast
  show ?thesis
    using assms(2) s k kept_trans [OF k assms(1)] by (auto simp: RequireSession_def split: option.splits)
qed

lemma Register_kept: "Register h route q w = (out, w') \<Longrightarrow> kept exact w w'"
proof (cases route)
  case RouteMe
  assume "Register h route q w = (out, w')"
  then show ?thesis using RequireSession_kept [of Me] Me_quiet quiet_kept RouteMe by (metis Register.simps(3))
next
  case RouteIssueKey
  assume "Register h route q w = (out, w')"
  then show ?thesis using RequireSession_kept [of IssueKey] IssueKey_kept RouteIssueKey by (metis Register.simps(4))
next
  case RouteRegenerateKey
  assume "Register h route q w = (out, w')"
  then show ?thesis
    using RequireSession_kept [of RegenerateKey] RegenerateKey_kept RouteRegenerateKey by (metis Register.simps(5))
qed (simp_all add: quiet_kept RequestLink_quiet Verify_quiet)

lemma run_kept:
  assumes "run_all (\<lambda>(route, q). Register h route q) qs w = (outs, w')"
  shows "kept exact w w'"
  using run_all_invariant [of "kept exact w", OF kept_refl _ assms] Register_kept kept_trans
  by (metis (mono_tags, lifting) case_prod_beta)

section \<open>What a reply can tell\<close>

text \<open>Two Redis servers that differ at most in the cooldowns of e-mail addresses.\<close>

definition same_but_cooldowns :: "AbuseConfig \<Rightarrow> redis \<Rightarrow> redis \<Rightarrow> bool" where
  "same_but_cooldowns cfg r r' \<longleftrightarrow> rd_count r' = rd_count r \<and> rd_link r' = rd_link r \<and> rd_now r' = rd_now r \<and>
     (\<forall>k. (\<forall>e. k \<noteq> cooldown_key cfg e) \<longrightarrow> rd_keys r' k = rd_keys r k)"

lemma script_reply: "ks K = ks' K \<Longrightarrow>
    fst (ipRateLimitScript K ttl now ks) = fst (ipRateLimitScript K ttl now ks')"
  by (auto simp: ipRateLimitScript_def incr_by_def split: option.splits if_splits)

lemma check_ip_reply:
  assumes "same_but_cooldowns cfg r r'"
  shows "fst (check_ip cfg ip r) = fst (check_ip cfg ip r')"
proof -
  let ?K = "rl_key cfg ip" and ?now = "rd_now r (rd_count r)"
  have "rd_keys r' ?K = rd_keys r ?K" using assms by (simp add: same_but_cooldowns_def)
  then have "fst (ipRateLimitScript ?K hour ?now (live ?now (rd_keys r))) =
      fst (ipRateLimitScript ?K hour ?now (live ?now (rd_keys r')))"
    by (intro script_reply) (simp add: live_def)
  then have "fst (command (ipRateLimitScript ?K hour) r) = fst (command (ipRateLimitScript ?K hour) r')"
    using assms by (auto simp: command_def Let_def same_but_cooldowns_def split: prod.splits link.splits)
  then show ?thesis
    by (auto simp: check_ip_def split: prod.splits option.splits)
qed

text \<open>The guard's verdict up to the cooldown, which is answered like a success.\<close>

definition shown :: "guard_error option \<Rightarrow> guard_error option" where
  "shown v = (if v = Some ErrResendCooldown then None else v)"

lemma CheckRequestLink_shown:
  assumes "same_but_cooldowns (ag_cfg g) r r'"
  shows "shown (fst (CheckRequestLink g ip email r)) = shown (fst (CheckRequestLink g ip email r'))"
  using check_ip_reply [OF assms, of ip]
  by (auto simp: CheckRequestLink_def Let_def shown_def split: prod.splits if_splits)

lemma RequestLink_shown:
  assumes "cf_SignupEnabled (hn_cfg h)" "rq_email q = Some raw" "isValidEmail h (auth_normalizeEmail h raw)"
  shows "fst (RequestLink h q w) =
    (case shown (fst (guard_link h q (auth_normalizeEmail h raw) w)) of
       Some ErrDisposableDomain \<Rightarrow> problem (NewBadRequest (guard_text ErrDisposableDomain))
     | Some ErrRateLimited \<Rightarrow> problem (NewTooManyRequests (guard_text ErrRateLimited))
     | _ \<Rightarrow> genericOK)"
proof -
  obtain v w1 where "guard_link h q (auth_normalizeEmail h raw) w = (v, w1)" by fastforce
  then show ?thesis
    using assms by (cases v; cases "the v") (simp_all add: RequestLink_def shown_def Let_def send_link_reply)
qed

lemma guard_link_frame: "guard_link h q e w = (v, w') \<Longrightarrow> ww_db w' = ww_db w \<and> ww_mails w' = ww_mails w"
  by (auto simp: guard_link_def on_redis_def split: option.splits prod.splits)

lemma refused_quietly:
  assumes "fst (RequestLink h q w) \<noteq> genericOK"
  shows "ww_db (snd (RequestLink h q w)) = ww_db w \<and> ww_mails (snd (RequestLink h q w)) = ww_mails w"
proof (cases "\<exists>raw. cf_SignupEnabled (hn_cfg h) \<and> rq_email q = Some raw \<and> isValidEmail h (auth_normalizeEmail h raw)")
  case True
  then obtain raw where c: "cf_SignupEnabled (hn_cfg h)" "rq_email q = Some raw"
    "isValidEmail h (auth_normalizeEmail h raw)" by blast
  obtain v w1 where v: "guard_link h q (auth_normalizeEmail h raw) w = (v, w1)" by fastforce
  have "snd (RequestLink h q w) = w1"
    using assms c v by (cases v; cases "the v") (simp_all add: RequestLink_def Let_def send_link_reply)
  then show ?thesis using guard_link_frame [OF v] by simp
next
  case False
  then have "snd (RequestLink h q w) = w" by (auto simp: RequestLink_def Let_def split: option.splits)
  then show ?thesis by simp
qed

section \<open>What a link opens\<close>

lemma ConsumeToken_Inr:
  assumes "ConsumeToken h db = (Inr m, db')"
  obtains r where "r \<in> set (t_tokens (pg_tables db))" "tk_token_hash r = h" "tk_used_at r = None"
    "mlt_IdentityID m = tk_identity_id r"
proof -
  obtain d1 d2 where t: "pg_tables d1 = pg_tables db"
    and body: "consume_tx h (pg_now db (pg_count db)) d1 = (Inr m, d2)"
    using assms by (auto simp: ConsumeToken_def db_throw_def pg_same_def split: if_splits elim!: transaction_Inr)
  obtain r rs now where r: "filter (\<lambda>r. tk_token_hash r = h) (t_tokens (pg_tables d1)) = r # rs"
    "tk_used_at r = None" "m = (scanToken r)\<lparr> mlt_UsedAt := Some now \<rparr>"
    using consume_tx_Inr [OF body] by metis
  have "r \<in> set (filter (\<lambda>r. tk_token_hash r = h) (t_tokens (pg_tables d1)))" using r(1) by (metis list.set_intros(1))
  then show thesis using that [of r] r(2,3) t by (auto simp: scanToken_def)
qed

lemma GetIdentityByID_Inr:
  assumes "GetIdentityByID i db = (Inr ident, db')"
  shows "idn_ID ident = i \<and> pg_tables db' = pg_tables db \<and>
    (\<exists>r \<in> set (t_identities (pg_tables db)). ident = scanIdentity r)"
proof -
  have "select1 (\<lambda>t. map scanIdentity (filter (\<lambda>r. id_id r = i) (t_identities t))) db = (Inr ident, db')"
    using assms unfolding GetIdentityByID_def by (rule on_no_rows_success) (simp add: db_throw_def)
  from select1_Inr [OF this] obtain ys where
    ys: "map scanIdentity (filter (\<lambda>r. id_id r = i) (t_identities (pg_tables db))) = ident # ys"
    "pg_tables db' = pg_tables db" by auto
  have "ident \<in> set (map scanIdentity (filter (\<lambda>r. id_id r = i) (t_identities (pg_tables db))))"
    using ys(1) by (metis list.set_intros(1))
  then show ?thesis using ys(2) by (auto simp: scanIdentity_def)
qed

text \<open>A run of \<open>open_session\<close> that sets a cookie.\<close>

lemma open_session_cookie:
  assumes "open_session h i w = ((None, r), w')"
  obtains ident w2 v where "idn_ID ident = i" "ident \<in> scanIdentity ` set (t_identities (pg_tables (ww_db w')))"
    "SignSession defaultCodec (cf_SigningSecret (hn_cfg h)) \<lparr> sp_IdentityID = i, sp_Email = idn_Email ident,
       sp_IssuedAt = unix (ww_clock w (ww_count w)),
       sp_ExpiresAt = unix (ww_clock w (ww_count w) + cf_SignupSessionTTLHours (hn_cfg h) * hour) \<rparr> = Inr v"
    "map ck_Value (rs_Cookies r) = [v]" "map ck_Name (rs_Cookies r) = [cf_SignupSessionCookieName (hn_cfg h)]"
proof -
  obtain a w1 where a: "on_pg (MarkEmailVerified i) w = (a, w1)" by fastforce
  obtain b w2 where b: "on_pg (GetIdentityByID i) w1 = (b, w2)" by fastforce
  have clock: "ww_clock w2 (ww_count w2) = ww_clock w (ww_count w)"
    using a b by (auto simp: on_pg_iff)
  obtain ident where i: "b = Inr ident"
    using assms a b by (cases b) (auto simp: open_session_def Let_def problem_def split: sum.splits if_splits)
  have id: "idn_ID ident = i" "ident \<in> scanIdentity ` set (t_identities (pg_tables (ww_db w2)))"
    using b i GetIdentityByID_Inr by (fastforce simp: on_pg_iff)+
  obtain v where v: "SignSession defaultCodec (cf_SigningSecret (hn_cfg h)) \<lparr> sp_IdentityID = i,
      sp_Email = idn_Email ident, sp_IssuedAt = unix (ww_clock w (ww_count w)),
      sp_ExpiresAt = unix (ww_clock w (ww_count w) + cf_SignupSessionTTLHours (hn_cfg h) * hour) \<rparr> = Inr v"
    "r = redirect (cf_MagicLinkBaseURL (hn_cfg h) @ ''/signup/verified'')
       (setSessionCookie (cf_SignupSessionCookieName (hn_cfg h)) v (cf_SignupSessionTTLHours (hn_cfg h))
         (cf_SignupSessionSecure (hn_cfg h)) new_response)"
    "ww_db w' = ww_db w2"
    using assms a b i id(1) clock
    by (auto simp: open_session_def Let_def problem_def time_now_def split: sum.splits if_splits)
  show thesis
    using that [OF id(1) _ v(1)] id(2) v(2,3)
    by (simp add: redirect_def set_header_def setSessionCookie_def new_response_def)
qed

section \<open>Properties\<close>

text \<open>
  C23. The reply to a link request does not reveal accounts: it is the same in two worlds that differ
  in what the tables hold and which of their statements fail, in the clock and the random source, in
  whether the mailer reports an error and whether the mail arrives, and in whether a mail was
  recently sent to the address; and a request that is refused writes nothing and sends nothing.
\<close>

theorem link_reply_hides_accounts:
  assumes "hn_guard h = Some g" and "same_but_cooldowns (ag_cfg g) (ww_redis w1) (ww_redis w2)"
  shows "fst (RequestLink h q w1) = fst (RequestLink h q w2) \<and>
    (fst (RequestLink h q w1) = genericOK \<or>
     ww_db (snd (RequestLink h q w1)) = ww_db w1 \<and> ww_mails (snd (RequestLink h q w1)) = ww_mails w1)"
proof (cases "\<exists>raw. cf_SignupEnabled (hn_cfg h) \<and> rq_email q = Some raw \<and> isValidEmail h (auth_normalizeEmail h raw)")
  case True
  then obtain raw where c: "cf_SignupEnabled (hn_cfg h)" "rq_email q = Some raw"
    "isValidEmail h (auth_normalizeEmail h raw)" by blast
  have "shown (fst (guard_link h q e w1)) = shown (fst (guard_link h q e w2))" for e
    using CheckRequestLink_shown [OF assms(2)] assms(1) by (simp add: guard_link_def on_redis_def case_prod_beta)
  then show ?thesis using RequestLink_shown [OF c] refused_quietly by (metis (no_types, lifting))
next
  case False
  then show ?thesis by (auto simp: RequestLink_def Let_def split: option.splits)
qed

text \<open>
  C24. No key is lost track of: if every active key of the registry is live at the provider, then so it
  is after any sequence of signup requests, whatever fails in between, and no identity that had an
  active key has lost it; and if the provider's answers are reliable, the live keys are at every
  moment exactly the active ones, so no request leaves an orphan behind.
\<close>

theorem keys_never_lost:
  assumes "accounts exact w" and "provider exact (uk_serve (ww_unkey w))"
    and "run_all (\<lambda>(route, q). Register h route q) qs w = (outs, w')"
  shows "(\<forall>i k. k \<in> set (registry w' i) \<longrightarrow> k \<in> live_keys w') \<and>
    (\<forall>i. registry w i \<noteq> [] \<longrightarrow> registry w' i \<noteq> []) \<and>
    (exact \<longrightarrow> live_keys w' = (\<Union>i. set (registry w' i)))"
  using run_kept [OF assms(3), of exact] assms(1,2) by (auto simp: kept_def accounts_def)

text \<open>
  C25. A session belongs to the identity its link was made for: when \<open>verify\<close> answers with a cookie,
  the token of the request was stored and unused for an identity, and a later request
  that carries the cookie before it expires is let in as that identity.
\<close>

theorem link_opens_own_session:
  assumes "Verify h q w = ((None, r), w')" and "rs_Cookies r \<noteq> []"
    and "\<forall>x \<in> set (t_identities (pg_tables (ww_db w'))). valid_utf8 (id_id x) \<and> valid_utf8 (id_email x)"
    and "0 \<le> ww_clock w (ww_count w)" and "0 \<le> cf_SignupSessionTTLHours (hn_cfg h)"
    and "ww_clock w (ww_count w) + cf_SignupSessionTTLHours (hn_cfg h) * hour < 2 ^ 63"
    and "rq_cookie q' (cf_SignupSessionCookieName (hn_cfg h)) = ck_Value (hd (rs_Cookies r))"
    and "unix (ww_clock w2 (ww_count w2)) <
      unix (ww_clock w (ww_count w) + cf_SignupSessionTTLHours (hn_cfg h) * hour)"
  shows "\<exists>tok \<in> set (t_tokens (pg_tables (ww_db w))).
    tk_token_hash tok = HashToken (trim_space (rq_token q)) \<and> tk_used_at tok = None \<and>
    map_option sp_IdentityID (fst (sessionFromCookie h q' w2)) = Some (tk_identity_id tok)"
proof -
  let ?t = "ww_clock w (ww_count w)" and ?e = "ww_clock w (ww_count w) + cf_SignupSessionTTLHours (hn_cfg h) * hour"
  obtain m w1 where c: "on_pg (ConsumeToken (HashToken (trim_space (rq_token q)))) w = (Inr m, w1)"
    and o: "open_session h (mlt_IdentityID m) w1 = ((None, r), w')"
    using assms(1,2) by (auto simp: Verify_def Let_def problem_def to_page_def redirect_def set_header_def
        new_response_def split: if_splits prod.splits sum.splits)
  obtain tok where tok: "tok \<in> set (t_tokens (pg_tables (ww_db w)))"
    "tk_token_hash tok = HashToken (trim_space (rq_token q))" "tk_used_at tok = None"
    "mlt_IdentityID m = tk_identity_id tok"
    using c ConsumeToken_Inr by (metis on_pg_iff)
  have w1: "ww_clock w1 (ww_count w1) = ?t" using c by (auto simp: on_pg_iff)
  obtain ident v where v: "idn_ID ident = mlt_IdentityID m"
    "ident \<in> scanIdentity ` set (t_identities (pg_tables (ww_db w')))"
    "SignSession defaultCodec (cf_SigningSecret (hn_cfg h)) \<lparr> sp_IdentityID = mlt_IdentityID m,
      sp_Email = idn_Email ident, sp_IssuedAt = unix ?t, sp_ExpiresAt = unix ?e \<rparr> = Inr v"
    "map ck_Value (rs_Cookies r) = [v]"
    using open_session_cookie [OF o] w1 by metis
  let ?p = "\<lparr> sp_IdentityID = mlt_IdentityID m, sp_Email = idn_Email ident, sp_IssuedAt = unix ?t, sp_ExpiresAt = unix ?e \<rparr>"
  have "?t \<le> ?e" using assms(5) by (simp add: hour_def minute_def second_def)
  then have "payload_ok ?p"
    using v(1,2) assms(3,4,6) by (auto simp: payload_ok_def unix_def second_def scanIdentity_def)
  moreover have "cf_SigningSecret (hn_cfg h) \<noteq> []" using v(3) by (auto simp: SignSession_def)
  ultimately have ver: "VerifySession defaultCodec (cf_SigningSecret (hn_cfg h)) v (unix (ww_clock w2 (ww_count w2))) = Inr ?p"
    using std.verify_sign [of ?p] v(3) assms(8) by fastforce
  have "hd (rs_Cookies r) = hd (rs_Cookies r)" ..
  then have "rq_cookie q' (cf_SignupSessionCookieName (hn_cfg h)) = v" using v(4) assms(7) by (cases "rs_Cookies r") auto
  moreover have "v \<noteq> []" using ver by (auto simp: VerifySession_def lastDot_def split: if_splits)
  ultimately have "fst (sessionFromCookie h q' w2) = Some ?p"
    using ver by (simp add: sessionFromCookie_def time_now_def)
  then show ?thesis using tok by (intro bexI [of _ tok]) simp_all
qed

section \<open>A concrete world\<close>

definition demo_serve :: unkey_server where
  "demo_serve n url body keys =
     (if url = createURL then
        (if ''k9'' \<in> set keys then (Some (409, ''{}''), keys)
         else (Some (200, json_print (JObj [(''data'', JObj [(''keyId'', JStr ''k9''), (''key'', JStr ''llmr_s'')])])),
               ''k9'' # keys))
      else case struct_members body of
        None \<Rightarrow> (None, keys)
      | Some ms \<Rightarrow> (case str_field ''keyId'' ms of
            None \<Rightarrow> (None, keys) | Some k \<Rightarrow> (Some (200, ''{}''), removeAll k keys)))"

lemma demo_provider: "provider True demo_serve"
proof -
  have urls: "deleteURL \<noteq> createURL" by code_simp
  have c: "create_result (Some (200, json_print (JObj [(''data'', JObj [(''keyId'', JStr ''k9''), (''key'', JStr ''llmr_s'')])])))
      = Some (''k9'', ''llmr_s'')" "create_result (Some (409, ''{}'')) = None"
    "trim_space ''k9'' = ''k9''" "valid_utf8 ''k9''" by code_simp+
  have d: "str_field ''keyId'' (the (struct_members (delete_payload k))) = Some k"
    "struct_members (delete_payload k) \<noteq> None" if "valid_utf8 k" for k
  proof -
    have "json_wf (JObj [(''keyId'', JStr k)])" using that by simp code_simp
    then have "struct_members (delete_payload k) = Some [(''keyId'', JStr k)]"
      using json_roundtrip by (simp add: struct_members_def delete_payload_def del: json_print.simps)
    then show "str_field ''keyId'' (the (struct_members (delete_payload k))) = Some k"
      "struct_members (delete_payload k) \<noteq> None" by (simp_all add: str_field_def field_values_def)
  qed
  have del: "demo_serve n deleteURL (delete_payload k) keys = (Some (200, ''{}''), removeAll k keys)"
    if "valid_utf8 k" for n k keys
    using d [OF that] urls by (auto simp: demo_serve_def)
  show ?thesis
    unfolding provider_def unkey_sound_def unkey_reliable_def using c del by (auto simp: demo_serve_def)
qed

definition demo_tables :: tables where
  "demo_tables = (pg_tables demo_signup)\<lparr> t_tokens := [\<lparr> tk_id = ''t1'', tk_identity_id = ''i1'',
     tk_token_hash = HashToken ''tok'', tk_expires_at = 90, tk_used_at = None, tk_created_at = 2 \<rparr>] \<rparr>"

definition demo_world :: world where
  "demo_world = \<lparr> ww_db = demo_signup\<lparr> pg_tables := demo_tables \<rparr>, ww_redis = demo_redis,
     ww_unkey = \<lparr> uk_live = [''key_1''], uk_count = 0, uk_serve = demo_serve \<rparr>, ww_mails = [],
     ww_count = 0, ww_clock = (\<lambda>_. 1000 * second), ww_random = (\<lambda>_. Some ''0123456789abcdef''), ww_mailer = (\<lambda>_. (True, True)) \<rparr>"

definition demo_handler :: "string Handler" where
  "demo_handler = \<lparr> hn_guard = Some demo_guard,
     hn_cfg = \<lparr> cf_MagicLinkTTLMinutes = 15, cf_MagicLinkBaseURL = ''https://llmrates.live'',
       cf_MagicLinkPath = ''/auth'', cf_SignupSessionCookieName = ''sid'', cf_SignupSessionTTLHours = 24,
       cf_SignupSessionSecure = True, cf_SigningSecret = ''s'', cf_SignupEnabled = True \<rparr>,
     hn_apiID = ''api'', hn_parse_address = Some,
     hn_url = \<lparr> up_parse = Some, up_path = (\<lambda>_. []), up_join = (\<lambda>a b. Some (a @ b)), up_set_path = (\<lambda>p u. u @ p),
       up_set_param = (\<lambda>k v u. u @ ''?'' @ k @ ''='' @ v), up_string = (\<lambda>u. u), up_escape = (\<lambda>s. s) \<rparr>,
     hn_time_json = (\<lambda>_. JNull) \<rparr>"

definition demo_request :: request where
  "demo_request = \<lparr> rq_ip = ''10.0.0.1'', rq_forwarded = [], rq_agent = ''curl'', rq_email = Some ''a@b.c'',
     rq_token = ''tok'', rq_cookie = (\<lambda>_. []) \<rparr>"

theorem link_reply_hides_accounts_witness:
  "fst (RequestLink demo_handler demo_request demo_world) =
   fst (RequestLink demo_handler demo_request (demo_world
     \<lparr> ww_db := (ww_db demo_world)\<lparr> pg_fault := \<lambda>_. True \<rparr>,
       ww_redis := demo_redis\<lparr> rd_keys := [cooldown_key (ag_cfg demo_guard) ''a@b.c'' \<mapsto>
         \<lparr> re_value = RStr ''1'', re_expires = Some 50 \<rparr>] \<rparr> \<rparr>)) \<and>
   fst (RequestLink demo_handler demo_request demo_world) =
   fst (RequestLink demo_handler demo_request (demo_world\<lparr> ww_mailer := \<lambda>_. (False, False) \<rparr>))"
proof -
  let ?w = "demo_world
     \<lparr> ww_db := (ww_db demo_world)\<lparr> pg_fault := \<lambda>_. True \<rparr>,
       ww_redis := demo_redis\<lparr> rd_keys := [cooldown_key (ag_cfg demo_guard) ''a@b.c'' \<mapsto>
         \<lparr> re_value = RStr ''1'', re_expires = Some 50 \<rparr>] \<rparr> \<rparr>"
  have h: "hn_guard demo_handler = Some demo_guard" by (simp add: demo_handler_def)
  moreover have "same_but_cooldowns (ag_cfg demo_guard) (ww_redis demo_world) (ww_redis ?w)"
    by (auto simp: same_but_cooldowns_def demo_world_def demo_redis_def)
  moreover have "same_but_cooldowns (ag_cfg demo_guard) (ww_redis demo_world) (ww_redis (demo_world\<lparr> ww_mailer := \<lambda>_. (False, False) \<rparr>))"
    by (auto simp: same_but_cooldowns_def demo_world_def demo_redis_def)
  ultimately show ?thesis using link_reply_hides_accounts by blast
qed

lemma demo_accounts: "accounts True demo_world"
proof -
  have "signup_wf demo_tables"
    using demo_signup_wf by (auto simp: signup_wf_def demo_tables_def demo_signup_def has_identity_def
        active_owners_def)
  moreover have "active_keys i demo_tables = (if i = ''i1'' then [''key_1''] else [])" for i
    by (auto simp: active_keys_def demo_tables_def demo_signup_def is_active_def)
  moreover have "valid_utf8 ''key_1''" by code_simp
  ultimately show ?thesis by (auto simp: accounts_def demo_world_def)
qed

theorem keys_never_lost_witness:
  "let w = snd (run_all (\<lambda>(route, q). Register demo_handler route q)
       [(RouteRequestLink, demo_request), (RouteVerify, demo_request), (RouteRegenerateKey, demo_request)] demo_world)
   in registry w ''i1'' \<noteq> [] \<and> live_keys w = (\<Union>i. set (registry w i))"
proof -
  let ?qs = "[(RouteRequestLink, demo_request), (RouteVerify, demo_request), (RouteRegenerateKey, demo_request)]"
  let ?r = "run_all (\<lambda>(route, q). Register demo_handler route q) ?qs demo_world"
  have run: "?r = (fst ?r, snd ?r)" by simp
  have prov: "provider True (uk_serve (ww_unkey demo_world))" using demo_provider by (simp add: demo_world_def)
  have "registry demo_world ''i1'' \<noteq> []"
    by (simp add: demo_world_def active_keys_def demo_tables_def demo_signup_def is_active_def)
  then show ?thesis using keys_never_lost [OF demo_accounts prov run] unfolding Let_def by blast
qed

lemma hash_not_empty: "HashToken s \<noteq> []"
proof -
  have "length (HashToken s) = 64" by (simp add: HashToken_def)
  then show ?thesis by auto
qed

lemma demo_consumed:
  obtains m w1 where "on_pg (ConsumeToken (HashToken ''tok'')) demo_world = (Inr m, w1)" "mlt_IdentityID m = ''i1''"
    "t_identities (pg_tables (ww_db w1)) = t_identities demo_tables"
    "pg_fault (ww_db w1) = (\<lambda>_. False)" "ww_clock w1 = (\<lambda>_. 1000 * second)"
  using hash_not_empty
  by (simp add: on_pg_def ConsumeToken_def transaction_def stmt_def demo_world_def demo_tables_def demo_signup_def
      pg_tick_def consume_tx_def db_bind_def db_on_no_rows_def at_clock_def select1_def first_row_def
      mark_used_def usable_def db_return_def scanToken_def)

lemma demo_verified:
  obtains r w' where "Verify demo_handler demo_request demo_world = ((None, r), w')" "rs_Cookies r \<noteq> []"
    "map id_id (t_identities (pg_tables (ww_db w'))) = [''i1'']"
    "map id_email (t_identities (pg_tables (ww_db w'))) = [''a@b.c'']" "ww_clock w' = (\<lambda>_. 1000 * second)"
proof -
  obtain m w1 where c: "on_pg (ConsumeToken (HashToken ''tok'')) demo_world = (Inr m, w1)" "mlt_IdentityID m = ''i1''"
    "t_identities (pg_tables (ww_db w1)) = t_identities demo_tables"
    "pg_fault (ww_db w1) = (\<lambda>_. False)" "ww_clock w1 = (\<lambda>_. 1000 * second)"
    by (rule demo_consumed)
  have t: "trim_space ''tok'' = ''tok''" by code_simp
  let ?p = "\<lparr> sp_IdentityID = ''i1'', sp_Email = ''a@b.c'',
      sp_IssuedAt = unix (1000 * second), sp_ExpiresAt = unix (1000 * second + 24 * hour) \<rparr>"
  have "payload_ok ?p"
  proof -
    have "valid_utf8 ''i1''" "valid_utf8 ''a@b.c''" by code_simp+
    then show ?thesis by (simp add: payload_ok_def unix_def second_def hour_def minute_def)
  qed
  from std.verify_sign [OF this, of "''s''"] obtain v where "SignSession defaultCodec ''s'' ?p = Inr v" by blast
  then show thesis
    using that c t
    by (simp add: Verify_def demo_request_def open_session_def on_pg_def MarkEmailVerified_def stmt_def db_bind_def
        verify_email_def pg_tick_def GetIdentityByID_def db_on_no_rows_def select1_def first_row_def
        demo_handler_def time_now_def scanIdentity_def demo_tables_def demo_signup_def db_return_def
        redirect_def set_header_def setSessionCookie_def new_response_def)
qed

theorem link_opens_own_session_witness:
  "\<exists>r w' q'. Verify demo_handler demo_request demo_world = ((None, r), w') \<and>
    rq_cookie q' ''sid'' = ck_Value (hd (rs_Cookies r)) \<and>
    map_option sp_IdentityID (fst (sessionFromCookie demo_handler q' w')) = Some ''i1''"
proof -
  obtain r w' where v: "Verify demo_handler demo_request demo_world = ((None, r), w')" "rs_Cookies r \<noteq> []"
    "map id_id (t_identities (pg_tables (ww_db w'))) = [''i1'']"
    "map id_email (t_identities (pg_tables (ww_db w'))) = [''a@b.c'']" "ww_clock w' = (\<lambda>_. 1000 * second)"
    by (rule demo_verified)
  let ?q = "demo_request\<lparr> rq_cookie := \<lambda>_. ck_Value (hd (rs_Cookies r)) \<rparr>"
  have "valid_utf8 ''i1''" "valid_utf8 ''a@b.c''" by code_simp+
  then have "\<forall>x \<in> set (t_identities (pg_tables (ww_db w'))). valid_utf8 (id_id x) \<and> valid_utf8 (id_email x)"
    using v(3,4) by (auto simp: map_eq_Cons_conv)
  then have "\<exists>tok \<in> set (t_tokens (pg_tables (ww_db demo_world))).
      tk_token_hash tok = HashToken (trim_space (rq_token demo_request)) \<and> tk_used_at tok = None \<and>
      map_option sp_IdentityID (fst (sessionFromCookie demo_handler ?q w')) = Some (tk_identity_id tok)"
    by (intro link_opens_own_session [OF v(1,2)])
      (simp_all add: v(5) demo_handler_def demo_world_def second_def hour_def minute_def unix_def)
  then show ?thesis using v(1) by (intro exI [of _ r] exI [of _ w'] exI [of _ ?q]) (auto simp: demo_world_def demo_tables_def)
qed

end
