(* ===== verification/Trust_Meta.thy ===== *)
theory Trust_Meta
  imports Capability_Scores
begin

text \<open>
  The trust metadata that accompanies every price, \<open>internal/api/trust.go\<close>: which price is the
  latest, how many sources agree on it, how old its verification is and how often it changed.
\<close>

section \<open>Durations\<close>

text \<open>\<open>Time.Sub\<close> saturates, and \<open>Duration.Hours\<close> adds whole hours and the fraction as floats.\<close>

definition time_sub :: "instant \<Rightarrow> instant \<Rightarrow> duration" where
  "time_sub a b = max (- (2 ^ 63)) (min (2 ^ 63 - 1) (a - b))"

definition duration_hours :: "duration \<Rightarrow> f64" where
  "duration_hours d =
     (let q = sgn d * (\<bar>d\<bar> div hour); r = d - q * hour
      in f64_add (f64_of_int q) (f64_div (f64_of_int r) (f64_of_int (60 * 60 * 1000000000))))"

section \<open>Trust metadata\<close>

record PriceHistoryRow =
  ph_InputCostPerToken :: f64
  ph_OutputCostPerToken :: f64
  ph_Source :: string
  ph_ConfirmedAt :: instant
  ph_RecordedAt :: instant

record TrustMeta =
  tm_ConfirmedAt :: instant
  tm_LastVerifiedAt :: instant
  tm_Source :: string
  tm_Confidence :: string
  tm_AgeHours :: f64
  tm_ChangeVelocity :: f64

definition zero_meta :: TrustMeta where
  "zero_meta = \<lparr> tm_ConfirmedAt = zero_time, tm_LastVerifiedAt = zero_time, tm_Source = [],
     tm_Confidence = [], tm_AgeHours = Fin 0, tm_ChangeVelocity = Fin 0 \<rparr>"

definition price_pair :: "PriceHistoryRow \<Rightarrow> f64 \<times> f64" where
  "price_pair r = (ph_InputCostPerToken r, ph_OutputCostPerToken r)"

text \<open>Comparing structs of floats: a pair with a NaN equals nothing, not even itself.\<close>

definition pair_eq :: "f64 \<times> f64 \<Rightarrow> f64 \<times> f64 \<Rightarrow> bool" where
  "pair_eq p q = (f64_eq (fst p) (fst q) \<and> f64_eq (snd p) (snd q))"

definition latest_row :: "PriceHistoryRow \<Rightarrow> PriceHistoryRow list \<Rightarrow> PriceHistoryRow" where
  "latest_row = foldl (\<lambda>l r. if ph_ConfirmedAt l < ph_ConfirmedAt r then r else l)"

text \<open>The keys of the two maps, in the order in which they are added.\<close>

definition agreeing_sources :: "f64 \<times> f64 \<Rightarrow> PriceHistoryRow list \<Rightarrow> string list" where
  "agreeing_sources p rows = remdups (map ph_Source (filter (\<lambda>r. pair_eq (price_pair r) p) rows))"

definition distinct_pairs :: "(f64 \<times> f64) list \<Rightarrow> (f64 \<times> f64) list" where
  "distinct_pairs = foldl (\<lambda>ps p. if list_ex (pair_eq p) ps then ps else ps @ [p]) []"

definition ComputeTrustMeta :: "PriceHistoryRow list \<Rightarrow> instant option \<Rightarrow> instant \<Rightarrow> TrustMeta" where
  "ComputeTrustMeta rows lastVerifiedAt now =
     (case rows of
        [] \<Rightarrow> zero_meta\<lparr> tm_Confidence := ''low'' \<rparr>
      | r0 # rs \<Rightarrow>
          let latest = latest_row r0 rs;
              verifiedAt = (case lastVerifiedAt of
                 Some v \<Rightarrow> if ph_ConfirmedAt latest < v then v else ph_ConfirmedAt latest
               | None \<Rightarrow> ph_ConfirmedAt latest);
              ageHours = duration_hours (time_sub now verifiedAt);
              sourcesForLatest = agreeing_sources (price_pair latest) rows;
              cutoff = now - 30 * 24 * hour;
              distinctValues = distinct_pairs (map price_pair (filter (\<lambda>r. cutoff < ph_ConfirmedAt r) rows))
          in \<lparr> tm_ConfirmedAt = ph_ConfirmedAt latest, tm_LastVerifiedAt = verifiedAt,
               tm_Source = ph_Source latest,
               tm_Confidence = (if 2 \<le> length sourcesForLatest then ''high''
                                else if f64_le ageHours (f64_of_int 24) then ''medium'' else ''low''),
               tm_AgeHours = ageHours,
               tm_ChangeVelocity = f64_div (f64_of_int (int (length distinctValues))) (f64_of_int 30) \<rparr>)"

section \<open>The order of the rows\<close>

lemma latest_row_spec: "latest_row r0 rs \<in> set (r0 # rs) \<and>
    (\<forall>r \<in> set (r0 # rs). ph_ConfirmedAt r \<le> ph_ConfirmedAt (latest_row r0 rs))"
proof (induction rs arbitrary: r0)
  case (Cons r rs)
  show ?case using Cons [of r0] Cons [of r] by (auto simp: latest_row_def)
qed (simp add: latest_row_def)

lemma latest_row_unique:
  assumes "distinct (map ph_ConfirmedAt (r0 # rs))" "r \<in> set (r0 # rs)"
    and "\<forall>x \<in> set (r0 # rs). ph_ConfirmedAt x \<le> ph_ConfirmedAt r"
  shows "latest_row r0 rs = r"
proof -
  let ?l = "latest_row r0 rs"
  have "?l \<in> set (r0 # rs)" "ph_ConfirmedAt ?l = ph_ConfirmedAt r"
    using latest_row_spec [of r0 rs] assms(2,3) by (blast, meson antisym)
  then show ?thesis using assms(1,2) unfolding distinct_map inj_on_def by blast
qed

text \<open>Prices in the tables are numbers, so pairs compare as values.\<close>

definition numbers :: "PriceHistoryRow list \<Rightarrow> bool" where
  "numbers rows = list_all (\<lambda>r. ph_InputCostPerToken r \<noteq> NaN \<and> ph_OutputCostPerToken r \<noteq> NaN) rows"

lemma pair_eq_iff: "fst p \<noteq> NaN \<Longrightarrow> snd p \<noteq> NaN \<Longrightarrow> pair_eq p q \<longleftrightarrow> p = q"
  by (cases p; cases q) (auto simp: pair_eq_def f64_eq_def)

lemma distinct_pairs_set:
  assumes "\<forall>p \<in> set ps. fst p \<noteq> NaN \<and> snd p \<noteq> NaN"
  shows "distinct (distinct_pairs ps) \<and> set (distinct_pairs ps) = set ps"
  using assms
proof (induction ps rule: rev_induct)
  case (snoc p ps)
  then have "list_ex (pair_eq p) qs \<longleftrightarrow> p \<in> set qs" for qs
    by (auto simp: list_ex_iff pair_eq_iff)
  then show ?case using snoc by (auto simp: distinct_pairs_def)
qed (simp add: distinct_pairs_def)

lemma distinct_pairs_card:
  "\<forall>p \<in> set ps. fst p \<noteq> NaN \<and> snd p \<noteq> NaN \<Longrightarrow> length (distinct_pairs ps) = card (set ps)"
  using distinct_pairs_set distinct_card by metis

text \<open>The metadata from what it depends on.\<close>

definition trust_of :: "PriceHistoryRow \<Rightarrow> nat \<Rightarrow> nat \<Rightarrow> instant option \<Rightarrow> instant \<Rightarrow> TrustMeta" where
  "trust_of latest sources values lastVerifiedAt now =
     (let verifiedAt = (case lastVerifiedAt of
             Some v \<Rightarrow> if ph_ConfirmedAt latest < v then v else ph_ConfirmedAt latest
           | None \<Rightarrow> ph_ConfirmedAt latest);
          ageHours = duration_hours (time_sub now verifiedAt)
      in \<lparr> tm_ConfirmedAt = ph_ConfirmedAt latest, tm_LastVerifiedAt = verifiedAt, tm_Source = ph_Source latest,
           tm_Confidence = (if 2 \<le> sources then ''high''
                            else if f64_le ageHours (f64_of_int 24) then ''medium'' else ''low''),
           tm_AgeHours = ageHours,
           tm_ChangeVelocity = f64_div (f64_of_int (int values)) (f64_of_int 30) \<rparr>)"

lemma ComputeTrustMeta_parts:
  "rows \<noteq> [] \<Longrightarrow> ComputeTrustMeta rows v now = trust_of (latest_row (hd rows) (tl rows))
     (length (agreeing_sources (price_pair (latest_row (hd rows) (tl rows))) rows))
     (length (distinct_pairs (map price_pair (filter (\<lambda>r. now - 30 * 24 * hour < ph_ConfirmedAt r) rows)))) v now"
  by (cases rows) (simp_all add: ComputeTrustMeta_def trust_of_def Let_def)

lemma ComputeTrustMeta_perm:
  assumes "mset rows = mset rows'" "distinct (map ph_ConfirmedAt rows)" "numbers rows"
  shows "ComputeTrustMeta rows v now = ComputeTrustMeta rows' v now"
proof (cases "rows = []")
  case False
  then have ne: "rows' \<noteq> []" using assms(1) by auto
  have set: "set rows' = set rows" using assms(1) by (metis mset_eq_setD)
  have "distinct (map ph_ConfirmedAt rows')"
    using assms(1,2) by (metis mset_eq_imp_distinct_iff mset_map)
  then have latest: "latest_row (hd rows') (tl rows') = latest_row (hd rows) (tl rows)"
    using latest_row_spec [of "hd rows" "tl rows"] set ne False by (intro latest_row_unique) simp_all
  have "length (agreeing_sources p rows') = length (agreeing_sources p rows)" for p
    unfolding agreeing_sources_def length_remdups_card_conv using set by simp
  moreover have "length (distinct_pairs (map price_pair (filter (\<lambda>r. c < ph_ConfirmedAt r) rows'))) =
      length (distinct_pairs (map price_pair (filter (\<lambda>r. c < ph_ConfirmedAt r) rows)))" for c
    using assms(3) set
    by (subst (1 2) distinct_pairs_card) (auto simp: numbers_def price_pair_def list_all_iff)
  ultimately show ?thesis using latest by (simp add: ComputeTrustMeta_parts False ne)
qed (use assms(1) in simp)

text \<open>Confidence is high exactly when two sources report the latest price.\<close>

lemma two_values:
  "(\<exists>a \<in> f ` {r \<in> A. g r = p}. \<exists>b \<in> f ` {r \<in> A. g r = p}. a \<noteq> b) \<longleftrightarrow>
   (\<exists>r \<in> A. \<exists>s \<in> A. f r \<noteq> f s \<and> g r = g s \<and> g r = p)"
  by (simp add: Bex_def) metis

lemma two_elems_card: "finite S \<Longrightarrow> 2 \<le> card S \<longleftrightarrow> (\<exists>a \<in> S. \<exists>b \<in> S. a \<noteq> b)"
  using card_le_Suc0_iff_eq [of S] by (metis not_less_eq_eq numeral_2_eq_2)

lemma high_confidence_iff:
  assumes "numbers rows" "rows \<noteq> []"
  shows "tm_Confidence (ComputeTrustMeta rows v now) = ''high'' \<longleftrightarrow>
    (\<exists>r \<in> set rows. \<exists>s \<in> set rows. ph_Source r \<noteq> ph_Source s \<and> price_pair r = price_pair s \<and>
       price_pair r = price_pair (latest_row (hd rows) (tl rows)))"
proof -
  define p where "p = price_pair (latest_row (hd rows) (tl rows))"
  have eq: "r \<in> set rows \<Longrightarrow> pair_eq (price_pair r) p \<longleftrightarrow> price_pair r = p" for r
    using assms(1) by (intro pair_eq_iff) (auto simp: numbers_def list_all_iff price_pair_def)
  let ?S = "ph_Source ` {r \<in> set rows. price_pair r = p}"
  have "set (map ph_Source (filter (\<lambda>r. pair_eq (price_pair r) p) rows)) = ?S" using eq by auto
  then have "length (agreeing_sources p rows) = card ?S"
    by (simp add: agreeing_sources_def length_remdups_card_conv)
  moreover have "2 \<le> card ?S \<longleftrightarrow> (\<exists>a \<in> ?S. \<exists>b \<in> ?S. a \<noteq> b)"
    by (rule two_elems_card) simp
  moreover have "tm_Confidence (ComputeTrustMeta rows v now) = ''high'' \<longleftrightarrow> 2 \<le> length (agreeing_sources p rows)"
    using assms(2) by (simp add: ComputeTrustMeta_parts trust_of_def Let_def p_def)
  ultimately show ?thesis using two_values [of ph_Source "set rows" price_pair p] by (simp only: p_def)
qed

end
