(* ===== verification/Go_Sort.thy ===== *)
theory Go_Sort
  imports Prelude
begin

text \<open>
  The sorting functions of Go's package \<open>sort\<close> that the handlers use. \<open>Slice\<close> is, on at most twelve
  elements, the insertion sort below. \<open>SliceStable\<close> sorts blocks of twenty elements by insertion and
  merges neighbouring blocks with the in-place \<open>symMerge\<close>; the model keeps its binary searches, since a
  comparator of the program need not be transitive, and then the result depends on which elements are
  compared.
\<close>

section \<open>The algorithms\<close>

text \<open>The sorted part, last element first: the new element moves left while it is less.\<close>

fun move_left :: "('a \<Rightarrow> 'a \<Rightarrow> bool) \<Rightarrow> 'a \<Rightarrow> 'a list \<Rightarrow> 'a list" where
  "move_left lt x [] = [x]"
| "move_left lt x (y # ys) = (if lt x y then y # move_left lt x ys else x # y # ys)"

definition insertion_sort :: "('a \<Rightarrow> 'a \<Rightarrow> bool) \<Rightarrow> 'a list \<Rightarrow> 'a list" where
  "insertion_sort lt xs = rev (foldl (\<lambda>acc x. move_left lt x acc) [] xs)"

text \<open>The loops \<open>for i < j\<close>: the first index whose predecessor goes right and which does not.\<close>

function bisect :: "(nat \<Rightarrow> bool) \<Rightarrow> nat \<Rightarrow> nat \<Rightarrow> nat" where
  "bisect right i j =
     (if i < j then let h = (i + j) div 2 in if right h then bisect right (Suc h) j else bisect right i h
      else i)"
  by pat_completeness auto
termination by (relation "measure (\<lambda>(_, i, j). j - i)") auto

declare bisect.simps [simp del]

lemma bisect_spec:
  "i \<le> j \<Longrightarrow> i \<le> bisect right i j \<and> bisect right i j \<le> j \<and>
    (bisect right i j = i \<or> right (bisect right i j - 1)) \<and> (bisect right i j = j \<or> \<not> right (bisect right i j))"
proof (induction right i j rule: bisect.induct)
  case (1 right i j)
  define h where "h = (i + j) div 2"
  show ?case
  proof (cases "i < j")
    case True
    then have h: "i \<le> h" "h < j" by (auto simp: h_def)
    show ?thesis
    proof (cases "right h")
      case r: True
      have "bisect right i j = bisect right (Suc h) j" using True r by (subst bisect.simps) (simp add: h_def)
      then show ?thesis using 1(1) [OF True h_def r] h r by (cases "bisect right (Suc h) j = Suc h") auto
    next
      case r: False
      have "bisect right i j = bisect right i h" using True r by (subst bisect.simps) (simp add: h_def)
      then show ?thesis using 1(2) [OF True h_def r] h r by (cases "bisect right i h = h") auto
    qed
  qed (use 1(3) in \<open>simp add: bisect.simps\<close>)
qed

text \<open>
  \<open>symMerge\<close> on two neighbouring blocks: a block of one element is inserted; otherwise a bisection
  around the middle finds the parts that the rotation exchanges, and the halves are merged.
\<close>

definition split_point :: "('a \<Rightarrow> 'a \<Rightarrow> bool) \<Rightarrow> 'a list \<Rightarrow> 'a list \<Rightarrow> nat" where
  "split_point lt xs ys =
     (let m = length xs; b = m + length ys; mid = b div 2; n = mid + m;
          start = (if mid < m then n - b else 0);
          r = (if mid < m then mid else m)
      in bisect (\<lambda>c. \<not> lt (ys ! (mid - 1 - c)) (xs ! c)) start r)"

lemma split_point_spec:
  fixes xs ys :: "'a list"
  defines "mid \<equiv> (length xs + length ys) div 2"
  assumes "2 \<le> length xs" "2 \<le> length ys"
  shows "split_point lt xs ys \<le> length xs" "split_point lt xs ys \<le> mid"
    "mid - split_point lt xs ys \<le> length ys"
    "0 < split_point lt xs ys \<Longrightarrow> mid - split_point lt xs ys < length ys \<Longrightarrow>
       \<not> lt (ys ! (mid - split_point lt xs ys)) (xs ! (split_point lt xs ys - 1))"
    "split_point lt xs ys < length xs \<Longrightarrow> 0 < mid - split_point lt xs ys \<Longrightarrow>
       lt (ys ! (mid - split_point lt xs ys - 1)) (xs ! split_point lt xs ys)"
proof -
  let ?f = "\<lambda>c. \<not> lt (ys ! (mid - 1 - c)) (xs ! c)"
  define i where "i = (if mid < length xs then mid + length xs - (length xs + length ys) else 0)"
  define j where "j = (if mid < length xs then mid else length xs)"
  have s: "split_point lt xs ys = bisect ?f i j"
    by (simp add: split_point_def Let_def mid_def i_def j_def)
  have ij: "i \<le> j" "j \<le> mid" "j \<le> length xs" "mid - i \<le> length ys" "i = 0 \<or> mid - i = length ys"
      "j = mid \<or> j = length xs"
    using assms(2,3) unfolding i_def j_def mid_def by (simp_all, linarith+)
  define k where "k = split_point lt xs ys"
  have b: "i \<le> k" "k \<le> j" "k = i \<or> ?f (k - 1)" "k = j \<or> \<not> ?f k"
    using bisect_spec [OF ij(1), of ?f] unfolding k_def s by blast+
  show "split_point lt xs ys \<le> length xs" "split_point lt xs ys \<le> mid"
    "mid - split_point lt xs ys \<le> length ys"
    using b(1,2) ij(1-4) by (simp_all flip: k_def)
  show "\<not> lt (ys ! (mid - split_point lt xs ys)) (xs ! (split_point lt xs ys - 1))"
    if "0 < split_point lt xs ys" "mid - split_point lt xs ys < length ys"
  proof -
    have "k \<noteq> i" using that ij(5) by (auto simp flip: k_def)
    then have "?f (k - 1)" using b(3) by blast
    moreover have "mid - 1 - (k - 1) = mid - k" using that(1) by (simp flip: k_def)
    ultimately show ?thesis by (simp flip: k_def)
  qed
  show "lt (ys ! (mid - split_point lt xs ys - 1)) (xs ! split_point lt xs ys)"
    if "split_point lt xs ys < length xs" "0 < mid - split_point lt xs ys"
  proof -
    have "k \<noteq> j" using that ij(6) by (auto simp flip: k_def)
    then have "\<not> ?f k" using b(4) by blast
    then show ?thesis by (simp add: diff_commute flip: k_def)
  qed
qed

lemma two_elements: "xs \<noteq> [] \<Longrightarrow> length xs \<noteq> 1 \<Longrightarrow> 2 \<le> length xs"
  by (cases xs; cases "tl xs") auto

function sym_merge :: "('a \<Rightarrow> 'a \<Rightarrow> bool) \<Rightarrow> 'a list \<Rightarrow> 'a list \<Rightarrow> 'a list" where
  "sym_merge lt xs ys =
     (if xs = [] \<or> ys = [] then xs @ ys
      else if length xs = 1
      then let i = bisect (\<lambda>h. lt (ys ! h) (hd xs)) 0 (length ys) in take i ys @ hd xs # drop i ys
      else if length ys = 1
      then let i = bisect (\<lambda>h. \<not> lt (hd ys) (xs ! h)) 0 (length xs) in take i xs @ hd ys # drop i xs
      else let s = split_point lt xs ys; e = (length xs + length ys) div 2 - s
           in sym_merge lt (take s xs) (take e ys) @ sym_merge lt (drop s xs) (drop e ys))"
  by pat_completeness auto
termination
proof (relation "measure (\<lambda>(_, xs, ys). length xs + length ys)", goal_cases)
  case (2 lt xs ys s e)
  then have "2 \<le> length xs" "2 \<le> length ys" by (simp_all add: two_elements)
  then show ?case using split_point_spec(1,2) [of xs ys lt] 2(4,5) by (auto simp: min_def)
next
  case (3 lt xs ys s e)
  then have "2 \<le> length xs" "2 \<le> length ys" by (simp_all add: two_elements)
  then show ?case using split_point_spec(1-3) [of xs ys lt] 3(4,5) by auto
qed simp

declare sym_merge.simps [simp del]

fun merge_pairs :: "('a \<Rightarrow> 'a \<Rightarrow> bool) \<Rightarrow> 'a list list \<Rightarrow> 'a list list" where
  "merge_pairs lt (xs # ys # bs) = sym_merge lt xs ys # merge_pairs lt bs"
| "merge_pairs lt bs = bs"

lemma length_merge_pairs: "length (merge_pairs lt bs) \<le> length bs"
  by (induction lt bs rule: merge_pairs.induct) auto

function merge_blocks :: "('a \<Rightarrow> 'a \<Rightarrow> bool) \<Rightarrow> 'a list list \<Rightarrow> 'a list" where
  "merge_blocks lt [] = []"
| "merge_blocks lt [xs] = xs"
| "merge_blocks lt (xs # ys # bs) = merge_blocks lt (merge_pairs lt (xs # ys # bs))"
  by pat_completeness auto
termination
  by (relation "measure (\<lambda>(_, bs). length bs)") (auto simp: le_imp_less_Suc length_merge_pairs)

function blocks_of :: "nat \<Rightarrow> 'a list \<Rightarrow> 'a list list" where
  "blocks_of n xs = (if xs = [] \<or> n = 0 then [] else take n xs # blocks_of n (drop n xs))"
  by pat_completeness auto
termination by (relation "measure (\<lambda>(_, xs). length xs)") auto

declare blocks_of.simps [simp del]

definition slice_stable :: "('a \<Rightarrow> 'a \<Rightarrow> bool) \<Rightarrow> 'a list \<Rightarrow> 'a list" where
  "slice_stable lt xs = merge_blocks lt (map (insertion_sort lt) (blocks_of 20 xs))"

section \<open>Nothing is lost\<close>

lemma mset_move_left: "mset (move_left lt x ys) = add_mset x (mset ys)"
  by (induction ys) auto

lemma mset_insertion_sort: "mset (insertion_sort lt xs) = mset xs"
proof -
  have "mset (foldl (\<lambda>acc x. move_left lt x acc) acc xs) = mset acc + mset xs" for acc
    by (induction xs arbitrary: acc) (auto simp: mset_move_left)
  then show ?thesis by (simp add: insertion_sort_def)
qed

lemma mset_insert_at: "mset (take i ys @ x # drop i ys) = add_mset x (mset ys)"
  by (metis append_take_drop_id mset.simps(2) mset_append union_mset_add_mset_right)

lemma mset_take_drop [simp]: "mset (take i xs) + mset (drop i xs) = mset xs"
  by (metis append_take_drop_id mset_append)

lemma mset_sym_merge: "mset (sym_merge lt xs ys) = mset xs + mset ys"
proof (induction lt xs ys rule: sym_merge.induct)
  case (1 lt xs ys)
  consider "xs = [] \<or> ys = []" | "xs \<noteq> []" "ys \<noteq> []" "length xs = 1"
    | "xs \<noteq> []" "ys \<noteq> []" "length xs \<noteq> 1" "length ys = 1" | "xs \<noteq> []" "ys \<noteq> []" "length xs \<noteq> 1" "length ys \<noteq> 1"
    by blast
  then show ?case
  proof cases
    case 2
    then obtain x where "xs = [x]" by (auto simp: length_Suc_conv)
    then show ?thesis using 2 by (subst sym_merge.simps) (auto simp: Let_def mset_insert_at)
  next
    case 3
    then obtain y where "ys = [y]" by (auto simp: length_Suc_conv)
    then show ?thesis using 3 by (subst sym_merge.simps) (auto simp: Let_def mset_insert_at)
  next
    case 4
    define s where "s = split_point lt xs ys"
    define e where "e = (length xs + length ys) div 2 - s"
    have eq: "sym_merge lt xs ys =
        sym_merge lt (take s xs) (take e ys) @ sym_merge lt (drop s xs) (drop e ys)"
      using 4 by (subst sym_merge.simps) (auto simp: Let_def s_def e_def)
    have "mset (sym_merge lt xs ys) =
        (mset (take s xs) + mset (take e ys)) + (mset (drop s xs) + mset (drop e ys))"
      unfolding eq using 1 4 by (simp add: s_def e_def)
    also have "\<dots> = (mset (take s xs) + mset (drop s xs)) + (mset (take e ys) + mset (drop e ys))"
      by (simp only: ac_simps)
    also have "\<dots> = mset xs + mset ys" by (simp only: mset_take_drop)
    finally show ?thesis .
  qed (auto simp: sym_merge.simps)
qed

lemma set_sym_merge: "set (sym_merge lt xs ys) = set xs \<union> set ys"
  using mset_sym_merge [of lt xs ys] by (metis set_mset_mset set_mset_union)

lemma mset_merge_pairs: "mset (concat (merge_pairs lt bs)) = mset (concat bs)"
  by (induction lt bs rule: merge_pairs.induct) (auto simp: mset_sym_merge)

lemma mset_merge_blocks: "mset (merge_blocks lt bs) = mset (concat bs)"
proof (induction lt bs rule: merge_blocks.induct)
  case (3 lt xs ys bs)
  then show ?case using mset_merge_pairs [of lt "xs # ys # bs"] by simp
qed auto

lemma concat_blocks_of: "0 < n \<Longrightarrow> concat (blocks_of n xs) = xs"
  by (induction n xs rule: blocks_of.induct) (subst blocks_of.simps, auto)

lemma mset_slice_stable: "mset (slice_stable lt xs) = mset xs"
proof -
  have "mset (concat (map (insertion_sort lt) bs)) = mset (concat bs)" for bs
    by (induction bs) (auto simp: mset_insertion_sort)
  then show ?thesis by (simp add: slice_stable_def mset_merge_blocks concat_blocks_of)
qed

lemma set_slice_stable: "set (slice_stable lt xs) = set xs"
  using mset_slice_stable by (metis set_mset_mset)

lemma length_slice_stable: "length (slice_stable lt xs) = length xs"
  using mset_slice_stable by (metis size_mset)

section \<open>What a comparator separates, the sort separates\<close>

text \<open>
  A comparator that puts every element with a property before every element without it need not be an
  order at all: the sorted list still has the elements with the property in front.
\<close>

definition separates :: "('a \<Rightarrow> 'a \<Rightarrow> bool) \<Rightarrow> ('a \<Rightarrow> bool) \<Rightarrow> bool" where
  "separates lt P \<longleftrightarrow> (\<forall>x y. P x \<and> \<not> P y \<longrightarrow> lt x y \<and> \<not> lt y x)"

definition in_front :: "('a \<Rightarrow> bool) \<Rightarrow> 'a list \<Rightarrow> bool" where
  "in_front P = sorted_wrt (\<lambda>x y. P y \<longrightarrow> P x)"

lemma in_front_append:
  "in_front P (xs @ ys) \<longleftrightarrow> in_front P xs \<and> in_front P ys \<and> (\<forall>x \<in> set xs. \<forall>y \<in> set ys. P y \<longrightarrow> P x)"
  by (simp add: in_front_def sorted_wrt_append)

lemma in_front_Cons [simp]: "in_front P (x # ys) \<longleftrightarrow> in_front P ys \<and> (\<forall>y \<in> set ys. P y \<longrightarrow> P x)"
  by (auto simp: in_front_def)

lemma in_front_Nil [simp]: "in_front P []"
  by (simp add: in_front_def)

lemma in_front_take_drop:
  assumes "in_front P xs"
  shows "in_front P (take i xs)" "in_front P (drop i xs)"
    "\<forall>x \<in> set (take i xs). \<forall>y \<in> set (drop i xs). P y \<longrightarrow> P x"
  using assms in_front_append [of P "take i xs" "drop i xs"] by auto

lemma in_front_nth: "in_front P xs \<Longrightarrow> i \<le> j \<Longrightarrow> j < length xs \<Longrightarrow> P (xs ! j) \<Longrightarrow> P (xs ! i)"
  unfolding in_front_def sorted_wrt_iff_nth_less by (cases "i = j") (simp, metis le_neq_implies_less)

lemma in_front_rev_move:
  assumes "separates lt P" "in_front P (rev acc)"
  shows "in_front P (rev (move_left lt x acc))"
  using assms(2)
proof (induction acc)
  case (Cons y acc)
  have IH: "in_front P (rev (move_left lt x acc))" "in_front P (rev acc)"
    using Cons by (auto simp: in_front_append)
  have y: "\<forall>z \<in> set acc. P y \<longrightarrow> P z" using Cons(2) by (simp add: in_front_append)
  have s: "set (move_left lt x acc) = insert x (set acc)"
    by (metis mset_move_left set_mset_add_mset_insert set_mset_mset)
  show ?case
  proof (cases "lt x y")
    case True
    then have "P y \<longrightarrow> P x" using assms(1) by (auto simp: separates_def)
    then show ?thesis using True IH y s by (auto simp: in_front_append)
  next
    case False
    then have "P x \<longrightarrow> P y" using assms(1) unfolding separates_def by blast
    then have "\<forall>z \<in> set (rev (y # acc)). P x \<longrightarrow> P z" unfolding set_rev list.set using y by blast
    moreover have "rev (move_left lt x (y # acc)) = rev (y # acc) @ [x]" using False by simp
    moreover have "in_front P [x]" by simp
    ultimately show ?thesis using Cons(2) by (simp only: in_front_append list.set) blast
  qed
qed (simp add: in_front_def)

lemma in_front_insertion_sort:
  assumes "separates lt P"
  shows "in_front P (insertion_sort lt xs)"
proof -
  have "in_front P (rev acc) \<Longrightarrow> in_front P (rev (foldl (\<lambda>acc x. move_left lt x acc) acc xs))" for acc
    by (induction xs arbitrary: acc) (auto simp: in_front_rev_move [OF assms])
  then show ?thesis by (simp add: insertion_sort_def in_front_def)
qed

text \<open>The parts that \<open>symMerge\<close> exchanges: no element without the property stays left of one with it.\<close>

lemma split_separated:
  assumes "separates lt P" "in_front P xs" "in_front P ys" "2 \<le> length xs" "2 \<le> length ys"
  defines "s \<equiv> split_point lt xs ys"
  defines "e \<equiv> (length xs + length ys) div 2 - s"
  shows "\<forall>x \<in> set (take s xs). \<forall>y \<in> set (drop e ys). P y \<longrightarrow> P x"
    "\<forall>y \<in> set (take e ys). \<forall>x \<in> set (drop s xs). P x \<longrightarrow> P y"
proof -
  note sp = split_point_spec [OF assms(4,5), of lt, folded s_def, folded e_def]
  show "\<forall>x \<in> set (take s xs). \<forall>y \<in> set (drop e ys). P y \<longrightarrow> P x"
  proof (intro ballI impI)
    fix x y assume xy: "x \<in> set (take s xs)" "y \<in> set (drop e ys)" "P y"
    then obtain i j where i: "i < s" "x = xs ! i" "i < length xs" and j: "e \<le> j" "y = ys ! j" "j < length ys"
      by (auto simp: in_set_conv_nth) (metis add.commute le_add1 less_diff_conv)
    then have "\<not> lt (ys ! e) (xs ! (s - 1))" using sp(4) by auto
    moreover have "P (ys ! e)" using in_front_nth [OF assms(3) j(1,3)] j(2) xy(3) by simp
    ultimately have "P (xs ! (s - 1))" using assms(1) by (auto simp: separates_def)
    then show "P x" using in_front_nth [OF assms(2), of i "s - 1"] i sp(1) by auto
  qed
  show "\<forall>y \<in> set (take e ys). \<forall>x \<in> set (drop s xs). P x \<longrightarrow> P y"
  proof (intro ballI impI)
    fix x y assume xy: "y \<in> set (take e ys)" "x \<in> set (drop s xs)" "P x"
    then obtain i j where i: "i < e" "y = ys ! i" "i < length ys" and j: "s \<le> j" "x = xs ! j" "j < length xs"
      by (auto simp: in_set_conv_nth) (metis add.commute le_add1 less_diff_conv)
    then have "lt (ys ! (e - 1)) (xs ! s)" using sp(5) by auto
    moreover have "P (xs ! s)" using in_front_nth [OF assms(2) j(1,3)] j(2) xy(3) by simp
    ultimately have "P (ys ! (e - 1))" using assms(1) by (auto simp: separates_def)
    then show "P y" using in_front_nth [OF assms(3), of i "e - 1"] i sp(3) by auto
  qed
qed

lemma in_front_insert_at:
  assumes "in_front P ys" "i \<le> length ys"
    and "\<And>j. j < length ys \<Longrightarrow> j = i - 1 \<Longrightarrow> 0 < i \<Longrightarrow> P x \<Longrightarrow> P (ys ! j)"
    and "\<And>j. j < length ys \<Longrightarrow> j = i \<Longrightarrow> P (ys ! j) \<Longrightarrow> P x"
  shows "in_front P (take i ys @ x # drop i ys)"
proof -
  have "P y" if "y \<in> set (take i ys)" "P x" for y
  proof -
    obtain j where j: "j < i" "j < length ys" "y = ys ! j" using \<open>y \<in> set (take i ys)\<close> by (auto simp: in_set_conv_nth)
    then have "P (ys ! (i - 1))" using assms(2,3) that(2) by auto
    then show ?thesis using in_front_nth [OF assms(1), of j "i - 1"] j assms(2) by auto
  qed
  moreover have "P x" if "y \<in> set (drop i ys)" "P y" for y
  proof -
    obtain j where j: "i + j < length ys" "y = ys ! (i + j)"
      using \<open>y \<in> set (drop i ys)\<close> assms(2) by (auto simp: in_set_conv_nth less_diff_conv add.commute)
    then have "P (ys ! i)" using in_front_nth [OF assms(1), of i "i + j"] that(2) by auto
    then show ?thesis using assms(4) j by auto
  qed
  ultimately show ?thesis
    using in_front_take_drop [OF assms(1), of i] by (auto simp: in_front_append)
qed

lemma in_front_sym_merge:
  assumes "separates lt P"
  shows "in_front P xs \<Longrightarrow> in_front P ys \<Longrightarrow> in_front P (sym_merge lt xs ys)"
  using assms
proof (induction lt xs ys rule: sym_merge.induct)
  case (1 lt xs ys)
  consider "xs = [] \<or> ys = []" | x where "xs = [x]" "ys \<noteq> []" | y where "ys = [y]" "xs \<noteq> []" "length xs \<noteq> 1"
    | "2 \<le> length xs" "2 \<le> length ys" by (cases xs; cases "tl xs"; cases ys; cases "tl ys"; auto)
  then show ?case
  proof cases
    case 2
    define i where "i = bisect (\<lambda>h. lt (ys ! h) x) 0 (length ys)"
    have b: "i \<le> length ys" "i = 0 \<or> lt (ys ! (i - 1)) x" "i = length ys \<or> \<not> lt (ys ! i) x"
      using bisect_spec [of 0 "length ys" "\<lambda>h. lt (ys ! h) x"] by (auto simp: i_def)
    have "in_front P (take i ys @ x # drop i ys)"
      using b 1(5) by (intro in_front_insert_at 1(4)) (auto simp: separates_def)
    then show ?thesis using 2 by (subst sym_merge.simps) (simp add: i_def Let_def)
  next
    case 3
    define i where "i = bisect (\<lambda>h. \<not> lt y (xs ! h)) 0 (length xs)"
    have b: "i \<le> length xs" "i = 0 \<or> \<not> lt y (xs ! (i - 1))" "i = length xs \<or> lt y (xs ! i)"
      using bisect_spec [of 0 "length xs" "\<lambda>h. \<not> lt y (xs ! h)"] by (auto simp: i_def)
    have "in_front P (take i xs @ y # drop i xs)"
      using b 1(5) by (intro in_front_insert_at 1(3)) (auto simp: separates_def)
    then show ?thesis using 3 by (subst sym_merge.simps) (simp add: i_def Let_def)
  next
    case 4
    define s where "s = split_point lt xs ys"
    define e where "e = (length xs + length ys) div 2 - s"
    have ne: "xs \<noteq> []" "ys \<noteq> []" "length xs \<noteq> 1" "length ys \<noteq> 1" using 4 by auto
    have eq: "sym_merge lt xs ys =
        sym_merge lt (take s xs) (take e ys) @ sym_merge lt (drop s xs) (drop e ys)"
      using ne by (subst sym_merge.simps) (simp add: Let_def s_def e_def)
    note halves = in_front_take_drop [OF 1(3), of s] in_front_take_drop [OF 1(4), of e]
    have "in_front P (sym_merge lt (take s xs) (take e ys))" "in_front P (sym_merge lt (drop s xs) (drop e ys))"
      by (rule 1(1) [OF _ ne(3,4) s_def e_def halves(1,4) 1(5)], simp add: ne(1,2))
        (rule 1(2) [OF _ ne(3,4) s_def e_def halves(2,5) 1(5)], simp add: ne(1,2))
    then show ?thesis
      using halves(3,6) split_separated [OF 1(5,3,4) 4, folded s_def, folded e_def]
      by (simp only: eq in_front_append set_sym_merge ball_Un ball_conj_distrib)
  qed (use 1 in \<open>auto simp: sym_merge.simps\<close>)
qed

lemma in_front_merge_blocks:
  assumes "separates lt P"
  shows "\<forall>b \<in> set bs. in_front P b \<Longrightarrow> in_front P (merge_blocks lt bs)"
proof -
  have pairs: "\<forall>b \<in> set bs. in_front P b \<Longrightarrow> \<forall>b \<in> set (merge_pairs lt bs). in_front P b" for bs
    using assms by (induction lt bs rule: merge_pairs.induct) (auto intro: in_front_sym_merge)
  show "\<forall>b \<in> set bs. in_front P b \<Longrightarrow> in_front P (merge_blocks lt bs)"
  proof (induction "length bs" arbitrary: bs rule: less_induct)
    case less
    consider "bs = []" | b where "bs = [b]" | x y r where "bs = x # y # r" by (cases bs; cases "tl bs"; auto)
    then show ?case
    proof cases
      case 3
      have "length (merge_pairs lt bs) < length bs"
        using length_merge_pairs [of lt r] 3 by simp
      then show ?thesis using less.hyps [of "merge_pairs lt bs"] pairs [OF less.prems] 3 by simp
    qed (use less.prems in \<open>auto simp: in_front_def\<close>)
  qed
qed

lemma in_front_slice_stable: "separates lt P \<Longrightarrow> in_front P (slice_stable lt xs)"
  unfolding slice_stable_def by (rule in_front_merge_blocks) (auto simp: in_front_insertion_sort)

text \<open>For a comparator that is a strict weak order, the sorted list is in order.\<close>

definition weak_order :: "('a \<Rightarrow> 'a \<Rightarrow> bool) \<Rightarrow> bool" where
  "weak_order lt \<longleftrightarrow> (\<forall>x y z. \<not> lt x x \<and> (lt x y \<and> lt y z \<longrightarrow> lt x z) \<and> (lt x z \<longrightarrow> lt x y \<or> lt y z))"

lemma below_separates: "weak_order lt \<Longrightarrow> separates lt (\<lambda>x. lt x z)"
  unfolding weak_order_def separates_def by blast

lemma all_in_front_sorted:
  assumes "\<And>z. in_front (\<lambda>x. lt x z) xs" "\<And>x. \<not> lt x x"
  shows "sorted_wrt (\<lambda>x y. \<not> lt y x) xs"
  using assms by (simp add: in_front_def sorted_wrt_iff_nth_less) blast

lemma slice_stable_sorted: "weak_order lt \<Longrightarrow> sorted_wrt (\<lambda>x y. \<not> lt y x) (slice_stable lt xs)"
  by (rule all_in_front_sorted) (auto simp: in_front_slice_stable below_separates, simp add: weak_order_def)

lemma insertion_sort_sorted: "weak_order lt \<Longrightarrow> sorted_wrt (\<lambda>x y. \<not> lt y x) (insertion_sort lt xs)"
  by (rule all_in_front_sorted) (auto simp: in_front_insertion_sort below_separates, simp add: weak_order_def)

text \<open>Only the comparisons of the list's own elements matter.\<close>

lemma move_left_cong: "\<forall>y \<in> set ys. lt x y = lt' x y \<Longrightarrow> move_left lt x ys = move_left lt' x ys"
  by (induction ys) auto

lemma insertion_sort_cong:
  assumes "\<And>x y. x \<in> set xs \<Longrightarrow> y \<in> set xs \<Longrightarrow> lt x y = lt' x y"
  shows "insertion_sort lt xs = insertion_sort lt' xs"
proof -
  have "foldl (\<lambda>acc x. move_left lt x acc) acc ys = foldl (\<lambda>acc x. move_left lt' x acc) acc ys"
    if "set acc \<subseteq> set xs" "set ys \<subseteq> set xs" for acc ys
    using that
  proof (induction ys arbitrary: acc)
    case (Cons y ys)
    have "move_left lt y acc = move_left lt' y acc"
      using Cons.prems assms by (intro move_left_cong) auto
    moreover have "set (move_left lt' y acc) \<subseteq> set xs"
      using Cons.prems by (metis insert_subset list.simps(15) mset_move_left set_mset_add_mset_insert set_mset_mset)
    ultimately show ?case using Cons by simp
  qed simp
  then show ?thesis by (simp add: insertion_sort_def)
qed

lemma set_insertion_sort: "set (insertion_sort lt xs) = set xs"
  using mset_insertion_sort by (metis set_mset_mset)

lemma length_insertion_sort: "length (insertion_sort lt xs) = length xs"
  using mset_insertion_sort by (metis size_mset)

lemma weak_order_key: "weak_order (\<lambda>x y. k y < k x)" for k :: "'a \<Rightarrow> 'b::linorder"
  unfolding weak_order_def by (metis less_irrefl less_trans not_less_iff_gr_or_eq)

text \<open>Sorting by a key, largest first.\<close>

lemma insertion_sort_desc:
  fixes k :: "'a \<Rightarrow> 'b::linorder"
  assumes "\<And>x y. x \<in> set xs \<Longrightarrow> y \<in> set xs \<Longrightarrow> lt x y \<longleftrightarrow> k y < k x"
  shows "sorted_wrt (\<lambda>x y. k y \<le> k x) (insertion_sort lt xs)"
proof -
  have "sorted_wrt (\<lambda>x y. \<not> k x < k y) (insertion_sort (\<lambda>x y. k y < k x) xs)"
    by (rule insertion_sort_sorted [OF weak_order_key])
  then show ?thesis using insertion_sort_cong [OF assms, of xs] by (simp add: not_less)
qed

end
