(* ===== verification/Catalog_Store.thy ===== *)
theory Catalog_Store
  imports Trust_Meta Price_Tables Go_Sort "HOL-Library.Product_Lexorder"
begin

text \<open>
  The read side of the API, \<open>internal/api/handlers/store.go\<close>: the queries behind the model, change,
  history, context and recommendation endpoints. A query is one statement of \<open>Price_Tables\<close>. Rows
  that SQL may return in any order come in the order of the table, and the ties of an \<open>ORDER BY\<close>,
  too (the property about paging lets that order change between requests); \<open>ilike\<close> is PostgreSQL's operator. The clock readings of \<open>ComputeTrustMeta\<close> are numbered by
  the position of the model they are made for. Iterating over a Go map is a permutation that is an
  argument; on it \<open>sort.Slice\<close> is the stable \<open>insertion_sort\<close>, so that elements that compare equal may
  end up in any order.
\<close>

section \<open>Filters and rows\<close>

record ListModelsFilter =
  lf_Provider :: string
  lf_Modality :: string
  lf_Search :: string
  lf_MinContext :: "int option"
  lf_Page :: int
  lf_PerPage :: int
  lf_Sort :: string

record ChangesFilter =
  cg_Since :: "instant option"
  cg_Before :: "instant option"
  cg_Provider :: string
  cg_Limit :: int

record SummaryFilter =
  sf_Since :: "instant option"
  sf_Provider :: string

record HistoryFilter =
  hf_From :: "instant option"
  hf_To :: "instant option"

record RecommendFilter =
  rf_Task :: string
  rf_ContextSize :: "int option"
  rf_MaxPriceInput :: "f64 option"
  rf_UseCase :: string
  rf_Priority :: string
  rf_RequiresTools :: bool
  rf_RequiresStructuredOutput :: bool
  rf_TopK :: int

record ModelRow =
  md_ID :: int
  md_Provider :: string
  md_Name :: string
  md_Slug :: string
  md_Modality :: string
  md_ContextWindow :: "int option"
  md_PriceInput :: f64
  md_PriceOutput :: f64
  md_ConfirmedAt :: instant
  md_LastVerifiedAt :: "instant option"
  md_Source :: string
  md_UnderlyingProvider :: "string option"
  md_Meta :: TrustMeta

record ProviderRow =
  pv_Name :: string
  pv_ModelCount :: int

record ChangeRow =
  ch_ModelID :: int
  ch_ModelSlug :: string
  ch_Provider :: string
  ch_OldInput :: f64
  ch_OldOutput :: f64
  ch_NewInput :: f64
  ch_NewOutput :: f64
  ch_ConfirmedAt :: instant
  ch_Source :: string

record HistoryRow =
  hy_InputCostPerToken :: f64
  hy_OutputCostPerToken :: f64
  hy_Source :: string
  hy_ConfirmedAt :: instant
  hy_RecordedAt :: instant
  hy_UnderlyingProvider :: "string option"

record ContextModelRow =
  cx_ID :: int
  cx_Provider :: string
  cx_Slug :: string
  cx_PriceInput :: f64
  cx_PriceOutput :: f64
  cx_Confidence :: string
  cx_ConfirmedAt :: instant

section \<open>The join behind every model row\<close>

definition latest_price :: "tables \<Rightarrow> int \<Rightarrow> price_row option" where
  "latest_price t i =
     (case sort_key (\<lambda>p. - pr_confirmed_at p) (filter (\<lambda>p. pr_model_id p = i) (t_prices t)) of
        [] \<Rightarrow> None | p # _ \<Rightarrow> Some p)"

definition source_name :: "tables \<Rightarrow> int \<Rightarrow> string option" where
  "source_name t s = (case filter (\<lambda>r. fst r = s) (t_sources t) of [] \<Rightarrow> None | r # _ \<Rightarrow> Some (snd r))"

definition coalesce :: "'a option \<Rightarrow> 'a \<Rightarrow> 'a" where
  "coalesce x d = (case x of Some v \<Rightarrow> v | None \<Rightarrow> d)"

definition joined :: "tables \<Rightarrow> model_row \<Rightarrow> ModelRow" where
  "joined t m =
     (let p = latest_price t (mr_id m)
      in \<lparr> md_ID = mr_id m, md_Provider = mr_provider m, md_Name = mr_name m, md_Slug = mr_slug m,
           md_Modality = mr_modality m, md_ContextWindow = mr_context_window m,
           md_PriceInput = coalesce (map_option pr_input p) (Fin 0),
           md_PriceOutput = coalesce (map_option pr_output p) (Fin 0),
           md_ConfirmedAt = coalesce (map_option pr_confirmed_at p) (mr_created_at m),
           md_LastVerifiedAt = Option.bind p pr_last_verified_at,
           md_Source = coalesce (Option.bind p (\<lambda>p. source_name t (pr_source_id p))) [],
           md_UnderlyingProvider = None, md_Meta = zero_meta \<rparr>)"

text \<open>Only the two single-model queries select the underlying provider.\<close>

definition joined_full :: "tables \<Rightarrow> model_row \<Rightarrow> ModelRow" where
  "joined_full t m = (joined t m)\<lparr> md_UnderlyingProvider := Option.bind (latest_price t (mr_id m)) pr_underlying \<rparr>"

section \<open>Price history\<close>

definition to_history :: "tables \<Rightarrow> history_row \<Rightarrow> PriceHistoryRow" where
  "to_history t h = \<lparr> ph_InputCostPerToken = hr_input h, ph_OutputCostPerToken = hr_output h,
     ph_Source = coalesce (source_name t (hr_source_id h)) [], ph_ConfirmedAt = hr_confirmed_at h,
     ph_RecordedAt = hr_recorded_at h \<rparr>"

definition GetPriceHistory :: "int \<Rightarrow> PriceHistoryRow list db" where
  "GetPriceHistory modelID =
     select (\<lambda>t. map (to_history t)
       (sort_key hr_confirmed_at (filter (\<lambda>h. hr_model_id h = modelID) (t_history t))))"

text \<open>The map is filled row by row.\<close>

definition add_history :: "(int \<rightharpoonup> PriceHistoryRow list) \<Rightarrow> int \<times> PriceHistoryRow \<Rightarrow> (int \<rightharpoonup> PriceHistoryRow list)" where
  "add_history m x = m(fst x \<mapsto> go_get [] m (fst x) @ [snd x])"

definition GetPriceHistoryBatch :: "int list \<Rightarrow> (int \<rightharpoonup> PriceHistoryRow list) db" where
  "GetPriceHistoryBatch modelIDs =
     (if modelIDs = [] then db_return Map.empty
      else db_bind (select (\<lambda>t. map (\<lambda>h. (hr_model_id h, to_history t h))
             (sort_key (\<lambda>h. (hr_model_id h, hr_confirmed_at h))
               (filter (\<lambda>h. hr_model_id h \<in> set modelIDs) (t_history t)))))
           (\<lambda>rows. db_return (foldl add_history Map.empty rows)))"

definition set_meta :: "(nat \<Rightarrow> instant) \<Rightarrow> (int \<rightharpoonup> PriceHistoryRow list) \<Rightarrow> ModelRow list \<Rightarrow> ModelRow list" where
  "set_meta clock batch models =
     map (\<lambda>(i, m). m\<lparr> md_Meta := ComputeTrustMeta (go_get [] batch (md_ID m)) (md_LastVerifiedAt m) (clock i) \<rparr>)
       (enumerate 0 models)"

definition load_meta :: "(nat \<Rightarrow> instant) \<Rightarrow> ModelRow list \<Rightarrow> ModelRow list db" where
  "load_meta clock models =
     (if models = [] then db_return []
      else db_bind (GetPriceHistoryBatch (map md_ID models)) (\<lambda>batch. db_return (set_meta clock batch models)))"

section \<open>Models\<close>

text \<open>The driver refuses to send a number outside the range of an \<open>INTEGER\<close> column.\<close>

definition int4_args :: "int list \<Rightarrow> 'a db \<Rightarrow> 'a db" where
  "int4_args is m = (if list_all int4 is then m else db_throw DbConstraint)"

definition int4_arg :: "int option \<Rightarrow> 'a db \<Rightarrow> 'a db" where
  "int4_arg i = int4_args (case i of None \<Rightarrow> [] | Some x \<Rightarrow> [x])"

definition wrap64 :: "int \<Rightarrow> int" where
  "wrap64 x = (x + 2 ^ 63) mod 2 ^ 64 - 2 ^ 63"

definition page :: "ListModelsFilter \<Rightarrow> int \<times> int" where
  "page f =
     (let limit = (if lf_PerPage f \<le> 0 then 50 else lf_PerPage f);
          p = (if lf_Page f \<le> 0 then 1 else lf_Page f)
      in (wrap64 ((p - 1) * limit), limit))"

definition list_where :: "(string \<Rightarrow> string \<Rightarrow> bool) \<Rightarrow> ListModelsFilter \<Rightarrow> model_row \<Rightarrow> bool" where
  "list_where ilike f m =
     ((lf_Provider f \<noteq> [] \<longrightarrow> ilike (mr_provider m) (lf_Provider f)) \<and>
      (lf_Modality f \<noteq> [] \<longrightarrow> mr_modality m = lf_Modality f) \<and>
      (lf_Search f \<noteq> [] \<longrightarrow>
         ilike (mr_name m) (''%'' @ lf_Search f @ ''%'') \<or> ilike (mr_slug m) (''%'' @ lf_Search f @ ''%'')) \<and>
      (case lf_MinContext f of None \<Rightarrow> True
       | Some c \<Rightarrow> (case mr_context_window m of None \<Rightarrow> False | Some w \<Rightarrow> c \<le> w)))"

definition listModelsOrderBy :: "string \<Rightarrow> ModelRow \<Rightarrow> int \<times> string \<times> string \<times> int" where
  "listModelsOrderBy order r =
     (if order = ''alpha'' then 0 else - md_ConfirmedAt r, md_Provider r, md_Name r, md_ID r)"

definition list_query :: "(string \<Rightarrow> string \<Rightarrow> bool) \<Rightarrow> ListModelsFilter \<Rightarrow> tables \<Rightarrow> ModelRow list" where
  "list_query ilike f t =
     sort_key (listModelsOrderBy (lf_Sort f)) (map (joined t) (filter (list_where ilike f) (t_models t)))"

text \<open>PostgreSQL refuses a negative \<open>OFFSET\<close>.\<close>

definition ListModels ::
  "(string \<Rightarrow> string \<Rightarrow> bool) \<Rightarrow> (nat \<Rightarrow> instant) \<Rightarrow> ListModelsFilter \<Rightarrow> (ModelRow list \<times> int) db" where
  "ListModels ilike clock f =
     (case page f of (offset, limit) \<Rightarrow> int4_arg (lf_MinContext f) (
      db_bind (select1 (\<lambda>t. [int (length (filter (list_where ilike f) (t_models t)))])) (\<lambda>total.
      db_bind (stmt (\<lambda>t. if offset < 0 then Inl DbConstraint
                 else Inr (take (nat limit) (drop (nat offset) (list_query ilike f t)), t))) (\<lambda>models.
      db_bind (load_meta clock models) (\<lambda>models. db_return (models, total))))))"

definition one_model :: "(nat \<Rightarrow> instant) \<Rightarrow> (model_row \<Rightarrow> bool) \<Rightarrow> ModelRow db" where
  "one_model clock hit =
     db_bind (db_on_no_rows (db_throw ErrNotFound)
       (select1 (\<lambda>t. map (joined_full t) (filter hit (t_models t))))) (\<lambda>r.
     db_bind (GetPriceHistory (md_ID r)) (\<lambda>history.
     db_return (r\<lparr> md_Meta := ComputeTrustMeta history (md_LastVerifiedAt r) (clock 0) \<rparr>)))"

definition GetModel :: "(nat \<Rightarrow> instant) \<Rightarrow> int \<Rightarrow> ModelRow db" where
  "GetModel clock i = int4_args [i] (one_model clock (\<lambda>m. mr_id m = i))"

definition GetModelBySlug :: "(nat \<Rightarrow> instant) \<Rightarrow> string \<Rightarrow> ModelRow db" where
  "GetModelBySlug clock slug = one_model clock (\<lambda>m. mr_slug m = slug)"

definition ListProviders :: "ProviderRow list db" where
  "ListProviders = select (\<lambda>t.
     map (\<lambda>p. \<lparr> pv_Name = p, pv_ModelCount = int (length (filter (\<lambda>m. mr_provider m = p) (t_models t))) \<rparr>)
       (sort (remdups (map mr_provider (t_models t)))))"

definition CompareModels :: "(nat \<Rightarrow> instant) \<Rightarrow> int list \<Rightarrow> ModelRow list db" where
  "CompareModels clock ids =
     (if ids = [] then db_return []
      else int4_args ids (
      db_bind (select (\<lambda>t. map (joined t) (filter (\<lambda>m. mr_id m \<in> set ids) (t_models t)))) (\<lambda>models.
      if list_all (\<lambda>i. i \<in> set (map md_ID models)) ids then load_meta clock models
      else db_throw ErrNotFound)))"

definition unique_strings :: "string list \<Rightarrow> string list" where
  "unique_strings = foldl (\<lambda>acc s. if s \<in> set acc then acc else acc @ [s]) []"

definition CompareModelsBySlugs :: "(nat \<Rightarrow> instant) \<Rightarrow> string list \<Rightarrow> ModelRow list db" where
  "CompareModelsBySlugs clock slugs =
     (if slugs = [] then db_return []
      else let unique = unique_strings slugs in
      db_bind (select (\<lambda>t. map (joined t) (filter (\<lambda>m. mr_slug m \<in> set unique) (t_models t)))) (\<lambda>models.
      if list_all (\<lambda>s. s \<in> set (map md_Slug models)) unique then load_meta clock models
      else db_throw ErrNotFound))"

section \<open>Changes\<close>

text \<open>
  The common table expression: \<open>LAG\<close> runs over the rows of one model in the window, by time, and
  sees only rows inside the window.
\<close>

definition in_window_rows :: "instant \<Rightarrow> string \<Rightarrow> tables \<Rightarrow> history_row list" where
  "in_window_rows since provider t = filter (\<lambda>h. since < hr_confirmed_at h \<and>
     list_ex (\<lambda>m. mr_id m = hr_model_id h \<and> (provider \<noteq> [] \<longrightarrow> mr_provider m = provider)) (t_models t) \<and>
     source_name t (hr_source_id h) \<noteq> None) (t_history t)"

definition lag :: "'a list \<Rightarrow> ('a option \<times> 'a) list" where
  "lag xs = zip (None # map Some xs) xs"

definition ranked :: "history_row list \<Rightarrow> (history_row option \<times> history_row) list" where
  "ranked rows = concat (map (\<lambda>i. lag (sort_key hr_confirmed_at (filter (\<lambda>h. hr_model_id h = i) rows)))
     (remdups (map hr_model_id rows)))"

definition change_of :: "tables \<Rightarrow> history_row \<Rightarrow> history_row \<Rightarrow> ChangeRow" where
  "change_of t old h =
     (let m = hd (filter (\<lambda>m. mr_id m = hr_model_id h) (t_models t))
      in \<lparr> ch_ModelID = hr_model_id h, ch_ModelSlug = mr_slug m, ch_Provider = mr_provider m,
           ch_OldInput = hr_input old, ch_OldOutput = hr_output old, ch_NewInput = hr_input h,
           ch_NewOutput = hr_output h, ch_ConfirmedAt = hr_confirmed_at h,
           ch_Source = coalesce (source_name t (hr_source_id h)) [] \<rparr>)"

definition is_change :: "instant option \<Rightarrow> history_row option \<times> history_row \<Rightarrow> bool" where
  "is_change before x = (case x of
     (None, _) \<Rightarrow> False
   | (Some old, h) \<Rightarrow> (hr_input h \<noteq> hr_input old \<or> hr_output h \<noteq> hr_output old) \<and>
       (case before of None \<Rightarrow> True | Some b \<Rightarrow> hr_confirmed_at h < b))"

definition changesBaseSQL :: "instant option \<Rightarrow> instant option \<Rightarrow> string \<Rightarrow> instant \<Rightarrow> tables \<Rightarrow> ChangeRow list" where
  "changesBaseSQL since before provider now t =
     (let since = coalesce since (now - 24 * hour)
      in map (\<lambda>(old, h). change_of t (the old) h)
           (filter (is_change before) (ranked (in_window_rows since provider t))))"

definition newest_first :: "ChangeRow list \<Rightarrow> ChangeRow list" where
  "newest_first = sort_key (\<lambda>c. - ch_ConfirmedAt c)"

definition ListChanges :: "instant \<Rightarrow> ChangesFilter \<Rightarrow> (ChangeRow list \<times> int) db" where
  "ListChanges now f =
     (let limit = (if cg_Limit f \<le> 0 then 50 else cg_Limit f) in
      db_bind (select (\<lambda>t.
        let cs = changesBaseSQL (cg_Since f) (cg_Before f) (cg_Provider f) now t
        in map (\<lambda>c. (c, int (length cs))) (take (nat (limit + 1)) (newest_first cs)))) (\<lambda>rows.
      db_return (map fst rows, if rows = [] then 0 else snd (last rows))))"

definition listChangesRaw :: "instant \<Rightarrow> instant option \<Rightarrow> string \<Rightarrow> ChangeRow list db" where
  "listChangesRaw now since provider = select (\<lambda>t. newest_first (changesBaseSQL since None provider now t))"

definition changeDeltaPct :: "ChangeRow \<Rightarrow> f64" where
  "changeDeltaPct c =
     (let (oldSum, newSum) = (Fin 0, Fin 0);
          (oldSum, newSum) = (if f64_lt (Fin 0) (ch_OldInput c)
             then (f64_add oldSum (ch_OldInput c), f64_add newSum (ch_NewInput c)) else (oldSum, newSum));
          (oldSum, newSum) = (if f64_lt (Fin 0) (ch_OldOutput c)
             then (f64_add oldSum (ch_OldOutput c), f64_add newSum (ch_NewOutput c)) else (oldSum, newSum))
      in if f64_le oldSum (Fin 0) then Fin 0
         else f64_mul (f64_div (f64_sub newSum oldSum) oldSum) (Fin 100))"

section \<open>The summary of changes\<close>

record HeatmapModelNode =
  hn_ModelID :: int
  hn_ModelSlug :: string
  hn_ChangeCount :: int
  hn_AvgDeltaPct :: f64

record HeatmapProviderGroup =
  hg_Provider :: string
  hg_TotalChanges :: int
  hg_Models :: "HeatmapModelNode list"

record TopMover =
  mv_DeltaPct :: f64
  mv_Change :: ChangeRow

record ChangesSummary =
  sm_Heatmap :: "HeatmapProviderGroup list"
  sm_TopMovers :: "TopMover list"
  sm_TotalChanges :: int
  sm_Window :: string

type_synonym model_key = "string \<times> int \<times> string"

definition model_key :: "ChangeRow \<Rightarrow> model_key" where
  "model_key c = (ch_Provider c, ch_ModelID c, ch_ModelSlug c)"

definition count_change :: "(model_key \<rightharpoonup> int \<times> f64) \<Rightarrow> ChangeRow \<Rightarrow> (model_key \<rightharpoonup> int \<times> f64)" where
  "count_change m c =
     (case go_get (0, Fin 0) m (model_key c) of (n, s) \<Rightarrow> m(model_key c \<mapsto> (n + 1, f64_add s (changeDeltaPct c))))"

definition add_node :: "(model_key \<rightharpoonup> int \<times> f64) \<Rightarrow> (string \<rightharpoonup> HeatmapProviderGroup) \<Rightarrow> model_key \<Rightarrow>
    (string \<rightharpoonup> HeatmapProviderGroup)" where
  "add_node agg groups k =
     (case k of (provider, i, slug) \<Rightarrow> case the (agg k) of (n, s) \<Rightarrow>
      let g = go_get \<lparr> hg_Provider = provider, hg_TotalChanges = 0, hg_Models = [] \<rparr> groups provider
      in groups(provider \<mapsto> g\<lparr> hg_TotalChanges := hg_TotalChanges g + n,
           hg_Models := hg_Models g @ [\<lparr> hn_ModelID = i, hn_ModelSlug = slug, hn_ChangeCount = n,
             hn_AvgDeltaPct = f64_div s (f64_of_int n) \<rparr>] \<rparr>))"

definition heatmap_of :: "(model_key list \<Rightarrow> model_key list) \<Rightarrow> (string list \<Rightarrow> string list) \<Rightarrow> ChangeRow list \<Rightarrow>
    HeatmapProviderGroup list" where
  "heatmap_of iter_models iter_providers changes =
     (let agg = foldl count_change Map.empty changes;
          keys = iter_models (remdups (map model_key changes));
          groups = foldl (add_node agg) Map.empty keys
      in insertion_sort (\<lambda>a b. hg_TotalChanges b < hg_TotalChanges a)
           (map (\<lambda>p. let g = the (groups p) in g\<lparr> hg_Models := insertion_sort (\<lambda>a b. hn_ChangeCount b < hn_ChangeCount a) (hg_Models g) \<rparr>)
             (iter_providers (remdups (map fst keys)))))"

definition better_change :: "(int \<rightharpoonup> ChangeRow \<times> f64) \<Rightarrow> ChangeRow \<Rightarrow> (int \<rightharpoonup> ChangeRow \<times> f64)" where
  "better_change m c =
     (let d = f64_abs (changeDeltaPct c) in
      case m (ch_ModelID c) of
        None \<Rightarrow> m(ch_ModelID c \<mapsto> (c, d))
      | Some (_, existing) \<Rightarrow> if f64_lt existing d then m(ch_ModelID c \<mapsto> (c, d)) else m)"

definition movers_of :: "(int list \<Rightarrow> int list) \<Rightarrow> ChangeRow list \<Rightarrow> TopMover list" where
  "movers_of iter_best changes =
     (let best = foldl better_change Map.empty changes;
          movers = map (\<lambda>i. let c = fst (the (best i)) in \<lparr> mv_DeltaPct = changeDeltaPct c, mv_Change = c \<rparr>)
            (iter_best (remdups (map ch_ModelID changes)))
      in take 5 (insertion_sort (\<lambda>a b. f64_lt (f64_abs (mv_DeltaPct b)) (f64_abs (mv_DeltaPct a))) movers))"

definition GetChangesSummary :: "(model_key list \<Rightarrow> model_key list) \<Rightarrow> (string list \<Rightarrow> string list) \<Rightarrow>
    (int list \<Rightarrow> int list) \<Rightarrow> instant \<Rightarrow> SummaryFilter \<Rightarrow> ChangesSummary db" where
  "GetChangesSummary iter_models iter_providers iter_best now f =
     db_bind (listChangesRaw now (sf_Since f) (sf_Provider f)) (\<lambda>changes.
     db_return \<lparr> sm_Heatmap = heatmap_of iter_models iter_providers changes,
       sm_TopMovers = movers_of iter_best changes, sm_TotalChanges = int (length changes), sm_Window = [] \<rparr>)"

section \<open>History, context, recommendations, capability scores\<close>

definition ModelExists :: "int \<Rightarrow> bool db" where
  "ModelExists i = int4_args [i] (select1 (\<lambda>t. [list_ex (\<lambda>m. mr_id m = i) (t_models t)]))"

definition to_history_row :: "tables \<Rightarrow> history_row \<Rightarrow> HistoryRow" where
  "to_history_row t h = \<lparr> hy_InputCostPerToken = hr_input h, hy_OutputCostPerToken = hr_output h,
     hy_Source = coalesce (source_name t (hr_source_id h)) [], hy_ConfirmedAt = hr_confirmed_at h,
     hy_RecordedAt = hr_recorded_at h, hy_UnderlyingProvider = hr_underlying h \<rparr>"

definition history_where :: "int \<Rightarrow> HistoryFilter \<Rightarrow> history_row \<Rightarrow> bool" where
  "history_where i f h = (hr_model_id h = i \<and>
     (case hf_From f of None \<Rightarrow> True | Some a \<Rightarrow> a \<le> hr_confirmed_at h) \<and>
     (case hf_To f of None \<Rightarrow> True | Some b \<Rightarrow> hr_confirmed_at h \<le> b))"

definition store_GetModelHistory :: "int \<Rightarrow> HistoryFilter \<Rightarrow> HistoryRow list db" where
  "store_GetModelHistory i f = int4_args [i] (select (\<lambda>t. map (to_history_row t)
     (sort_key (\<lambda>h. - hr_confirmed_at h) (filter (history_where i f) (t_history t)))))"

fun confidence_text :: "confidence \<Rightarrow> string" where
  "confidence_text ConfidenceHigh = ''high''"
| "confidence_text ConfidenceMedium = ''medium''"
| "confidence_text ConfidenceLow = ''low''"

definition context_row :: "tables \<Rightarrow> model_row \<Rightarrow> ContextModelRow" where
  "context_row t m =
     (let p = latest_price t (mr_id m)
      in \<lparr> cx_ID = mr_id m, cx_Provider = mr_provider m, cx_Slug = mr_slug m,
           cx_PriceInput = coalesce (map_option pr_input p) (Fin 0),
           cx_PriceOutput = coalesce (map_option pr_output p) (Fin 0),
           cx_Confidence = coalesce (map_option (\<lambda>p. confidence_text (pr_confidence p)) p) ''low'',
           cx_ConfirmedAt = coalesce (map_option pr_confirmed_at p) (mr_created_at m) \<rparr>)"

definition ListModelsForContext :: "int \<Rightarrow> ContextModelRow list db" where
  "ListModelsForContext limit = select (\<lambda>t. map (context_row t)
     (take (nat limit) (sort_key (\<lambda>m. (mr_provider m, mr_name m)) (t_models t))))"

text \<open>PostgreSQL's order of \<open>float8\<close>: NaN is the greatest.\<close>

definition float_key :: "f64 \<Rightarrow> nat \<times> rat" where
  "float_key x = (case x of NInf \<Rightarrow> (0, 0) | Fin r \<Rightarrow> (1, r) | PInf \<Rightarrow> (2, 0) | NaN \<Rightarrow> (3, 0))"

definition useCaseModalityMap :: "(string \<times> string) list" where
  "useCaseModalityMap = [(''coding'', ''text''), (''reasoning'', ''text''), (''finance'', ''text''),
     (''writing'', ''text''), (''agentic'', ''text''), (''general'', ''text''), (''video'', ''multimodal'')]"

definition recommend_where :: "RecommendFilter \<Rightarrow> ModelRow \<Rightarrow> bool" where
  "recommend_where f r =
     ((case rf_ContextSize f of None \<Rightarrow> True
       | Some c \<Rightarrow> (case md_ContextWindow r of None \<Rightarrow> False | Some w \<Rightarrow> c \<le> w)) \<and>
      (case rf_MaxPriceInput f of None \<Rightarrow> True | Some x \<Rightarrow> float_key (md_PriceInput r) \<le> float_key x) \<and>
      (case map_of useCaseModalityMap (rf_UseCase f) of None \<Rightarrow> True | Some m \<Rightarrow> md_Modality r = m))"

definition RecommendModels :: "(nat \<Rightarrow> instant) \<Rightarrow> RecommendFilter \<Rightarrow> ModelRow list db" where
  "RecommendModels clock f =
     int4_arg (rf_ContextSize f) (db_bind (select (\<lambda>t. take 200 (sort_key (\<lambda>r. (- md_ConfirmedAt r, float_key (md_PriceInput r)))
       (filter (recommend_where f) (map (joined t) (t_models t)))))) (load_meta clock))"

definition to_capability :: "capability_row \<Rightarrow> CapabilityScore" where
  "to_capability r = \<lparr> cs_ModelID = cr_model_id r, cs_Dimension = cr_dimension r, cs_Score = cr_score r,
     cs_Confidence = cr_confidence r, cs_BenchmarkCount = cr_benchmark_count r, cs_Freshness = cr_freshness r \<rparr>"

definition add_capability :: "(int \<rightharpoonup> CapabilityScore list) \<Rightarrow> CapabilityScore \<Rightarrow> (int \<rightharpoonup> CapabilityScore list)" where
  "add_capability m c = m(cs_ModelID c \<mapsto> go_get [] m (cs_ModelID c) @ [c])"

definition GetCapabilityScoresForModels :: "int list \<Rightarrow> (int \<rightharpoonup> CapabilityScore list) db" where
  "GetCapabilityScoresForModels modelIDs =
     (if modelIDs = [] then db_return Map.empty
      else db_bind (select (\<lambda>t. map to_capability (sort_key (\<lambda>r. (cr_model_id r, cr_dimension r))
             (filter (\<lambda>r. cr_model_id r \<in> set modelIDs) (t_capabilities t)))))
           (\<lambda>rows. db_return (foldl add_capability Map.empty rows)))"

end
