(* ===== verification/Catalog_Guarantees.thy ===== *)
theory Catalog_Guarantees
  imports Catalog_Store
begin

text \<open>
  What the queries of the store promise. \<open>answers\<close> states the contract of a query: it leaves the
  tables alone, what it returns is a function of them, and it fails only when that function is
  undefined or the connection faults. Every method of the store is shown to have such a contract.
\<close>

section \<open>Queries as functions of the tables\<close>

lemma filter_key: "distinct (map f xs) \<Longrightarrow> m \<in> set xs \<Longrightarrow> filter (\<lambda>x. f x = f m) xs = [m]"
  by (induction xs) (auto simp: filter_empty_conv, metis image_eqI)

definition answers :: "'a db \<Rightarrow> (tables \<Rightarrow> 'a option) \<Rightarrow> bool" where
  "answers m f \<longleftrightarrow> (\<forall>db. pg_tables (snd (m db)) = pg_tables db \<and> pg_fault (snd (m db)) = pg_fault db \<and>
     (case fst (m db) of Inr x \<Rightarrow> f (pg_tables db) = Some x
      | Inl _ \<Rightarrow> f (pg_tables db) = None \<or> (\<exists>i. pg_fault db i)))"

lemma answers_Inr: "answers m f \<Longrightarrow> m db = (Inr x, db') \<Longrightarrow> f (pg_tables db) = Some x \<and> pg_tables db' = pg_tables db"
  unfolding answers_def by (drule spec [of _ db]) simp

lemma answers_fst: "answers m f \<Longrightarrow> fst (m db) = Inr x \<Longrightarrow> f (pg_tables db) = Some x"
  unfolding answers_def by (drule spec [of _ db]) simp

lemma answers_cong: "answers m f \<Longrightarrow> (\<And>t. f t = g t) \<Longrightarrow> answers m g"
  using ext [of f g] by simp

lemma answers_select: "answers (select q) (\<lambda>t. Some (q t))"
  by (auto simp: answers_def select_def stmt_def pg_tick_def)

lemma answers_stmt: "answers (stmt (\<lambda>t. if bad t then Inl e else Inr (q t, t))) (\<lambda>t. if bad t then None else Some (q t))"
  by (auto simp: answers_def stmt_def pg_tick_def)

lemma answers_select1: "answers (select1 q) (\<lambda>t. case q t of [] \<Rightarrow> None | x # _ \<Rightarrow> Some x)"
  by (auto simp: answers_def select1_def first_row_def stmt_def pg_tick_def split: list.split)

lemma answers_return: "answers (db_return x) (\<lambda>t. Some x)"
  by (simp add: answers_def db_return_def)

lemma answers_throw: "answers (db_throw e) (\<lambda>t. None)"
  by (simp add: answers_def db_throw_def)

lemma answers_bind:
  assumes "answers m f" "\<And>x. answers (g x) (h x)"
  shows "answers (db_bind m g) (\<lambda>t. Option.bind (f t) (\<lambda>x. h x t))"
  unfolding answers_def
proof
  fix db
  obtain r d where d: "m db = (r, d)" by fastforce
  have m: "pg_tables d = pg_tables db" "pg_fault d = pg_fault db"
    "case r of Inr x \<Rightarrow> f (pg_tables db) = Some x | Inl _ \<Rightarrow> f (pg_tables db) = None \<or> (\<exists>i. pg_fault db i)"
    using assms(1) [unfolded answers_def, rule_format, of db] by (simp_all add: d)
  show "pg_tables (snd (db_bind m g db)) = pg_tables db \<and> pg_fault (snd (db_bind m g db)) = pg_fault db \<and>
     (case fst (db_bind m g db) of Inr x \<Rightarrow> Option.bind (f (pg_tables db)) (\<lambda>x. h x (pg_tables db)) = Some x
      | Inl _ \<Rightarrow> Option.bind (f (pg_tables db)) (\<lambda>x. h x (pg_tables db)) = None \<or> (\<exists>i. pg_fault db i))"
  proof (cases r)
    case (Inl e)
    then show ?thesis using m by (auto simp: db_bind_def d)
  next
    case (Inr x)
    have "pg_tables (snd (g x d)) = pg_tables d \<and> pg_fault (snd (g x d)) = pg_fault d \<and>
        (case fst (g x d) of Inr y \<Rightarrow> h x (pg_tables d) = Some y | Inl _ \<Rightarrow> h x (pg_tables d) = None \<or> (\<exists>i. pg_fault d i))"
      using assms(2) [of x] unfolding answers_def by blast
    then show ?thesis using m Inr by (auto simp: db_bind_def d split: sum.splits)
  qed
qed

lemma answers_if: "answers m f \<Longrightarrow> answers n g \<Longrightarrow> answers (if c then m else n) (\<lambda>t. if c then f t else g t)"
  by simp

lemma answers_args: "answers m f \<Longrightarrow> answers (int4_args is m) (\<lambda>t. if list_all int4 is then f t else None)"
  unfolding int4_args_def using answers_throw by auto

lemma answers_on_no_rows:
  assumes "answers m f"
  shows "answers (db_on_no_rows (db_throw e) m) f"
  unfolding answers_def
proof
  fix db
  obtain r d where d: "m db = (r, d)" by fastforce
  then show "pg_tables (snd (db_on_no_rows (db_throw e) m db)) = pg_tables db \<and>
      pg_fault (snd (db_on_no_rows (db_throw e) m db)) = pg_fault db \<and>
      (case fst (db_on_no_rows (db_throw e) m db) of Inr x \<Rightarrow> f (pg_tables db) = Some x
       | Inl _ \<Rightarrow> f (pg_tables db) = None \<or> (\<exists>i. pg_fault db i))"
    using assms [unfolded answers_def, rule_format, of db]
    by (cases r) (auto simp: db_on_no_rows_def db_throw_def split: db_error.split)
qed

lemmas answer_rules = answers_select answers_stmt answers_select1 answers_return answers_throw answers_bind
  answers_if answers_args answers_on_no_rows

section \<open>Price history\<close>

definition history_of :: "tables \<Rightarrow> int \<Rightarrow> PriceHistoryRow list" where
  "history_of t i = map (to_history t) (sort_key hr_confirmed_at (filter (\<lambda>h. hr_model_id h = i) (t_history t)))"

lemma GetPriceHistory_answers: "answers (GetPriceHistory i) (\<lambda>t. Some (history_of t i))"
  unfolding GetPriceHistory_def history_of_def by (rule answers_select)

lemma add_history_get: "go_get [] (foldl add_history m rows) i = go_get [] m i @ map snd (filter (\<lambda>x. fst x = i) rows)"
  by (induction rows arbitrary: m) (auto simp: add_history_def)

lemma insort_key_pair:
  "\<forall>y \<in> set (x # ys). g y = c \<Longrightarrow> insort_key (\<lambda>x. (g x, f x)) x ys = insort_key f x ys"
  for f :: "'a \<Rightarrow> 'b::linorder" and g :: "'a \<Rightarrow> 'c::linorder"
  by (induction ys) auto

lemma sort_key_pair:
  "\<forall>y \<in> set ys. g y = c \<Longrightarrow> sort_key (\<lambda>x. (g x, f x)) ys = sort_key f ys"
  for f :: "'a \<Rightarrow> 'b::linorder" and g :: "'a \<Rightarrow> 'c::linorder"
  by (induction ys) (auto simp: insort_key_pair [where c = c])

text \<open>The batch query gives each model the rows that its own query gives.\<close>

lemma batch_rows:
  assumes "i \<in> set ids"
  shows "go_get [] (foldl add_history Map.empty (map (\<lambda>h. (hr_model_id h, to_history t h))
     (sort_key (\<lambda>h. (hr_model_id h, hr_confirmed_at h)) (filter (\<lambda>h. hr_model_id h \<in> set ids) (t_history t))))) i =
   history_of t i"
proof -
  have "filter (\<lambda>h. hr_model_id h = i) (filter (\<lambda>h. hr_model_id h \<in> set ids) (t_history t)) =
      filter (\<lambda>h. hr_model_id h = i) (t_history t)"
    using assms by (auto intro: filter_cong)
  moreover have "sort_key (\<lambda>h. (hr_model_id h, hr_confirmed_at h)) (filter (\<lambda>h. hr_model_id h = i) (t_history t)) =
      sort_key hr_confirmed_at (filter (\<lambda>h. hr_model_id h = i) (t_history t))"
    by (rule sort_key_pair [where c = i]) simp
  ultimately show ?thesis
    by (simp add: add_history_get filter_map comp_def filter_sort history_of_def go_get_def [of _ Map.empty])
qed

definition with_meta :: "(nat \<Rightarrow> instant) \<Rightarrow> tables \<Rightarrow> ModelRow list \<Rightarrow> ModelRow list" where
  "with_meta clock t models =
     map (\<lambda>(i, m). m\<lparr> md_Meta := ComputeTrustMeta (history_of t (md_ID m)) (md_LastVerifiedAt m) (clock i) \<rparr>)
       (enumerate 0 models)"

lemma load_meta_answers: "answers (load_meta clock models) (\<lambda>t. Some (with_meta clock t models))"
proof (cases "models = []")
  case True
  then show ?thesis using answers_return by (simp add: load_meta_def with_meta_def)
next
  case False
  let ?ids = "map md_ID models"
  let ?batch = "\<lambda>t. foldl add_history Map.empty (map (\<lambda>h. (hr_model_id h, to_history t h))
     (sort_key (\<lambda>h. (hr_model_id h, hr_confirmed_at h)) (filter (\<lambda>h. hr_model_id h \<in> set ?ids) (t_history t))))"
  have "answers (load_meta clock models) (\<lambda>t. Some (set_meta clock (?batch t) models))"
    using False answers_bind [OF answers_bind [OF answers_select answers_return] answers_return]
    by (simp add: load_meta_def GetPriceHistoryBatch_def)
  moreover have "set_meta clock (?batch t) models = with_meta clock t models" for t
    unfolding set_meta_def with_meta_def using batch_rows [of _ ?ids t]
    by (auto simp: in_set_enumerate_eq nth_mem intro!: map_cong)
  ultimately show ?thesis by simp
qed

lemma length_with_meta [simp]: "length (with_meta clock t models) = length models"
  by (simp add: with_meta_def)

lemma with_meta_nth:
  "i < length models \<Longrightarrow> with_meta clock t models ! i = (models ! i)\<lparr> md_Meta :=
     ComputeTrustMeta (history_of t (md_ID (models ! i))) (md_LastVerifiedAt (models ! i)) (clock i) \<rparr>"
  by (simp add: with_meta_def nth_enumerate_eq)

lemma with_meta_view:
  "(\<And>m x. g (m\<lparr> md_Meta := x \<rparr>) = g m) \<Longrightarrow> map g (with_meta clock t models) = map g models"
  by (rule nth_equalityI) (simp_all add: with_meta_nth)

section \<open>Models\<close>

definition matching :: "(string \<Rightarrow> string \<Rightarrow> bool) \<Rightarrow> ListModelsFilter \<Rightarrow> tables \<Rightarrow> model_row list" where
  "matching ilike f t = filter (list_where ilike f) (t_models t)"

lemma ListModels_answers: "answers (ListModels ilike clock f) (\<lambda>t.
    case page f of (offset, limit) \<Rightarrow>
      if list_all int4 (case lf_MinContext f of None \<Rightarrow> [] | Some x \<Rightarrow> [x]) \<and> 0 \<le> offset
      then Some (with_meta clock t (take (nat limit) (drop (nat offset) (list_query ilike f t))),
                 int (length (matching ilike f t))) else None)"
proof -
  obtain offset limit where p: "page f = (offset, limit)" by fastforce
  let ?q = "\<lambda>t. take (nat limit) (drop (nat offset) (list_query ilike f t))"
  have "answers (ListModels ilike clock f) (\<lambda>t. if list_all int4 (case lf_MinContext f of None \<Rightarrow> [] | Some x \<Rightarrow> [x])
      then Option.bind (case [int (length (filter (list_where ilike f) (t_models t)))] of [] \<Rightarrow> None | x # _ \<Rightarrow> Some x)
        (\<lambda>total. Option.bind (if offset < 0 then None else Some (?q t))
        (\<lambda>models. Option.bind (Some (with_meta clock t models)) (\<lambda>models. Some (models, total)))) else None)"
    unfolding ListModels_def p prod.case int4_arg_def
    by (intro answers_args answers_bind answers_select1 answers_stmt answers_return load_meta_answers)
  then show ?thesis by (rule answers_cong) (auto simp: p matching_def)
qed


lemma one_model_answers: "answers (one_model clock hit) (\<lambda>t. case filter hit (t_models t) of [] \<Rightarrow> None
  | m # _ \<Rightarrow> Some (let r = joined_full t m in
      r\<lparr> md_Meta := ComputeTrustMeta (history_of t (md_ID r)) (md_LastVerifiedAt r) (clock 0) \<rparr>))"
proof -
  have "answers (one_model clock hit) (\<lambda>t.
     Option.bind (case map (joined_full t) (filter hit (t_models t)) of [] \<Rightarrow> None | x # _ \<Rightarrow> Some x) (\<lambda>r.
     Option.bind (Some (history_of t (md_ID r))) (\<lambda>history.
     Some (r\<lparr> md_Meta := ComputeTrustMeta history (md_LastVerifiedAt r) (clock 0) \<rparr>))))"
    unfolding one_model_def
    by (intro answers_bind answers_on_no_rows answers_select1 GetPriceHistory_answers answers_return)
  then show ?thesis by (rule answers_cong) (auto simp: Let_def split: list.split)
qed

lemma CompareModels_answers: "answers (CompareModels clock ids) (\<lambda>t.
    let models = map (joined t) (filter (\<lambda>m. mr_id m \<in> set ids) (t_models t)) in
    if ids = [] then Some []
    else if list_all int4 ids \<and> set ids \<subseteq> set (map md_ID models) then Some (with_meta clock t models) else None)"
proof -
  let ?q = "\<lambda>t. map (joined t) (filter (\<lambda>m. mr_id m \<in> set ids) (t_models t))"
  have "answers (CompareModels clock ids) (\<lambda>t. if ids = [] then Some [] else if list_all int4 ids then
      Option.bind (Some (?q t)) (\<lambda>models. if list_all (\<lambda>i. i \<in> set (map md_ID models)) ids
        then Some (with_meta clock t models) else None) else None)"
    unfolding CompareModels_def
    by (intro answers_if answers_return answers_args answers_bind answers_select load_meta_answers answers_throw)
  then show ?thesis
    by (rule answers_cong) (auto simp: Let_def list_all_iff subset_iff)
qed

lemma CompareModelsBySlugs_answers: "answers (CompareModelsBySlugs clock slugs) (\<lambda>t.
    let models = map (joined t) (filter (\<lambda>m. mr_slug m \<in> set (unique_strings slugs)) (t_models t)) in
    if slugs = [] then Some []
    else if set (unique_strings slugs) \<subseteq> set (map md_Slug models) then Some (with_meta clock t models) else None)"
proof -
  let ?q = "\<lambda>t. map (joined t) (filter (\<lambda>m. mr_slug m \<in> set (unique_strings slugs)) (t_models t))"
  have "answers (CompareModelsBySlugs clock slugs) (\<lambda>t. if slugs = [] then Some [] else
      Option.bind (Some (?q t)) (\<lambda>models. if list_all (\<lambda>i. i \<in> set (map md_Slug models)) (unique_strings slugs)
        then Some (with_meta clock t models) else None))"
    unfolding CompareModelsBySlugs_def Let_def
    by (intro answers_if answers_return answers_bind answers_select load_meta_answers answers_throw)
  then show ?thesis
    by (rule answers_cong) (auto simp: Let_def list_all_iff subset_iff)
qed

definition recommended :: "RecommendFilter \<Rightarrow> tables \<Rightarrow> ModelRow list" where
  "recommended f t = take 200 (sort_key (\<lambda>r. (- md_ConfirmedAt r, float_key (md_PriceInput r)))
     (filter (recommend_where f) (map (joined t) (t_models t))))"

lemma RecommendModels_answers: "answers (RecommendModels clock f) (\<lambda>t.
    if list_all int4 (case rf_ContextSize f of None \<Rightarrow> [] | Some x \<Rightarrow> [x])
    then Some (with_meta clock t (recommended f t)) else None)"
proof -
  have "answers (RecommendModels clock f) (\<lambda>t. if list_all int4 (case rf_ContextSize f of None \<Rightarrow> [] | Some x \<Rightarrow> [x])
      then Option.bind (Some (recommended f t)) (\<lambda>models. Some (with_meta clock t models)) else None)"
    unfolding RecommendModels_def recommended_def int4_arg_def
    by (intro answers_args answers_bind answers_select load_meta_answers)
  then show ?thesis by (rule answers_cong) simp
qed

text \<open>The rows of every list are those of the detail query, without the underlying provider.\<close>

lemma joined_view: "md_ID (joined t m) = mr_id m" "md_Slug (joined t m) = mr_slug m" "md_UnderlyingProvider (joined t m) = None"
  by (simp_all add: joined_def Let_def)

definition listed :: "tables \<Rightarrow> ModelRow list \<Rightarrow> bool" where
  "listed t rows \<longleftrightarrow> set rows \<subseteq> joined t ` set (t_models t)"

lemma listed_subset: "set xs \<subseteq> set (t_models t) \<Longrightarrow> set rows \<subseteq> joined t ` set xs \<Longrightarrow> listed t rows"
  unfolding listed_def by blast

lemma listed_filter: "listed t (map (joined t) (filter P (t_models t)))"
  by (auto simp: listed_def)

lemma listed_row:
  assumes "listed t qs" "r \<in> set (with_meta (\<lambda>_. now) t qs)"
  shows "\<exists>m \<in> set (t_models t). r = (joined t m)\<lparr> md_Meta := ComputeTrustMeta (history_of t (mr_id m))
    (md_LastVerifiedAt (joined t m)) now \<rparr>"
proof -
  obtain i where i: "i < length qs" "r = with_meta (\<lambda>_. now) t qs ! i"
    using assms(2) by (auto simp: in_set_conv_nth)
  then obtain m where "m \<in> set (t_models t)" "qs ! i = joined t m"
    using assms(1) nth_mem unfolding listed_def by blast
  then show ?thesis using i by (auto simp: with_meta_nth joined_view)
qed

lemma listed_compare:
  assumes "fst (CompareModels clock ids db) = Inr rows \<or> fst (CompareModelsBySlugs clock slugs db) = Inr rows"
  shows "\<exists>qs. listed (pg_tables db) qs \<and> rows = with_meta clock (pg_tables db) qs"
proof -
  have empty: "listed (pg_tables db) []" "[] = with_meta clock (pg_tables db) []"
    by (simp_all add: listed_def with_meta_def)
  from assms have "rows = [] \<or> (\<exists>P. rows = with_meta clock (pg_tables db)
      (map (joined (pg_tables db)) (filter P (t_models (pg_tables db)))))"
  proof
    assume "fst (CompareModels clock ids db) = Inr rows"
    from answers_fst [OF CompareModels_answers this] show ?thesis
      by (auto simp: Let_def split: if_splits)
  next
    assume "fst (CompareModelsBySlugs clock slugs db) = Inr rows"
    from answers_fst [OF CompareModelsBySlugs_answers this] show ?thesis
      by (auto simp: Let_def split: if_splits)
  qed
  then show ?thesis using empty listed_filter by metis
qed

lemma listed_ListModels:
  assumes "fst (ListModels ilike clock f db) = Inr (rows, n)"
  shows "\<exists>qs. listed (pg_tables db) qs \<and> rows = with_meta clock (pg_tables db) qs"
proof -
  obtain offset limit where p: "page f = (offset, limit)" by fastforce
  have "listed (pg_tables db) (take (nat limit) (drop (nat offset) (list_query ilike f (pg_tables db))))"
    unfolding listed_def list_query_def using set_take_subset set_drop_subset by fastforce
  then show ?thesis
    using answers_fst [OF ListModels_answers assms] by (auto simp: p split: if_splits)
qed

lemma listed_RecommendModels:
  assumes "fst (RecommendModels clock f db) = Inr rows"
  shows "\<exists>qs. listed (pg_tables db) qs \<and> rows = with_meta clock (pg_tables db) qs"
proof -
  have "listed (pg_tables db) (recommended f (pg_tables db))"
    unfolding listed_def recommended_def using set_take_subset by fastforce
  then show ?thesis
    using answers_fst [OF RecommendModels_answers assms] by (auto split: if_splits)
qed

text \<open>
  C27. A model's row is the same wherever the API shows it: what a list, a comparison (by id or by
  slug) or a recommendation returns for a model is what the detail query returns for it, prices,
  source, dates and trust metadata included; only the underlying provider is left out. The lists get
  their histories in one batch query, the detail query gets its own.
\<close>

theorem list_agrees_with_detail:
  assumes "distinct (map mr_id (t_models t))" "pg_tables db = t" "pg_tables db' = t"
    and "fst (ListModels ilike (\<lambda>_. now) f db) = Inr (rows, n) \<or>
         fst (CompareModels (\<lambda>_. now) ids db) = Inr rows \<or>
         fst (CompareModelsBySlugs (\<lambda>_. now) slugs db) = Inr rows \<or>
         fst (RecommendModels (\<lambda>_. now) g db) = Inr rows"
    and "r \<in> set rows" "fst (GetModel (\<lambda>_. now) (md_ID r) db') = Inr d"
  shows "r = d\<lparr> md_UnderlyingProvider := None \<rparr>"
proof -
  obtain qs where "listed t qs" "rows = with_meta (\<lambda>_. now) t qs"
    using assms(2,4) listed_ListModels listed_compare listed_RecommendModels by metis
  then obtain m where m: "m \<in> set (t_models t)" "r = (joined t m)\<lparr> md_Meta :=
      ComputeTrustMeta (history_of t (mr_id m)) (md_LastVerifiedAt (joined t m)) now \<rparr>"
    using listed_row assms(5) by blast
  then have "md_ID r = mr_id m" by (simp add: joined_view)
  moreover have q: "fst (int4_args [md_ID r] (one_model (\<lambda>_. now) (\<lambda>m. mr_id m = md_ID r)) db') = Inr d"
    using assms(6) by (simp add: GetModel_def)
  moreover have "filter (\<lambda>x. mr_id x = mr_id m) (t_models t) = [m]"
    using assms(1) m(1) by (rule filter_key)
  ultimately have "d = (joined_full t m)\<lparr> md_Meta :=
      ComputeTrustMeta (history_of t (mr_id m)) (md_LastVerifiedAt (joined_full t m)) now \<rparr>"
    using answers_fst [OF answers_args [OF one_model_answers] q] assms(3)
    by (auto simp: Let_def joined_full_def joined_view split: if_splits)
  then show ?thesis using m(2) by (simp add: joined_full_def joined_def Let_def)
qed

section \<open>Pages\<close>

lemma slices_concat: "concat (map (\<lambda>p. take l (drop (p * l) xs)) [0..<k]) = take (k * l) xs"
  by (induction k) (simp_all add: take_add add.commute [of l])

lemma page_bounds:
  assumes "0 < lf_PerPage f" "int k * lf_PerPage f < 2 ^ 63" "p < k"
  shows "page (f\<lparr> lf_Page := int p + 1 \<rparr>) = (int p * lf_PerPage f, lf_PerPage f)"
proof -
  have "int p * lf_PerPage f < 2 ^ 63"
    using assms by (smt (verit) mult_right_mono of_nat_less_iff)
  then show ?thesis using assms(1) by (simp add: page_def wrap64_def Let_def)
qed

text \<open>The order does not look at the metadata and ends with the key of the table.\<close>

lemma list_order_meta: "listModelsOrderBy order (r\<lparr> md_Meta := x \<rparr>) = listModelsOrderBy order r"
  by (simp add: listModelsOrderBy_def)

lemma list_where_page: "list_where ilike (f\<lparr> lf_Page := i \<rparr>) = list_where ilike f"
  by (simp add: list_where_def fun_eq_iff)

lemma list_query_page: "list_query ilike (f\<lparr> lf_Page := i \<rparr>) t = list_query ilike f t"
  by (simp add: list_query_def list_where_page)

lemma page_rows:
  assumes "0 < lf_PerPage f" "int k * lf_PerPage f < 2 ^ 63" "p < k"
    and "fst (ListModels ilike clock (f\<lparr> lf_Page := int p + 1 \<rparr>) db) = Inr (rows, n)"
  shows "rows = with_meta clock (pg_tables db)
      (take (nat (lf_PerPage f)) (drop (p * nat (lf_PerPage f)) (list_query ilike f (pg_tables db)))) \<and>
    n = int (length (filter (list_where ilike f) (t_models (pg_tables db))))"
proof -
  have "nat (int p * lf_PerPage f) = p * nat (lf_PerPage f)" by (simp add: nat_mult_distrib)
  then show ?thesis
    using answers_fst [OF ListModels_answers assms(4)] page_bounds [OF assms(1-3)]
    by (auto simp: list_query_page list_where_page matching_def split: if_splits)
qed

text \<open>
  The order of the list ends with the unique id, so the answer does not depend on the order in which
  PostgreSQL meets the rows of the table.
\<close>

lemma list_query_scan:
  assumes "mset ms = mset (t_models t)" "distinct (map mr_id (t_models t))"
  shows "list_query ilike f (t\<lparr> t_models := ms \<rparr>) = list_query ilike f t"
proof -
  let ?rows = "\<lambda>ms. map (joined t) (filter (list_where ilike f) ms)"
  have joined: "joined (t\<lparr> t_models := ms \<rparr>) = joined t"
    by (simp add: joined_def latest_price_def source_name_def fun_eq_iff)
  have "distinct (map md_ID (?rows (t_models t)))" using assms(2) by (simp add: joined_view comp_def distinct_map_filter)
  then have "inj_on md_ID (set (?rows (t_models t)))" by (simp only: distinct_map)
  then have inj: "inj_on (listModelsOrderBy (lf_Sort f)) (set (?rows (t_models t)))"
    by (auto simp: inj_on_def listModelsOrderBy_def)
  have "mset (?rows ms) = mset (?rows (t_models t))" using assms(1) by simp
  then have "sort_key (listModelsOrderBy (lf_Sort f)) (?rows ms) = sort_key (listModelsOrderBy (lf_Sort f)) (?rows (t_models t))"
    using inj by (intro sort_key_inj_key_eq) (simp_all only: mset_eq_setD [of "?rows ms" "?rows (t_models t)"] mset_sort sorted_sort_key)
  then show ?thesis by (simp add: list_query_def joined)
qed

text \<open>
  C26. Paging through the models misses none and repeats none: as long as the rows of the tables stay the
  same, the pages 1 to \<open>k\<close> of any filter and order, put one after another, hold each matching model
  exactly once and in the order asked for, and every page reports the number of all matching models
  as the total. The pages may come from different requests at different times, and each request may
  meet the rows of the models in a physical order of its own: sorting ends with the unique id.
\<close>

theorem pages_cover_matches:
  assumes "0 < lf_PerPage f" "int k * lf_PerPage f < 2 ^ 63" "distinct (map mr_id (t_models t))"
    and "\<forall>p < k. mset (scan p) = mset (t_models t) \<and> pg_tables (dbs p) = t\<lparr> t_models := scan p \<rparr> \<and>
           fst (ListModels ilike (clocks p) (f\<lparr> lf_Page := int p + 1 \<rparr>) (dbs p)) = Inr (pages p, totals p)"
    and "int (length (filter (list_where ilike f) (t_models t))) \<le> int k * lf_PerPage f"
  shows "distinct (map md_ID (concat (map pages [0..<k]))) \<and>
    set (map md_ID (concat (map pages [0..<k]))) = mr_id ` {m \<in> set (t_models t). list_where ilike f m} \<and>
    sorted (map (listModelsOrderBy (lf_Sort f)) (concat (map pages [0..<k]))) \<and>
    (\<forall>p < k. totals p = int (card {m \<in> set (t_models t). list_where ilike f m}))"
proof -
  let ?q = "list_query ilike f t" and ?l = "nat (lf_PerPage f)"
  let ?m = "filter (list_where ilike f) (t_models t)"
  have rows: "pages p = with_meta (clocks p) t (take ?l (drop (p * ?l) ?q))" "totals p = int (length ?m)" if "p < k" for p
  proof -
    have scan: "mset (scan p) = mset (t_models t)" "pg_tables (dbs p) = t\<lparr> t_models := scan p \<rparr>" using assms(4) that by simp_all
    have "mset (filter (list_where ilike f) (scan p)) = mset ?m" using scan(1) by simp
    then have "length (filter (list_where ilike f) (scan p)) = length ?m" by (rule mset_eq_length)
    moreover have "to_history (t\<lparr> t_models := scan p \<rparr>) = to_history t"
      by (simp add: to_history_def source_name_def fun_eq_iff)
    then have "with_meta (clocks p) (t\<lparr> t_models := scan p \<rparr>) = with_meta (clocks p) t"
      by (intro ext) (simp add: with_meta_def history_of_def)
    ultimately show "pages p = with_meta (clocks p) t (take ?l (drop (p * ?l) ?q))" "totals p = int (length ?m)"
      using page_rows [OF assms(1,2) that, of ilike "clocks p" "dbs p" "pages p" "totals p"] assms(4) that
        list_query_scan [OF scan(1) assms(3)] by (simp_all add: scan(2))
  qed
  have "int k * lf_PerPage f = int (k * ?l)" using assms(1) by simp
  then have "length ?m \<le> k * ?l" using assms(5) by (simp only: of_nat_le_iff)
  then have all: "take (k * ?l) ?q = ?q" by (simp add: list_query_def)
  have view: "map g (concat (map pages [0..<k])) = map g ?q" if "\<And>m x. g (m\<lparr> md_Meta := x \<rparr>) = g m" for g :: "ModelRow \<Rightarrow> 'b"
  proof -
    have page: "map g (pages p) = map g (take ?l (drop (p * ?l) ?q))" if "p < k" for p
      using rows(1) [OF that] with_meta_view [of g, OF \<open>\<And>m x. g (m\<lparr> md_Meta := x \<rparr>) = g m\<close>] by (simp only:)
    have "map g (concat (map pages [0..<k])) = concat (map (\<lambda>p. map g (pages p)) [0..<k])"
      by (simp add: map_concat comp_def)
    also have "\<dots> = concat (map (\<lambda>p. map g (take ?l (drop (p * ?l) ?q))) [0..<k])"
      by (rule arg_cong [of _ _ concat], rule map_cong [OF refl], rule page) simp
    also have "\<dots> = map g (take (k * ?l) ?q)"
      unfolding slices_concat [symmetric] by (simp add: map_concat comp_def)
    finally show ?thesis by (simp add: all)
  qed
  have ids: "mset (map md_ID ?q) = mset (map mr_id ?m)"
    by (simp add: list_query_def joined_view comp_def image_mset.compositionality)
  have "distinct (map mr_id ?m)" using assms(3) by (rule distinct_map_filter)
  moreover have "distinct ?m" using assms(3) by (simp add: distinct_map)
  ultimately show ?thesis
    using view [of md_ID] view [of "listModelsOrderBy (lf_Sort f)"] list_order_meta rows(2)
      mset_eq_imp_distinct_iff [OF ids] mset_eq_setD [OF ids] distinct_card [of ?m]
    by (simp add: list_query_def) 
qed

section \<open>Changes\<close>

lemma lag_nth: "(Some a, b) \<in> set (lag xs) \<longleftrightarrow> (\<exists>i. Suc i < length xs \<and> a = xs ! i \<and> b = xs ! Suc i)"
proof
  assume "(Some a, b) \<in> set (lag xs)"
  then obtain n where n: "n < length xs" "(None # map Some xs) ! n = Some a" "b = xs ! n"
    by (auto simp: lag_def in_set_zip)
  then show "\<exists>i. Suc i < length xs \<and> a = xs ! i \<and> b = xs ! Suc i" by (cases n) auto
next
  assume "\<exists>i. Suc i < length xs \<and> a = xs ! i \<and> b = xs ! Suc i"
  then obtain i where i: "Suc i < length xs" "a = xs ! i" "b = xs ! Suc i" by blast
  then have "lag xs ! Suc i = (Some a, b)" "Suc i < length (lag xs)" by (simp_all add: lag_def)
  then show "(Some a, b) \<in> set (lag xs)" by (metis nth_mem)
qed

lemma lag_adjacent:
  fixes f :: "'a \<Rightarrow> int"
  assumes "sorted_wrt (\<lambda>x y. f x < f y) xs"
  shows "(Some a, b) \<in> set (lag xs) \<longleftrightarrow>
    a \<in> set xs \<and> b \<in> set xs \<and> f a < f b \<and> (\<forall>c \<in> set xs. \<not> (f a < f c \<and> f c < f b))"
proof -
  have lt: "f (xs ! i) < f (xs ! j) \<longleftrightarrow> i < j" if "i < length xs" "j < length xs" for i j
    using assms that unfolding sorted_wrt_iff_nth_less by (metis less_asym linorder_neqE_nat)
  show ?thesis
  proof
    assume "(Some a, b) \<in> set (lag xs)"
    then obtain i where i: "Suc i < length xs" "a = xs ! i" "b = xs ! Suc i" by (auto simp: lag_nth)
    have "\<not> (f a < f c \<and> f c < f b)" if "c \<in> set xs" for c
    proof -
      obtain j where "j < length xs" "c = xs ! j" using \<open>c \<in> set xs\<close> by (auto simp: in_set_conv_nth)
      then show ?thesis using i lt [of i j] lt [of j "Suc i"] by auto
    qed
    then show "a \<in> set xs \<and> b \<in> set xs \<and> f a < f b \<and> (\<forall>c \<in> set xs. \<not> (f a < f c \<and> f c < f b))"
      using i lt [of i "Suc i"] by simp
  next
    assume ab: "a \<in> set xs \<and> b \<in> set xs \<and> f a < f b \<and> (\<forall>c \<in> set xs. \<not> (f a < f c \<and> f c < f b))"
    then obtain i j where ij: "i < length xs" "a = xs ! i" "j < length xs" "b = xs ! j" by (auto simp: in_set_conv_nth)
    then have "i < j" using ab lt by blast
    have "j = Suc i"
    proof (rule ccontr)
      assume "j \<noteq> Suc i"
      then have "Suc i < j" using \<open>i < j\<close> by simp
      then have "f a < f (xs ! Suc i)" "f (xs ! Suc i) < f b" "xs ! Suc i \<in> set xs"
        using ij lt [of i "Suc i"] lt [of "Suc i" j] by simp_all
      then show False using ab by blast
    qed
    then show "(Some a, b) \<in> set (lag xs)" using ij by (auto simp: lag_nth)
  qed
qed

lemma strictly_sorted: "distinct (map f xs) \<Longrightarrow> sorted_wrt (\<lambda>x y. f x < f y) (sort_key f xs)"
  for f :: "'a \<Rightarrow> 'b::linorder"
proof -
  assume "distinct (map f xs)"
  moreover have "mset (map f (sort_key f xs)) = mset (map f xs)" by simp
  ultimately have "distinct (map f (sort_key f xs))" by (metis mset_eq_imp_distinct_iff)
  then show ?thesis by (simp add: strict_sorted_iff flip: sorted_wrt_map)
qed

definition event_key :: "history_row \<Rightarrow> int \<times> instant" where
  "event_key h = (hr_model_id h, hr_confirmed_at h)"

lemma ranked_iff:
  assumes "distinct (map event_key rows)"
  shows "(Some g, h) \<in> set (ranked rows) \<longleftrightarrow>
    g \<in> set rows \<and> h \<in> set rows \<and> hr_model_id g = hr_model_id h \<and> hr_confirmed_at g < hr_confirmed_at h \<and>
    (\<forall>x \<in> set rows. hr_model_id x = hr_model_id h \<longrightarrow>
       \<not> (hr_confirmed_at g < hr_confirmed_at x \<and> hr_confirmed_at x < hr_confirmed_at h))"
proof -
  have "distinct (map hr_confirmed_at (filter (\<lambda>h. hr_model_id h = i) rows))" for i
    using assms by (auto simp: distinct_map inj_on_def event_key_def)
  note adj = lag_adjacent [OF strictly_sorted [OF this]]
  have "(Some g, h) \<in> set (ranked rows) \<longleftrightarrow> (\<exists>i \<in> hr_model_id ` set rows.
      (Some g, h) \<in> set (lag (sort_key hr_confirmed_at (filter (\<lambda>h. hr_model_id h = i) rows))))"
    by (simp add: ranked_def)
  also have "\<dots> \<longleftrightarrow> (\<exists>i \<in> hr_model_id ` set rows. g \<in> set rows \<and> h \<in> set rows \<and> hr_model_id g = i \<and>
      hr_model_id h = i \<and> hr_confirmed_at g < hr_confirmed_at h \<and> (\<forall>x \<in> set rows. hr_model_id x = i \<longrightarrow>
        \<not> (hr_confirmed_at g < hr_confirmed_at x \<and> hr_confirmed_at x < hr_confirmed_at h)))"
    unfolding adj by auto
  finally show ?thesis by auto
qed

lemma in_map_filter: "y \<in> set (map f (filter P xs)) \<longleftrightarrow> (\<exists>x \<in> set xs. P x \<and> y = f x)"
  by auto

lemma changes_set:
  "c \<in> set (changesBaseSQL (Some since) before provider now t) \<longleftrightarrow>
   (\<exists>g h. (Some g, h) \<in> set (ranked (in_window_rows since provider t)) \<and>
      (hr_input h \<noteq> hr_input g \<or> hr_output h \<noteq> hr_output g) \<and>
      (case before of None \<Rightarrow> True | Some b \<Rightarrow> hr_confirmed_at h < b) \<and> c = change_of t g h)"
proof -
  let ?r = "set (ranked (in_window_rows since provider t))"
  have "c \<in> set (changesBaseSQL (Some since) before provider now t) \<longleftrightarrow>
      (\<exists>x \<in> ?r. is_change before x \<and> c = change_of t (the (fst x)) (snd x))"
    by (simp add: changesBaseSQL_def coalesce_def case_prod_unfold in_map_filter del: set_map set_filter)
  also have "\<dots> \<longleftrightarrow> (\<exists>g h. (Some g, h) \<in> ?r \<and> is_change before (Some g, h) \<and> c = change_of t g h)"
  proof
    assume "\<exists>x \<in> ?r. is_change before x \<and> c = change_of t (the (fst x)) (snd x)"
    then obtain o' h where "(o', h) \<in> ?r" "is_change before (o', h)" "c = change_of t (the o') h" by auto
    then show "\<exists>g h. (Some g, h) \<in> ?r \<and> is_change before (Some g, h) \<and> c = change_of t g h"
      by (cases o') (auto simp: is_change_def)
  qed force
  finally show ?thesis by (simp add: is_change_def conj_assoc)
qed

text \<open>
  C28. What the API reports as a price change: with at most one history row per model and instant, a
  change is reported exactly for a row whose predecessor among the rows of the same model \<^emph>\<open>inside the
  window\<close> has other prices, and it carries the two rows' prices. (So the first row of a model inside
  the window is never a change, whatever the price before the window was.)
\<close>

theorem changes_reported_iff:
  assumes "distinct (map event_key (t_history t))"
  shows "c \<in> set (changesBaseSQL (Some since) before provider now t) \<longleftrightarrow>
    (\<exists>g \<in> set (in_window_rows since provider t). \<exists>h \<in> set (in_window_rows since provider t).
       hr_model_id g = hr_model_id h \<and> hr_confirmed_at g < hr_confirmed_at h \<and>
       \<not> (\<exists>x \<in> set (in_window_rows since provider t). hr_model_id x = hr_model_id h \<and>
            hr_confirmed_at g < hr_confirmed_at x \<and> hr_confirmed_at x < hr_confirmed_at h) \<and>
       (hr_input h \<noteq> hr_input g \<or> hr_output h \<noteq> hr_output g) \<and>
       (case before of None \<Rightarrow> True | Some b \<Rightarrow> hr_confirmed_at h < b) \<and> c = change_of t g h)"
proof -
  have "distinct (map event_key (in_window_rows since provider t))"
    using assms unfolding in_window_rows_def by (rule distinct_map_filter)
  from ranked_iff [OF this] show ?thesis unfolding changes_set by blast
qed

lemma first_change_lost:
  assumes "distinct (map event_key (t_history t))" "h \<in> set (in_window_rows since provider t)"
    and "\<forall>g \<in> set (in_window_rows since provider t). hr_model_id g = hr_model_id h \<longrightarrow> hr_confirmed_at h \<le> hr_confirmed_at g"
  shows "\<forall>c \<in> set (changesBaseSQL (Some since) before provider now t).
    ch_ModelID c = hr_model_id h \<longrightarrow> ch_ConfirmedAt c \<noteq> hr_confirmed_at h"
proof (intro ballI impI notI)
  fix c
  assume c: "c \<in> set (changesBaseSQL (Some since) before provider now t)" "ch_ModelID c = hr_model_id h"
    "ch_ConfirmedAt c = hr_confirmed_at h"
  have "distinct (map event_key (in_window_rows since provider t))"
    using assms(1) unfolding in_window_rows_def by (rule distinct_map_filter)
  then obtain g h' where gh: "g \<in> set (in_window_rows since provider t)" "hr_model_id g = hr_model_id h'"
      "hr_confirmed_at g < hr_confirmed_at h'" "c = change_of t g h'"
    using c(1) unfolding changes_set by (auto simp: ranked_iff)
  then have "hr_model_id h' = hr_model_id h" "hr_confirmed_at h' = hr_confirmed_at h"
    using c(2,3) by (simp_all add: change_of_def Let_def)
  then show False using gh assms(3) by force
qed

text \<open>The cursor cuts the list of changes.\<close>

lemma changes_before:
  "changesBaseSQL (Some since) (Some b) provider now t =
   filter (\<lambda>c. ch_ConfirmedAt c < b) (changesBaseSQL (Some since) None provider now' t)"
proof -
  have "is_change (Some b) x \<longleftrightarrow> is_change None x \<and> hr_confirmed_at (snd x) < b" for x
    by (auto simp: is_change_def split: prod.split option.split)
  then show ?thesis
    by (auto simp: changesBaseSQL_def coalesce_def filter_map comp_def case_prod_unfold change_of_def Let_def
      intro!: arg_cong [of _ _ "map _"] filter_cong)
qed

lemma changes_before_twice:
  assumes "case before of None \<Rightarrow> True | Some b' \<Rightarrow> b \<le> b'"
  shows "changesBaseSQL (Some since) (Some b) provider now t =
    filter (\<lambda>c. ch_ConfirmedAt c < b) (changesBaseSQL (Some since) before provider now' t)"
  using assms by (cases before) (auto simp: changes_before [of since _ provider _ t now'] intro: filter_cong)

lemma sort_key_Nil [simp]: "sort_key f xs = [] \<longleftrightarrow> xs = []"
  by (metis length_0_conv length_sort)

definition found_changes :: "instant \<Rightarrow> ChangesFilter \<Rightarrow> tables \<Rightarrow> ChangeRow list" where
  "found_changes now f t = newest_first (changesBaseSQL (cg_Since f) (cg_Before f) (cg_Provider f) now t)"

lemma ListChanges_answers: "answers (ListChanges now f) (\<lambda>t. Some
    (take (nat ((if cg_Limit f \<le> 0 then 50 else cg_Limit f) + 1)) (found_changes now f t), int (length (found_changes now f t))))"
proof -
  let ?n = "nat ((if cg_Limit f \<le> 0 then 50 else cg_Limit f) + 1)"
  let ?cs = "\<lambda>t. changesBaseSQL (cg_Since f) (cg_Before f) (cg_Provider f) now t"
  have "answers (ListChanges now f) (\<lambda>t. Option.bind
      (Some (map (\<lambda>c. (c, int (length (?cs t)))) (take ?n (newest_first (?cs t)))))
      (\<lambda>rows. Some (map fst rows, if rows = [] then 0 else snd (last rows))))"
    unfolding ListChanges_def Let_def by (intro answers_bind answers_select answers_return)
  then show ?thesis
    by (rule answers_cong) (auto simp: found_changes_def newest_first_def comp_def last_map)
qed

lemma before_cut:
  fixes f :: "'a \<Rightarrow> int"
  assumes "sorted_wrt (\<lambda>x y. f y < f x) xs" "0 < n" "n \<le> length xs"
  shows "filter (\<lambda>x. f x < f (xs ! (n - 1))) xs = drop n xs"
proof -
  have split: "xs = take n xs @ drop n xs" by simp
  have lt: "f (xs ! j) < f (xs ! i)" if "i < j" "j < length xs" for i j
    using assms(1) that by (simp add: sorted_wrt_iff_nth_less)
  have "\<not> f x < f (xs ! (n - 1))" if x: "x \<in> set (take n xs)" for x
  proof -
    obtain i where "i < n" "x = xs ! i" using x assms(3) by (auto simp: in_set_conv_nth)
    then show ?thesis using lt [of i "n - 1"] assms(2,3) by (cases "i = n - 1") fastforce+
  qed
  moreover have "f x < f (xs ! (n - 1))" if x: "x \<in> set (drop n xs)" for x
  proof -
    obtain i where "n + i < length xs" "x = xs ! (n + i)"
      using x assms(3) by (auto simp: in_set_conv_nth less_diff_conv add.commute)
    then show ?thesis using lt [of "n - 1" "n + i"] assms(2) by simp
  qed
  ultimately have "filter (\<lambda>x. f x < f (xs ! (n - 1))) (take n xs @ drop n xs) = drop n xs"
    by (simp del: append_take_drop_id)
  then show ?thesis by simp
qed

lemma newest_first_strict:
  assumes "distinct (map ch_ConfirmedAt cs)"
  shows "sorted_wrt (\<lambda>x y. ch_ConfirmedAt y < ch_ConfirmedAt x) (newest_first cs)"
proof -
  have "distinct (map (\<lambda>c. - ch_ConfirmedAt c) cs)"
    using assms by (auto simp: distinct_map inj_on_def)
  from strictly_sorted [OF this] show ?thesis by (simp add: newest_first_def)
qed

text \<open>
  C29. Cursor pagination of the changes: if no two changes of the window share their instant, the page
  asked for with the cursor of the last shown change starts with the change right after it: nothing is
  shown twice or skipped. The total shrinks by what was shown (it counts behind the cursor, not, as
  documented, the whole window).
\<close>

theorem changes_cursor_resumes:
  assumes "distinct (map ch_ConfirmedAt (changesBaseSQL (Some since) None (cg_Provider f) now t))"
    and "cg_Since f = Some since" "0 < cg_Limit f" "pg_tables db = t" "pg_tables db' = t"
    and "fst (ListChanges now f db) = Inr (rows, n)" "cg_Limit f < int (length rows)"
    and "cursor = ch_ConfirmedAt (rows ! nat (cg_Limit f - 1))"
    and "fst (ListChanges now' (f\<lparr> cg_Before := Some cursor \<rparr>) db') = Inr (rows', n')"
  shows "rows = take (nat (cg_Limit f) + 1) (found_changes now f t) \<and>
    rows' = take (nat (cg_Limit f) + 1) (drop (nat (cg_Limit f)) (found_changes now f t)) \<and>
    n' = n - cg_Limit f"
proof -
  let ?cs = "changesBaseSQL (Some since) (cg_Before f) (cg_Provider f) now t" and ?l = "nat (cg_Limit f)"
  let ?full = "found_changes now f t"
  have full: "?full = newest_first ?cs" by (simp add: found_changes_def assms(2))
  have nat: "nat (cg_Limit f + 1) = ?l + 1" "nat (cg_Limit f - 1) = ?l - 1" using assms(3) by simp_all
  have rows: "rows = take (?l + 1) ?full" "n = int (length ?full)"
    using answers_fst [OF ListChanges_answers assms(6)] assms(3,4) nat by auto
  then have len: "?l < length ?full" using assms(3,7) by simp
  have cursor: "cursor = ch_ConfirmedAt (?full ! (?l - 1))" using rows assms(3,8) len nat(2) by simp
  have "?full ! (?l - 1) \<in> set ?full" using len by (intro nth_mem) simp
  then have "?full ! (?l - 1) \<in> set ?cs" by (simp add: full newest_first_def)
  then have early: "case cg_Before f of None \<Rightarrow> True | Some b \<Rightarrow> cursor \<le> b"
    by (auto simp: cursor changes_before [of since _ _ now t now] split: option.split)
  have "distinct (map ch_ConfirmedAt ?cs)"
    using assms(1) by (cases "cg_Before f") (auto simp: changes_before [of since _ _ now t now] distinct_map_filter)
  then have "filter (\<lambda>c. ch_ConfirmedAt c < cursor) ?full = drop ?l ?full"
    unfolding cursor full using len assms(3) by (intro before_cut newest_first_strict) (simp_all add: full)
  then have rest: "found_changes now' (f\<lparr> cg_Before := Some cursor \<rparr>) t = drop ?l ?full"
    by (simp add: found_changes_def assms(2) changes_before_twice [OF early, of since _ now' t now] newest_first_def
      filter_sort)
  then have "rows' = take (?l + 1) (drop ?l ?full)" "n' = int (length (drop ?l ?full))"
    using answers_fst [OF ListChanges_answers assms(9)] assms(3,5) nat by auto
  then show ?thesis using rows len assms(3) by simp
qed

section \<open>The summary of changes\<close>

definition changes_of :: "model_key \<Rightarrow> ChangeRow list \<Rightarrow> int" where
  "changes_of k cs = int (length (filter (\<lambda>c. model_key c = k) cs))"

lemma count_changes: "fst (go_get (0, Fin 0) (foldl count_change m cs) k) = fst (go_get (0, Fin 0) m k) + changes_of k cs"
proof (induction cs arbitrary: m)
  case (Cons c cs)
  have "fst (go_get (0, Fin 0) (count_change m c) k) = fst (go_get (0, Fin 0) m k) + (if model_key c = k then 1 else 0)"
    by (auto simp: count_change_def split: prod.split)
  then show ?case using Cons [of "count_change m c"] by (simp add: changes_of_def)
qed (simp add: changes_of_def)

lemma counted: "k \<in> model_key ` set cs \<Longrightarrow> fst (the (foldl count_change Map.empty cs k)) = changes_of k cs"
proof -
  assume k: "k \<in> model_key ` set cs"
  then have "0 < changes_of k cs" by (auto simp: changes_of_def length_greater_0_conv filter_empty_conv)
  then show ?thesis
    using count_changes [of Map.empty cs k] by (auto simp: go_get_def split: option.splits)
qed

definition node_of :: "(model_key \<rightharpoonup> int \<times> f64) \<Rightarrow> model_key \<Rightarrow> HeatmapModelNode" where
  "node_of agg k = \<lparr> hn_ModelID = fst (snd k), hn_ModelSlug = snd (snd k), hn_ChangeCount = fst (the (agg k)),
     hn_AvgDeltaPct = f64_div (snd (the (agg k))) (f64_of_int (fst (the (agg k)))) \<rparr>"

lemma add_node_eq:
  "add_node agg groups k = groups(fst k \<mapsto>
     (let g = go_get \<lparr> hg_Provider = fst k, hg_TotalChanges = 0, hg_Models = [] \<rparr> groups (fst k)
      in g\<lparr> hg_TotalChanges := hg_TotalChanges g + fst (the (agg k)), hg_Models := hg_Models g @ [node_of agg k] \<rparr>))"
  by (simp add: add_node_def node_of_def Let_def split: prod.split)

text \<open>The group of a provider after the loop.\<close>

definition group_of :: "(model_key \<rightharpoonup> int \<times> f64) \<Rightarrow> model_key list \<Rightarrow> string \<Rightarrow> HeatmapProviderGroup" where
  "group_of agg keys p =
     (let ks = filter (\<lambda>k. fst k = p) keys
      in \<lparr> hg_Provider = p, hg_TotalChanges = sum_list (map (\<lambda>k. fst (the (agg k))) ks), hg_Models = map (node_of agg) ks \<rparr>)"

lemma grouped:
  "foldl (add_node agg) Map.empty keys p = (if p \<in> fst ` set keys then Some (group_of agg keys p) else None)"
proof (induction keys rule: rev_induct)
  case (snoc k keys)
  define groups where "groups = foldl (add_node agg) Map.empty keys"
  have step: "foldl (add_node agg) Map.empty (keys @ [k]) = add_node agg groups k"
    by (simp add: groups_def)
  have IH: "groups p = (if p \<in> fst ` set keys then Some (group_of agg keys p) else None)"
    using snoc by (simp add: groups_def)
  show ?case
  proof (cases "fst k = p")
    case True
    have none: "p \<notin> fst ` set keys \<Longrightarrow> filter (\<lambda>k. fst k = p) keys = []" by (auto simp: filter_empty_conv)
    have "go_get \<lparr> hg_Provider = p, hg_TotalChanges = 0, hg_Models = [] \<rparr> groups p = group_of agg keys p"
      using IH none by (cases "p \<in> fst ` set keys") (simp_all add: go_get_def group_of_def)
    then show ?thesis using True unfolding step by (simp add: add_node_eq group_of_def Let_def)
  next
    case False
    then show ?thesis using IH unfolding step by (auto simp: add_node_eq group_of_def)
  qed
qed simp

lemma heatmap_of_eq:
  "heatmap_of im ip cs =
     (let agg = foldl count_change Map.empty cs; keys = im (remdups (map model_key cs))
      in insertion_sort (\<lambda>a b. hg_TotalChanges b < hg_TotalChanges a)
        (map (\<lambda>p. (group_of agg keys p)\<lparr> hg_Models :=
            insertion_sort (\<lambda>a b. hn_ChangeCount b < hn_ChangeCount a) (hg_Models (group_of agg keys p)) \<rparr>)
          (ip (remdups (map fst keys)))))"
  if "\<forall>xs. mset (ip xs) = mset xs"
proof -
  have "set (ip xs) = set xs" for xs using that by (metis set_mset_mset)
  then show ?thesis
    unfolding heatmap_of_def Let_def
    by (intro arg_cong [of _ _ "insertion_sort _"] map_cong refl) (simp add: grouped)
qed

lemma insertion_sort_sum: "sum_list (map g (insertion_sort lt xs)) = sum_list (map g xs)" for g :: "'a \<Rightarrow> int"
  using mset_insertion_sort [of lt xs] by (metis mset_map sum_mset_sum_list)

lemma sum_by_key:
  assumes "distinct ps" "f ` set ks \<subseteq> set ps"
  shows "sum_list (map (\<lambda>p. sum_list (map g (filter (\<lambda>k. f k = p) ks))) ps) = (sum_list (map g ks) :: int)"
  using assms(2)
proof (induction ks)
  case (Cons k ks)
  have "sum_list (map (\<lambda>p. if f k = p then g k else 0) ps) = g k"
    using assms(1) Cons.prems by (simp add: sum_list_distinct_conv_sum_set)
  moreover have "sum_list (map g (filter (\<lambda>x. f x = p) (k # ks))) =
      (if f k = p then g k else 0) + sum_list (map g (filter (\<lambda>x. f x = p) ks))" for p by simp
  ultimately show ?case using Cons by (simp add: sum_list_addf)
qed simp

lemma GetChangesSummary_answers: "answers (GetChangesSummary im ip ib now f) (\<lambda>t.
    let cs = newest_first (changesBaseSQL (sf_Since f) None (sf_Provider f) now t)
    in Some \<lparr> sm_Heatmap = heatmap_of im ip cs, sm_TopMovers = movers_of ib cs, sm_TotalChanges = int (length cs), sm_Window = [] \<rparr>)"
proof -
  have "answers (GetChangesSummary im ip ib now f) (\<lambda>t.
      Option.bind (Some (newest_first (changesBaseSQL (sf_Since f) None (sf_Provider f) now t))) (\<lambda>cs.
      Some \<lparr> sm_Heatmap = heatmap_of im ip cs, sm_TopMovers = movers_of ib cs, sm_TotalChanges = int (length cs), sm_Window = [] \<rparr>))"
    unfolding GetChangesSummary_def listChangesRaw_def by (intro answers_bind answers_select answers_return)
  then show ?thesis by (rule answers_cong) (simp add: Let_def)
qed

lemma changes_by_key:
  assumes "distinct ks" "set ks = model_key ` set cs"
  shows "sum_list (map (\<lambda>k. fst (the (foldl count_change Map.empty cs k))) ks) = int (length cs)"
proof -
  have "sum_list (map (\<lambda>k. fst (the (foldl count_change Map.empty cs k))) ks) = sum_list (map (\<lambda>k. changes_of k cs) ks)"
    using assms(2) by (intro arg_cong [of _ _ sum_list] map_cong refl) (simp add: counted)
  also have "\<dots> = sum_list (map (\<lambda>k. sum_list (map (\<lambda>_. 1) (filter (\<lambda>c. model_key c = k) cs))) ks)"
    by (simp add: changes_of_def sum_list_triv)
  also have "\<dots> = int (length cs)"
    using sum_by_key [OF assms(1), of model_key cs "\<lambda>_. 1"] assms(2) by (simp add: sum_list_triv)
  finally show ?thesis .
qed

text \<open>
  C30. The heatmap adds up: whatever the orders in which the maps are ranged over and equal counts end
  up, every provider has one group, its total is the sum of the counts of its models, the totals of all
  groups sum up to the number of changes reported for the window, and the groups and the models in them
  come with the largest count first.
\<close>

theorem summary_adds_up:
  assumes "\<forall>xs. mset (iter_models xs) = mset xs" "\<forall>xs. mset (iter_providers xs) = mset xs"
    and "fst (GetChangesSummary iter_models iter_providers iter_best now f db) = Inr s"
  shows "sm_TotalChanges s = int (length (changesBaseSQL (sf_Since f) None (sf_Provider f) now (pg_tables db))) \<and>
    sum_list (map hg_TotalChanges (sm_Heatmap s)) = sm_TotalChanges s \<and>
    distinct (map hg_Provider (sm_Heatmap s)) \<and>
    sorted_wrt (\<lambda>g h. hg_TotalChanges h \<le> hg_TotalChanges g) (sm_Heatmap s) \<and>
    list_all (\<lambda>g. hg_TotalChanges g = sum_list (map hn_ChangeCount (hg_Models g)) \<and>
      sorted_wrt (\<lambda>m n. hn_ChangeCount n \<le> hn_ChangeCount m) (hg_Models g)) (sm_Heatmap s)"
proof -
  define cs where "cs = newest_first (changesBaseSQL (sf_Since f) None (sf_Provider f) now (pg_tables db))"
  define agg where "agg = foldl count_change Map.empty cs"
  define keys where "keys = iter_models (remdups (map model_key cs))"
  define ps where "ps = iter_providers (remdups (map fst keys))"
  let ?g = "\<lambda>p. (group_of agg keys p)\<lparr> hg_Models :=
    insertion_sort (\<lambda>a b. hn_ChangeCount b < hn_ChangeCount a) (hg_Models (group_of agg keys p)) \<rparr>"
  have s: "sm_TotalChanges s = int (length cs)"
      "sm_Heatmap s = insertion_sort (\<lambda>a b. hg_TotalChanges b < hg_TotalChanges a) (map ?g ps)"
    using answers_fst [OF GetChangesSummary_answers assms(3)]
    by (auto simp: Let_def heatmap_of_eq [OF assms(2)] cs_def agg_def keys_def ps_def)
  have keys: "set keys = model_key ` set cs" "distinct keys"
    using assms(1) unfolding keys_def
    by (metis set_mset_mset set_remdups list.set_map, metis mset_eq_imp_distinct_iff distinct_remdups)
  have ps: "set ps = fst ` set keys" "distinct ps"
    using assms(2) unfolding ps_def
    by (metis set_mset_mset set_remdups list.set_map, metis mset_eq_imp_distinct_iff distinct_remdups)
  have group: "hg_Provider (?g p) = p" "hg_TotalChanges (?g p) = sum_list (map (\<lambda>k. fst (the (agg k))) (filter (\<lambda>k. fst k = p) keys))"
      "hg_TotalChanges (?g p) = sum_list (map hn_ChangeCount (hg_Models (?g p)))"
      "sorted_wrt (\<lambda>m n. hn_ChangeCount n \<le> hn_ChangeCount m) (hg_Models (?g p))" for p
    by (simp_all add: group_of_def insertion_sort_sum comp_def node_of_def insertion_sort_desc Let_def)
  have "sum_list (map hg_TotalChanges (map ?g ps)) = sum_list (map (\<lambda>k. fst (the (agg k))) keys)"
    using sum_by_key [OF ps(2), of fst keys] ps(1) by (simp add: comp_def group(2))
  also have "\<dots> = int (length cs)" using changes_by_key [OF keys(2,1)] by (simp add: agg_def)
  finally have total: "sum_list (map hg_TotalChanges (sm_Heatmap s)) = int (length cs)"
    unfolding s insertion_sort_sum .
  have "mset (map hg_Provider (sm_Heatmap s)) = mset (map hg_Provider (map ?g ps))"
    unfolding s by (simp only: mset_map mset_insertion_sort)
  also have "map hg_Provider (map ?g ps) = ps" by (simp add: comp_def group(1))
  finally have "distinct (map hg_Provider (sm_Heatmap s))" using ps(2) by (metis mset_eq_imp_distinct_iff)
  moreover have "sorted_wrt (\<lambda>g h. hg_TotalChanges h \<le> hg_TotalChanges g) (sm_Heatmap s)"
    unfolding s by (rule insertion_sort_desc) simp
  moreover have "set (sm_Heatmap s) = ?g ` set ps" by (simp add: s set_insertion_sort)
  ultimately show ?thesis using s(1) total group(3,4) by (simp add: list_all_iff cs_def newest_first_def)
qed

section \<open>The biggest movers\<close>

lemma float_key_lt: "a \<noteq> NaN \<Longrightarrow> b \<noteq> NaN \<Longrightarrow> f64_lt a b \<longleftrightarrow> float_key a < float_key b"
  by (cases a; cases b) (auto simp: float_key_def)

lemma float_key_le: "a \<noteq> NaN \<Longrightarrow> b \<noteq> NaN \<Longrightarrow> f64_le a b \<longleftrightarrow> float_key a \<le> float_key b"
  by (cases a; cases b) (auto simp: float_key_def f64_le_def f64_eq_def)

lemma abs_not_NaN [simp]: "f64_abs x = NaN \<longleftrightarrow> x = NaN"
  by (cases x) auto

definition move_key :: "ChangeRow \<Rightarrow> nat \<times> rat" where
  "move_key c = float_key (f64_abs (changeDeltaPct c))"

lemma best_spec:
  assumes "\<forall>c \<in> set cs. changeDeltaPct c \<noteq> NaN"
  shows "case foldl better_change Map.empty cs i of
      None \<Rightarrow> i \<notin> ch_ModelID ` set cs
    | Some (c, d) \<Rightarrow> c \<in> set cs \<and> ch_ModelID c = i \<and> d = f64_abs (changeDeltaPct c) \<and>
        (\<forall>x \<in> set cs. ch_ModelID x = i \<longrightarrow> move_key x \<le> move_key c)"
  using assms
proof (induction cs rule: rev_induct)
  case (snoc c cs)
  define m where "m = foldl better_change Map.empty cs"
  have IH: "case m i of None \<Rightarrow> i \<notin> ch_ModelID ` set cs
      | Some (c, d) \<Rightarrow> c \<in> set cs \<and> ch_ModelID c = i \<and> d = f64_abs (changeDeltaPct c) \<and>
          (\<forall>x \<in> set cs. ch_ModelID x = i \<longrightarrow> move_key x \<le> move_key c)"
    using snoc by (simp add: m_def)
  have step: "foldl better_change Map.empty (cs @ [c]) = better_change m c" by (simp add: m_def)
  show ?case
  proof (cases "ch_ModelID c = i")
    case True
    show ?thesis
    proof (cases "m i")
      case None
      then show ?thesis unfolding step using IH True by (auto simp: better_change_def image_iff)
    next
      case (Some e)
      obtain x d where e: "e = (x, d)" by fastforce
      have x: "x \<in> set cs" "ch_ModelID x = i" "d = f64_abs (changeDeltaPct x)"
          "\<forall>y \<in> set cs. ch_ModelID y = i \<longrightarrow> move_key y \<le> move_key x"
        using IH Some e by auto
      have "f64_lt d (f64_abs (changeDeltaPct c)) \<longleftrightarrow> move_key x < move_key c"
        using x snoc.prems by (simp add: move_key_def float_key_lt)
      then show ?thesis unfolding step using Some e x True by (auto simp: better_change_def Let_def intro: order_trans)
    qed
  next
    case False
    then have "better_change m c i = m i" by (auto simp: better_change_def Let_def split: option.split)
    then show ?thesis unfolding step using IH False by (auto split: option.splits)
  qed
qed simp

text \<open>
  The five biggest movers: the list names at most five models, each once and with a change that the
  window reports; the largest move comes first; and every other reported change is no larger than the
  listed change of its own model, or than all five. Ranging over the maps in another order can only
  exchange moves of the same size. (No move may be a NaN, which prices that are numbers ensure unless
  their sums overflow.)
\<close>

theorem movers_ranked:
  assumes "\<forall>xs. mset (iter_best xs) = mset xs"
    and "fst (GetChangesSummary iter_models iter_providers iter_best now f db) = Inr s"
    and "cs = changesBaseSQL (sf_Since f) None (sf_Provider f) now (pg_tables db)"
    and "\<forall>c \<in> set cs. changeDeltaPct c \<noteq> NaN"
  shows "length (sm_TopMovers s) \<le> 5 \<and>
    distinct (map (\<lambda>v. ch_ModelID (mv_Change v)) (sm_TopMovers s)) \<and>
    sorted_wrt (\<lambda>v w. f64_le (f64_abs (mv_DeltaPct w)) (f64_abs (mv_DeltaPct v))) (sm_TopMovers s) \<and>
    (\<forall>v \<in> set (sm_TopMovers s). mv_Change v \<in> set cs \<and> mv_DeltaPct v = changeDeltaPct (mv_Change v)) \<and>
    (\<forall>c \<in> set cs. (\<exists>v \<in> set (sm_TopMovers s). ch_ModelID (mv_Change v) = ch_ModelID c \<and>
         f64_le (f64_abs (changeDeltaPct c)) (f64_abs (mv_DeltaPct v))) \<or>
       length (sm_TopMovers s) = 5 \<and>
       (\<forall>v \<in> set (sm_TopMovers s). f64_le (f64_abs (changeDeltaPct c)) (f64_abs (mv_DeltaPct v))))"
proof -
  define ds where "ds = newest_first cs"
  have dcs: "set ds = set cs" "\<forall>c \<in> set ds. changeDeltaPct c \<noteq> NaN"
    using assms(4) by (simp_all add: ds_def newest_first_def)
  define best where "best = foldl better_change Map.empty ds"
  define ids where "ids = iter_best (remdups (map ch_ModelID ds))"
  define mover where "mover i = \<lparr> mv_DeltaPct = changeDeltaPct (fst (the (best i))), mv_Change = fst (the (best i)) \<rparr>" for i
  define all where "all = insertion_sort (\<lambda>a b. f64_lt (f64_abs (mv_DeltaPct b)) (f64_abs (mv_DeltaPct a))) (map mover ids)"
  let ?k = "\<lambda>v. float_key (f64_abs (mv_DeltaPct v))"
  have "sm_TopMovers s = movers_of iter_best ds"
    using answers_fst [OF GetChangesSummary_answers assms(2)] by (auto simp: Let_def ds_def assms(3))
  then have s: "sm_TopMovers s = take 5 all"
    by (simp add: Let_def movers_of_def all_def mover_def [abs_def] ids_def best_def)
  have ids: "set ids = ch_ModelID ` set cs" "distinct ids"
    using assms(1) dcs(1) unfolding ids_def
    by (metis set_mset_mset set_remdups list.set_map, metis mset_eq_imp_distinct_iff distinct_remdups)
  have best: "mv_Change (mover i) \<in> set cs \<and> ch_ModelID (mv_Change (mover i)) = i \<and>
      mv_DeltaPct (mover i) = changeDeltaPct (mv_Change (mover i)) \<and>
      (\<forall>c \<in> set cs. ch_ModelID c = i \<longrightarrow> move_key c \<le> ?k (mover i))" if "i \<in> set ids" for i
    using best_spec [OF dcs(2), of i] that dcs(1) ids(1)
    by (auto simp: best_def mover_def move_key_def split: option.splits)
  have num: "mv_DeltaPct v \<noteq> NaN" if "v \<in> set (map mover ids)" for v
    using that best assms(4) by fastforce
  have set_all: "set all = mover ` set ids" by (simp add: all_def set_insertion_sort)
  have sorted: "sorted_wrt (\<lambda>v w. ?k w \<le> ?k v) all"
    unfolding all_def by (rule insertion_sort_desc) (simp add: float_key_lt num)
  have "mset (map (\<lambda>v. ch_ModelID (mv_Change v)) all) = mset (map (\<lambda>i. ch_ModelID (mv_Change (mover i))) ids)"
    unfolding all_def by (simp only: mset_map mset_insertion_sort image_mset.compositionality comp_def)
  also have "map (\<lambda>i. ch_ModelID (mv_Change (mover i))) ids = map (\<lambda>i. i) ids" using best by (intro map_cong) auto
  finally have dist: "distinct (map (\<lambda>v. ch_ModelID (mv_Change v)) all)"
    using ids(2) by (metis list.map_ident mset_eq_imp_distinct_iff)
  have le: "f64_le (f64_abs a) (f64_abs (mv_DeltaPct v)) \<longleftrightarrow> float_key (f64_abs a) \<le> ?k v"
    if "a \<noteq> NaN" "v \<in> set all" for a v
    using that num set_all by (simp add: float_key_le)
  have "sorted_wrt (\<lambda>v w. f64_le (f64_abs (mv_DeltaPct w)) (f64_abs (mv_DeltaPct v))) all"
    using sorted by (rule sorted_wrt_mono_rel [rotated]) (use le num set_all in auto)
  moreover have "(\<exists>v \<in> set (take 5 all). ch_ModelID (mv_Change v) = ch_ModelID c \<and> move_key c \<le> ?k v) \<or>
      length (take 5 all) = 5 \<and> (\<forall>v \<in> set (take 5 all). move_key c \<le> ?k v)" if c: "c \<in> set cs" for c
  proof (cases "mover (ch_ModelID c) \<in> set (take 5 all)")
    case True
    then show ?thesis using best [of "ch_ModelID c"] c ids(1) by auto
  next
    case False
    moreover have v: "mover (ch_ModelID c) \<in> set all" using c ids(1) set_all by auto
    ultimately have d: "mover (ch_ModelID c) \<in> set (drop 5 all)"
      by (metis Un_iff append_take_drop_id set_append)
    then have "length (take 5 all) = 5" by (cases "length all \<le> 5") auto
    moreover have "?k (mover (ch_ModelID c)) \<le> ?k w" if "w \<in> set (take 5 all)" for w
      using sorted d that by (metis append_take_drop_id sorted_wrt_append)
    moreover have "move_key c \<le> ?k (mover (ch_ModelID c))" using best [of "ch_ModelID c"] c ids(1) by auto
    ultimately show ?thesis by (meson order_trans)
  qed
  moreover have "v \<in> set all" if "v \<in> set (take 5 all)" for v using that by (rule in_set_takeD)
  ultimately show ?thesis
    unfolding s using dist best set_all le assms(4)
    by (auto simp: sorted_wrt_take distinct_take take_map [symmetric] move_key_def)
qed

section \<open>An example catalog\<close>

definition demo_model :: "int \<Rightarrow> string \<Rightarrow> model_row" where
  "demo_model i slug = \<lparr> mr_id = i, mr_provider = ''openai'', mr_name = slug, mr_slug = slug, mr_modality = ''text'',
     mr_context_window = Some (1000 * i), mr_created_at = 0, mr_updated_at = 0 \<rparr>"

definition demo_row :: "int \<Rightarrow> int \<Rightarrow> rat \<Rightarrow> instant \<Rightarrow> history_row" where
  "demo_row i src x tm = \<lparr> hr_model_id = i, hr_input = Fin x, hr_output = Fin 1, hr_source_id = src,
     hr_confirmed_at = tm, hr_recorded_at = tm, hr_underlying = None \<rparr>"

definition demo_price :: "int \<Rightarrow> rat \<Rightarrow> instant \<Rightarrow> price_row" where
  "demo_price i x tm = \<lparr> pr_id = i, pr_model_id = i, pr_input = Fin x, pr_output = Fin 1, pr_source_id = 1,
     pr_confirmed_at = tm, pr_confidence = ConfidenceMedium, pr_created_at = tm, pr_underlying = Some ''azure'',
     pr_last_verified_at = Some (tm + 5) \<rparr>"

definition demo_catalog :: tables where
  "demo_catalog = \<lparr> t_sources = [(1, ''openai''), (2, ''openrouter'')],
     t_models = [demo_model 1 ''gpt-1'', demo_model 2 ''gpt-2'', demo_model 3 ''gpt-3''],
     t_prices = [demo_price 1 4 20, demo_price 2 2 40],
     t_history = [demo_row 1 1 1 5, demo_row 1 1 2 10, demo_row 1 1 4 20, demo_row 2 1 1 30, demo_row 2 1 2 40,
       demo_row 3 1 1 50, demo_row 3 2 2 60, demo_row 3 1 1 70],
     t_review = [], t_webhooks = [], t_price_serial = 3, t_review_serial = 1, t_model_serial = 4,
     t_benchmarks = [], t_scores = [], t_capabilities = [], t_identities = [], t_tokens = [], t_keys = [] \<rparr>"

definition demo_store :: pg where
  "demo_store = \<lparr> pg_tables = demo_catalog, pg_count = 0, pg_fault = (\<lambda>_. False), pg_now = int,
     pg_numeric = (\<lambda>_ x. x), pg_uuid = (\<lambda>_. []) \<rparr>"

definition demo_list :: ListModelsFilter where
  "demo_list = \<lparr> lf_Provider = ''openai'', lf_Modality = [], lf_Search = [], lf_MinContext = Some 1000, lf_Page = 1,
     lf_PerPage = 2, lf_Sort = ''recent'' \<rparr>"

theorem list_agrees_with_detail_witness:
  "\<exists>r rs n d. fst (ListModels (=) (\<lambda>_. 90) demo_list demo_store) = Inr (r # rs, n) \<and>
     fst (GetModel (\<lambda>_. 90) (md_ID r) demo_store) = Inr d \<and> md_ID r = 2 \<and> r = d\<lparr> md_UnderlyingProvider := None \<rparr>"
proof -
  have "case fst (ListModels (=) (\<lambda>_. 90) demo_list demo_store) of Inr (r # _, _) \<Rightarrow> md_ID r = 2 | _ \<Rightarrow> False"
    by code_simp
  then obtain r rs n where list: "fst (ListModels (=) (\<lambda>_. 90) demo_list demo_store) = Inr (r # rs, n)" "md_ID r = 2"
    by (auto split: sum.splits list.splits)
  have "case fst (GetModel (\<lambda>_. 90) 2 demo_store) of Inr _ \<Rightarrow> True | _ \<Rightarrow> False" by code_simp
  then obtain d where d: "fst (GetModel (\<lambda>_. 90) (md_ID r) demo_store) = Inr d"
    by (auto simp: list split: sum.splits)
  have "pg_tables demo_store = demo_catalog" by (simp add: demo_store_def)
  moreover have "distinct (map mr_id (t_models demo_catalog))" by code_simp
  ultimately have "r = d\<lparr> md_UnderlyingProvider := None \<rparr>"
    using list_agrees_with_detail [of demo_catalog demo_store demo_store "(=)" 90 demo_list "r # rs" n _ _ _ r d] list d
    by simp
  then show ?thesis using list d by blast
qed

text \<open>Two models that differ only in their ids and slugs, met in opposite orders by the two requests.\<close>

definition demo_twins :: tables where
  "demo_twins = demo_catalog\<lparr> t_models := [(demo_model 1 ''gpt'')\<lparr> mr_slug := ''gpt-a'' \<rparr>, (demo_model 2 ''gpt'')\<lparr> mr_slug := ''gpt-b'' \<rparr>],
     t_prices := [] \<rparr>"

definition demo_scan :: "nat \<Rightarrow> model_row list" where
  "demo_scan p = (if p = 0 then t_models demo_twins else rev (t_models demo_twins))"

definition demo_one :: ListModelsFilter where
  "demo_one = demo_list\<lparr> lf_PerPage := 1 \<rparr>"

definition demo_page :: "nat \<Rightarrow> db_error + ModelRow list \<times> int" where
  "demo_page p = fst (ListModels (=) (\<lambda>_. 90) (demo_one\<lparr> lf_Page := int p + 1 \<rparr>)
     (demo_store\<lparr> pg_tables := demo_twins\<lparr> t_models := demo_scan p \<rparr> \<rparr>))"

theorem pages_cover_matches_witness:
  "map md_ID (fst (projr (demo_page 0))) = [1] \<and> map md_ID (fst (projr (demo_page 1))) = [2] \<and>
   distinct (map md_ID (concat (map (fst \<circ> projr \<circ> demo_page) [0..<2])))"
proof -
  have pages: "\<not> isl (demo_page 0)" "\<not> isl (demo_page 1)" by code_simp+
  have page: "demo_page p = Inr ((fst \<circ> projr \<circ> demo_page) p, (snd \<circ> projr \<circ> demo_page) p)" if "p < 2" for p
    using pages that by (auto simp: less_2_cases_iff)
  have scan: "mset (demo_scan p) = mset (t_models demo_twins)" for p by (simp add: demo_scan_def)
  have ids: "distinct (map mr_id (t_models demo_twins))" by code_simp
  have all: "int (length (filter (list_where (=) demo_one) (t_models demo_twins))) \<le> int 2 * lf_PerPage demo_one"
    by code_simp
  have "lf_PerPage demo_one = 1" by (simp add: demo_one_def)
  then have "distinct (map md_ID (concat (map (fst \<circ> projr \<circ> demo_page) [0..<2])))"
    using pages_cover_matches [of demo_one 2 demo_twins demo_scan
        "\<lambda>p. demo_store\<lparr> pg_tables := demo_twins\<lparr> t_models := demo_scan p \<rparr> \<rparr>" "(=)" "\<lambda>_ _. 90"
        "fst \<circ> projr \<circ> demo_page" "snd \<circ> projr \<circ> demo_page"] page scan ids all
    by (simp add: demo_page_def)
  moreover have "map md_ID (fst (projr (demo_page 0))) = [1]" "map md_ID (fst (projr (demo_page 1))) = [2]"
    by code_simp+
  ultimately show ?thesis by blast
qed

theorem changes_reported_iff_witness:
  "change_of demo_catalog (demo_row 1 1 2 10) (demo_row 1 1 4 20) \<in>
     set (changesBaseSQL (Some 5) None [] 100 demo_catalog)"
proof -
  have "distinct (map event_key (t_history demo_catalog))" by code_simp
  moreover have "demo_row 1 1 2 10 \<in> set (in_window_rows 5 [] demo_catalog)"
      "demo_row 1 1 4 20 \<in> set (in_window_rows 5 [] demo_catalog)"
      "\<not> (\<exists>x \<in> set (in_window_rows 5 [] demo_catalog). hr_model_id x = 1 \<and> 10 < hr_confirmed_at x \<and> hr_confirmed_at x < 20)"
    by code_simp+
  moreover have "hr_model_id (demo_row i src x tm) = i" "hr_confirmed_at (demo_row i src x tm) = tm"
      "hr_input (demo_row i src x tm) = Fin x" for i src x tm by (simp_all add: demo_row_def)
  ultimately show ?thesis
    by (subst changes_reported_iff) (assumption, intro bexI [of _ "demo_row 1 1 2 10"] bexI [of _ "demo_row 1 1 4 20"],
      simp_all)
qed

definition demo_window :: ChangesFilter where
  "demo_window = \<lparr> cg_Since = Some 0, cg_Before = None, cg_Provider = [], cg_Limit = 2 \<rparr>"

theorem changes_cursor_resumes_witness:
  "map ch_ConfirmedAt (take 2 (found_changes 100 demo_window demo_catalog)) = [70, 60] \<and>
   fst (ListChanges 200 (demo_window\<lparr> cg_Before := Some 60 \<rparr>) demo_store) =
     Inr (take 3 (drop 2 (found_changes 100 demo_window demo_catalog)), 3)"
proof -
  have "case fst (ListChanges 100 demo_window demo_store) of
      Inr (rows, n) \<Rightarrow> length rows = 3 \<and> n = 5 \<and> ch_ConfirmedAt (rows ! 1) = 60 | _ \<Rightarrow> False" by code_simp
  then obtain rows n where one: "fst (ListChanges 100 demo_window demo_store) = Inr (rows, n)" "length rows = 3" "n = 5"
      "ch_ConfirmedAt (rows ! 1) = 60" by (auto split: sum.splits)
  have "\<not> isl (fst (ListChanges 200 (demo_window\<lparr> cg_Before := Some 60 \<rparr>) demo_store))" by code_simp
  then obtain rows' n' where two: "fst (ListChanges 200 (demo_window\<lparr> cg_Before := Some 60 \<rparr>) demo_store) = Inr (rows', n')"
    by (metis isl_def sum.exhaust surj_pair)
  have "distinct (map ch_ConfirmedAt (changesBaseSQL (Some 0) None (cg_Provider demo_window) 100 demo_catalog))"
    by code_simp
  moreover have "cg_Since demo_window = Some 0" "cg_Limit demo_window = 2" "pg_tables demo_store = demo_catalog"
    by (simp_all add: demo_window_def demo_store_def)
  ultimately have "rows' = take 3 (drop 2 (found_changes 100 demo_window demo_catalog)) \<and> n' = 3"
    using changes_cursor_resumes [of 0 demo_window 100 demo_catalog demo_store demo_store rows n 60 200 rows' n'] one two
    by (simp add: numeral_3_eq_3)
  moreover have "map ch_ConfirmedAt (take 2 (found_changes 100 demo_window demo_catalog)) = [70, 60]" by code_simp
  ultimately show ?thesis using two by simp
qed

definition demo_summary :: SummaryFilter where
  "demo_summary = \<lparr> sf_Since = Some 0, sf_Provider = [] \<rparr>"

lemma demo_summary_run:
  "\<exists>s. fst (GetChangesSummary im ip ib 100 demo_summary demo_store) = Inr s \<and> sm_TotalChanges s = 5"
proof -
  have "length (changesBaseSQL (Some 0) None [] 100 demo_catalog) = 5" by code_simp
  then show ?thesis
    by (simp add: GetChangesSummary_def listChangesRaw_def db_bind_def select_def stmt_def db_return_def
      demo_store_def demo_summary_def newest_first_def)
qed

theorem summary_adds_up_witness:
  "\<exists>s. fst (GetChangesSummary rev id rev 100 demo_summary demo_store) = Inr s \<and>
     sum_list (map hg_TotalChanges (sm_Heatmap s)) = 5"
proof -
  obtain s where s: "fst (GetChangesSummary rev id rev 100 demo_summary demo_store) = Inr s" "sm_TotalChanges s = 5"
    using demo_summary_run by blast
  moreover have "sum_list (map hg_TotalChanges (sm_Heatmap s)) = sm_TotalChanges s"
    using summary_adds_up [of rev id rev 100 demo_summary demo_store s] s(1) by simp
  ultimately show ?thesis by simp
qed

theorem movers_ranked_witness:
  "\<exists>s. fst (GetChangesSummary rev id rev 100 demo_summary demo_store) = Inr s \<and>
     distinct (map (\<lambda>v. ch_ModelID (mv_Change v)) (sm_TopMovers s))"
proof -
  obtain s where s: "fst (GetChangesSummary rev id rev 100 demo_summary demo_store) = Inr s"
    using demo_summary_run by blast
  moreover have "\<forall>c \<in> set (changesBaseSQL (Some 0) None [] 100 demo_catalog). changeDeltaPct c \<noteq> NaN"
    by code_simp
  ultimately show ?thesis
    using movers_ranked [of rev rev id 100 demo_summary demo_store s, OF _ s refl]
    by (auto simp: demo_summary_def demo_store_def)
qed

text \<open>
  Two sources that each report a constant price for one model show up as a change whenever the other
  source wrote last, since \<open>LAG\<close> runs over the rows of all sources of a model.
\<close>

lemma phantom_change:
  "map ch_ConfirmedAt (changesBaseSQL (Some 0) None [] 100
     (demo_catalog\<lparr> t_history := [demo_row 3 1 1 50, demo_row 3 2 2 60, demo_row 3 1 1 70] \<rparr>)) = [60, 70]"
  by code_simp

text \<open>Changes that share their instant with the last one of a page are lost to the next page.\<close>

lemma cursor_loses_ties:
  "let db = demo_store\<lparr> pg_tables := demo_catalog\<lparr> t_history :=
         [demo_row 1 1 1 5, demo_row 1 1 2 10, demo_row 2 1 1 5, demo_row 2 1 2 10] \<rparr> \<rparr>;
       f = demo_window\<lparr> cg_Limit := 1 \<rparr>
   in map_sum id (\<lambda>(rows, n). (map ch_ModelID rows, n)) (fst (ListChanges 100 f db)) = Inr ([1, 2], 2) \<and>
      map_sum id (\<lambda>(rows, n). (map ch_ModelID rows, n))
        (fst (ListChanges 100 (f\<lparr> cg_Before := Some 10 \<rparr>) db)) = Inr ([], 0)"
  by code_simp

text \<open>A numeric id beyond the range of the column is an error of the database, not a missing model.\<close>

lemma large_id_fails: "fst (GetModel clock (2 ^ 31) db) = Inl DbConstraint"
  by (simp add: GetModel_def int4_args_def int4_def db_throw_def)

text \<open>A page number whose offset leaves the 64 bits of an \<open>int\<close> fails, too.\<close>

lemma huge_page_fails:
  "fst (ListModels (=) (\<lambda>_. 0) (demo_list\<lparr> lf_Page := 2 ^ 62 + 1 \<rparr>) demo_store) = Inl DbConstraint"
  by code_simp

end
