(* ===== verification/Catalog_Handlers.thy ===== *)
theory Catalog_Handlers
  imports Catalog_Store Problem_Detail "HOL-Library.AList"
begin

text \<open>
  The read endpoints of \<open>internal/api/handlers\<close> and the rationale of
  \<open>internal/intelligence/rationale.go\<close>: a handler maps the query string, as Fiber's \<open>Query\<close> shows it (a
  missing parameter reads as the empty text), and the database to a reply or an error. \<open>formats\<close>
  collects the parts of the standard library that turn floats and times into text and back; a float
  that \<open>encoding/json\<close> refuses is \<open>None\<close>.
\<close>

section \<open>Formatting\<close>

datatype layout = RFC3339 | RFC3339Nano | YearMonth

record formats =
  fm_float :: "f64 \<Rightarrow> string option"
  fm_fixed :: "nat \<Rightarrow> f64 \<Rightarrow> string"
  fm_parse_float :: "string \<Rightarrow> f64 option"
  fm_json_time :: "instant \<Rightarrow> json option"
  fm_format :: "layout \<Rightarrow> instant \<Rightarrow> string"
  fm_parse :: "layout \<Rightarrow> string \<Rightarrow> instant option"
  fm_path_unescape :: "string \<Rightarrow> string"

definition members :: "(string \<times> json option) list \<Rightarrow> json option" where
  "members ms = (if list_all (\<lambda>x. snd x \<noteq> None) ms then Some (JObj (map (\<lambda>(k, v). (k, the v)) ms)) else None)"

definition elements :: "json option list \<Rightarrow> json option" where
  "elements vs = (if list_all (\<lambda>v. v \<noteq> None) vs then Some (JArr (map the vs)) else None)"

definition json_int :: "int \<Rightarrow> json option" where
  "json_int i = Some (JNum (itoa i))"

definition json_float :: "formats \<Rightarrow> f64 \<Rightarrow> json option" where
  "json_float fm x = map_option JNum (fm_float fm x)"

definition json_text :: "string \<Rightarrow> json option" where
  "json_text s = Some (JStr s)"

definition nullable :: "('a \<Rightarrow> json option) \<Rightarrow> 'a option \<Rightarrow> json option" where
  "nullable f x = (case x of None \<Rightarrow> Some JNull | Some v \<Rightarrow> f v)"

text \<open>\<open>omitempty\<close>: a member whose value is empty is left out.\<close>

definition unless :: "bool \<Rightarrow> string \<Rightarrow> json option \<Rightarrow> (string \<times> json option) list" where
  "unless absent k v = (if absent then [] else [(k, v)])"

text \<open>A map with text keys, built by assignments; \<open>encoding/json\<close> writes it in the order of its keys.\<close>

definition assign_all :: "(string \<times> 'a) list \<Rightarrow> (string \<times> 'a) list" where
  "assign_all kvs = foldl (\<lambda>m (k, v). AList.update k v m) [] kvs"

definition json_map :: "('a \<Rightarrow> json option) \<Rightarrow> (string \<times> 'a) list \<Rightarrow> json option" where
  "json_map f m = members (map (\<lambda>(k, v). (k, f v)) (sort_key fst m))"

definition meta_json :: "formats \<Rightarrow> TrustMeta \<Rightarrow> json option" where
  "meta_json fm t = members [(''confirmed_at'', fm_json_time fm (tm_ConfirmedAt t)),
     (''last_verified_at'', fm_json_time fm (tm_LastVerifiedAt t)), (''source'', json_text (tm_Source t)),
     (''confidence'', json_text (tm_Confidence t)), (''age_hours'', json_float fm (tm_AgeHours t)),
     (''change_velocity'', json_float fm (tm_ChangeVelocity t))]"

definition envelope :: "formats \<Rightarrow> json option \<Rightarrow> TrustMeta \<Rightarrow> json option" where
  "envelope fm data meta = members [(''data'', data), (''meta'', meta_json fm meta)]"

definition with_headers :: "(string \<times> string) list \<Rightarrow> response" where
  "with_headers hs = foldl (\<lambda>r (k, v). set_header k v r) new_response hs"

definition api_OK :: "formats \<Rightarrow> (string \<times> string) list \<Rightarrow> json option \<Rightarrow> TrustMeta \<Rightarrow> outcome" where
  "api_OK fm hs data meta =
     (case envelope fm data meta of
        None \<Rightarrow> (Some OtherError, with_headers hs)
      | Some v \<Rightarrow> (None, send_json v (with_headers hs)))"

section \<open>Requests\<close>

type_synonym query = "string \<Rightarrow> string"

definition query_or :: "query \<Rightarrow> string \<Rightarrow> string \<Rightarrow> string" where
  "query_or q k d = (if q k = [] then d else q k)"

definition check :: "'e + 'a \<Rightarrow> ('a \<Rightarrow> 'e + 'b) \<Rightarrow> 'e + 'b" where
  "check r k = (case r of Inl e \<Rightarrow> Inl e | Inr x \<Rightarrow> k x)"

text \<open>An optional parameter: absent, refused with a message, or read.\<close>

definition opt_param :: "query \<Rightarrow> string \<Rightarrow> (string \<Rightarrow> 'a option) \<Rightarrow> ('a \<Rightarrow> bool) \<Rightarrow> string \<Rightarrow> ProblemDetail + 'a option" where
  "opt_param q k parse ok msg =
     (if q k = [] then Inr None
      else case parse (q k) of
             None \<Rightarrow> Inl (NewBadRequest msg)
           | Some v \<Rightarrow> if ok v then Inr (Some v) else Inl (NewBadRequest msg))"

definition time_text :: "string \<Rightarrow> string" where
  "time_text k = k @ '' must be an ISO 8601 timestamp (e.g. 2006-01-02T15:04:05Z)''"

definition time_param :: "formats \<Rightarrow> query \<Rightarrow> string \<Rightarrow> ProblemDetail + instant option" where
  "time_param fm q k = opt_param q k (fm_parse fm RFC3339) (\<lambda>_. True) (time_text k)"

type_synonym handler = "pg \<Rightarrow> outcome \<times> pg"

definition reply :: "outcome \<Rightarrow> handler" where
  "reply out db = (out, db)"

definition refuse :: "ProblemDetail \<Rightarrow> handler" where
  "refuse p = reply (problem p)"

definition with_params :: "ProblemDetail + 'a \<Rightarrow> ('a \<Rightarrow> handler) \<Rightarrow> handler" where
  "with_params r k = (case r of Inl p \<Rightarrow> refuse p | Inr x \<Rightarrow> k x)"

definition ask :: "'a db \<Rightarrow> (db_error \<Rightarrow> handler) \<Rightarrow> ('a \<Rightarrow> handler) \<Rightarrow> handler" where
  "ask m err k db = (case m db of (Inl e, db') \<Rightarrow> err e db' | (Inr x, db') \<Rightarrow> k x db')"

definition internal :: "string \<Rightarrow> db_error \<Rightarrow> handler" where
  "internal msg e = refuse (NewInternalError msg)"

definition or_not_found :: "string \<Rightarrow> string \<Rightarrow> db_error \<Rightarrow> handler" where
  "or_not_found missing msg e = (if e = ErrNotFound then refuse (NewNotFound missing) else internal msg e)"

section \<open>Models and providers\<close>

definition MaxPerPage :: int where "MaxPerPage = 200"

definition model_members :: "formats \<Rightarrow> ModelRow \<Rightarrow> (string \<times> json option) list" where
  "model_members fm r = [(''id'', json_int (md_ID r)), (''provider'', json_text (md_Provider r)),
     (''name'', json_text (md_Name r)), (''slug'', json_text (md_Slug r)), (''modality'', json_text (md_Modality r)),
     (''context_window'', nullable json_int (md_ContextWindow r)), (''price_input'', json_float fm (md_PriceInput r)),
     (''price_output'', json_float fm (md_PriceOutput r)),
     (''underlying_provider'', nullable json_text (md_UnderlyingProvider r)), (''meta'', meta_json fm (md_Meta r))]"

definition newest_meta :: "ModelRow list \<Rightarrow> TrustMeta" where
  "newest_meta models =
     foldl (\<lambda>t m. if tm_ConfirmedAt t < tm_ConfirmedAt (md_Meta m) then md_Meta m else t) zero_meta models"

definition list_params :: "query \<Rightarrow> ProblemDetail + ListModelsFilter" where
  "list_params q =
     (let order = query_or q ''sort'' ''recent'' in
      if order \<noteq> ''recent'' \<and> order \<noteq> ''alpha'' then Inl (NewBadRequest ''sort must be one of: recent, alpha'')
      else
      check (opt_param q ''min_context'' atoi (\<lambda>v. 0 \<le> v) ''min_context must be a non-negative integer'') (\<lambda>c.
      check (opt_param q ''page'' atoi (\<lambda>v. 1 \<le> v) ''page must be a positive integer'') (\<lambda>p.
      check (opt_param q ''per_page'' atoi (\<lambda>v. 1 \<le> v) ''per_page must be a positive integer'') (\<lambda>n.
      if MaxPerPage < coalesce n 50 then Inl (NewBadRequest (''per_page must not exceed '' @ itoa MaxPerPage))
      else Inr \<lparr> lf_Provider = q ''provider'', lf_Modality = q ''modality'', lf_Search = q ''q'', lf_MinContext = c,
                 lf_Page = coalesce p 1, lf_PerPage = coalesce n 50, lf_Sort = order \<rparr>))))"

definition h_ListModels :: "formats \<Rightarrow> (string \<Rightarrow> string \<Rightarrow> bool) \<Rightarrow> (nat \<Rightarrow> instant) \<Rightarrow> query \<Rightarrow> handler" where
  "h_ListModels fm ilike clock q =
     with_params (list_params q) (\<lambda>f.
     ask (ListModels ilike clock f) (internal ''failed to list models'') (\<lambda>(models, total).
     reply (api_OK fm [(''X-Total-Count'', itoa total)]
       (elements (map (\<lambda>m. members (model_members fm m)) models)) (newest_meta models))))"

definition h_GetModel :: "formats \<Rightarrow> (nat \<Rightarrow> instant) \<Rightarrow> string \<Rightarrow> handler" where
  "h_GetModel fm clock idStr =
     (let by_slug = GetModelBySlug clock (fm_path_unescape fm idStr);
          call = (case atoi idStr of Some i \<Rightarrow> if 0 < i then GetModel clock i else by_slug | None \<Rightarrow> by_slug)
      in ask call (or_not_found ''model not found'' ''failed to get model'') (\<lambda>m.
         reply (api_OK fm [] (members (model_members fm m)) (md_Meta m))))"

definition h_ListProviders :: "formats \<Rightarrow> handler" where
  "h_ListProviders fm =
     ask ListProviders (internal ''failed to list providers'') (\<lambda>providers.
     reply (api_OK fm []
       (elements (map (\<lambda>p. members [(''name'', json_text (pv_Name p)), (''model_count'', json_int (pv_ModelCount p))]) providers))
       zero_meta))"

section \<open>Changes\<close>

definition change_members :: "formats \<Rightarrow> ChangeRow \<Rightarrow> (string \<times> json option) list" where
  "change_members fm c = [(''model_id'', json_int (ch_ModelID c)), (''model_slug'', json_text (ch_ModelSlug c)),
     (''provider'', json_text (ch_Provider c)), (''old_input'', json_float fm (ch_OldInput c)),
     (''old_output'', json_float fm (ch_OldOutput c)), (''new_input'', json_float fm (ch_NewInput c)),
     (''new_output'', json_float fm (ch_NewOutput c)), (''confirmed_at'', fm_json_time fm (ch_ConfirmedAt c)),
     (''source'', json_text (ch_Source c))]"

definition parse_before :: "formats \<Rightarrow> string \<Rightarrow> instant option" where
  "parse_before fm raw = (case fm_parse fm RFC3339Nano raw of Some t \<Rightarrow> Some t | None \<Rightarrow> fm_parse fm RFC3339 raw)"

definition changes_params :: "formats \<Rightarrow> query \<Rightarrow> ProblemDetail + ChangesFilter" where
  "changes_params fm q =
     check (time_param fm q ''since'') (\<lambda>since.
     check (opt_param q ''before'' (parse_before fm) (\<lambda>_. True) (time_text ''before'')) (\<lambda>before.
     check (opt_param q ''limit'' atoi (\<lambda>v. 1 \<le> v) ''limit must be a positive integer'') (\<lambda>n.
     if MaxPerPage < coalesce n 50 then Inl (NewBadRequest (''limit must not exceed '' @ itoa MaxPerPage))
     else Inr \<lparr> cg_Since = since, cg_Before = before, cg_Provider = q ''provider'', cg_Limit = coalesce n 50 \<rparr>)))"

definition format_bool :: "bool \<Rightarrow> string" where
  "format_bool b = (if b then ''true'' else ''false'')"

definition h_ListChanges :: "formats \<Rightarrow> instant \<Rightarrow> query \<Rightarrow> handler" where
  "h_ListChanges fm now q =
     with_params (changes_params fm q) (\<lambda>f.
     ask (ListChanges now f) (internal ''failed to list changes'') (\<lambda>(changes, total).
     let hasMore = cg_Limit f < int (length changes);
         shown = (if hasMore then take (nat (cg_Limit f)) changes else changes)
     in reply (api_OK fm
          ([(''X-Total-Count'', itoa total), (''X-Has-More'', format_bool hasMore)] @
           (if shown = [] then [] else [(''X-Next-Cursor'', fm_format fm RFC3339Nano (ch_ConfirmedAt (last shown)))]))
          (elements (map (\<lambda>c. members (change_members fm c)) shown)) zero_meta)))"

definition summary_window :: "instant \<Rightarrow> string \<Rightarrow> ProblemDetail + instant" where
  "summary_window now w =
     (if w = ''24h'' then Inr (now - 24 * hour)
      else if w = ''7d'' then Inr (now - 7 * 24 * hour)
      else if w = ''30d'' then Inr (now - 30 * 24 * hour)
      else Inl (NewBadRequest ''window must be one of: 24h, 7d, 30d''))"

definition summary_params :: "formats \<Rightarrow> instant \<Rightarrow> query \<Rightarrow> ProblemDetail + SummaryFilter" where
  "summary_params fm now q =
     check (summary_window now (query_or q ''window'' ''24h'')) (\<lambda>start.
     check (time_param fm q ''since'') (\<lambda>since.
     Inr \<lparr> sf_Since = Some (coalesce since start), sf_Provider = q ''provider'' \<rparr>))"

definition node_json :: "formats \<Rightarrow> HeatmapModelNode \<Rightarrow> json option" where
  "node_json fm n = members [(''model_id'', json_int (hn_ModelID n)), (''model_slug'', json_text (hn_ModelSlug n)),
     (''change_count'', json_int (hn_ChangeCount n)), (''avg_delta_pct'', json_float fm (hn_AvgDeltaPct n))]"

definition group_json :: "formats \<Rightarrow> HeatmapProviderGroup \<Rightarrow> json option" where
  "group_json fm g = members [(''provider'', json_text (hg_Provider g)), (''total_changes'', json_int (hg_TotalChanges g)),
     (''models'', elements (map (node_json fm) (hg_Models g)))]"

definition mover_json :: "formats \<Rightarrow> TopMover \<Rightarrow> json option" where
  "mover_json fm v = (let c = mv_Change v in
     members [(''model_id'', json_int (ch_ModelID c)), (''model_slug'', json_text (ch_ModelSlug c)),
       (''provider'', json_text (ch_Provider c)), (''delta_pct'', json_float fm (mv_DeltaPct v)),
       (''old_input'', json_float fm (ch_OldInput c)), (''old_output'', json_float fm (ch_OldOutput c)),
       (''new_input'', json_float fm (ch_NewInput c)), (''new_output'', json_float fm (ch_NewOutput c)),
       (''source'', json_text (ch_Source c)), (''confirmed_at'', fm_json_time fm (ch_ConfirmedAt c))])"

definition summary_json :: "formats \<Rightarrow> ChangesSummary \<Rightarrow> json option" where
  "summary_json fm s = members [(''heatmap'', elements (map (group_json fm) (sm_Heatmap s))),
     (''top_movers'', elements (map (mover_json fm) (sm_TopMovers s))),
     (''total_changes'', json_int (sm_TotalChanges s)), (''window'', json_text (sm_Window s))]"

definition h_GetChangesSummary :: "formats \<Rightarrow> (model_key list \<Rightarrow> model_key list) \<Rightarrow> (string list \<Rightarrow> string list) \<Rightarrow>
    (int list \<Rightarrow> int list) \<Rightarrow> instant \<Rightarrow> query \<Rightarrow> handler" where
  "h_GetChangesSummary fm iter_models iter_providers iter_best now q =
     with_params (summary_params fm now q) (\<lambda>f.
     ask (GetChangesSummary iter_models iter_providers iter_best now f) (internal ''failed to get changes summary'') (\<lambda>s.
     reply (api_OK fm [] (summary_json fm
       (s\<lparr> sm_Window := if q ''since'' \<noteq> [] then ''custom'' else query_or q ''window'' ''24h'' \<rparr>)) zero_meta)))"

section \<open>History\<close>

definition history_json :: "formats \<Rightarrow> HistoryRow \<Rightarrow> json option" where
  "history_json fm r = members [(''input_cost_per_token'', json_float fm (hy_InputCostPerToken r)),
     (''output_cost_per_token'', json_float fm (hy_OutputCostPerToken r)), (''source'', json_text (hy_Source r)),
     (''confirmed_at'', fm_json_time fm (hy_ConfirmedAt r)), (''recorded_at'', fm_json_time fm (hy_RecordedAt r)),
     (''underlying_provider'', nullable json_text (hy_UnderlyingProvider r))]"

definition trust_row :: "HistoryRow \<Rightarrow> PriceHistoryRow" where
  "trust_row r = \<lparr> ph_InputCostPerToken = hy_InputCostPerToken r, ph_OutputCostPerToken = hy_OutputCostPerToken r,
     ph_Source = hy_Source r, ph_ConfirmedAt = hy_ConfirmedAt r, ph_RecordedAt = hy_RecordedAt r \<rparr>"

definition history_params :: "formats \<Rightarrow> string \<Rightarrow> query \<Rightarrow> ProblemDetail + int \<times> HistoryFilter" where
  "history_params fm idStr q =
     check (case atoi idStr of
              Some i \<Rightarrow> if i \<le> 0 then Inl (NewBadRequest ''model id must be a positive integer'') else Inr i
            | None \<Rightarrow> Inl (NewBadRequest ''model id must be a positive integer'')) (\<lambda>i.
     check (time_param fm q ''from'') (\<lambda>a.
     check (time_param fm q ''to'') (\<lambda>b.
     if (case (a, b) of (Some x, Some y) \<Rightarrow> y < x | _ \<Rightarrow> False) then Inl (NewBadRequest ''from must be before to'')
     else Inr (i, \<lparr> hf_From = a, hf_To = b \<rparr>))))"

definition h_GetModelHistory :: "formats \<Rightarrow> instant \<Rightarrow> string \<Rightarrow> query \<Rightarrow> handler" where
  "h_GetModelHistory fm now idStr q =
     with_params (history_params fm idStr q) (\<lambda>(i, f).
     ask (ModelExists i) (internal ''failed to look up model'') (\<lambda>exists.
     if \<not> exists then refuse (NewNotFound ''model not found'') else
     ask (store_GetModelHistory i f) (internal ''failed to retrieve price history'') (\<lambda>history.
     let finish = (\<lambda>metaHistory. reply (api_OK fm [] (elements (map (history_json fm) history))
                    (ComputeTrustMeta (map trust_row metaHistory) None now)))
     in if hf_From f \<noteq> None \<or> hf_To f \<noteq> None
        then ask (store_GetModelHistory i \<lparr> hf_From = None, hf_To = None \<rparr>) (\<lambda>_. finish history) finish
        else finish history)))"

end
