(* ===== verification/Recommender.thy ===== *)
theory Recommender
  imports Catalog_Handlers Go_Sort
begin

text \<open>
  The comparison and recommendation endpoints, \<open>compare.go\<close> and \<open>recommend.go\<close>, with the rationale of
  \<open>internal/intelligence/rationale.go\<close>. The order in which \<open>ScoreModel\<close> ranges over the weights of
  the i-th model is a parameter, \<open>dims i\<close>.
\<close>

section \<open>Use cases and priorities as text\<close>

fun use_case_text :: "UseCase \<Rightarrow> string" where
  "use_case_text UseCaseFinance = ''finance''"
| "use_case_text UseCaseCoding = ''coding''"
| "use_case_text UseCaseAgentic = ''agentic''"
| "use_case_text UseCaseWriting = ''writing''"
| "use_case_text UseCaseVideo = ''video''"
| "use_case_text UseCaseReasoning = ''reasoning''"
| "use_case_text UseCaseGeneral = ''general''"
| "use_case_text (UseCaseOther s) = s"

definition use_case :: "string \<Rightarrow> UseCase" where
  "use_case s = (case find (\<lambda>u. use_case_text u = s) [UseCaseFinance, UseCaseCoding, UseCaseAgentic, UseCaseWriting,
     UseCaseVideo, UseCaseReasoning, UseCaseGeneral] of Some u \<Rightarrow> u | None \<Rightarrow> UseCaseOther s)"

definition priority :: "string \<Rightarrow> Priority" where
  "priority s = (if s = ''quality'' then PriorityQuality else if s = ''cost'' then PriorityCost
     else if s = ''speed'' then PrioritySpeed else if s = ''balanced'' then PriorityBalanced else PriorityOther s)"

section \<open>The rationale\<close>

record BenchmarkCitation =
  bc_Name :: string
  bc_Score :: f64
  bc_SourceURL :: string
  bc_Confidence :: string
  bc_EvaluatedAt :: instant

definition valid_scores :: "CapabilityScore list \<Rightarrow> (string \<times> f64 \<times> string) list" where
  "valid_scores capScores = concat (map (\<lambda>cs. case cs_Score cs of None \<Rightarrow> []
     | Some x \<Rightarrow> [(cs_Dimension cs, x, cs_Confidence cs)]) capScores)"

text \<open>A dimension without a weight weighs zero. There are at most thirteen dimensions.\<close>

definition weighted_more :: "(string \<rightharpoonup> f64) \<Rightarrow> string \<times> f64 \<times> string \<Rightarrow> string \<times> f64 \<times> string \<Rightarrow> bool" where
  "weighted_more weights a b =
     f64_lt (f64_mul (fst (snd b)) (go_get (Fin 0) weights (fst b))) (f64_mul (fst (snd a)) (go_get (Fin 0) weights (fst a)))"

definition no_data_text :: string where
  "no_data_text = ''No benchmark data available; ranked by price.''"

definition GenerateRationale :: "formats \<Rightarrow> CapabilityScore list \<Rightarrow> BenchmarkCitation list \<Rightarrow> UseCase \<Rightarrow> Priority \<Rightarrow> string" where
  "GenerateRationale fm capScores citations uc pri =
     (if capScores = [] then no_data_text else
      case insertion_sort (weighted_more (dimensionWeights uc pri)) (valid_scores capScores) of
        [] \<Rightarrow> no_data_text
      | (dim1, score1, conf1) # rest \<Rightarrow>
          ''Ranks highly for '' @ use_case_text uc @ '' tasks based on '' @ dim1 @ '' score of '' @ fm_fixed fm 1 score1 @
          '' (confidence: '' @ conf1 @ '').'' @
          (case rest of [] \<Rightarrow> [] | (dim2, score2, _) # _ \<Rightarrow>
             '' Also strong in '' @ dim2 @ '' ('' @ fm_fixed fm 1 score2 @ '').'') @
          (case citations of [] \<Rightarrow> [] | c # _ \<Rightarrow>
             '' Benchmark: '' @ bc_Name c @ '' ('' @ fm_fixed fm 1 (bc_Score c) @ '', '' @ bc_SourceURL c @ '', '' @
             fm_format fm YearMonth (bc_EvaluatedAt c) @ '').''))"

section \<open>Capability data of a model\<close>

definition dim_scores :: "CapabilityScore list \<Rightarrow> (string \<times> f64) list" where
  "dim_scores caps = assign_all (concat (map (\<lambda>c. case cs_Score c of None \<Rightarrow> [] | Some x \<Rightarrow> [(cs_Dimension c, x)]) caps))"

definition dim_freshness :: "CapabilityScore list \<Rightarrow> (string \<times> string) list" where
  "dim_freshness caps = assign_all (concat (map (\<lambda>c. if cs_Freshness c = [] then [] else [(cs_Dimension c, cs_Freshness c)]) caps))"

definition capability_members :: "formats \<Rightarrow> (string \<times> f64) list \<Rightarrow> (string \<times> string) list \<Rightarrow> string \<Rightarrow> (string \<times> json option) list" where
  "capability_members fm scores freshness rationale =
     unless (scores = []) ''scores'' (json_map (json_float fm) scores) @
     unless (freshness = []) ''freshness'' (json_map json_text freshness) @
     unless (rationale = []) ''rationale'' (json_text rationale)"

definition items_json :: "json option list \<Rightarrow> string list \<Rightarrow> json option" where
  "items_json items warnings = members ([(''items'', elements items)] @
     unless (warnings = []) ''warnings'' (elements (map json_text warnings)))"

text \<open>A dimension is covered when some model has two benchmarks for it.\<close>

definition coverage_warnings :: "UseCase \<Rightarrow> CapabilityScore list list \<Rightarrow> string list" where
  "coverage_warnings uc capss =
     concat (map (\<lambda>dm. if list_ex (list_ex (\<lambda>c. cs_Dimension c = dm \<and> 2 \<le> cs_BenchmarkCount c)) capss then []
       else [''Limited benchmark coverage for '' @ dm]) (PrimaryDimensions uc))"

section \<open>Comparing models\<close>

definition maxCompareModels :: nat where "maxCompareModels = 5"

definition compare_slugs :: "string list \<Rightarrow> string list" where
  "compare_slugs parts =
     foldl (\<lambda>acc part. let p = trim_space part in if p = [] \<or> p \<in> set acc then acc else acc @ [p]) [] parts"

definition compare_params :: "query \<Rightarrow> ProblemDetail + string list" where
  "compare_params q =
     (let rawModels = q ''models''; parts = split_byte (CHR '','') rawModels; slugs = compare_slugs parts in
      if rawModels = [] then Inl (NewBadRequest ''models query parameter is required'')
      else if maxCompareModels < length parts then Inl (NewBadRequest ''compare supports at most 5 models'')
      else if slugs = [] then Inl (NewBadRequest ''at least one model slug is required'')
      else Inr slugs)"

definition int_ids :: "string list \<Rightarrow> int list" where
  "int_ids slugs = concat (map (\<lambda>s. case atoi s of Some i \<Rightarrow> [i] | None \<Rightarrow> []) slugs)"

definition str_slugs :: "string list \<Rightarrow> string list" where
  "str_slugs slugs = filter (\<lambda>s. atoi s = None) slugs"

definition compare_fails :: "string \<Rightarrow> db_error \<Rightarrow> handler" where
  "compare_fails what = or_not_found (''one or more model '' @ what @ '' were not found'') ''failed to compare models''"

definition resolve_models :: "(nat \<Rightarrow> instant) \<Rightarrow> string list \<Rightarrow> (ModelRow list \<Rightarrow> handler) \<Rightarrow> handler" where
  "resolve_models clock slugs k =
     (let ids = int_ids slugs; names = str_slugs slugs in
      if ids \<noteq> [] \<and> names = [] then ask (CompareModels clock ids) (compare_fails ''IDs'') k
      else if ids = [] then ask (CompareModelsBySlugs clock names) (compare_fails ''slugs'') k
      else ask (CompareModelsBySlugs clock names) (compare_fails ''slugs'') (\<lambda>slugModels.
           ask (CompareModels clock ids) (compare_fails ''IDs'') (\<lambda>idModels. k (slugModels @ idModels))))"

definition use_case_param :: "query \<Rightarrow> ProblemDetail + UseCase option" where
  "use_case_param q = opt_param q ''use_case'' (\<lambda>s. Some (use_case s)) ValidUseCases
     ''use_case must be one of: finance, coding, agentic, writing, video, reasoning, general''"

definition compare_item :: "formats \<Rightarrow> UseCase option \<Rightarrow> ModelRow \<Rightarrow> CapabilityScore list \<Rightarrow> json option" where
  "compare_item fm uc m caps = members (model_members fm m @
     capability_members fm (dim_scores caps) (dim_freshness caps)
       (case uc of None \<Rightarrow> [] | Some u \<Rightarrow> GenerateRationale fm caps [] u PriorityBalanced))"

definition compare_reply :: "formats \<Rightarrow> query \<Rightarrow> ModelRow list \<Rightarrow> (int \<rightharpoonup> CapabilityScore list) \<Rightarrow> handler" where
  "compare_reply fm q models capMap =
     with_params (use_case_param q) (\<lambda>uc.
     let caps = (\<lambda>m. go_get [] capMap (md_ID m));
         warnings = (case uc of None \<Rightarrow> [] | Some u \<Rightarrow> coverage_warnings u (map caps models))
     in reply (api_OK fm [] (items_json (map (\<lambda>m. compare_item fm uc m (caps m)) models) warnings) (newest_meta models)))"

definition h_Compare :: "formats \<Rightarrow> (nat \<Rightarrow> instant) \<Rightarrow> query \<Rightarrow> handler" where
  "h_Compare fm clock q =
     with_params (compare_params q) (\<lambda>slugs.
     resolve_models clock slugs (\<lambda>models.
     ask (GetCapabilityScoresForModels (map md_ID models)) (\<lambda>_. compare_reply fm q models Map.empty)
       (compare_reply fm q models)))"

section \<open>Recommending models\<close>

definition minCapabilityScore :: f64 where "minCapabilityScore = Fin 50"

definition taskModalityMap :: "(string \<times> string) list" where
  "taskModalityMap = [(''summarisation'', ''text''), (''summarization'', ''text''), (''text'', ''text''),
     (''classification'', ''text''), (''generation'', ''text''), (''coding'', ''text''), (''code'', ''text''),
     (''vision'', ''multimodal''), (''multimodal'', ''multimodal''), (''image'', ''image''), (''audio'', ''audio''),
     (''embedding'', ''embedding''), (''embeddings'', ''embedding'')]"

definition recommend_params :: "formats \<Rightarrow> query \<Rightarrow> ProblemDetail + RecommendFilter" where
  "recommend_params fm q =
     check (opt_param q ''context'' atoi (\<lambda>v. 0 \<le> v) ''context must be a non-negative integer'') (\<lambda>c.
     check (opt_param q ''max_price_input'' (fm_parse_float fm) (\<lambda>v. \<not> f64_lt v (Fin 0))
       ''max_price_input must be a non-negative number'') (\<lambda>x.
     check (use_case_param q) (\<lambda>_.
     check (opt_param q ''priority'' (\<lambda>s. Some (priority s)) ValidPriorities
       ''priority must be one of: quality, cost, speed, balanced'') (\<lambda>_.
     check (opt_param q ''top_k'' atoi (\<lambda>v. 1 \<le> v \<and> v \<le> 20) ''top_k must be an integer between 1 and 20'') (\<lambda>k.
     Inr \<lparr> rf_Task = q ''task'', rf_ContextSize = c, rf_MaxPriceInput = x, rf_UseCase = q ''use_case'',
           rf_Priority = q ''priority'', rf_RequiresTools = (q ''requires_tools'' = ''true''),
           rf_RequiresStructuredOutput = (q ''requires_structured_output'' = ''true''), rf_TopK = coalesce k 5 \<rparr>)))))"

definition of_modality :: "string option \<Rightarrow> ModelRow list \<Rightarrow> ModelRow list" where
  "of_modality m models = (case m of None \<Rightarrow> models | Some x \<Rightarrow> filter (\<lambda>r. md_Modality r = x) models)"

definition recommendPriceBased :: "formats \<Rightarrow> ModelRow list \<Rightarrow> handler" where
  "recommendPriceBased fm models =
     reply (api_OK fm [] (elements (map (\<lambda>m. members (model_members fm m)) models)) (newest_meta models))"

record scored =
  sc_row :: ModelRow
  sc_cs :: f64
  sc_scores :: "(string \<times> f64) list"
  sc_freshness :: "(string \<times> string) list"
  sc_caps :: "CapabilityScore list"

definition score_models :: "(nat \<Rightarrow> string list) \<Rightarrow> UseCase \<Rightarrow> Priority \<Rightarrow> (int \<rightharpoonup> CapabilityScore list) \<Rightarrow> ModelRow list \<Rightarrow> scored list" where
  "score_models dims uc pri capMap models = map (\<lambda>(i, m). let caps = go_get [] capMap (md_ID m) in
     \<lparr> sc_row = m, sc_cs = ScoreModel (dims i) uc pri caps, sc_scores = dim_scores caps,
       sc_freshness = dim_freshness caps, sc_caps = caps \<rparr>) (enumerate 0 models)"

definition score_epsilon :: f64 where "score_epsilon = round64 (1 / 10 ^ 9)"

definition has_score :: "scored \<Rightarrow> bool" where
  "has_score s = f64_lt score_epsilon (sc_cs s)"

definition ranked_before :: "scored \<Rightarrow> scored \<Rightarrow> bool" where
  "ranked_before a b =
     (if has_score a \<noteq> has_score b then has_score a
      else if has_score a then
        (if f64_lt score_epsilon (f64_abs (f64_sub (sc_cs a) (sc_cs b))) then f64_lt (sc_cs b) (sc_cs a)
         else f64_lt (md_PriceInput (sc_row a)) (md_PriceInput (sc_row b)))
      else if md_ConfirmedAt (sc_row a) \<noteq> md_ConfirmedAt (sc_row b)
        then md_ConfirmedAt (sc_row b) < md_ConfirmedAt (sc_row a)
      else f64_lt (md_PriceInput (sc_row a)) (md_PriceInput (sc_row b)))"

text \<open>A requirement that no candidate meets is dropped with a warning.\<close>

definition require :: "bool \<Rightarrow> string \<Rightarrow> string \<Rightarrow> scored list \<times> string list \<Rightarrow> scored list \<times> string list" where
  "require wanted dm name st =
     (if \<not> wanted then st else
      let f = filter (\<lambda>s. f64_le minCapabilityScore (coalesce (map_of (sc_scores s) dm) (Fin 0))) (fst st) in
      if f = [] then (fst st, snd st @ [''No models met the '' @ name @ '' threshold; showing all candidates''])
      else (f, snd st))"

definition candidates_of :: "RecommendFilter \<Rightarrow> scored list \<Rightarrow> scored list \<times> string list" where
  "candidates_of f scored =
     require (rf_RequiresStructuredOutput f) ''structured_output'' ''requires_structured_output''
       (require (rf_RequiresTools f) ''tool_use'' ''requires_tools'' (slice_stable ranked_before scored, []))"

definition top_k :: "RecommendFilter \<Rightarrow> nat" where
  "top_k f = nat (if rf_TopK f \<le> 0 then 5 else rf_TopK f)"

definition recommend_item :: "formats \<Rightarrow> UseCase \<Rightarrow> Priority \<Rightarrow> scored \<Rightarrow> json option" where
  "recommend_item fm uc pri s = members (model_members fm (sc_row s) @
     capability_members fm (sc_scores s) (sc_freshness s) (GenerateRationale fm (sc_caps s) [] uc pri) @
     unless (\<not> f64_eq (sc_cs s) (Fin 0)) ''fallback'' (Some (JBool True)))"

definition recommended_items :: "RecommendFilter \<Rightarrow> scored list \<Rightarrow> scored list" where
  "recommended_items f scored = take (top_k f) (fst (candidates_of f scored))"

definition recommendCapabilityBased :: "formats \<Rightarrow> (nat \<Rightarrow> string list) \<Rightarrow> ModelRow list \<Rightarrow> RecommendFilter \<Rightarrow> handler" where
  "recommendCapabilityBased fm dims models f =
     (let uc = use_case (rf_UseCase f); pri = (if rf_Priority f = [] then PriorityBalanced else priority (rf_Priority f)) in
      ask (GetCapabilityScoresForModels (map md_ID models)) (internal ''failed to retrieve capability scores'') (\<lambda>capMap.
      let scored = score_models dims uc pri capMap models;
          items = recommended_items f scored;
          warnings = snd (candidates_of f scored) @ coverage_warnings uc (map sc_caps (fst (candidates_of f scored)))
      in reply (api_OK fm [] (items_json (map (recommend_item fm uc pri) items) warnings) (newest_meta (map sc_row items)))))"

definition h_Recommend :: "formats \<Rightarrow> (nat \<Rightarrow> instant) \<Rightarrow> (nat \<Rightarrow> string list) \<Rightarrow> query \<Rightarrow> handler" where
  "h_Recommend fm clock dims q =
     with_params (recommend_params fm q) (\<lambda>f.
     ask (RecommendModels clock f) (internal ''failed to retrieve model recommendations'') (\<lambda>models.
     let models = of_modality (map_of taskModalityMap (rf_Task f)) models in
     if rf_UseCase f = [] then recommendPriceBased fm models
     else recommendCapabilityBased fm dims (of_modality (map_of useCaseModalityMap (rf_UseCase f)) models) f))"

end
