(* ===== verification/Context_Snapshot.thy ===== *)
theory Context_Snapshot
  imports Catalog_Handlers
begin

text \<open>
  The pricing snapshot for agent prompts, \<open>context.go\<close>: the list is trimmed from its end until the
  serialised envelope fits the token budget.
\<close>

definition contextMaxTokens :: nat where "contextMaxTokens = 2100"
definition contextMaxModels :: int where "contextMaxModels = 50"

definition context_item :: "formats \<Rightarrow> ContextModelRow \<Rightarrow> json option" where
  "context_item fm r = members [(''id'', json_int (cx_ID r)), (''provider'', json_text (cx_Provider r)),
     (''slug'', json_text (cx_Slug r)), (''price_input'', json_float fm (cx_PriceInput r)),
     (''price_output'', json_float fm (cx_PriceOutput r)), (''confidence'', json_text (cx_Confidence r)),
     (''confirmed_at'', fm_json_time fm (cx_ConfirmedAt r))]"

definition contextResponse :: "formats \<Rightarrow> ContextModelRow list \<Rightarrow> nat \<Rightarrow> json option" where
  "contextResponse fm items tokenCount = members [(''models'', elements (map (context_item fm) items)),
     (''token_count'', json_int (int tokenCount)), (''model_count'', json_int (int (length items)))]"

definition estimateTokens :: "string \<Rightarrow> nat" where
  "estimateTokens jsonBytes = (length jsonBytes + 3) div 4"

definition context_bytes :: "formats \<Rightarrow> ContextModelRow list \<Rightarrow> nat \<Rightarrow> string option" where
  "context_bytes fm items tokenCount = map_option json_print (envelope fm (contextResponse fm items tokenCount) zero_meta)"

function trim_items :: "formats \<Rightarrow> ContextModelRow list \<Rightarrow> ContextModelRow list option" where
  "trim_items fm items =
     (if items = [] then Some []
      else case context_bytes fm items contextMaxTokens of
             None \<Rightarrow> None
           | Some b \<Rightarrow> if estimateTokens b \<le> contextMaxTokens then Some items else trim_items fm (butlast items))"
  by pat_completeness auto
termination by (relation "measure (\<lambda>(_, items). length items)") auto

declare trim_items.simps [simp del]

definition newline :: string where "newline = [CHR 0x0A]"

definition markdown_row :: "formats \<Rightarrow> ContextModelRow \<Rightarrow> string" where
  "markdown_row fm r = ''| '' @ cx_Slug r @ '' | '' @ cx_Provider r @ '' | '' @
     fm_fixed fm 4 (f64_mul (cx_PriceInput r) (f64_of_int 1000000)) @ '' | '' @
     fm_fixed fm 4 (f64_mul (cx_PriceOutput r) (f64_of_int 1000000)) @ '' | '' @ cx_Confidence r @ '' |'' @ newline"

definition buildContextMarkdown :: "formats \<Rightarrow> ContextModelRow list \<Rightarrow> string" where
  "buildContextMarkdown fm items =
     ''| Model | Provider | Input $/1M | Output $/1M | Confidence |'' @ newline @
     ''|-------|----------|-----------|-------------|------------|'' @ newline @
     concat (map (markdown_row fm) items)"

definition markdown_reply :: "formats \<Rightarrow> ContextModelRow list \<Rightarrow> outcome" where
  "markdown_reply fm items =
     (let md = buildContextMarkdown fm items;
          header = ''> Models: '' @ itoa (int (length items)) @ '' | Estimated tokens: '' @
            itoa (int (estimateTokens md)) @ newline @ newline
      in (None, set_header ''Content-Type'' ''text/markdown; charset=utf-8'' new_response\<lparr> rs_Body := header @ md \<rparr>))"

definition context_reply :: "formats \<Rightarrow> ContextModelRow list \<Rightarrow> outcome" where
  "context_reply fm items =
     (case context_bytes fm items 0 of
        None \<Rightarrow> problem (NewInternalError ''failed to serialise context response'')
      | Some b \<Rightarrow> api_OK fm [] (contextResponse fm items (estimateTokens b)) zero_meta)"

definition h_GetContext :: "formats \<Rightarrow> query \<Rightarrow> handler" where
  "h_GetContext fm q =
     ask (ListModelsForContext contextMaxModels) (internal ''failed to retrieve pricing context'') (\<lambda>rows.
     case trim_items fm rows of
       None \<Rightarrow> refuse (NewInternalError ''failed to serialise context response'')
     | Some items \<Rightarrow> reply (if q ''format'' = ''markdown'' then markdown_reply fm items else context_reply fm items))"

end
