(* ===== verification/Ask.thy ===== *)
theory Ask
  imports Recommender Go_Regex Web_Page
begin

text \<open>
  The question endpoint of \<open>internal/api/handlers/ask.go\<close> with the aliases of \<open>aliases.go\<close>: the cascade of
  expressions that finds what is asked, the parameters read from the question, and the reply. The
  body's \<open>query\<close> is an argument, as are the orders in which Go ranges over the aliases and the
  time the handler took.
\<close>

section \<open>Aliases\<close>

definition ModelAliases :: "(string \<times> string) list" where
  "ModelAliases = [
     (''gpt4'', ''openai/gpt-4''),
     (''gpt-4'', ''openai/gpt-4''),
     (''gpt4o'', ''openai/gpt-4o''),
     (''gpt-4o'', ''openai/gpt-4o''),
     (''gpt4o mini'', ''openai/gpt-4o-mini''),
     (''gpt-4o mini'', ''openai/gpt-4o-mini''),
     (''gpt4o-mini'', ''openai/gpt-4o-mini''),
     (''gpt-4o-mini'', ''openai/gpt-4o-mini''),
     (''gpt4 turbo'', ''openai/gpt-4-turbo''),
     (''gpt-4 turbo'', ''openai/gpt-4-turbo''),
     (''o1'', ''openai/o1''),
     (''o1 mini'', ''openai/o1-mini''),
     (''o3 mini'', ''openai/o3-mini''),
     (''openai'', ''openai/gpt-4o''),
     (''claude'', ''anthropic/claude-3-5-sonnet-20241022''),
     (''claude sonnet'', ''anthropic/claude-3-5-sonnet-20241022''),
     (''claude 3.5 sonnet'', ''anthropic/claude-3-5-sonnet-20241022''),
     (''claude-3.5-sonnet'', ''anthropic/claude-3-5-sonnet-20241022''),
     (''claude opus'', ''anthropic/claude-3-opus-20240229''),
     (''claude 3 opus'', ''anthropic/claude-3-opus-20240229''),
     (''claude-3-opus'', ''anthropic/claude-3-opus-20240229''),
     (''claude haiku'', ''anthropic/claude-3-haiku-20240307''),
     (''claude 3 haiku'', ''anthropic/claude-3-haiku-20240307''),
     (''claude-3-haiku'', ''anthropic/claude-3-haiku-20240307''),
     (''claude 3.5 haiku'', ''anthropic/claude-3-5-haiku-20241022''),
     (''claude-3.5-haiku'', ''anthropic/claude-3-5-haiku-20241022''),
     (''anthropic'', ''anthropic/claude-3-5-sonnet-20241022''),
     (''gemini'', ''google/gemini-pro-1.5''),
     (''gemini pro'', ''google/gemini-pro-1.5''),
     (''gemini 1.5 pro'', ''google/gemini-pro-1.5''),
     (''gemini flash'', ''google/gemini-flash-1.5''),
     (''gemini 1.5 flash'', ''google/gemini-flash-1.5''),
     (''gemini 2.0 flash'', ''google/gemini-2.0-flash-001''),
     (''gemini ultra'', ''google/gemini-ultra''),
     (''google'', ''google/gemini-pro-1.5''),
     (''llama'', ''meta-llama/llama-3.1-70b-instruct''),
     (''llama 3'', ''meta-llama/llama-3.1-70b-instruct''),
     (''llama 3.1'', ''meta-llama/llama-3.1-70b-instruct''),
     (''llama 3.1 70b'', ''meta-llama/llama-3.1-70b-instruct''),
     (''llama 3.1 8b'', ''meta-llama/llama-3.1-8b-instruct''),
     (''mistral'', ''mistralai/mistral-7b-instruct''),
     (''mistral 7b'', ''mistralai/mistral-7b-instruct''),
     (''mixtral'', ''mistralai/mixtral-8x7b-instruct''),
     (''mistral large'', ''mistralai/mistral-large''),
     (''mistral small'', ''mistralai/mistral-small''),
     (''deepseek'', ''deepseek/deepseek-chat''),
     (''deepseek chat'', ''deepseek/deepseek-chat''),
     (''deepseek coder'', ''deepseek/deepseek-coder''),
     (''deepseek r1'', ''deepseek/deepseek-r1'')]"

section \<open>Intents\<close>

definition askMaxQueryLength :: nat where "askMaxQueryLength = 500"

definition AskParserVersion :: string where "AskParserVersion = ''rule-v1''"

definition IntentPrice :: string where "IntentPrice = ''price''"
definition IntentCompare :: string where "IntentCompare = ''compare''"
definition IntentHistory :: string where "IntentHistory = ''history''"
definition IntentRecommend :: string where "IntentRecommend = ''recommend''"

text \<open>A text between word boundaries, and one with an optional tail.\<close>

definition word :: "string \<Rightarrow> regex" where
  "word t = Cat [WordB, Txt t, WordB]"

definition word_opt :: "string \<Rightarrow> regex list \<Rightarrow> regex" where
  "word_opt t rs = Cat ([WordB, Txt t] @ rs @ [WordB])"

definition comparePatterns :: "regex list" where
  "comparePatterns = [word_opt ''vs'' [Opt (Txt ''.'')], word ''versus'', word ''compare'',
     word ''difference between'', word ''compared to'']"

text \<open>\<open>(?:s|ed)?\<close> between word boundaries: the two tails are one after the other.\<close>

definition recommendPatterns :: "regex list" where
  "recommendPatterns = [word ''cheapest'', word ''cheap'', word ''recommend'',
     word_opt ''suggest'' [Opt (Txt ''s'')], word ''suggested'',
     word ''best model'', word ''most affordable'', Cat [WordB, Txt ''under '', Opt (Txt ''$''), Cls is_digit],
     word ''best for'', word ''optimal'']"

definition historyPatterns :: "regex list" where
  "historyPatterns = [word ''history'', word ''historical'', word ''changed'', word ''trend'',
     word_opt ''price drop'' [Opt (Txt ''s'')], word ''went up'', word ''over time'', word ''last month'',
     word ''last week'', word_opt ''past '' [Run 1 is_digit, Txt '' day'', Opt (Txt ''s'')]]"

definition pricePatterns :: "regex list" where
  "pricePatterns = [word ''cost of'', word ''price of'', word ''pricing for'', word ''how much'',
     word_opt ''what does '' [Run 1 not_newline, Txt '' cost''], word_opt ''what is '' [Run 1 not_newline, Txt '' price''],
     word_opt ''cost'' [Opt (Txt ''s'')], word ''priced at'']"

definition priceConstraintRe :: regex where
  "priceConstraintRe = Cat [Txt ''under '', Opt (Txt ''$''),
     Grp (Cat [Run 1 is_digit, Opt (Cat [Txt ''.'', Run 1 is_digit])])]"

definition contextWindowRe :: regex where
  "contextWindowRe = Cat [Grp (Run 1 is_digit), Txt ''k'', WordB,
     Opt (Cat [Run 1 regex_space, Txt ''token'', Opt (Txt ''s'')])]"

definition timeDaysRe :: regex where
  "timeDaysRe = Cat [Txt ''past '', Grp (Run 1 is_digit), Txt '' day'', Opt (Txt ''s'')]"

definition first_group :: "regex \<Rightarrow> string \<Rightarrow> string option" where
  "first_group r s = (case FindSubmatch r s of Some (g # _) \<Rightarrow> Some g | _ \<Rightarrow> None)"

section \<open>Parameters\<close>

datatype param = PText string | PTexts "string list" | PFloat f64 | PInt int

type_synonym params = "(string \<times> param) list"

definition set_param :: "string \<Rightarrow> param option \<Rightarrow> params \<Rightarrow> params" where
  "set_param k v ps = (case v of None \<Rightarrow> ps | Some x \<Rightarrow> AList.update k x ps)"

text \<open>\<open>aliases\<close> is the table in the order of the run; a later alias replaces a strictly shorter one.\<close>

definition longer_alias :: "string \<Rightarrow> string \<times> nat \<Rightarrow> string \<times> string \<Rightarrow> string \<times> nat" where
  "longer_alias asked best entry =
     (if contains asked (fst entry) \<and> snd best < length (fst entry) then (snd entry, length (fst entry)) else best)"

definition resolveAlias :: "(string \<times> string) list \<Rightarrow> string \<Rightarrow> string" where
  "resolveAlias aliases asked = fst (foldl (longer_alias asked) ([], 0) aliases)"

definition alias_param :: "(string \<times> string) list \<Rightarrow> string \<Rightarrow> param option" where
  "alias_param aliases asked = (if resolveAlias aliases asked = [] then None else Some (PText (resolveAlias aliases asked)))"

definition extractPriceParams :: "(string \<times> string) list \<Rightarrow> string \<Rightarrow> params" where
  "extractPriceParams aliases asked = set_param ''model'' (alias_param aliases asked) []"

definition superseded :: "string \<Rightarrow> string \<Rightarrow> bool" where
  "superseded asked a = list_ex (\<lambda>(b, _). length a < length b \<and> contains b a \<and> contains asked b) ModelAliases"

definition add_compared :: "string \<Rightarrow> string list \<Rightarrow> string \<times> string \<Rightarrow> string list" where
  "add_compared asked models entry =
     (if \<not> contains asked (fst entry) \<or> superseded asked (fst entry) \<or> snd entry \<in> set models then models
      else models @ [snd entry])"

definition compared_models :: "(string \<times> string) list \<Rightarrow> string \<Rightarrow> string list" where
  "compared_models aliases asked = sort (foldl (add_compared asked) [] aliases)"

definition extractCompareParams :: "(string \<times> string) list \<Rightarrow> string \<Rightarrow> params" where
  "extractCompareParams aliases asked = (let models = compared_models aliases asked in
     set_param ''models'' (if models = [] then None else Some (PTexts models)) [])"

definition taskKeywords :: "string list" where
  "taskKeywords = [''summariz'', ''summaris'', ''classification'', ''generation'', ''vision'', ''multimodal'',
     ''image'', ''audio'', ''embedding'', ''text'', ''coding'', ''code'', ''analysis'']"

definition task_of_keyword :: "string \<Rightarrow> string" where
  "task_of_keyword kw =
     (if has_prefix kw ''summariz'' \<or> has_prefix kw ''summaris'' then ''summarization''
      else if kw = ''coding'' \<or> kw = ''code'' then ''coding'' else kw)"

definition useCaseKeywords :: "(string \<times> string) list" where
  "useCaseKeywords = [(''finance'', ''finance''), (''financial'', ''finance''), (''banking'', ''finance''),
     (''investment'', ''finance''), (''coding'', ''coding''), (''code'', ''coding''), (''programming'',
     ''coding''), (''developer'', ''coding''), (''agentic'', ''agentic''), (''ai agent'', ''agentic''),
     (''tool use'', ''agentic''), (''function calling'', ''agentic''), (''writing code'', ''coding''),
     (''writing'', ''writing''), (''copywriting'', ''writing''), (''content creation'', ''writing''),
     (''video'', ''video''), (''video analysis'', ''video''), (''reasoning'', ''reasoning''), (''logic'',
     ''reasoning''), (''math'', ''reasoning''), (''mathematics'', ''reasoning''), (''general'',
     ''general''), (''general purpose'', ''general'')]"

text \<open>Longest first, and those of one length in their order.\<close>

definition useCaseKeywordOrder :: "string list" where
  "useCaseKeywordOrder = sort_key (\<lambda>kw. - int (length kw)) (sort (map fst useCaseKeywords))"

definition extractRecommendParams :: "(string \<times> string) list \<Rightarrow> string \<Rightarrow> params" where
  "extractRecommendParams aliases asked =
     set_param ''preferred_model'' (alias_param aliases asked)
    (set_param ''use_case'' (Option.bind (find (contains asked) useCaseKeywordOrder)
       (\<lambda>kw. map_option PText (map_of useCaseKeywords kw)))
    (set_param ''task'' (map_option (PText \<circ> task_of_keyword) (find (contains asked) taskKeywords))
    (set_param ''context_window'' (map_option (\<lambda>v. PInt (wrap64 (v * 1000))) (Option.bind (first_group contextWindowRe asked) atoi))
    (set_param ''max_price'' (map_option PFloat (Option.bind (first_group priceConstraintRe asked) ParseFloat)) []))))"

definition days_param :: "string \<Rightarrow> param option" where
  "days_param asked =
     (if contains asked ''this week'' \<or> contains asked ''last week'' then Some (PInt 7)
      else if contains asked ''this month'' \<or> contains asked ''last month'' then Some (PInt 30)
      else if contains asked ''this year'' \<or> contains asked ''last year'' then Some (PInt 365)
      else map_option PInt (Option.bind (first_group timeDaysRe asked) atoi))"

definition extractHistoryParams :: "(string \<times> string) list \<Rightarrow> string \<Rightarrow> params" where
  "extractHistoryParams aliases asked =
     set_param ''days'' (days_param asked) (set_param ''model'' (alias_param aliases asked) [])"

definition matches_any :: "regex list \<Rightarrow> string \<Rightarrow> bool" where
  "matches_any rs asked = list_ex (\<lambda>r. MatchString r asked) rs"

definition parseIntent :: "(string \<times> string) list \<Rightarrow> string \<Rightarrow> string \<times> params" where
  "parseIntent aliases asked =
     (if matches_any comparePatterns asked then (IntentCompare, extractCompareParams aliases asked)
      else if matches_any recommendPatterns asked then (IntentRecommend, extractRecommendParams aliases asked)
      else if matches_any historyPatterns asked then (IntentHistory, extractHistoryParams aliases asked)
      else if matches_any pricePatterns asked then (IntentPrice, extractPriceParams aliases asked)
      else ([], []))"

section \<open>Summaries\<close>

definition text_param :: "params \<Rightarrow> string \<Rightarrow> string" where
  "text_param ps k = (case map_of ps k of Some (PText s) \<Rightarrow> s | _ \<Rightarrow> [])"

definition buildPriceSummary :: "string \<Rightarrow> string" where
  "buildPriceSummary model =
     (if model = [] then ''Use the inferred_params to look up pricing for the model in question.''
      else ''Check the current pricing for '' @ model @ '' via GET /v1/models with a provider filter.'')"

definition buildCompareSummary :: "string list \<Rightarrow> string" where
  "buildCompareSummary models =
     (if models = [] then ''Use the inferred_params to compare the requested models via GET /v1/compare.''
      else ''Compare '' @ join '' vs '' models @ '' using GET /v1/compare with their model IDs.'')"

definition buildHistorySummary :: "string \<Rightarrow> params \<Rightarrow> string" where
  "buildHistorySummary model ps =
     (if model = [] then ''Use the inferred_params to retrieve price history via GET /v1/models/:id/history.''
      else case map_of ps ''days'' of
        Some (PInt days) \<Rightarrow> ''Price history for '' @ model @ '' over the past '' @ itoa days @
          '' days is available via GET /v1/models/:id/history.''
      | _ \<Rightarrow> ''Price history for '' @ model @ '' is available via GET /v1/models/:id/history.'')"

definition buildRecommendSummary :: "formats \<Rightarrow> ModelRow list \<Rightarrow> params \<Rightarrow> string" where
  "buildRecommendSummary fm models ps =
     (case models of
        [] \<Rightarrow> ''No models matched your criteria. Try relaxing the price or context window constraints.''
      | best # _ \<Rightarrow>
          ''Found '' @ itoa (int (length models)) @ '' model(s) matching your criteria. Top recommendation: '' @ md_Slug best @
          '' (input: $'' @ fm_fixed fm 4 (f64_mul (md_PriceInput best) million) @ ''/1M tokens).'' @
          (if map_of ps ''max_price'' = None then [] else '' Results filtered by max price constraint.''))"

section \<open>The reply\<close>

definition param_json :: "formats \<Rightarrow> param \<Rightarrow> json option" where
  "param_json fm p = (case p of PText s \<Rightarrow> json_text s | PTexts ss \<Rightarrow> elements (map json_text ss)
     | PFloat x \<Rightarrow> json_float fm x | PInt i \<Rightarrow> json_int i)"

definition ask_json :: "formats \<Rightarrow> int \<Rightarrow> string \<Rightarrow> params \<Rightarrow> ModelRow list \<Rightarrow> string \<Rightarrow> json option" where
  "ask_json fm ms intent ps shown summary = members ([(''intent'', json_text intent),
     (''inferred_params'', json_map (param_json fm) ps)] @
     unless (shown = []) ''ranked_models'' (elements (map (\<lambda>m. members (model_members fm m)) shown)) @
     [(''plain_english_summary'', json_text summary),
      (''meta'', members [(''query_time_ms'', json_int ms), (''parser'', json_text AskParserVersion)])])"

definition ask_reply :: "formats \<Rightarrow> int \<Rightarrow> string \<Rightarrow> params \<Rightarrow> ModelRow list \<Rightarrow> string \<Rightarrow> handler" where
  "ask_reply fm ms intent ps shown summary = reply (api_OK fm [] (ask_json fm ms intent ps shown summary) zero_meta)"

definition ask_filter :: "params \<Rightarrow> RecommendFilter" where
  "ask_filter ps =
     \<lparr> rf_Task = text_param ps ''task'',
       rf_ContextSize = (case map_of ps ''context_window'' of Some (PInt i) \<Rightarrow> Some i | _ \<Rightarrow> None),
       rf_MaxPriceInput = (case map_of ps ''max_price'' of Some (PFloat f) \<Rightarrow> Some f | _ \<Rightarrow> None),
       rf_UseCase = text_param ps ''use_case'',
       rf_Priority = (if map_of ps ''use_case'' = None then [] else ''balanced''),
       rf_RequiresTools = False, rf_RequiresStructuredOutput = False, rf_TopK = 5 \<rparr>"

definition better_scored :: "scored \<Rightarrow> scored \<Rightarrow> bool" where
  "better_scored a b =
     (if f64_lt score_epsilon (f64_abs (f64_sub (sc_cs a) (sc_cs b))) then f64_lt (sc_cs b) (sc_cs a)
      else f64_lt (md_PriceInput (sc_row a)) (md_PriceInput (sc_row b)))"

definition capability_summary :: "formats \<Rightarrow> RecommendFilter \<Rightarrow> UseCase \<Rightarrow> Priority \<Rightarrow> scored list \<Rightarrow> string" where
  "capability_summary fm f uc pri items =
     (case items of
        [] \<Rightarrow> ''No models matched your criteria. Try relaxing constraints.''
      | best # _ \<Rightarrow> ''For '' @ rf_UseCase f @ '' tasks, the top recommendation is '' @ md_Slug (sc_row best) @ ''. '' @
          GenerateRationale fm (sc_caps best) [] uc pri)"

definition buildCapabilityAskResponse ::
  "formats \<Rightarrow> (nat \<Rightarrow> string list) \<Rightarrow> int \<Rightarrow> params \<Rightarrow> ModelRow list \<Rightarrow> RecommendFilter \<Rightarrow> handler" where
  "buildCapabilityAskResponse fm dims ms ps models f =
     (let uc = use_case (rf_UseCase f); pri = (if rf_Priority f = [] then PriorityBalanced else priority (rf_Priority f)) in
      ask (GetCapabilityScoresForModels (map md_ID models)) (internal ''failed to process query'') (\<lambda>capMap.
        let items = take (top_k f) (slice_stable better_scored (score_models dims uc pri capMap models))
        in ask_reply fm ms IntentRecommend ps (map sc_row items) (capability_summary fm f uc pri items)))"

definition recommend_response :: "formats \<Rightarrow> (nat \<Rightarrow> instant) \<Rightarrow> (nat \<Rightarrow> string list) \<Rightarrow> int \<Rightarrow> params \<Rightarrow> handler" where
  "recommend_response fm clock dims ms ps =
     (let f = ask_filter ps in
      ask (RecommendModels clock f) (internal ''failed to process query'') (\<lambda>rows.
        let models = of_modality (map_of taskModalityMap (rf_Task f)) rows in
        if rf_UseCase f \<noteq> [] then buildCapabilityAskResponse fm dims ms ps models f
        else ask_reply fm ms IntentRecommend ps models (buildRecommendSummary fm models ps)))"

definition buildResponse :: "formats \<Rightarrow> (nat \<Rightarrow> instant) \<Rightarrow> (nat \<Rightarrow> string list) \<Rightarrow> int \<Rightarrow> string \<Rightarrow> params \<Rightarrow> handler" where
  "buildResponse fm clock dims ms intent ps =
     (if intent = IntentRecommend then recommend_response fm clock dims ms ps
      else ask_reply fm ms intent ps []
        (if intent = IntentPrice then buildPriceSummary (text_param ps ''model'')
         else if intent = IntentCompare then
           buildCompareSummary (case map_of ps ''models'' of Some (PTexts names) \<Rightarrow> names | _ \<Rightarrow> [])
         else if intent = IntentHistory then buildHistorySummary (text_param ps ''model'') ps
         else []))"

definition no_intent :: ProblemDetail where
  "no_intent = (NewBadRequest ''query does not match any supported intent'')
     \<lparr> pd_Extensions := [(''suggestions'', elements (map json_text
         [''What is the price of GPT-4o?'', ''Compare Claude Sonnet vs GPT-4o'', ''Show price history for Mistral Large'',
          ''Recommend the cheapest model for summarization'']))] \<rparr>"

text \<open>The question of a body, \<open>None\<close> when the body does not parse.\<close>

definition ask_question :: "string option \<Rightarrow> ProblemDetail + string" where
  "ask_question body =
     (case body of
        None \<Rightarrow> Inl (NewBadRequest ''request body must be valid JSON with a 'query' field'')
      | Some raw \<Rightarrow>
          let query = TrimSpace raw in
          if query = [] then Inl (NewBadRequest ''query must not be empty'')
          else if askMaxQueryLength < length query then
            Inl (NewBadRequest (''query exceeds maximum length of '' @ itoa (int askMaxQueryLength) @ '' characters''))
          else Inr (to_lower query))"

definition h_Ask :: "formats \<Rightarrow> (nat \<Rightarrow> instant) \<Rightarrow> (nat \<Rightarrow> string list) \<Rightarrow> (string \<times> string) list \<Rightarrow> int \<Rightarrow> string option \<Rightarrow> handler" where
  "h_Ask fm clock dims aliases ms body =
     with_params (ask_question body) (\<lambda>asked.
     case parseIntent aliases asked of (intent, ps) \<Rightarrow>
       if intent = [] then refuse no_intent
       else buildResponse fm clock dims ms intent ps)"

end
