(* ===== verification/Read_Guarantees.thy ===== *)
theory Read_Guarantees
  imports Catalog_Guarantees Recommender Context_Snapshot Ask
begin

text \<open>
  What the read endpoints promise: they change nothing, they answer every request with a success or a
  problem of the expected kind, the filters they hand to the store are in range, the pricing snapshot
  fits its token budget, and recommendations with capability scores come first.
\<close>

section \<open>Handlers only read\<close>

definition proper :: "outcome \<Rightarrow> bool" where
  "proper out = (case fst out of
     None \<Rightarrow> rs_Status (snd out) = 200
   | Some (Problem p) \<Rightarrow> pd_Status p \<in> {400, 404, 500}
   | Some OtherError \<Rightarrow> True
   | Some _ \<Rightarrow> False)"

definition reads :: "handler \<Rightarrow> bool" where
  "reads h \<longleftrightarrow> (\<forall>db. pg_tables (snd (h db)) = pg_tables db \<and> proper (fst (h db)))"

lemma reads_reply: "proper out \<Longrightarrow> reads (reply out)"
  by (simp add: reads_def reply_def)

lemma status_with_headers: "rs_Status (with_headers hs) = 200"
proof -
  have "rs_Status (foldl (\<lambda>r (k, v). set_header k v r) r hs) = rs_Status r" for r
    by (induction hs arbitrary: r) (auto simp: set_header_def)
  then show ?thesis by (simp add: with_headers_def new_response_def)
qed

lemma proper_OK: "proper (api_OK fm hs data meta)"
  by (simp add: proper_def api_OK_def send_json_def set_header_def status_with_headers split: option.split)

lemma proper_problem: "pd_Status p \<in> {400, 404, 500} \<Longrightarrow> proper (problem p)"
  by (simp add: proper_def problem_def)

lemma problem_status [simp]:
  "pd_Status (NewBadRequest m) = 400" "pd_Status (NewNotFound m) = 404" "pd_Status (NewInternalError m) = 500"
  by (simp_all add: problem_constructors new_problem_def)

lemma reads_refuse: "pd_Status p \<in> {400, 404, 500} \<Longrightarrow> reads (refuse p)"
  unfolding refuse_def by (intro reads_reply proper_problem)

lemma reads_errors: "reads (internal m e)" "reads (or_not_found n m e)"
  by (simp_all add: internal_def or_not_found_def reads_refuse)

lemma reads_ask:
  assumes "answers m f" "\<And>e. reads (err e)" "\<And>x. reads (k x)"
  shows "reads (ask m err k)"
  unfolding reads_def
proof
  fix db
  obtain r d where d: "m db = (r, d)" by fastforce
  have "pg_tables d = pg_tables db" using assms(1) [unfolded answers_def, rule_format, of db] by (simp add: d)
  then show "pg_tables (snd (ask m err k db)) = pg_tables db \<and> proper (fst (ask m err k db))"
    using assms(2,3) by (cases r) (simp_all add: ask_def d reads_def)
qed

definition bad_request :: "ProblemDetail + 'a \<Rightarrow> bool" where
  "bad_request r = (case r of Inl p \<Rightarrow> pd_Status p = 400 | Inr _ \<Rightarrow> True)"

lemma reads_with_params: "bad_request r \<Longrightarrow> (\<And>x. reads (k x)) \<Longrightarrow> reads (with_params r k)"
  by (cases r) (auto simp: with_params_def bad_request_def intro: reads_refuse)

lemma bad_request_check: "bad_request r \<Longrightarrow> (\<And>x. bad_request (k x)) \<Longrightarrow> bad_request (check r k)"
  by (cases r) (simp_all add: check_def bad_request_def)

lemma bad_request_simps [simp]: "bad_request (Inl (NewBadRequest m))" "bad_request (Inr x)"
  by (simp_all add: bad_request_def)

lemma bad_request_opt: "bad_request (opt_param q k parse ok msg)" "bad_request (time_param fm q k)"
  by (simp_all add: opt_param_def time_param_def split: option.split)

lemma params_refused:
  "bad_request (list_params q)" "bad_request (changes_params fm q)" "bad_request (summary_params fm now q)"
  "bad_request (history_params fm s q)" "bad_request (compare_params q)" "bad_request (use_case_param q)"
  "bad_request (recommend_params fm q)"
  by (auto simp: list_params_def changes_params_def summary_params_def summary_window_def history_params_def
      compare_params_def use_case_param_def recommend_params_def Let_def
      intro!: bad_request_check bad_request_opt split: option.split)

text \<open>Every method of the store has a contract.\<close>

definition contracted :: "'a db \<Rightarrow> bool" where
  "contracted m \<longleftrightarrow> (\<exists>f. answers m f)"

lemma contractedI: "answers m f \<Longrightarrow> contracted m"
  by (auto simp: contracted_def)

lemma contracted_bind: "contracted m \<Longrightarrow> (\<And>x. contracted (g x)) \<Longrightarrow> contracted (db_bind m g)"
proof -
  assume m: "contracted m" and g: "\<And>x. contracted (g x)"
  obtain f where "answers m f" using m by (auto simp: contracted_def)
  moreover obtain h where "\<And>x. answers (g x) (h x)" using g unfolding contracted_def by metis
  ultimately show ?thesis by (auto intro: contractedI answers_bind)
qed

lemma contracted_args: "contracted m \<Longrightarrow> contracted (int4_args is m)"
  unfolding contracted_def using answers_args by blast

lemma contracted_if: "contracted m \<Longrightarrow> contracted n \<Longrightarrow> contracted (if c then m else n)"
  by simp

lemma store_contracts:
  "contracted (ListModels ilike clock f)" "contracted (GetModelBySlug clock s)" "contracted (GetModel clock i)"
  "contracted ListProviders" "contracted (ListChanges now cf)" "contracted (GetChangesSummary im ip ib now sf)"
  "contracted (ModelExists i)" "contracted (store_GetModelHistory i hf)" "contracted (ListModelsForContext n)"
  "contracted (CompareModels clock ids)" "contracted (CompareModelsBySlugs clock slugs)"
  "contracted (RecommendModels clock rf)" "contracted (GetCapabilityScoresForModels ids)"
  unfolding GetModelBySlug_def GetModel_def ListProviders_def ModelExists_def store_GetModelHistory_def
    ListModelsForContext_def GetCapabilityScoresForModels_def
  by (auto intro!: contracted_args contracted_bind contractedI [OF one_model_answers] contractedI [OF answers_select]
    contractedI [OF answers_select1] contractedI [OF answers_return] contractedI [OF ListModels_answers]
    contractedI [OF ListChanges_answers] contractedI [OF GetChangesSummary_answers]
    contractedI [OF CompareModels_answers] contractedI [OF CompareModelsBySlugs_answers]
    contractedI [OF RecommendModels_answers])

lemma reads_store: "contracted m \<Longrightarrow> (\<And>e. reads (err e)) \<Longrightarrow> (\<And>x. reads (k x)) \<Longrightarrow> reads (ask m err k)"
  unfolding contracted_def using reads_ask by blast

lemma reads_if: "reads h \<Longrightarrow> reads g \<Longrightarrow> reads (if c then h else g)"
  by simp

lemmas reads_rules = reads_with_params params_refused reads_store reads_errors store_contracts reads_reply proper_OK
  reads_if

lemma reads_models: "reads (h_ListModels fm ilike clock q)" "reads (h_GetModel fm clock s)" "reads (h_ListProviders fm)"
  unfolding h_ListModels_def h_GetModel_def h_ListProviders_def Let_def
  by (auto intro!: reads_rules split: prod.split option.split)

lemma reads_changes: "reads (h_ListChanges fm now q)" "reads (h_GetChangesSummary fm im ip ib now q)"
  unfolding h_ListChanges_def h_GetChangesSummary_def Let_def
  by (auto intro!: reads_rules split: prod.split)

lemma reads_history: "reads (h_GetModelHistory fm now s q)"
  unfolding h_GetModelHistory_def Let_def
  by (auto intro!: reads_rules reads_refuse split: prod.split)

lemma reads_compare: "reads (h_Compare fm clock q)"
proof -
  have "reads (compare_reply fm q models capMap)" for models capMap
    unfolding compare_reply_def Let_def by (intro reads_rules)
  then show ?thesis
    unfolding h_Compare_def resolve_models_def compare_fails_def Let_def
    by (auto intro!: reads_rules)
qed

lemma reads_recommend: "reads (h_Recommend fm clock dims q)"
  unfolding h_Recommend_def recommendPriceBased_def recommendCapabilityBased_def Let_def
  by (auto intro!: reads_rules)

lemma reads_context: "reads (h_GetContext fm q)"
proof -
  have "proper (context_reply fm items)" for items
    by (auto simp: context_reply_def intro: proper_OK proper_problem split: option.split)
  moreover have "proper (markdown_reply fm items)" for items
    by (simp add: markdown_reply_def proper_def set_header_def new_response_def Let_def)
  ultimately show ?thesis
    unfolding h_GetContext_def by (auto intro!: reads_rules reads_refuse split: option.split)
qed

lemma reads_no_intent: "reads (refuse no_intent)"
  by (rule reads_refuse) (simp add: no_intent_def NewBadRequest_def new_problem_def)

lemma reads_question: "reads (h_Ask fm clock dims aliases ms body)"
proof -
  have question: "bad_request (ask_question body)" by (simp add: ask_question_def Let_def split: option.split)
  have answer: "reads (ask_reply fm ms intent ps shown summary)" for intent ps shown summary
    unfolding ask_reply_def by (intro reads_rules)
  have capable: "reads (buildCapabilityAskResponse fm dims ms ps models f)" for ps models f
    unfolding buildCapabilityAskResponse_def Let_def by (intro reads_rules answer)
  have "reads (recommend_response fm clock dims ms ps)" for ps
    unfolding recommend_response_def Let_def by (intro reads_rules reads_if answer capable)
  then have "reads (buildResponse fm clock dims ms intent ps)" for intent ps
    unfolding buildResponse_def by (intro reads_if answer)
  then show ?thesis
    unfolding h_Ask_def by (intro reads_with_params question) (simp add: reads_no_intent split: prod.split)
qed

section \<open>Routes\<close>

text \<open>
  The read routes of \<open>RegisterFree\<close> and \<open>RegisterDev\<close>, with the path parameter where a route has one,
  and the library and the run's choices that the handlers depend on.
\<close>

datatype route = RModels | RModel string | RProviders | RChangesSummary | RChanges | RCompare | RRecommend
  | RHistory string | RContext | RAsk "string option"

record read_env =
  re_formats :: formats
  re_ilike :: "string \<Rightarrow> string \<Rightarrow> bool"
  re_clock :: "nat \<Rightarrow> instant"
  re_iter_models :: "model_key list \<Rightarrow> model_key list"
  re_iter_providers :: "string list \<Rightarrow> string list"
  re_iter_best :: "int list \<Rightarrow> int list"
  re_dims :: "nat \<Rightarrow> string list"
  re_aliases :: "(string \<times> string) list"
  re_ask_ms :: int

fun read_route :: "read_env \<Rightarrow> route \<Rightarrow> query \<Rightarrow> handler" where
  "read_route e RModels q = h_ListModels (re_formats e) (re_ilike e) (re_clock e) q"
| "read_route e (RModel s) q = h_GetModel (re_formats e) (re_clock e) s"
| "read_route e RProviders q = h_ListProviders (re_formats e)"
| "read_route e RChangesSummary q = h_GetChangesSummary (re_formats e) (re_iter_models e) (re_iter_providers e)
     (re_iter_best e) (re_clock e 0) q"
| "read_route e RChanges q = h_ListChanges (re_formats e) (re_clock e 0) q"
| "read_route e RCompare q = h_Compare (re_formats e) (re_clock e) q"
| "read_route e RRecommend q = h_Recommend (re_formats e) (re_clock e) (re_dims e) q"
| "read_route e (RHistory s) q = h_GetModelHistory (re_formats e) (re_clock e 0) s q"
| "read_route e RContext q = h_GetContext (re_formats e) q"
| "read_route e (RAsk body) q = h_Ask (re_formats e) (re_clock e) (re_dims e) (re_aliases e) (re_ask_ms e) body"

text \<open>
  The read endpoints change nothing and answer properly: whatever the request, the faults of the
  database and the library's formatting do, each of the nine GET routes and the question
  endpoint leaves the tables as they are,
  and answers with status 200 or with a problem of status 400, 404 or 500 (or fails to serialise, which
  the error handler turns into a 500, too).
\<close>

theorem read_endpoints_safe:
  "pg_tables (snd (read_route e r q db)) = pg_tables db \<and> proper (fst (read_route e r q db))"
proof -
  have "reads (read_route e r q)"
    by (cases r) (simp_all add: reads_models reads_changes reads_history reads_compare reads_recommend reads_context
        reads_question)
  then show ?thesis by (simp add: reads_def)
qed

section \<open>The pricing snapshot\<close>

definition fits :: "formats \<Rightarrow> ContextModelRow list \<Rightarrow> bool" where
  "fits fm items = (case context_bytes fm items contextMaxTokens of
     None \<Rightarrow> False | Some b \<Rightarrow> estimateTokens b \<le> contextMaxTokens)"

text \<open>Every row and the zero metadata can be written as JSON.\<close>

definition serialises :: "formats \<Rightarrow> ContextModelRow list \<Rightarrow> bool" where
  "serialises fm rows \<longleftrightarrow> list_all (\<lambda>r. context_item fm r \<noteq> None) rows \<and> meta_json fm zero_meta \<noteq> None"

text \<open>The length of the envelope depends on the token count only through its digits.\<close>

lemma context_bytes_length:
  assumes "serialises fm rows"
  obtains b where "\<And>n. context_bytes fm rows n = Some (b n)"
    "\<And>m n. length (b m) + length (nat_digits n) = length (b n) + length (nat_digits m)"
proof -
  obtain meta where meta: "meta_json fm zero_meta = Some meta" using assms by (auto simp: serialises_def)
  have items: "elements (map (context_item fm) rows) = Some (JArr (map (\<lambda>r. the (context_item fm r)) rows))"
    using assms by (simp add: elements_def serialises_def list_all_iff comp_def)
  define b where "b n = json_print (JObj [(''data'', JObj [(''models'', JArr (map (\<lambda>r. the (context_item fm r)) rows)),
      (''token_count'', JNum (nat_digits n)), (''model_count'', JNum (itoa (int (length rows))))]), (''meta'', meta)])" for n
  have "context_bytes fm rows n = Some (b n)" for n
    by (simp add: context_bytes_def envelope_def contextResponse_def members_def items meta json_int_def b_def itoa_def)
  moreover have "length (b m) + length (nat_digits n) = length (b n) + length (nat_digits m)" for m n
    by (simp add: b_def)
  ultimately show thesis using that by blast
qed

lemma length_nat_digits: "n < 10 ^ Suc k \<Longrightarrow> length (nat_digits n) \<le> Suc k"
proof (induction k arbitrary: n)
  case (Suc k)
  show ?case
  proof (cases "n < 10")
    case False
    then have "length (nat_digits n) = Suc (length (nat_digits (n div 10)))" by (subst nat_digits.simps) simp
    moreover have "n div 10 < 10 ^ Suc k" using Suc.prems by (simp add: div_less_iff_less_mult)
    ultimately show ?thesis using Suc.IH by simp
  qed (simp add: nat_digits.simps)
qed (simp add: nat_digits.simps)

lemma serialises_take: "serialises fm rows \<Longrightarrow> serialises fm (take k rows)"
  by (auto simp: serialises_def list_all_iff dest: in_set_takeD)

text \<open>The trimming loop finds the longest prefix that fits.\<close>

lemma trim_items_spec:
  assumes "serialises fm rows"
  shows "\<exists>k \<le> length rows. trim_items fm rows = Some (take k rows) \<and> (k = 0 \<or> fits fm (take k rows)) \<and>
    (\<forall>j \<le> length rows. k < j \<longrightarrow> \<not> fits fm (take j rows))"
  using assms
proof (induction "length rows" arbitrary: rows)
  case 0
  then show ?case by (simp add: trim_items.simps)
next
  case (Suc n)
  obtain b where b: "context_bytes fm rows contextMaxTokens = Some b"
    using context_bytes_length [OF Suc.prems] by metis
  have ne: "rows \<noteq> []" using Suc(2) by auto
  show ?case
  proof (cases "estimateTokens b \<le> contextMaxTokens")
    case True
    then have "trim_items fm rows = Some (take (length rows) rows)" "fits fm (take (length rows) rows)"
      using b ne by (simp_all add: trim_items.simps fits_def)
    then show ?thesis by (intro exI [of _ "length rows"]) simp
  next
    case False
    then have step: "trim_items fm rows = trim_items fm (butlast rows)" "\<not> fits fm rows"
      using b ne by (simp_all add: trim_items.simps fits_def)
    have bl: "butlast rows = take n rows" using Suc(2) by (simp add: butlast_conv_take flip: Suc(2))
    have len: "length (butlast rows) = n" using Suc(2) by simp
    have s: "serialises fm (butlast rows)" using serialises_take [OF Suc.prems, of n] bl by simp
    obtain k where k: "k \<le> n" "trim_items fm (butlast rows) = Some (take k (butlast rows))"
        "k = 0 \<or> fits fm (take k (butlast rows))" "\<forall>j \<le> n. k < j \<longrightarrow> \<not> fits fm (take j (butlast rows))"
      using Suc(1) [OF len [symmetric] s, unfolded len] by blast
    have sub: "take j (butlast rows) = take j rows" if "j \<le> n" for j using that by (simp add: bl min_def)
    have "\<not> fits fm (take j rows)" if "j \<le> length rows" "k < j" for j
      using that k(4) sub step(2) Suc(2) by (cases "j = length rows") auto
    then show ?thesis using k step(1) sub Suc(2) by (intro exI [of _ k]) auto
  qed
qed

text \<open>
  C31. The pricing snapshot always comes back, and within its budget: the trimming loop ends for every
  list of rows, and when the rows can be written as JSON the reply holds the longest prefix of the rows
  whose envelope fits 2100 tokens, or none; unless it is empty, the body that is sent, with the final
  token count filled in, is within the budget, too.
\<close>

theorem context_fits_budget:
  assumes "fst (ListModelsForContext contextMaxModels db) = Inr rows" "serialises fm rows" "q ''format'' \<noteq> ''markdown''"
  shows "\<exists>k n r. k \<le> length rows \<and> fst (h_GetContext fm q db) = (None, r) \<and>
    context_bytes fm (take k rows) n = Some (rs_Body r) \<and>
    (0 < k \<longrightarrow> estimateTokens (rs_Body r) \<le> contextMaxTokens) \<and>
    (\<forall>j \<le> length rows. k < j \<longrightarrow> \<not> fits fm (take j rows))"
proof -
  obtain k where k: "k \<le> length rows" "trim_items fm rows = Some (take k rows)" "k = 0 \<or> fits fm (take k rows)"
      "\<forall>j \<le> length rows. k < j \<longrightarrow> \<not> fits fm (take j rows)"
    using trim_items_spec [OF assms(2)] by blast
  obtain b where b: "\<And>n. context_bytes fm (take k rows) n = Some (b n)"
      "\<And>m n. length (b m) + length (nat_digits n) = length (b n) + length (nat_digits m)"
    using context_bytes_length [OF serialises_take [OF assms(2)]] by metis
  let ?n = "estimateTokens (b 0)"
  obtain v where v: "envelope fm (contextResponse fm (take k rows) ?n) zero_meta = Some v" "json_print v = b ?n"
    using b(1) [of ?n] by (auto simp: context_bytes_def)
  have run: "fst (h_GetContext fm q db) = context_reply fm (take k rows)"
    using assms(1,3) k(2) by (cases "ListModelsForContext contextMaxModels db") (auto simp: h_GetContext_def ask_def reply_def)
  have reply: "context_reply fm (take k rows) = (None, send_json v (with_headers []))"
    by (simp add: context_reply_def b(1) api_OK_def v(1))
  have body: "rs_Body (send_json v (with_headers [])) = b ?n" by (simp add: send_json_def set_header_def v(2))
  have "estimateTokens (b ?n) \<le> contextMaxTokens" if "0 < k"
  proof -
    have "estimateTokens (b contextMaxTokens) \<le> contextMaxTokens" using that k(3) by (simp add: fits_def b(1))
    moreover have digits: "length (nat_digits contextMaxTokens) = 4" "length (nat_digits 0) = 1" by code_simp+
    ultimately have small: "length (b contextMaxTokens) \<le> 4 * contextMaxTokens" "length (b 0) \<le> length (b contextMaxTokens)"
      using b(2) [of 0 contextMaxTokens] by (simp_all add: estimateTokens_def)
    then have "?n < 10 ^ Suc 3" by (simp add: estimateTokens_def contextMaxTokens_def)
    then have "length (nat_digits ?n) \<le> 4" using length_nat_digits [of ?n 3] by simp
    then have "length (b ?n) \<le> length (b contextMaxTokens)" using b(2) [of ?n contextMaxTokens] digits by simp
    then show ?thesis using small by (simp add: estimateTokens_def)
  qed
  then show ?thesis using run reply body k b(1) by (intro exI [of _ k] exI [of _ ?n]) auto
qed

section \<open>Recommendations\<close>

lemma ranked_before_separates: "separates ranked_before (\<lambda>s. has_score s \<or> t < md_ConfirmedAt (sc_row s))"
  unfolding separates_def
proof (intro allI impI)
  fix x y
  assume "(has_score x \<or> t < md_ConfirmedAt (sc_row x)) \<and> \<not> (has_score y \<or> t < md_ConfirmedAt (sc_row y))"
  then show "ranked_before x y \<and> \<not> ranked_before y x"
    by (cases "has_score x") (simp_all add: ranked_before_def)
qed

lemma scored_separates: "separates ranked_before has_score"
  by (simp add: separates_def ranked_before_def)

lemma in_front_filter: "in_front P xs \<Longrightarrow> in_front P (filter Q xs)"
  by (induction xs) auto

lemma in_front_require: "in_front P (fst st) \<Longrightarrow> in_front P (fst (require w dm name st))"
  by (simp add: require_def in_front_filter Let_def)

lemma in_front_candidates: "separates ranked_before P \<Longrightarrow> in_front P (fst (candidates_of f scored))"
  unfolding candidates_of_def by (intro in_front_require) (simp add: in_front_slice_stable)

lemma set_require: "set (fst (require w dm name st)) \<subseteq> set (fst st)"
  by (auto simp: require_def Let_def)

lemma set_candidates: "set (fst (candidates_of f scored)) \<subseteq> set scored"
  unfolding candidates_of_def by (rule order_trans [OF set_require order_trans [OF set_require]]) (simp add: set_slice_stable)

lemma all_candidates:
  "\<not> rf_RequiresTools f \<Longrightarrow> \<not> rf_RequiresStructuredOutput f \<Longrightarrow> set (fst (candidates_of f scored)) = set scored"
  by (simp add: candidates_of_def require_def set_slice_stable)

definition recommended_before :: "scored \<Rightarrow> scored \<Rightarrow> bool" where
  "recommended_before a b \<longleftrightarrow> (has_score b \<longrightarrow> has_score a) \<and>
    (\<not> has_score a \<and> \<not> has_score b \<longrightarrow> md_ConfirmedAt (sc_row b) \<le> md_ConfirmedAt (sc_row a))"

text \<open>
  C32. The order of a capability-based recommendation, although its comparator is not transitive (scores
  count as equal up to an epsilon): every recommended model with a capability score comes before every
  one without; those without come most recently confirmed first; and without extra requirements a model
  that has a score is never left out in favour of one that has none.
\<close>

theorem recommend_scored_first:
  shows "sorted_wrt recommended_before (recommended_items f scored) \<and> set (recommended_items f scored) \<subseteq> set scored \<and>
    (\<not> rf_RequiresTools f \<and> \<not> rf_RequiresStructuredOutput f \<longrightarrow>
       (\<exists>s \<in> set (recommended_items f scored). \<not> has_score s) \<longrightarrow>
       (\<forall>s \<in> set scored. has_score s \<longrightarrow> s \<in> set (recommended_items f scored)))"
proof (intro conjI impI ballI)
  let ?c = "fst (candidates_of f scored)"
  have rank: "in_front has_score ?c" "in_front (\<lambda>s. has_score s \<or> t < md_ConfirmedAt (sc_row s)) ?c" for t
    by (intro in_front_candidates scored_separates ranked_before_separates)+
  have "recommended_before (?c ! i) (?c ! j)" if "i < j" "j < length ?c" for i j
  proof -
    have "has_score (?c ! j) \<longrightarrow> has_score (?c ! i)" using in_front_nth [OF rank(1), of i j] that by auto
    moreover have "has_score (?c ! i) \<or> md_ConfirmedAt (sc_row (?c ! j)) - 1 < md_ConfirmedAt (sc_row (?c ! i))"
      using in_front_nth [OF rank(2), of i j "md_ConfirmedAt (sc_row (?c ! j)) - 1"] that by auto
    ultimately show ?thesis by (auto simp: recommended_before_def)
  qed
  then show "sorted_wrt recommended_before (recommended_items f scored)"
    unfolding recommended_items_def by (intro sorted_wrt_take) (simp add: sorted_wrt_iff_nth_less)
  show "set (recommended_items f scored) \<subseteq> set scored"
    unfolding recommended_items_def using set_candidates set_take_subset by (rule order_trans [rotated])
next
  let ?c = "fst (candidates_of f scored)"
  fix s
  assume req: "\<not> rf_RequiresTools f \<and> \<not> rf_RequiresStructuredOutput f"
    and low: "\<exists>s \<in> set (recommended_items f scored). \<not> has_score s" and s: "s \<in> set scored" "has_score s"
  obtain x where x: "x \<in> set (take (top_k f) ?c)" "\<not> has_score x" using low by (auto simp: recommended_items_def)
  have "s \<notin> set (drop (top_k f) ?c)"
    using in_front_take_drop(3) [OF in_front_candidates [OF scored_separates], of "top_k f" f scored] x s(2) by blast
  moreover have "s \<in> set ?c" using s(1) all_candidates [of f scored] req by simp
  ultimately show "s \<in> set (recommended_items f scored)"
    unfolding recommended_items_def by (metis Un_iff append_take_drop_id set_append)
qed

section \<open>Filters\<close>

text \<open>The values that the queries of the store are made for.\<close>

definition list_filter_wf :: "ListModelsFilter \<Rightarrow> bool" where
  "list_filter_wf f \<longleftrightarrow> 1 \<le> lf_Page f \<and> 1 \<le> lf_PerPage f \<and> lf_PerPage f \<le> 200 \<and>
     lf_Sort f \<in> {''recent'', ''alpha''} \<and> (case lf_MinContext f of None \<Rightarrow> True | Some c \<Rightarrow> 0 \<le> c)"

definition changes_filter_wf :: "ChangesFilter \<Rightarrow> bool" where
  "changes_filter_wf f \<longleftrightarrow> 1 \<le> cg_Limit f \<and> cg_Limit f \<le> 200"

definition recommend_filter_wf :: "RecommendFilter \<Rightarrow> bool" where
  "recommend_filter_wf f \<longleftrightarrow> 1 \<le> rf_TopK f \<and> rf_TopK f \<le> 20 \<and>
     (case rf_ContextSize f of None \<Rightarrow> True | Some c \<Rightarrow> 0 \<le> c) \<and>
     (case rf_MaxPriceInput f of None \<Rightarrow> True | Some x \<Rightarrow> \<not> f64_lt x (Fin 0)) \<and>
     (rf_UseCase f = [] \<or> ValidUseCases (use_case (rf_UseCase f))) \<and>
     (rf_Priority f = [] \<or> ValidPriorities (priority (rf_Priority f)))"

definition accepted :: "('a \<Rightarrow> bool) \<Rightarrow> ProblemDetail + 'a \<Rightarrow> bool" where
  "accepted P r = (case r of Inl p \<Rightarrow> pd_Status p = 400 | Inr x \<Rightarrow> P x)"

lemma check_accepted: "accepted P r \<Longrightarrow> (\<And>x. P x \<Longrightarrow> accepted Q (k x)) \<Longrightarrow> accepted Q (check r k)"
  by (cases r) (auto simp: check_def accepted_def)

lemma opt_accepted: "accepted (\<lambda>x. case x of None \<Rightarrow> q k = [] | Some v \<Rightarrow> ok v \<and> parse (q k) = Some v) (opt_param q k parse ok msg)"
  by (simp add: accepted_def opt_param_def split: option.split)

lemma accepted_simps [simp]: "accepted P (Inl (NewBadRequest m))" "accepted P (Inr x) \<longleftrightarrow> P x"
  by (simp_all add: accepted_def)

text \<open>
  C33. Only well-formed filters reach the store: a request for a list of models, for changes or for a
  recommendation is either refused with status 400, or its filter has a positive page, a page size of at
  most 200 (20 for recommendations), a known order, use case and priority, and no negative bound.
\<close>

theorem handler_filters_wf:
  "accepted list_filter_wf (list_params q) \<and> accepted changes_filter_wf (changes_params fm q) \<and>
   accepted recommend_filter_wf (recommend_params fm q)"
proof (intro conjI)
  show "accepted list_filter_wf (list_params q)"
    unfolding list_params_def Let_def
    by (auto simp: list_filter_wf_def coalesce_def MaxPerPage_def
        intro!: check_accepted [OF opt_accepted] split: option.splits if_splits)
  show "accepted changes_filter_wf (changes_params fm q)"
    unfolding changes_params_def time_param_def
    by (auto simp: changes_filter_wf_def coalesce_def MaxPerPage_def
        intro!: check_accepted [OF opt_accepted] split: option.splits if_splits)
  show "accepted recommend_filter_wf (recommend_params fm q)"
    unfolding recommend_params_def use_case_param_def
    by (auto simp: recommend_filter_wf_def coalesce_def intro!: check_accepted [OF opt_accepted] split: option.splits)
qed

section \<open>Examples\<close>

definition demo_formats :: formats where
  "demo_formats = \<lparr> fm_float = (\<lambda>_. Some ''1''), fm_fixed = (\<lambda>_ _. ''1.0''), fm_parse_float = (\<lambda>_. None),
     fm_json_time = (\<lambda>_. Some (JStr ''2026-01-01T00:00:00Z'')), fm_format = (\<lambda>_ _. ''2026''), fm_parse = (\<lambda>_ _. None),
     fm_path_unescape = (\<lambda>s. s) \<rparr>"

theorem context_fits_budget_witness:
  "\<exists>k n r. fst (h_GetContext demo_formats (\<lambda>_. []) demo_store) = (None, r) \<and>
     context_bytes demo_formats (take k (map (context_row demo_catalog)
       (take 50 (sort_key (\<lambda>m. (mr_provider m, mr_name m)) (t_models demo_catalog))))) n = Some (rs_Body r) \<and>
     (0 < k \<longrightarrow> estimateTokens (rs_Body r) \<le> 2100)"
proof -
  let ?rows = "map (context_row demo_catalog) (take 50 (sort_key (\<lambda>m. (mr_provider m, mr_name m)) (t_models demo_catalog)))"
  have "fst (ListModelsForContext contextMaxModels demo_store) = Inr ?rows"
    by (simp add: ListModelsForContext_def contextMaxModels_def select_def stmt_def demo_store_def)
  moreover have "serialises demo_formats ?rows"
    by (simp add: serialises_def list_all_iff context_item_def meta_json_def members_def json_int_def json_text_def
        json_float_def demo_formats_def)
  ultimately show ?thesis
    using context_fits_budget [of demo_store ?rows demo_formats "\<lambda>_. []"] by (auto simp: contextMaxTokens_def)
qed

definition demo_scored :: "int \<Rightarrow> rat \<Rightarrow> instant \<Rightarrow> scored" where
  "demo_scored i x tm = \<lparr> sc_row = \<lparr> md_ID = i, md_Provider = [], md_Name = [], md_Slug = [], md_Modality = ''text'',
       md_ContextWindow = None, md_PriceInput = Fin 1, md_PriceOutput = Fin 1, md_ConfirmedAt = tm,
       md_LastVerifiedAt = None, md_Source = [], md_UnderlyingProvider = None, md_Meta = zero_meta \<rparr>,
     sc_cs = Fin x, sc_scores = [], sc_freshness = [], sc_caps = [] \<rparr>"

definition demo_filter :: RecommendFilter where
  "demo_filter = \<lparr> rf_Task = [], rf_ContextSize = None, rf_MaxPriceInput = None, rf_UseCase = ''coding'',
     rf_Priority = [], rf_RequiresTools = False, rf_RequiresStructuredOutput = False, rf_TopK = 2 \<rparr>"

theorem recommend_scored_first_witness:
  "demo_scored 2 70 5 \<in> set (recommended_items demo_filter [demo_scored 1 0 30, demo_scored 2 70 5, demo_scored 3 0 40])"
proof -
  have "\<exists>s \<in> set (recommended_items demo_filter [demo_scored 1 0 30, demo_scored 2 70 5, demo_scored 3 0 40]). \<not> has_score s"
    by code_simp
  moreover have "has_score (demo_scored 2 70 5)" by code_simp
  moreover have "\<not> rf_RequiresTools demo_filter \<and> \<not> rf_RequiresStructuredOutput demo_filter"
    by (simp add: demo_filter_def)
  ultimately show ?thesis
    using recommend_scored_first [of demo_filter "[demo_scored 1 0 30, demo_scored 2 70 5, demo_scored 3 0 40]"] by simp
qed

end
