(* ===== verification/Address_Check.thy ===== *)
theory Address_Check
  imports Go_Float_Text
begin

text \<open>
  Which addresses a connection may go to: \<open>internal/scraper/ssrf.go\<close>, with what it uses of package \<open>net\<close>
  (the parser of addresses, their classes, host and port). The resolver is an argument. The classes
  are shown to be ranges of addresses.
\<close>

section \<open>Parsing addresses\<close>

text \<open>Four decimal fields of at most three digits, without leading zeros.\<close>

definition v4_field :: "string \<Rightarrow> nat option" where
  "v4_field s =
     (if s = [] \<or> 3 < length s \<or> \<not> list_all is_digit s \<or> (1 < length s \<and> hd s = CHR ''0'') then None
      else let n = nat (digits_value s) in if n < 256 then Some n else None)"

definition parse_v4 :: "string \<Rightarrow> nat list option" where
  "parse_v4 s = (let fs = split_byte (CHR ''.'') s in if length fs = 4 then those (map v4_field fs) else None)"

text \<open>
  IPv6: groups of up to four hexadecimal digits, at most one \<open>::\<close>, perhaps an IPv4 address at the end.
  \<open>bs\<close> are the bytes so far, \<open>el\<close> the place of the \<open>::\<close>; the fuel is the number of groups.
\<close>

definition expand_v6 :: "nat list \<Rightarrow> nat option \<Rightarrow> nat list option" where
  "expand_v6 bs el = (case el of
     None \<Rightarrow> if length bs = 16 then Some bs else None
   | Some i \<Rightarrow> if length bs < 16 then Some (take i bs @ replicate (16 - length bs) 0 @ drop i bs) else None)"

fun v6_groups :: "nat \<Rightarrow> nat list \<Rightarrow> nat option \<Rightarrow> string \<Rightarrow> nat list option" where
  "v6_groups 0 bs el s = (if s = [] then expand_v6 bs el else None)"
| "v6_groups (Suc n) bs el s =
     (let g = takeWhile hex_digit s; r = drop (length g) s; v = nat (base_value 16 g) in
      if g = [] \<or> 4 < length g then None
      else if has_prefix r ''.'' then
        (if (el = None \<and> length bs \<noteq> 12) \<or> 12 < length bs then None
         else Option.bind (parse_v4 s) (\<lambda>a. expand_v6 (bs @ a) el))
      else
        let bs' = bs @ [v div 256, v mod 256] in
        case r of
          [] \<Rightarrow> expand_v6 bs' el
        | c # r' \<Rightarrow>
            if c \<noteq> CHR '':'' \<or> r' = [] then None
            else if hd r' = CHR '':'' then
              (if el \<noteq> None then None
               else if tl r' = [] then expand_v6 bs' (Some (length bs'))
               else v6_groups n bs' (Some (length bs')) (tl r'))
            else v6_groups n bs' el r')"

definition parse_v6 :: "string \<Rightarrow> nat list option" where
  "parse_v6 s =
     (if s = ''::'' then Some (replicate 16 0)
      else if has_prefix s ''::'' then v6_groups 8 [] (Some 0) (drop 2 s)
      else v6_groups 8 [] None s)"

text \<open>
  \<open>net.ParseIP\<close>: 16 bytes, of an IPv4 address the mapped form. The first of the marks tells the
  family; an address with a zone is not read.
\<close>

definition map_v4 :: "nat list \<Rightarrow> nat list" where
  "map_v4 a = replicate 10 0 @ [255, 255] @ a"

definition ParseIP :: "string \<Rightarrow> nat list option" where
  "ParseIP s =
     (case filter (\<lambda>c. c \<in> {CHR ''.'', CHR '':'', CHR ''%''}) s of
        [] \<Rightarrow> None
      | c # _ \<Rightarrow>
          if CHR ''%'' \<in> set s then None
          else if c = CHR ''.'' then map_option map_v4 (parse_v4 s)
          else parse_v6 s)"

section \<open>Classes of addresses\<close>

definition to4 :: "nat list \<Rightarrow> nat list option" where
  "to4 ip = (if take 12 ip = replicate 10 0 @ [255, 255] then Some (drop 12 ip) else None)"

definition IsLoopback :: "nat list \<Rightarrow> bool" where
  "IsLoopback ip = (case to4 ip of Some a \<Rightarrow> a ! 0 = 127 | None \<Rightarrow> ip = replicate 15 0 @ [1])"

definition IsPrivate :: "nat list \<Rightarrow> bool" where
  "IsPrivate ip = (case to4 ip of
     Some a \<Rightarrow> a ! 0 = 10 \<or> (a ! 0 = 172 \<and> a ! 1 div 16 = 1) \<or> (a ! 0 = 192 \<and> a ! 1 = 168)
   | None \<Rightarrow> ip ! 0 div 2 = 126)"

definition IsLinkLocalUnicast :: "nat list \<Rightarrow> bool" where
  "IsLinkLocalUnicast ip = (case to4 ip of
     Some a \<Rightarrow> a ! 0 = 169 \<and> a ! 1 = 254 | None \<Rightarrow> ip ! 0 = 254 \<and> ip ! 1 div 64 = 2)"

definition IsLinkLocalMulticast :: "nat list \<Rightarrow> bool" where
  "IsLinkLocalMulticast ip = (case to4 ip of
     Some a \<Rightarrow> a ! 0 = 224 \<and> a ! 1 = 0 \<and> a ! 2 = 0 | None \<Rightarrow> ip ! 0 = 255 \<and> ip ! 1 mod 16 = 2)"

definition IsUnspecified :: "nat list \<Rightarrow> bool" where
  "IsUnspecified ip = (ip = map_v4 [0, 0, 0, 0] \<or> ip = replicate 16 0)"

definition blocked_ip :: "nat list \<Rightarrow> bool" where
  "blocked_ip ip = (IsLoopback ip \<or> IsPrivate ip \<or> IsLinkLocalUnicast ip \<or> IsLinkLocalMulticast ip \<or> IsUnspecified ip)"

section \<open>ssrf.go\<close>

text \<open>\<open>LookupHost\<close> gives an error or at least one address.\<close>

type_synonym resolver = "string \<Rightarrow> string list option"

datatype dial_error = BadAddress | Unresolvable | BlockedAddress string | Unparseable string

fun CheckIPs :: "string list \<Rightarrow> dial_error option" where
  "CheckIPs [] = None"
| "CheckIPs (a # as) = (case ParseIP a of
     None \<Rightarrow> Some (Unparseable a)
   | Some ip \<Rightarrow> if blocked_ip ip then Some (BlockedAddress a) else CheckIPs as)"

text \<open>\<open>net.SplitHostPort\<close>: the last colon, behind a bracket or the only one.\<close>

definition SplitHostPort :: "string \<Rightarrow> (string \<times> string) option" where
  "SplitHostPort s =
     (case last_index_byte s (CHR '':'') of
        None \<Rightarrow> None
      | Some i \<Rightarrow>
          if has_prefix s ''['' then
            (case index_byte s (CHR '']'') of
               None \<Rightarrow> None
             | Some e \<Rightarrow>
                 if Suc e \<noteq> i then None
                 else let host = take (e - 1) (drop 1 s) in
                   if CHR ''['' \<in> set (drop 1 s) \<or> CHR '']'' \<in> set (drop (Suc e) s) then None
                   else Some (host, drop (Suc i) s))
          else
            let host = take i s in
            if CHR '':'' \<in> set host \<or> CHR ''['' \<in> set s \<or> CHR '']'' \<in> set s then None
            else Some (host, drop (Suc i) s))"

definition JoinHostPort :: "string \<Rightarrow> string \<Rightarrow> string" where
  "JoinHostPort host port = (if CHR '':'' \<in> set host then ''['' @ host @ '']:'' @ port else host @ '':'' @ port)"

text \<open>The dialer: it resolves once, checks every address, and connects to the first.\<close>

definition dial_safely :: "resolver \<Rightarrow> string \<Rightarrow> dial_error + string" where
  "dial_safely lookup addr =
     (case SplitHostPort addr of
        None \<Rightarrow> Inl BadAddress
      | Some (host, port) \<Rightarrow>
          (case lookup host of
             None \<Rightarrow> Inl Unresolvable
           | Some resolved \<Rightarrow>
               (case CheckIPs resolved of Some e \<Rightarrow> Inl e | None \<Rightarrow> Inr (JoinHostPort (hd resolved) port))))"

definition CheckRedirectHost :: "resolver \<Rightarrow> string \<Rightarrow> dial_error option" where
  "CheckRedirectHost lookup host =
     (let h = (case SplitHostPort host of Some (h, _) \<Rightarrow> h | None \<Rightarrow> host) in
      case lookup h of None \<Rightarrow> Some Unresolvable | Some addrs \<Rightarrow> CheckIPs addrs)"

section \<open>Ranges\<close>

text \<open>An address in the range of a prefix: whole bytes, and the first bits of the next.\<close>

definition in_prefix :: "nat list \<times> nat \<Rightarrow> nat list \<Rightarrow> bool" where
  "in_prefix p ip = (let k = snd p div 8; m = snd p mod 8 in
     take k ip = take k (fst p) \<and> (m \<noteq> 0 \<longrightarrow> ip ! k div 2 ^ (8 - m) = fst p ! k div 2 ^ (8 - m)))"

definition v4_range :: "nat list \<Rightarrow> nat \<Rightarrow> nat list \<times> nat" where
  "v4_range a n = (map_v4 a, 96 + n)"

definition blocked_ranges :: "(nat list \<times> nat) list" where
  "blocked_ranges =
     [v4_range [127, 0, 0, 0] 8, v4_range [10, 0, 0, 0] 8, v4_range [172, 16, 0, 0] 12, v4_range [192, 168, 0, 0] 16,
      v4_range [169, 254, 0, 0] 16, v4_range [224, 0, 0, 0] 24, v4_range [0, 0, 0, 0] 32,
      (replicate 15 0 @ [1], 128), (252 # replicate 15 0, 7), ([254, 128] @ replicate 14 0, 10), (replicate 16 0, 128)] @
     map (\<lambda>f. ([255, 16 * f + 2] @ replicate 14 0, 16)) [0..<16]"

definition is_address :: "nat list \<Rightarrow> bool" where
  "is_address ip = (length ip = 16 \<and> list_all (\<lambda>b. b < 256) ip)"

lemma v4_field_byte: "v4_field s = Some n \<Longrightarrow> n < 256"
  by (auto simp: v4_field_def Let_def split: if_splits)

lemma those_members: "those xs = Some ys \<Longrightarrow> length ys = length xs \<and> (\<forall>y \<in> set ys. Some y \<in> set xs)"
  by (induction xs arbitrary: ys) (auto split: option.splits)

lemma parse_v4_bytes: "parse_v4 s = Some a \<Longrightarrow> length a = 4 \<and> list_all (\<lambda>b. b < 256) a"
  by (auto simp: parse_v4_def Let_def list_all_iff split: if_splits dest!: those_members)
    (metis imageE v4_field_byte)

lemma hex_value_bound: "hex_digit c \<Longrightarrow> 0 \<le> hex_value c \<and> hex_value c < 16"
proof -
  assume "hex_digit c"
  then consider "is_digit c" | "\<not> is_digit c" "CHR ''a'' \<le> lower_char c" "lower_char c \<le> CHR ''f''"
    by (auto simp: hex_digit_def)
  then show ?thesis
  proof cases
    case 1
    then have "(of_char c :: nat) \<in> {48..57}" by (simp add: is_digit_def less_eq_char_def)
    moreover have "(of_char c :: int) = int (of_char c)" by (cases c) simp
    ultimately show ?thesis using 1 by (auto simp: hex_value_def digit_value_def)
  next
    case 2
    then have "(of_char (lower_char c) :: nat) \<in> {97..102}" by (simp add: less_eq_char_def)
    moreover have "(of_char (lower_char c) :: int) = int (of_char (lower_char c))" by (cases "lower_char c") simp
    ultimately show ?thesis using 2 by (auto simp: hex_value_def)
  qed
qed

lemma group_bound:
  assumes "list_all hex_digit g" "length g \<le> 4"
  shows "nat (base_value 16 g) div 256 < 256"
proof -
  have "0 \<le> foldl (\<lambda>n c. 16 * n + hex_value c) a g \<and> foldl (\<lambda>n c. 16 * n + hex_value c) a g < 16 ^ length g * (a + 1)"
    if "0 \<le> a" for a :: int
    using that assms(1)
  proof (induction g arbitrary: a)
    case (Cons c g)
    have h: "0 \<le> hex_value c" "hex_value c < 16" using Cons.prems(2) hex_value_bound by simp_all
    have "(16 :: int) ^ length g * (16 * a + hex_value c + 1) \<le> 16 ^ length g * (16 * (a + 1))"
      using h by (intro mult_left_mono) auto
    moreover have "(16 :: int) ^ length (c # g) * (a + 1) = 16 ^ length g * (16 * (a + 1))" by simp
    moreover have "0 \<le> foldl (\<lambda>n c. 16 * n + hex_value c) (16 * a + hex_value c) g \<and>
        foldl (\<lambda>n c. 16 * n + hex_value c) (16 * a + hex_value c) g < 16 ^ length g * (16 * a + hex_value c + 1)"
      using Cons.IH [of "16 * a + hex_value c"] Cons.prems h by simp
    ultimately show ?case by (intro conjI; simp only: foldl_Cons; linarith)
  qed simp
  from this [of 0] have "0 \<le> base_value 16 g" "base_value 16 g < 16 ^ length g" by (simp_all add: base_value_def)
  moreover have "(16 :: int) ^ length g \<le> 16 ^ 4" using assms(2) by (intro power_increasing) auto
  ultimately show ?thesis by simp
qed

lemma expand_v6_bytes: "expand_v6 bs el = Some ip \<Longrightarrow> list_all (\<lambda>b. b < 256) bs \<Longrightarrow> is_address ip"
  by (auto simp: expand_v6_def is_address_def list_all_iff split: option.splits if_splits)
    (meson in_set_takeD in_set_dropD)+

lemma v6_groups_bytes: "v6_groups n bs el s = Some ip \<Longrightarrow> list_all (\<lambda>b. b < 256) bs \<Longrightarrow> is_address ip"
proof (induction n arbitrary: bs el s)
  case 0
  then show ?case by (auto split: if_splits intro: expand_v6_bytes)
next
  case (Suc n)
  let ?g = "takeWhile hex_digit s" let ?v = "nat (base_value 16 ?g)" let ?r = "drop (length ?g) s"
  let ?bs = "bs @ [?v div 256, ?v mod 256]"
  have g: "?g \<noteq> []" "length ?g \<le> 4" using Suc.prems(1) by (auto simp: Let_def split: if_splits)
  have "?v div 256 < 256" using group_bound [of ?g] g by (auto simp: list_all_iff dest: set_takeWhileD)
  then have bs: "list_all (\<lambda>b. b < 256) ?bs" using Suc.prems(2) by simp
  show ?case
  proof (cases "has_prefix ?r ''.''")
    case True
    then obtain a where "parse_v4 s = Some a" "expand_v6 (bs @ a) el = Some ip"
      using Suc.prems(1) g by (auto simp: Let_def bind_eq_Some_conv split: if_splits)
    then show ?thesis using parse_v4_bytes Suc.prems(2) by (auto intro!: expand_v6_bytes)
  next
    case False
    show ?thesis
    proof (cases ?r)
      case Nil
      then show ?thesis using Suc.prems(1) False g bs by (auto simp: Let_def intro: expand_v6_bytes)
    next
      case (Cons c r')
      then consider el' where "expand_v6 ?bs el' = Some ip" | el' s' where "v6_groups n ?bs el' s' = Some ip"
        using Suc.prems(1) False g by (auto simp: Let_def split: if_splits)
      then show ?thesis using expand_v6_bytes [OF _ bs] Suc.IH [OF _ bs] by cases blast+
    qed
  qed
qed

lemma ParseIP_address: "ParseIP s = Some ip \<Longrightarrow> is_address ip"
proof -
  assume "ParseIP s = Some ip"
  then consider a where "parse_v4 s = Some a" "ip = map_v4 a" | "parse_v6 s = Some ip"
    by (auto simp: ParseIP_def split: list.splits if_splits)
  then show ?thesis
  proof cases
    case 1
    then show ?thesis using parse_v4_bytes [OF 1(1)] by (simp add: is_address_def map_v4_def list_all_iff)
  next
    case 2
    then show ?thesis by (auto simp: parse_v6_def is_address_def [of "replicate 16 0"] list_all_iff split: if_splits intro: v6_groups_bytes)
  qed
qed

text \<open>What is blocked is what lies in one of the ranges.\<close>

lemma sixteen:
  assumes "length ip = 16"
  obtains a b c d e f g h i j k l m n u v where "ip = [a, b, c, d, e, f, g, h, i, j, k, l, m, n, u, v]"
  using assms by (auto simp: numeral_eq_Suc length_Suc_conv)

lemma multicast_scope: "(x :: nat) < 256 \<Longrightarrow> x mod 16 = 2 \<longleftrightarrow> (\<exists>f<16. x = 16 * f + 2)"
proof (intro iffI)
  assume a: "x < 256" and "x mod 16 = 2"
  then have "x = 16 * (x div 16) + 2" using mult_div_mod_eq [of 16 x] by simp
  moreover have "x div 16 < 16" using a by (simp add: div_less_iff_less_mult)
  ultimately show "\<exists>f<16. x = 16 * f + 2" by blast
next
  assume "\<exists>f<16. x = 16 * f + 2"
  then obtain f where "x = 16 * f + 2" by blast
  then have "x mod 16 = (2 + 16 * f) mod 16" by (simp only: add.commute)
  then show "x mod 16 = 2" by (simp only: mod_mult_self2) simp
qed

lemma blocked_iff_range:
  assumes "is_address ip"
  shows "blocked_ip ip \<longleftrightarrow> list_ex (\<lambda>p. in_prefix p ip) blocked_ranges"
proof -
  obtain a b c d e f g h i j k l m n u v where ip: "ip = [a, b, c, d, e, f, g, h, i, j, k, l, m, n, u, v]" "b < 256"
    using assms sixteen [of ip] by (metis is_address_def list.pred_inject(2))
  have zeros: "replicate 10 (0 :: nat) = [0, 0, 0, 0, 0, 0, 0, 0, 0, 0]" by (simp add: numeral_eq_Suc)
  have tails: "replicate 14 (0 :: nat) = [0, 0, 0, 0] @ replicate 10 0" "replicate 15 (0 :: nat) = [0, 0, 0, 0, 0] @ replicate 10 0"
    "replicate 16 (0 :: nat) = [0, 0, 0, 0, 0, 0] @ replicate 10 0" by (simp_all add: numeral_eq_Suc)
  have scopes: "list_ex (\<lambda>p. in_prefix p ip) (map (\<lambda>f. ([255, 16 * f + 2] @ replicate 14 0, 16)) [0..<16]) \<longleftrightarrow>
      a = 255 \<and> b mod 16 = 2"
    using multicast_scope [OF ip(2)] by (auto simp: list_ex_iff in_prefix_def ip(1))
  show ?thesis unfolding blocked_ranges_def list_ex_append scopes
    by (auto simp: ip(1) blocked_ip_def v4_range_def map_v4_def in_prefix_def IsLoopback_def IsPrivate_def
        IsLinkLocalUnicast_def IsLinkLocalMulticast_def IsUnspecified_def to4_def zeros tails)
qed

lemma CheckIPs_None: "CheckIPs as = None \<longleftrightarrow> list_all (\<lambda>a. \<exists>ip. ParseIP a = Some ip \<and> \<not> blocked_ip ip) as"
  by (induction as) (auto split: option.splits)

text \<open>
  The dialer of the scrapers connects only to an address that it has checked itself: the first of
  one single lookup, every answer of which parses and lies outside all the blocked ranges
  (loopback, private, link-local and unspecified, in IPv4, IPv6 and the mapped form).
\<close>

theorem dial_only_public:
  assumes "dial_safely lookup addr = Inr target" "\<And>host. lookup host \<noteq> Some []"
  shows "\<exists>host port a as. SplitHostPort addr = Some (host, port) \<and> lookup host = Some (a # as) \<and>
    target = JoinHostPort a port \<and>
    list_all (\<lambda>b. \<exists>ip. ParseIP b = Some ip \<and> is_address ip \<and> \<not> list_ex (\<lambda>p. in_prefix p ip) blocked_ranges) (a # as)"
proof -
  obtain host port as where r: "SplitHostPort addr = Some (host, port)" "lookup host = Some as" "CheckIPs as = None"
    "target = JoinHostPort (hd as) port"
    using assms(1) by (auto simp: dial_safely_def split: option.splits prod.splits)
  obtain a as' where as: "as = a # as'" using r(2) assms(2) by (cases as) auto
  have "\<exists>ip. ParseIP b = Some ip \<and> is_address ip \<and> \<not> list_ex (\<lambda>p. in_prefix p ip) blocked_ranges" if "b \<in> set as" for b
    using r(3) that ParseIP_address blocked_iff_range unfolding CheckIPs_None list_all_iff by metis
  then show ?thesis using r as by (auto simp: list_all_iff)
qed

theorem dial_only_public_witness:
  "\<exists>ip. ParseIP ''93.184.216.34'' = Some ip \<and> \<not> list_ex (\<lambda>p. in_prefix p ip) blocked_ranges"
proof -
  let ?lookup = "\<lambda>_. Some [''93.184.216.34'']"
  have "dial_safely ?lookup ''a.io:443'' = Inr ''93.184.216.34:443''" by code_simp
  from dial_only_public [OF this] show ?thesis by (auto dest: arg_cong)
qed

text \<open>A redirect is followed only to a host all of whose addresses pass the same check.\<close>

lemma redirect_checked:
  "CheckRedirectHost lookup host = None \<Longrightarrow> \<exists>addrs. (lookup (case SplitHostPort host of Some (h, _) \<Rightarrow> h | None \<Rightarrow> host) = Some addrs) \<and>
    CheckIPs addrs = None"
  by (auto simp: CheckRedirectHost_def Let_def split: option.splits)

end
