(* ===== verification/Webhooks.thy ===== *)
theory Webhooks
  imports Auth_Handlers Catalog_Handlers Address_Check
begin

text \<open>
  Webhooks from registration to delivery: the store and the handlers of
  \<open>internal/api/handlers/webhooks.go\<close>, the secrets of \<open>internal/webhooks/webhooks.go\<close> and the delivery
  of \<open>internal/worker/webhook_handler.go\<close>. AES-GCM, the parser of URLs, the resolver and the
  destination's answers are parameters.
\<close>

section \<open>Secrets\<close>

text \<open>\<open>Seal\<close> and \<open>Open\<close> of AES-GCM: key, nonce and text.\<close>

record aead =
  ae_seal :: "string \<Rightarrow> string \<Rightarrow> string \<Rightarrow> string"
  ae_open :: "string \<Rightarrow> string \<Rightarrow> string \<Rightarrow> string option"

definition nonceSize :: nat where "nonceSize = 12"

definition aes_key :: "string \<Rightarrow> bool" where
  "aes_key key = (length key \<in> {16, 24, 32})"

text \<open>The world of the handlers: the database and the random source, which may fail.\<close>

record hook_world =
  hw_db :: pg
  hw_byte :: "nat \<Rightarrow> nat \<Rightarrow> char"
  hw_broken :: "nat \<Rightarrow> bool"
  hw_reads :: nat

definition rand_read :: "nat \<Rightarrow> hook_world \<Rightarrow> string option \<times> hook_world" where
  "rand_read n w =
     (if hw_broken w (hw_reads w) then None else Some (map (hw_byte w (hw_reads w)) [0..<n]),
      w\<lparr> hw_reads := Suc (hw_reads w) \<rparr>)"

definition encryptSecret :: "aead \<Rightarrow> string \<Rightarrow> string \<Rightarrow> hook_world \<Rightarrow> string option \<times> hook_world" where
  "encryptSecret ae plaintext key w =
     (if \<not> aes_key key then (None, w)
      else case rand_read nonceSize w of
        (None, w1) \<Rightarrow> (None, w1)
      | (Some nonce, w1) \<Rightarrow> (Some (hex_encode (nonce @ ae_seal ae key nonce plaintext)), w1))"

definition decryptSecret :: "aead \<Rightarrow> string \<Rightarrow> string \<Rightarrow> string option" where
  "decryptSecret ae encHex key =
     (case hex_decode encHex of
        None \<Rightarrow> None
      | Some data \<Rightarrow>
          if \<not> aes_key key \<or> length data < nonceSize then None
          else ae_open ae key (take nonceSize data) (drop nonceSize data))"

definition hex_key :: "string \<Rightarrow> string option" where
  "hex_key hexKey = (case hex_decode hexKey of
     Some key \<Rightarrow> if length key = 32 then Some key else None | None \<Rightarrow> None)"

definition resolveWebhookKey :: "string \<Rightarrow> hook_world \<Rightarrow> string option \<times> hook_world" where
  "resolveWebhookKey hexKey w = (if hexKey = [] then rand_read 32 w else (hex_key hexKey, w))"

text \<open>The API's and the worker's reading of a stored secret; \<open>None\<close> is a key that is no key.\<close>

definition DecryptWebhookSecret :: "aead \<Rightarrow> string \<Rightarrow> string \<Rightarrow> string option" where
  "DecryptWebhookSecret ae encSecret hexKey =
     (if hexKey = [] then Some encSecret
      else case hex_key hexKey of
        None \<Rightarrow> None
      | Some key \<Rightarrow> (case decryptSecret ae encSecret key of Some p \<Rightarrow> Some p | None \<Rightarrow> Some encSecret))"

definition DecryptSecret :: "aead \<Rightarrow> string \<Rightarrow> string \<Rightarrow> string option" where
  "DecryptSecret ae encSecret hexKey =
     (if hexKey = [] then Some encSecret
      else case hex_key hexKey of
        None \<Rightarrow> None
      | Some key \<Rightarrow>
          (case hex_decode encSecret of
             None \<Rightarrow> Some encSecret
           | Some data \<Rightarrow>
               if length data < nonceSize then Some encSecret
               else case ae_open ae key (take nonceSize data) (drop nonceSize data) of
                      None \<Rightarrow> Some encSecret
                    | Some plaintext \<Rightarrow> Some plaintext))"

section \<open>URLs\<close>

text \<open>
  \<open>url.Parse\<close> down to the host name, \<open>url.ParseRequestURI\<close> down to an error's text or the scheme,
  \<open>LookupHost\<close>, and the quoting of \<open>%q\<close>.
\<close>

record network =
  nt_hostname :: "string \<Rightarrow> string option"
  nt_request_uri :: "string \<Rightarrow> string + string"
  nt_lookup :: resolver
  nt_quote :: "string \<Rightarrow> string"

text \<open>The refusal of a URL; an address that does not parse is passed over.\<close>

definition isWebhookURLSafe :: "network \<Rightarrow> string \<Rightarrow> string option" where
  "isWebhookURLSafe nt rawURL =
     (case nt_hostname nt rawURL of
        None \<Rightarrow> Some ''invalid URL''
      | Some host \<Rightarrow>
          if host = [] then Some ''missing hostname''
          else let addrs = (case nt_lookup nt host of None \<Rightarrow> [] | Some as \<Rightarrow> as) in
          if addrs = [] then Some (''could not resolve hostname '' @ nt_quote nt host)
          else if list_ex (\<lambda>a. case ParseIP a of None \<Rightarrow> False | Some ip \<Rightarrow> blocked_ip ip) addrs
          then Some ''webhook URL resolves to a private or loopback address''
          else None)"

section \<open>The store\<close>

datatype hook_error = ErrWebhookNotFound | ErrWebhookLimitReached | HookDb db_error

record WebhookRecord =
  wr_ID :: string
  wr_URL :: string
  wr_CreatedAt :: instant

definition maxWebhooksPerKey :: nat where "maxWebhooksPerKey = 5"

definition active_hook :: "string \<Rightarrow> hook_row \<Rightarrow> bool" where
  "active_hook hash h = (wh_APIKeyHash (hk_row h) = hash \<and> hk_deleted_at h = None)"

definition active_hooks :: "string \<Rightarrow> tables \<Rightarrow> hook_row list" where
  "active_hooks hash t = filter (active_hook hash) (t_webhooks t)"

text \<open>The insert under the cap; at the cap it inserts, and returns, no row.\<close>

definition insert_hook :: "WebhookRow \<Rightarrow> tables \<Rightarrow> db_error + (unit \<times> tables)" where
  "insert_hook row t =
     (if length (active_hooks (wh_APIKeyHash row) t) < maxWebhooksPerKey then
        (if wh_ID row \<in> set (map (\<lambda>h. wh_ID (hk_row h)) (t_webhooks t)) then Inl (DbUnique ''webhooks_pkey'')
         else Inr ((), t\<lparr> t_webhooks := t_webhooks t @ [\<lparr> hk_row = row, hk_deleted_at = None \<rparr>] \<rparr>))
      else Inl DbNoRows)"

text \<open>The advisory lock serialises the registrations of a key; here it is a statement that may fail.\<close>

definition create_tx :: "string \<Rightarrow> string \<Rightarrow> string \<Rightarrow> WebhookRecord db" where
  "create_tx hash url secret =
     transaction (\<lambda>now. db_bind (stmt (\<lambda>t. Inr ((), t))) (\<lambda>_ db.
       let row = \<lparr> wh_ID = pg_uuid db (pg_count db), wh_APIKeyHash = hash, wh_URL = url, wh_Secret = secret \<rparr> in
       db_bind (stmt (insert_hook row))
         (\<lambda>_. db_return \<lparr> wr_ID = wh_ID row, wr_URL = url, wr_CreatedAt = now \<rparr>) db))"

definition CreateWebhook :: "string \<Rightarrow> string \<Rightarrow> string \<Rightarrow> pg \<Rightarrow> (hook_error + WebhookRecord) \<times> pg" where
  "CreateWebhook hash url secret db =
     (case create_tx hash url secret db of
        (Inl DbNoRows, db1) \<Rightarrow> (Inl ErrWebhookLimitReached, db1)
      | (Inl e, db1) \<Rightarrow> (Inl (HookDb e), db1)
      | (Inr rec, db1) \<Rightarrow> (Inr rec, db1))"

text \<open>
  The driver reads the id as a UUID, with or without dashes, before anything is sent; any other
  text is an error of its own.
\<close>

definition undash :: "string \<Rightarrow> string option" where
  "undash s = (if length s = 36 then Some (take 8 s @ take 4 (drop 9 s) @ take 4 (drop 14 s) @ take 4 (drop 19 s) @ drop 24 s)
     else if length s = 32 then Some s else None)"

definition uuid_text :: "string \<Rightarrow> string option" where
  "uuid_text s = Option.bind (Option.bind (undash s) hex_decode) (\<lambda>b. let h = hex_encode b in
     Some (take 8 h @ ''-'' @ take 4 (drop 8 h) @ ''-'' @ take 4 (drop 12 h) @ ''-'' @ take 4 (drop 16 h) @ ''-'' @ drop 20 h))"

definition delete_hook :: "string \<Rightarrow> string \<Rightarrow> instant \<Rightarrow> tables \<Rightarrow> db_error + (nat \<times> tables)" where
  "delete_hook i hash now t =
     (let hit = (\<lambda>h. wh_ID (hk_row h) = i \<and> active_hook hash h)
      in Inr (length (filter hit (t_webhooks t)),
              t\<lparr> t_webhooks := map (\<lambda>h. if hit h then h\<lparr> hk_deleted_at := Some now \<rparr> else h) (t_webhooks t) \<rparr>))"

definition DeleteWebhook :: "string \<Rightarrow> string \<Rightarrow> pg \<Rightarrow> (hook_error + unit) \<times> pg" where
  "DeleteWebhook i hash db =
     (case uuid_text i of
        None \<Rightarrow> (Inl (HookDb DbConstraint), db)
      | Some u \<Rightarrow>
          (case at_clock (\<lambda>now. stmt (delete_hook u hash now)) db of
             (Inl e, db1) \<Rightarrow> (Inl (HookDb e), db1)
           | (Inr n, db1) \<Rightarrow> (if n = 0 then Inl ErrWebhookNotFound else Inr (), db1)))"

section \<open>The handlers\<close>

text \<open>Of a request: the URL of its body, \<open>None\<close> when the body does not parse, the id of its path, and the key's hash.\<close>

record hook_request =
  hq_URL :: "string option"
  hq_ID :: string
  hq_KeyHash :: string

record WebhookHandler =
  wk_secretKey :: string
  wk_urlValidator :: "(string \<Rightarrow> string option) option"

definition api_Created :: "formats \<Rightarrow> json option \<Rightarrow> TrustMeta \<Rightarrow> outcome" where
  "api_Created fm data meta =
     (let r = new_response\<lparr> rs_Status := 201 \<rparr> in
      case envelope fm data meta of None \<Rightarrow> (Some OtherError, r) | Some v \<Rightarrow> (None, send_json v r))"

definition created_json :: "formats \<Rightarrow> WebhookRecord \<Rightarrow> string \<Rightarrow> json option" where
  "created_json fm rec secret = members [(''id'', json_text (wr_ID rec)), (''url'', json_text (wr_URL rec)),
     (''created_at'', fm_json_time fm (wr_CreatedAt rec)), (''secret'', json_text secret)]"

definition limit_problem :: ProblemDetail where
  "limit_problem = (NewConflict (''this API key already has the maximum of '' @ itoa (int maxWebhooksPerKey) @
      '' active webhooks; delete one before registering another''))
     \<lparr> pd_Extensions := [(''max_webhooks'', json_int (int maxWebhooksPerKey))] \<rparr>"

definition check_url :: "network \<Rightarrow> WebhookHandler \<Rightarrow> hook_request \<Rightarrow> ProblemDetail + string" where
  "check_url nt h q =
     (case hq_URL q of
        None \<Rightarrow> Inl (NewBadRequest ''request body must be valid JSON with a 'url' field'')
      | Some url \<Rightarrow>
          if url = [] then Inl (NewBadRequest ''url is required'')
          else case nt_request_uri nt url of
            Inl err \<Rightarrow> Inl (NewBadRequest (''invalid url: '' @ err))
          | Inr scheme \<Rightarrow>
              if scheme \<noteq> ''https'' then Inl (NewBadRequest ''url scheme must be https'')
              else case (case wk_urlValidator h of None \<Rightarrow> isWebhookURLSafe nt url | Some v \<Rightarrow> v url) of
                Some err \<Rightarrow> Inl (NewBadRequest (''url rejected: '' @ err))
              | None \<Rightarrow> Inr url)"

text \<open>The new secret in hex and the form of it to store.\<close>

definition new_secret :: "aead \<Rightarrow> WebhookHandler \<Rightarrow> hook_world \<Rightarrow> (ProblemDetail + string \<times> string) \<times> hook_world" where
  "new_secret ae h w =
     (case rand_read 32 w of
        (None, w1) \<Rightarrow> (Inl (NewInternalError ''failed to generate webhook secret''), w1)
      | (Some raw, w1) \<Rightarrow>
          let plain = hex_encode raw in
          if length (wk_secretKey h) = 32 then
            (case encryptSecret ae plain (wk_secretKey h) w1 of
               (None, w2) \<Rightarrow> (Inl (NewInternalError ''failed to encrypt webhook secret''), w2)
             | (Some enc, w2) \<Rightarrow> (Inr (plain, enc), w2))
          else (Inr (plain, plain), w1))"

definition h_CreateWebhook :: "formats \<Rightarrow> aead \<Rightarrow> network \<Rightarrow> WebhookHandler \<Rightarrow> hook_request \<Rightarrow> hook_world \<Rightarrow> outcome \<times> hook_world" where
  "h_CreateWebhook fm ae nt h q w =
     (case check_url nt h q of
        Inl p \<Rightarrow> (problem p, w)
      | Inr url \<Rightarrow>
          (case new_secret ae h w of
             (Inl p, w1) \<Rightarrow> (problem p, w1)
           | (Inr (plain, stored), w1) \<Rightarrow>
               (case CreateWebhook (hq_KeyHash q) url stored (hw_db w1) of (res, db) \<Rightarrow>
                let w2 = w1\<lparr> hw_db := db \<rparr> in
                case res of
                  Inl ErrWebhookLimitReached \<Rightarrow> (problem limit_problem, w2)
                | Inl _ \<Rightarrow> (problem (NewInternalError ''failed to register webhook''), w2)
                | Inr rec \<Rightarrow> (api_Created fm (created_json fm rec plain) zero_meta, w2))))"

definition h_DeleteWebhook :: "hook_request \<Rightarrow> hook_world \<Rightarrow> outcome \<times> hook_world" where
  "h_DeleteWebhook q w =
     (if hq_ID q = [] then (problem (NewBadRequest ''webhook id is required''), w)
      else case DeleteWebhook (hq_ID q) (hq_KeyHash q) (hw_db w) of (res, db) \<Rightarrow>
        (let w1 = w\<lparr> hw_db := db \<rparr> in
         case res of
           Inl ErrWebhookNotFound \<Rightarrow> (problem (NewNotFound ''webhook not found or not owned by this API key''), w1)
         | Inl _ \<Rightarrow> (problem (NewInternalError ''failed to delete webhook''), w1)
         | Inr _ \<Rightarrow> ((None, new_response\<lparr> rs_Status := 204, rs_Body := ''No Content'' \<rparr>), w1)))"

section \<open>Tasks\<close>

definition payload_members :: "formats \<Rightarrow> Payload \<Rightarrow> (string \<times> json option) list" where
  "payload_members fm p = [(''model_id'', json_int (pl_ModelID p)), (''provider'', json_text (pl_Provider p)),
     (''old_price_input'', json_float fm (pl_OldPriceInput p)), (''old_price_output'', json_float fm (pl_OldPriceOutput p)),
     (''new_price_input'', json_float fm (pl_NewPriceInput p)), (''new_price_output'', json_float fm (pl_NewPriceOutput p)),
     (''confirmed_at'', fm_json_time fm (pl_ConfirmedAt p)), (''source'', json_text (pl_Source p))]"

definition event_bytes :: "formats \<Rightarrow> Payload \<Rightarrow> string option" where
  "event_bytes fm p = map_option json_print (members (payload_members fm p))"

definition task_json :: "formats \<Rightarrow> TaskPayload \<Rightarrow> json option" where
  "task_json fm t = members [(''webhook_id'', json_text (tp_WebhookID t)), (''url'', json_text (tp_URL t)),
     (''secret'', json_text (tp_Secret t)), (''event'', members (payload_members fm (tp_Event t)))]"

definition task_bytes :: "formats \<Rightarrow> TaskPayload \<Rightarrow> string option" where
  "task_bytes fm t = map_option json_print (task_json fm t)"

text \<open>A member of type \<open>time.Time\<close>.\<close>

definition time_field :: "formats \<Rightarrow> string \<Rightarrow> (string \<times> json) list \<Rightarrow> instant option" where
  "time_field fm name ms = foldl (\<lambda>acc v. case (acc, v) of (Some _, JStr s) \<Rightarrow> fm_parse fm RFC3339 s | _ \<Rightarrow> None)
     (Some (tm_ConfirmedAt zero_meta)) (field_values name ms)"

definition event_of :: "formats \<Rightarrow> (string \<times> json) list \<Rightarrow> Payload option" where
  "event_of fm ms =
     (case (int_field ''model_id'' ms, str_field ''provider'' ms, str_field ''source'' ms, time_field fm ''confirmed_at'' ms) of
        (Some i, Some p, Some s, Some t) \<Rightarrow>
          (case (float_field ''old_price_input'' ms, float_field ''old_price_output'' ms,
                 float_field ''new_price_input'' ms, float_field ''new_price_output'' ms) of
             (Some a, Some b, Some c, Some d) \<Rightarrow>
               Some \<lparr> pl_ModelID = i, pl_Provider = p, pl_OldPriceInput = a, pl_OldPriceOutput = b,
                      pl_NewPriceInput = c, pl_NewPriceOutput = d, pl_ConfirmedAt = t, pl_Source = s \<rparr>
           | _ \<Rightarrow> None)
      | _ \<Rightarrow> None)"

definition task_of :: "formats \<Rightarrow> string \<Rightarrow> TaskPayload option" where
  "task_of fm bytes =
     (case struct_members bytes of None \<Rightarrow> None | Some ms \<Rightarrow>
      case (str_field ''webhook_id'' ms, str_field ''url'' ms, str_field ''secret'' ms,
            Option.bind (sub_struct ''event'' ms) (event_of fm)) of
        (Some i, Some u, Some s, Some e) \<Rightarrow> Some \<lparr> tp_WebhookID = i, tp_URL = u, tp_Secret = s, tp_Event = e \<rparr>
      | _ \<Rightarrow> None)"

section \<open>Delivery\<close>

record post =
  po_URL :: string
  po_Headers :: "(string \<times> string) list"
  po_Body :: string

datatype delivery = Delivered post | Refused post int | NoAnswer post | NotSent

definition signature_of :: "string \<Rightarrow> string \<Rightarrow> string" where
  "signature_of secret body = ''sha256='' @ hex_encode (hmac_sha256 secret body)"

definition delivery_post :: "string \<Rightarrow> string \<Rightarrow> string \<Rightarrow> post" where
  "delivery_post url secret body =
     \<lparr> po_URL = url,
       po_Headers = [(''Content-Type'', ''application/json''), (''X-LLMPricing-Signature'', signature_of secret body)],
       po_Body = body \<rparr>"

text \<open>\<open>dest\<close> is what a request comes to: a status, or no answer.\<close>

definition send_post :: "(post \<Rightarrow> int option) \<Rightarrow> post \<Rightarrow> delivery" where
  "send_post dest p =
     (case dest p of
        None \<Rightarrow> NoAnswer p
      | Some status \<Rightarrow> if status < 200 \<or> 300 \<le> status then Refused p status else Delivered p)"

text \<open>
  One run of a task. \<open>NewRequest\<close> refuses a URL that does not parse. Everything but \<open>Delivered\<close>
  is an error, on which the queue tries again.
\<close>

definition Handle :: "formats \<Rightarrow> aead \<Rightarrow> (string \<Rightarrow> bool) \<Rightarrow> string \<Rightarrow> (post \<Rightarrow> int option) \<Rightarrow> string \<Rightarrow> delivery" where
  "Handle fm ae url_ok secretKey dest task =
     (case task_of fm task of
        None \<Rightarrow> NotSent
      | Some payload \<Rightarrow>
          (case DecryptSecret ae (tp_Secret payload) secretKey of
             None \<Rightarrow> NotSent
           | Some plainSecret \<Rightarrow>
               (case event_bytes fm (tp_Event payload) of
                  None \<Rightarrow> NotSent
                | Some eventJSON \<Rightarrow>
                    if \<not> url_ok (tp_URL payload) then NotSent
                    else send_post dest (delivery_post (tp_URL payload) plainSecret eventJSON))))"

end
