(* ===== verification/Webhook_Guarantees.thy ===== *)
theory Webhook_Guarantees
  imports Webhooks Traces Reconciler
begin

text \<open>
  What the webhooks promise: the cap and the isolation of the keys over every run of requests, and
  that a delivery carries the signature its receiver can check.
\<close>

section \<open>Runs of requests\<close>

datatype hook_op = Register hook_request | Remove hook_request

definition serve_hook :: "formats \<Rightarrow> aead \<Rightarrow> network \<Rightarrow> WebhookHandler \<Rightarrow> hook_op \<Rightarrow> hook_world \<Rightarrow> outcome \<times> hook_world" where
  "serve_hook fm ae nt h op = (case op of Register q \<Rightarrow> h_CreateWebhook fm ae nt h q | Remove q \<Rightarrow> h_DeleteWebhook q)"

definition op_key :: "hook_op \<Rightarrow> string" where
  "op_key op = (case op of Register q \<Rightarrow> hq_KeyHash q | Remove q \<Rightarrow> hq_KeyHash q)"

definition hook_ids :: "tables \<Rightarrow> string list" where
  "hook_ids t = map (\<lambda>h. wh_ID (hk_row h)) (t_webhooks t)"

definition hooks_of :: "string \<Rightarrow> tables \<Rightarrow> hook_row list" where
  "hooks_of k t = filter (\<lambda>h. wh_APIKeyHash (hk_row h) = k) (t_webhooks t)"

definition hook_rows :: "tables \<Rightarrow> WebhookRow list" where
  "hook_rows t = map hk_row (t_webhooks t)"

text \<open>
  What requests for the keys \<open>K\<close> may do to the table, where \<open>ok\<close> tells the pairs of a key and a URL
  that may be registered.
\<close>

definition hooks_move :: "(string \<Rightarrow> string \<Rightarrow> bool) \<Rightarrow> string set \<Rightarrow> tables \<Rightarrow> tables \<Rightarrow> bool" where
  "hooks_move ok K t t' \<longleftrightarrow>
     t'\<lparr> t_webhooks := [] \<rparr> = t\<lparr> t_webhooks := [] \<rparr> \<and>
     (\<forall>k. length (active_hooks k t) \<le> maxWebhooksPerKey \<longrightarrow> length (active_hooks k t') \<le> maxWebhooksPerKey) \<and>
     (distinct (hook_ids t) \<longrightarrow> distinct (hook_ids t')) \<and>
     (\<forall>k. k \<notin> K \<longrightarrow> hooks_of k t' = hooks_of k t) \<and>
     (\<exists>new. hook_rows t' = hook_rows t @ new \<and> (\<forall>r \<in> set new. ok (wh_APIKeyHash r) (wh_URL r)))"

interpretation hooks: table_preorder "hooks_move ok K" for ok K
proof
  show "hooks_move ok K t t" for t by (simp add: hooks_move_def)
next
  fix a b c
  assume 1: "hooks_move ok K a b" and 2: "hooks_move ok K b c"
  obtain m where m: "hook_rows b = hook_rows a @ m" "\<forall>r \<in> set m. ok (wh_APIKeyHash r) (wh_URL r)"
    using 1 by (auto simp: hooks_move_def)
  obtain n where n: "hook_rows c = hook_rows b @ n" "\<forall>r \<in> set n. ok (wh_APIKeyHash r) (wh_URL r)"
    using 2 by (auto simp: hooks_move_def)
  have "\<exists>new. hook_rows c = hook_rows a @ new \<and> (\<forall>r \<in> set new. ok (wh_APIKeyHash r) (wh_URL r))"
    using m n by (intro exI [of _ "m @ n"]) auto
  then show "hooks_move ok K a c" using 1 2 unfolding hooks_move_def by simp
qed

lemma insert_hook_move:
  assumes "insert_hook row t = Inr (x, t')" "ok (wh_APIKeyHash row) (wh_URL row)" "wh_APIKeyHash row \<in> K"
  shows "hooks_move ok K t t'"
  using assms
  by (auto simp: hooks_move_def insert_hook_def active_hooks_def active_hook_def hook_ids_def hooks_of_def hook_rows_def
      split: if_splits)

lemma delete_hook_move:
  assumes "delete_hook i hash now t = Inr (n, t')" "hash \<in> K"
  shows "hooks_move ok K t t'"
proof -
  let ?f = "\<lambda>h. if wh_ID (hk_row h) = i \<and> active_hook hash h then h\<lparr> hk_deleted_at := Some now \<rparr> else h"
  have t': "t' = t\<lparr> t_webhooks := map ?f (t_webhooks t) \<rparr>" using assms(1) by (auto simp: delete_hook_def Let_def)
  have len: "length (filter (active_hook k) (map ?f hs)) \<le> length (filter (active_hook k) hs)" for k hs
    by (induction hs) (auto simp: active_hook_def)
  have other: "filter (\<lambda>h. wh_APIKeyHash (hk_row h) = k) (map ?f hs) = filter (\<lambda>h. wh_APIKeyHash (hk_row h) = k) hs"
    if "k \<notin> K" for k hs
    using that assms(2) by (induction hs) (auto simp: active_hook_def)
  have rows: "map hk_row (map ?f hs) = map hk_row hs" for hs by (induction hs) auto
  then have ids: "map (\<lambda>h. wh_ID (hk_row h)) (map ?f hs) = map (\<lambda>h. wh_ID (hk_row h)) hs" for hs by (induction hs) auto
  show ?thesis unfolding hooks_move_def t' active_hooks_def hook_ids_def hooks_of_def hook_rows_def
    using assms(2) le_trans [OF len] by (auto simp: other rows ids simp del: map_map list.map_comp if_split)
qed

lemma CreateWebhook_moves:
  assumes "CreateWebhook hash url secret db = (r, db')" "ok hash url" "hash \<in> K"
  shows "hooks_move ok K (pg_tables db) (pg_tables db')"
proof -
  have "moves (hooks_move ok K) (create_tx hash url secret)"
    unfolding create_tx_def Let_def
    by (intro hooks.moves_transaction hooks.moves_bind hooks.moves_stmt, simp add: hooks.refl)
      (rule moves_at, intro hooks.rules, rule insert_hook_move, auto simp: assms)
  moreover have "db' = snd (create_tx hash url secret db)"
    using assms(1) by (auto simp: CreateWebhook_def split: prod.splits sum.splits db_error.splits)
  ultimately show ?thesis by (simp add: moves_def)
qed

lemma DeleteWebhook_moves:
  assumes "DeleteWebhook i hash db = (r, db')" "hash \<in> K"
  shows "hooks_move ok K (pg_tables db) (pg_tables db')"
proof -
  have "moves (hooks_move ok K) (at_clock (\<lambda>now. stmt (delete_hook u hash now)))" for u
    by (intro hooks.rules) (rule delete_hook_move [OF _ assms(2)])
  moreover have "db' = db \<or> (\<exists>u. db' = snd (at_clock (\<lambda>now. stmt (delete_hook u hash now)) db))"
    using assms(1) by (auto simp: DeleteWebhook_def split: option.splits prod.splits sum.splits) (metis snd_conv)+
  ultimately show ?thesis using hooks.refl by (auto simp: moves_def)
qed

lemma rand_read_db [simp]: "hw_db (snd (rand_read n w)) = hw_db w"
  by (simp add: rand_read_def)

lemma rand_read_frame: "rand_read n w = (r, w') \<Longrightarrow> hw_db w' = hw_db w"
  using rand_read_db by (metis snd_conv)

lemma new_secret_frame: "new_secret ae h w = (r, w') \<Longrightarrow> hw_db w' = hw_db w"
  by (auto simp: new_secret_def encryptSecret_def Let_def dest!: rand_read_frame split: prod.splits option.splits if_splits)

definition registers :: "network \<Rightarrow> WebhookHandler \<Rightarrow> hook_op list \<Rightarrow> string \<Rightarrow> string \<Rightarrow> bool" where
  "registers nt h ops k u \<longleftrightarrow> (\<exists>q. Register q \<in> set ops \<and> hq_KeyHash q = k \<and> check_url nt h q = Inr u)"

lemma serve_hook_move:
  assumes "serve_hook fm ae nt h op w = (a, w')" "op \<in> set ops"
  shows "hooks_move (registers nt h ops) (op_key ` set ops) (pg_tables (hw_db w)) (pg_tables (hw_db w'))"
proof (cases op)
  case (Register q)
  then have run: "h_CreateWebhook fm ae nt h q w = (a, w')" using assms(1) by (simp add: serve_hook_def)
  show ?thesis
  proof (cases "check_url nt h q")
    case (Inr url)
    obtain res w1 where w1: "new_secret ae h w = (res, w1)" "hw_db w1 = hw_db w"
      using new_secret_frame by (metis prod.exhaust)
    have ok: "registers nt h ops (hq_KeyHash q) url" "hq_KeyHash q \<in> op_key ` set ops"
      using assms(2) Register Inr by (auto simp: registers_def op_key_def image_iff intro!: bexI)
    show ?thesis
    proof (cases res)
      case (Inr s)
      obtain r db where c: "CreateWebhook (hq_KeyHash q) url (snd s) (hw_db w) = (r, db)" by fastforce
      have "w' = w1\<lparr> hw_db := db \<rparr>" using run w1 c Inr \<open>check_url nt h q = _\<close>
        by (cases s) (auto simp: h_CreateWebhook_def Let_def split: sum.splits hook_error.splits)
      then show ?thesis using CreateWebhook_moves [where ok = "registers nt h ops", OF c ok] by simp
    qed (use run w1 Inr in \<open>auto simp: h_CreateWebhook_def hooks.refl\<close>)
  qed (use run in \<open>auto simp: h_CreateWebhook_def hooks.refl\<close>)
next
  case (Remove q)
  have key: "hq_KeyHash q \<in> op_key ` set ops" using assms(2) Remove by (auto simp: op_key_def image_iff intro!: bexI)
  obtain r db where c: "DeleteWebhook (hq_ID q) (hq_KeyHash q) (hw_db w) = (r, db)" by fastforce
  have "w' = w \<or> w' = w\<lparr> hw_db := db \<rparr>" using assms(1) Remove c
    by (auto simp: serve_hook_def h_DeleteWebhook_def Let_def split: if_splits sum.splits hook_error.splits)
  then show ?thesis using DeleteWebhook_moves [OF c key] hooks.refl by auto
qed

lemma run_all_invariant_on:
  assumes "P s" "\<And>q s a s'. q \<in> set qs \<Longrightarrow> P s \<Longrightarrow> step q s = (a, s') \<Longrightarrow> P s'" "run_all step qs s = (as, s')"
  shows "P s'"
  using assms
proof (induction qs arbitrary: s as)
  case (Cons q qs)
  obtain a s1 as' where r: "step q s = (a, s1)" "run_all step qs s1 = (as', s')"
    using run_all_Cons [OF Cons.prems(3)] .
  have "P s1" using Cons.prems(1,2) r(1) by (meson list.set_intros(1))
  then show ?case using Cons.IH [OF _ _ r(2)] Cons.prems(2) by (meson list.set_intros(2))
qed simp

text \<open>
  Over every run of registrations and removals, whatever the database and the random source do,
  each key keeps at most five active webhooks, the rows of keys that make no request stay as they
  are, no other table changes, no row is lost, and each new row holds a URL that its key asked for
  and that the checks accepted.
\<close>

theorem webhooks_capped:
  assumes "run_all (serve_hook fm ae nt h) ops w = (as, w')"
    and "t = pg_tables (hw_db w)" "t' = pg_tables (hw_db w')"
    and "\<forall>k. length (active_hooks k t) \<le> maxWebhooksPerKey"
  shows "(\<forall>k. length (active_hooks k t') \<le> maxWebhooksPerKey) \<and>
    (\<forall>k. k \<notin> op_key ` set ops \<longrightarrow> hooks_of k t' = hooks_of k t) \<and>
    t'\<lparr> t_webhooks := [] \<rparr> = t\<lparr> t_webhooks := [] \<rparr> \<and>
    (\<exists>new. hook_rows t' = hook_rows t @ new \<and>
       (\<forall>r \<in> set new. \<exists>q. Register q \<in> set ops \<and> hq_KeyHash q = wh_APIKeyHash r \<and> check_url nt h q = Inr (wh_URL r)))"
proof -
  let ?R = "\<lambda>w1. hooks_move (registers nt h ops) (op_key ` set ops) t (pg_tables (hw_db w1))"
  have "?R w" using assms(2) hooks.refl by simp
  moreover have "?R w2" if "op \<in> set ops" "?R w1" "serve_hook fm ae nt h op w1 = (a, w2)" for op w1 a w2
    by (rule hooks.trans [OF that(2) serve_hook_move [OF that(3,1)]])
  ultimately have "?R w'" using run_all_invariant_on [of ?R w ops] assms(1) by blast
  then show ?thesis using assms(3,4) by (auto simp: hooks_move_def registers_def)
qed

section \<open>What is stored\<close>

lemma create_tx_Inr:
  assumes "create_tx hash url secret db = (Inr rec, db')"
  obtains i where "t_webhooks (pg_tables db') = t_webhooks (pg_tables db) @
      [\<lparr> hk_row = \<lparr> wh_ID = i, wh_APIKeyHash = hash, wh_URL = url, wh_Secret = secret \<rparr>, hk_deleted_at = None \<rparr>]"
    "wr_ID rec = i" "wr_URL rec = url" "i \<in> range (pg_uuid db)"
proof -
  obtain d1 d2 d3 d4 row now where d: "pg_same db d1" "stmt (\<lambda>t. Inr ((), t)) d1 = (Inr (), d3)"
      "row = \<lparr> wh_ID = pg_uuid d3 (pg_count d3), wh_APIKeyHash = hash, wh_URL = url, wh_Secret = secret \<rparr>"
      "stmt (insert_hook row) d3 = (Inr (), d2)" "rec = \<lparr> wr_ID = wh_ID row, wr_URL = url, wr_CreatedAt = now \<rparr>"
      "pg_same d2 db'"
    using assms unfolding create_tx_def
    by (elim transaction_Inr) (auto simp: db_bind_Inr db_return_def Let_def)
  have "insert_hook row (pg_tables db) = Inr ((), pg_tables db')"
    using stmt_Inr [OF d(2)] stmt_Inr [OF d(4)] d(1,6) by (simp add: pg_same_def)
  then have "t_webhooks (pg_tables db') = t_webhooks (pg_tables db) @ [\<lparr> hk_row = row, hk_deleted_at = None \<rparr>]"
    by (auto simp: insert_hook_def split: if_splits dest!: sym [of _ "pg_tables db'"])
  moreover have "pg_uuid d3 = pg_uuid db" using stmt_Inr [OF d(2)] d(1) by (simp add: pg_same_def pg_frame_def)
  ultimately show thesis using that [of "wh_ID row"] d(3,5) by simp
qed

lemma h_CreateWebhook_stores:
  assumes "h_CreateWebhook fm ae nt h q w = ((None, r), w')"
  obtains url plain stored w1 i rec where "check_url nt h q = Inr url" "new_secret ae h w = (Inr (plain, stored), w1)"
    "t_webhooks (pg_tables (hw_db w')) = t_webhooks (pg_tables (hw_db w)) @
      [\<lparr> hk_row = \<lparr> wh_ID = i, wh_APIKeyHash = hq_KeyHash q, wh_URL = url, wh_Secret = stored \<rparr>, hk_deleted_at = None \<rparr>]"
    "wr_ID rec = i" "wr_URL rec = url" "i \<in> range (pg_uuid (hw_db w))" "api_Created fm (created_json fm rec plain) zero_meta = (None, r)"
proof -
  obtain url plain stored w1 rec db where
    run: "check_url nt h q = Inr url" "new_secret ae h w = (Inr (plain, stored), w1)"
      "CreateWebhook (hq_KeyHash q) url stored (hw_db w1) = (Inr rec, db)" "w' = w1\<lparr> hw_db := db \<rparr>"
      "api_Created fm (created_json fm rec plain) zero_meta = (None, r)"
    using assms by (auto simp: h_CreateWebhook_def problem_def Let_def split: sum.splits prod.splits hook_error.splits)
  then have "create_tx (hq_KeyHash q) url stored (hw_db w1) = (Inr rec, db)"
    by (auto simp: CreateWebhook_def split: prod.splits sum.splits db_error.splits)
  then obtain i where "t_webhooks (pg_tables db) = t_webhooks (pg_tables (hw_db w1)) @
      [\<lparr> hk_row = \<lparr> wh_ID = i, wh_APIKeyHash = hq_KeyHash q, wh_URL = url, wh_Secret = stored \<rparr>, hk_deleted_at = None \<rparr>]"
    "wr_ID rec = i" "wr_URL rec = url" "i \<in> range (pg_uuid (hw_db w1))"
    by (rule create_tx_Inr)
  then show thesis using that [OF run(1,2)] run(4,5) new_secret_frame [OF run(2)] by simp
qed

lemma rand_read_length: "rand_read n w = (Some bs, w') \<Longrightarrow> length bs = n"
  by (auto simp: rand_read_def split: if_splits)

lemma new_secret_opens:
  assumes "\<And>k n p. ae_open ae k n (ae_seal ae k n p) = Some p"
    and "hex_key hexKey = Some (wk_secretKey h)" "new_secret ae h w = (Inr (plain, stored), w')"
  shows "DecryptSecret ae stored hexKey = Some plain" "\<exists>raw. plain = hex_encode raw" "\<exists>raw. stored = hex_encode raw"
proof -
  have key: "length (wk_secretKey h) = 32" "hexKey \<noteq> []"
    using assms(2) by (auto simp: hex_key_def split: option.splits if_splits)
  obtain nonce raw w1 w2 where "plain = hex_encode raw" "rand_read nonceSize w1 = (Some nonce, w2)"
      and enc: "stored = hex_encode (nonce @ ae_seal ae (wk_secretKey h) nonce plain)"
    using assms(3) key(1)
    by (auto simp: new_secret_def encryptSecret_def Let_def split: prod.splits option.splits if_splits)
  moreover from this(2) have "length nonce = nonceSize" by (rule rand_read_length)
  ultimately show "DecryptSecret ae stored hexKey = Some plain" "\<exists>raw. plain = hex_encode raw" "\<exists>raw. stored = hex_encode raw"
    using assms(1,2) key(2) by (auto simp: DecryptSecret_def enc)
qed

section \<open>Tasks are read back\<close>

definition float_text :: "formats \<Rightarrow> f64 \<Rightarrow> bool" where
  "float_text fm x \<longleftrightarrow> (\<exists>l. fm_float fm x = Some l \<and> num_literal l \<and> ParseFloat l = Some x)"

definition instant_text :: "formats \<Rightarrow> instant \<Rightarrow> bool" where
  "instant_text fm t \<longleftrightarrow> (\<exists>s. fm_json_time fm t = Some (JStr s) \<and> valid_utf8 s \<and> fm_parse fm RFC3339 s = Some t)"

text \<open>An event that JSON can carry: its floats and its time have texts that are read back.\<close>

definition event_text :: "formats \<Rightarrow> Payload \<Rightarrow> bool" where
  "event_text fm e \<longleftrightarrow> - (2 ^ 63) \<le> pl_ModelID e \<and> pl_ModelID e < 2 ^ 63 \<and>
     list_all (float_text fm) [pl_OldPriceInput e, pl_OldPriceOutput e, pl_NewPriceInput e, pl_NewPriceOutput e] \<and>
     instant_text fm (pl_ConfirmedAt e) \<and> valid_utf8 (pl_Provider e) \<and> valid_utf8 (pl_Source e)"

lemma task_names:
  "to_lower ''model_id'' = ''model_id''" "to_lower ''provider'' = ''provider''"
  "to_lower ''old_price_input'' = ''old_price_input''" "to_lower ''old_price_output'' = ''old_price_output''"
  "to_lower ''new_price_input'' = ''new_price_input''" "to_lower ''new_price_output'' = ''new_price_output''"
  "to_lower ''confirmed_at'' = ''confirmed_at''" "to_lower ''source'' = ''source''"
  "to_lower ''webhook_id'' = ''webhook_id''" "to_lower ''url'' = ''url''" "to_lower ''secret'' = ''secret''"
  "to_lower ''event'' = ''event''"
  by code_simp+

lemma task_names_utf8:
  "valid_utf8 ''model_id''" "valid_utf8 ''provider''" "valid_utf8 ''old_price_input''" "valid_utf8 ''old_price_output''"
  "valid_utf8 ''new_price_input''" "valid_utf8 ''new_price_output''" "valid_utf8 ''confirmed_at''" "valid_utf8 ''source''"
  "valid_utf8 ''webhook_id''" "valid_utf8 ''url''" "valid_utf8 ''secret''" "valid_utf8 ''event''"
  by code_simp+

lemma event_roundtrip:
  assumes "event_text fm e"
  obtains ms where "members (payload_members fm e) = Some (JObj ms)" "json_wf (JObj ms)" "event_of fm ms = Some e"
proof -
  obtain a b c d t where l: "fm_float fm (pl_OldPriceInput e) = Some a" "num_literal a" "ParseFloat a = Some (pl_OldPriceInput e)"
      "fm_float fm (pl_OldPriceOutput e) = Some b" "num_literal b" "ParseFloat b = Some (pl_OldPriceOutput e)"
      "fm_float fm (pl_NewPriceInput e) = Some c" "num_literal c" "ParseFloat c = Some (pl_NewPriceInput e)"
      "fm_float fm (pl_NewPriceOutput e) = Some d" "num_literal d" "ParseFloat d = Some (pl_NewPriceOutput e)"
      "fm_json_time fm (pl_ConfirmedAt e) = Some (JStr t)" "valid_utf8 t" "fm_parse fm RFC3339 t = Some (pl_ConfirmedAt e)"
    using assms unfolding event_text_def float_text_def instant_text_def by (simp only: list.pred_inject) blast
  let ?ms = "[(''model_id'', JNum (itoa (pl_ModelID e))), (''provider'', JStr (pl_Provider e)),
     (''old_price_input'', JNum a), (''old_price_output'', JNum b), (''new_price_input'', JNum c), (''new_price_output'', JNum d),
     (''confirmed_at'', JStr t), (''source'', JStr (pl_Source e))]"
  have "num_literal (itoa (pl_ModelID e))" "atoi (itoa (pl_ModelID e)) = Some (pl_ModelID e)"
    using assms by (auto simp: event_text_def intro: num_literal_itoa)
  moreover have "members (payload_members fm e) = Some (JObj ?ms)"
    by (simp add: members_def payload_members_def json_int_def json_text_def json_float_def l)
  moreover have "event_of fm ?ms = Some e" if "atoi (itoa (pl_ModelID e)) = Some (pl_ModelID e)"
    using that l by (simp add: event_of_def int_field_def str_field_def float_field_def time_field_def field_values_def task_names)
  ultimately show thesis using that [of ?ms] assms l by (simp add: task_names_utf8 event_text_def)
qed

lemma task_roundtrip:
  assumes "event_text fm (tp_Event t)" "valid_utf8 (tp_WebhookID t)" "valid_utf8 (tp_URL t)" "valid_utf8 (tp_Secret t)"
  obtains bytes where "task_bytes fm t = Some bytes" "task_of fm bytes = Some t"
proof -
  obtain ms where ms: "members (payload_members fm (tp_Event t)) = Some (JObj ms)" "json_wf (JObj ms)" "event_of fm ms = Some (tp_Event t)"
    using event_roundtrip [OF assms(1)] .
  let ?ms = "[(''webhook_id'', JStr (tp_WebhookID t)), (''url'', JStr (tp_URL t)), (''secret'', JStr (tp_Secret t)), (''event'', JObj ms)]"
  have json: "task_json fm t = Some (JObj ?ms)"
    using ms(1) by (simp add: task_json_def members_def [of "_ # _"] json_text_def)
  have "json_parse (json_print (JObj ?ms)) = Some (JObj ?ms)"
    by (rule json_roundtrip) (use ms(2) assms in \<open>simp add: task_names_utf8\<close>)
  then have "task_of fm (json_print (JObj ?ms)) = Some t"
    using ms(3) by (simp add: task_of_def struct_members_def str_field_def sub_struct_def field_values_def task_names)
  then show thesis using that json by (simp add: task_bytes_def)
qed

section \<open>Deliveries\<close>

text \<open>The task the reconciler queues for a webhook and an event.\<close>

definition hook_task :: "WebhookRow \<Rightarrow> Payload \<Rightarrow> TaskPayload" where
  "hook_task row event = \<lparr> tp_WebhookID = wh_ID row, tp_URL = wh_URL row, tp_Secret = wh_Secret row, tp_Event = event \<rparr>"

lemma enqueue_one_task:
  "payload_marshals event \<Longrightarrow>
    enqueue_one env event r row = tick (emit (Enqueue (hook_task row event) (enqueue_ok env (rc_tick r))) r)"
  by (simp add: enqueue_one_def hook_task_def)

lemma hex_utf8: "valid_utf8 (hex_encode s)"
proof -
  have "valid_utf8 (a # b # r)" if "byte a < 128" "byte b < 128" "valid_utf8 r" for a b r
    using that by (simp add: valid_utf8.simps [of "a # b # r"] valid_utf8.simps [of "b # r"] rune_width_def)
  moreover have "byte (hex_digits ! n) < 128" if "n < 16" for n
  proof -
    have "list_all (\<lambda>c. byte c < 128) hex_digits" "length hex_digits = 16" by code_simp+
    then show ?thesis using that by (simp add: list_all_length)
  qed
  moreover have "byte c < 256" for c by (simp add: byte_def)
  ultimately show ?thesis
    by (induction s) (simp_all add: hex_encode_def valid_utf8.simps [of "[]"] less_mult_imp_div_less)
qed

lemma Handle_signs:
  assumes "event_text fm event" "valid_utf8 (wh_ID row)" "valid_utf8 (wh_URL row)" "valid_utf8 (wh_Secret row)"
    and "DecryptSecret ae (wh_Secret row) hexKey = Some plain"
  obtains body task where "event_bytes fm event = Some body" "task_bytes fm (hook_task row event) = Some task"
    "\<And>url_ok dest. Handle fm ae url_ok hexKey dest task =
       (if url_ok (wh_URL row) then send_post dest (delivery_post (wh_URL row) plain body) else NotSent)"
proof -
  obtain task where "task_bytes fm (hook_task row event) = Some task" "task_of fm task = Some (hook_task row event)"
    using task_roundtrip [of fm "hook_task row event"] assms by (auto simp: hook_task_def)
  moreover obtain body where "event_bytes fm event = Some body"
    using event_roundtrip [OF assms(1)] unfolding event_bytes_def by (metis option.simps(9))
  ultimately show thesis using that assms(5) by (simp add: Handle_def hook_task_def)
qed

text \<open>
  C40. From registration to delivery: when the API and the worker hold the same key, every accepted
  registration stores one active row for the caller's key and URL and shows its secret once; and of
  every event that the reconciler queues for this row, the worker posts to that URL exactly the
  event's JSON, signed with HMAC-SHA256 under the shown secret.
\<close>

theorem webhook_delivery_verifies:
  assumes "\<And>k n p. ae_open ae k n (ae_seal ae k n p) = Some p"
    and "hex_key hexKey = Some (wk_secretKey h)"
    and "h_CreateWebhook fm ae nt h q w = ((None, r), w')"
    and "pred_option valid_utf8 (hq_URL q)" "\<And>n. valid_utf8 (pg_uuid (hw_db w) n)"
  shows "\<exists>plain rec row.
    t_webhooks (pg_tables (hw_db w')) = t_webhooks (pg_tables (hw_db w)) @ [\<lparr> hk_row = row, hk_deleted_at = None \<rparr>] \<and>
    wh_APIKeyHash row = hq_KeyHash q \<and> hq_URL q = Some (wh_URL row) \<and> wr_ID rec = wh_ID row \<and>
    api_Created fm (created_json fm rec plain) zero_meta = (None, r) \<and>
    (\<forall>event. event_text fm event \<longrightarrow> (\<exists>body task.
       event_bytes fm event = Some body \<and> task_bytes fm (hook_task row event) = Some task \<and>
       (\<forall>env (rc :: pg reconciler). payload_marshals event \<longrightarrow>
          enqueue_one env event rc row = tick (emit (Enqueue (hook_task row event) (enqueue_ok env (rc_tick rc))) rc)) \<and>
       (\<forall>url_ok dest. Handle fm ae url_ok hexKey dest task =
          (if url_ok (wh_URL row) then send_post dest (delivery_post (wh_URL row) plain body) else NotSent))))"
proof -
  obtain url plain stored w1 i rec where run: "check_url nt h q = Inr url" "new_secret ae h w = (Inr (plain, stored), w1)"
    "t_webhooks (pg_tables (hw_db w')) = t_webhooks (pg_tables (hw_db w)) @
      [\<lparr> hk_row = \<lparr> wh_ID = i, wh_APIKeyHash = hq_KeyHash q, wh_URL = url, wh_Secret = stored \<rparr>, hk_deleted_at = None \<rparr>]"
    "wr_ID rec = i" "i \<in> range (pg_uuid (hw_db w))" "api_Created fm (created_json fm rec plain) zero_meta = (None, r)"
    by (rule h_CreateWebhook_stores [OF assms(3)])
  let ?row = "\<lparr> wh_ID = i, wh_APIKeyHash = hq_KeyHash q, wh_URL = url, wh_Secret = stored \<rparr>"
  have url: "hq_URL q = Some url" using run(1) by (auto simp: check_url_def Let_def split: option.splits if_splits sum.splits)
  have dec: "DecryptSecret ae (wh_Secret ?row) hexKey = Some plain" "valid_utf8 (wh_Secret ?row)"
    using new_secret_opens [OF assms(1,2) run(2)] hex_utf8 by auto
  have texts: "valid_utf8 (wh_ID ?row)" "valid_utf8 (wh_URL ?row)" using run(5) assms(4,5) url by auto
  have all: "\<forall>event. event_text fm event \<longrightarrow> (\<exists>body task.
      event_bytes fm event = Some body \<and> task_bytes fm (hook_task ?row event) = Some task \<and>
      (\<forall>env (rc :: pg reconciler). payload_marshals event \<longrightarrow>
         enqueue_one env event rc ?row = tick (emit (Enqueue (hook_task ?row event) (enqueue_ok env (rc_tick rc))) rc)) \<and>
      (\<forall>url_ok dest. Handle fm ae url_ok hexKey dest task =
         (if url_ok (wh_URL ?row) then send_post dest (delivery_post (wh_URL ?row) plain body) else NotSent)))"
    by (intro allI impI, rule Handle_signs [OF _ texts dec(2,1)], assumption) (use enqueue_one_task in blast)
  show ?thesis
    by (rule exI [of _ plain], rule exI [of _ rec], rule exI [of _ ?row], intro conjI)
      (rule all | (use run(3,4,6) url in simp))+
qed

section \<open>Weak points\<close>

text \<open>
  Without a configured key the API encrypts under a random one, while the worker takes what is
  stored for the secret itself: it signs with the ciphertext, which is not the secret shown.
\<close>

lemma ephemeral_key_breaks_signatures:
  assumes "resolveWebhookKey [] w = (Some (wk_secretKey h), w1)" "new_secret ae h w2 = (Inr (plain, stored), w3)"
    and "\<And>k n p. length p \<le> length (ae_seal ae k n p)"
  shows "DecryptSecret ae stored [] = Some stored" "stored \<noteq> plain"
proof -
  have key: "length (wk_secretKey h) = 32" using assms(1) rand_read_length by (auto simp: resolveWebhookKey_def)
  obtain nonce w4 w5 where enc: "rand_read nonceSize w4 = (Some nonce, w5)"
      "stored = hex_encode (nonce @ ae_seal ae (wk_secretKey h) nonce plain)"
    using assms(2) key by (auto simp: new_secret_def encryptSecret_def Let_def split: prod.splits option.splits if_splits)
  have "length plain \<le> length (ae_seal ae (wk_secretKey h) nonce plain)" by (rule assms(3))
  then have "length plain < length stored" using rand_read_length [OF enc(1)] enc(2) by (simp add: nonceSize_def)
  then show "stored \<noteq> plain" by auto
  show "DecryptSecret ae stored [] = Some stored" by (simp add: DecryptSecret_def)
qed

text \<open>
  A literal address with a zone, which the resolver hands back unchanged, is no address to
  \<open>net.ParseIP\<close>; the check of a webhook's URL passes over it, where the scrapers' check refuses. The address is
  link-local, in a blocked range.
\<close>

lemma zoned_address_accepted:
  "isWebhookURLSafe \<lparr> nt_hostname = (\<lambda>_. Some ''fe80::1%eth0''), nt_request_uri = (\<lambda>_. Inr ''https''),
     nt_lookup = (\<lambda>h. Some [h]), nt_quote = id \<rparr> u = None"
  "CheckIPs [''fe80::1%eth0''] = Some (Unparseable ''fe80::1%eth0'')"
  "blocked_ip [254, 128, 0, 0, 0, 0, 0, 0, 0, 0, 0, 0, 0, 0, 0, 1]"
proof -
  have "ParseIP ''fe80::1%eth0'' = None" by code_simp
  then show "isWebhookURLSafe \<lparr> nt_hostname = (\<lambda>_. Some ''fe80::1%eth0''), nt_request_uri = (\<lambda>_. Inr ''https''),
       nt_lookup = (\<lambda>h. Some [h]), nt_quote = id \<rparr> u = None"
    "CheckIPs [''fe80::1%eth0''] = Some (Unparseable ''fe80::1%eth0'')"
    by (simp_all add: isWebhookURLSafe_def)
  show "blocked_ip [254, 128, 0, 0, 0, 0, 0, 0, 0, 0, 0, 0, 0, 0, 0, 1]"
    by (simp add: blocked_ip_def IsLinkLocalUnicast_def to4_def)
qed

text \<open>An id that is no UUID is answered like a failure of the database, with status 500.\<close>

lemma malformed_id_is_internal_error:
  assumes "hq_ID q \<noteq> []" "uuid_text (hq_ID q) = None"
  shows "fst (h_DeleteWebhook q w) = problem (NewInternalError ''failed to delete webhook'')"
  using assms by (simp add: h_DeleteWebhook_def DeleteWebhook_def Let_def)

section \<open>Examples\<close>

definition demo_hook_formats :: formats where
  "demo_hook_formats = \<lparr> fm_float = (\<lambda>_. Some ''1''), fm_fixed = (\<lambda>_ _. ''1.0''), fm_parse_float = (\<lambda>_. None),
     fm_json_time = (\<lambda>_. Some (JStr ''2026-01-01T00:00:00Z'')), fm_format = (\<lambda>_ _. ''2026''), fm_parse = (\<lambda>_ _. Some 0),
     fm_path_unescape = id \<rparr>"

definition demo_hook_tables :: tables where
  "demo_hook_tables = \<lparr> t_sources = [], t_models = [], t_prices = [], t_history = [], t_review = [], t_webhooks = [],
     t_price_serial = 1, t_review_serial = 1, t_model_serial = 1, t_benchmarks = [], t_scores = [], t_capabilities = [],
     t_identities = [], t_tokens = [], t_keys = [] \<rparr>"

definition demo_hook_world :: hook_world where
  "demo_hook_world = \<lparr> hw_db = \<lparr> pg_tables = demo_hook_tables, pg_count = 0, pg_fault = (\<lambda>_. False), pg_now = int,
     pg_numeric = (\<lambda>_ x. x), pg_uuid = (\<lambda>_. ''u1'') \<rparr>, hw_byte = (\<lambda>_ _. CHR ''r''), hw_broken = (\<lambda>_. False), hw_reads = 0 \<rparr>"

definition demo_aead :: aead where
  "demo_aead = \<lparr> ae_seal = (\<lambda>_ _. rev), ae_open = (\<lambda>_ _ c. Some (rev c)) \<rparr>"

definition demo_network :: network where
  "demo_network = \<lparr> nt_hostname = (\<lambda>_. None), nt_request_uri = (\<lambda>_. Inr ''https''), nt_lookup = (\<lambda>_. None), nt_quote = id \<rparr>"

definition demo_hooks :: WebhookHandler where
  "demo_hooks = \<lparr> wk_secretKey = replicate 32 (CHR ''K''), wk_urlValidator = Some (\<lambda>_. None) \<rparr>"

definition demo_hook_request :: hook_request where
  "demo_hook_request = \<lparr> hq_URL = Some ''https://a.io'', hq_ID = ''u1'', hq_KeyHash = ''h'' \<rparr>"

definition demo_event :: Payload where
  "demo_event = \<lparr> pl_ModelID = 7, pl_Provider = ''openai'', pl_OldPriceInput = Fin 1, pl_OldPriceOutput = Fin 1,
     pl_NewPriceInput = Fin 1, pl_NewPriceOutput = Fin 1, pl_ConfirmedAt = 0, pl_Source = ''litellm'' \<rparr>"

theorem webhooks_capped_witness:
  "\<exists>as w'. run_all (serve_hook demo_hook_formats demo_aead demo_network demo_hooks) [Register demo_hook_request, Remove demo_hook_request]
     demo_hook_world = (as, w') \<and> length (active_hooks ''h'' (pg_tables (hw_db w'))) \<le> maxWebhooksPerKey \<and>
     hooks_of ''other'' (pg_tables (hw_db w')) = []"
proof -
  let ?ops = "[Register demo_hook_request, Remove demo_hook_request]"
  obtain as w' where run: "run_all (serve_hook demo_hook_formats demo_aead demo_network demo_hooks) ?ops demo_hook_world = (as, w')"
    by fastforce
  have "\<forall>k. length (active_hooks k (pg_tables (hw_db demo_hook_world))) \<le> maxWebhooksPerKey"
    by (simp add: demo_hook_world_def demo_hook_tables_def active_hooks_def)
  moreover have "''other'' \<notin> op_key ` set ?ops" by (simp add: op_key_def demo_hook_request_def)
  moreover have "hooks_of ''other'' (pg_tables (hw_db demo_hook_world)) = []"
    by (simp add: demo_hook_world_def demo_hook_tables_def hooks_of_def)
  ultimately show ?thesis using webhooks_capped [OF run refl refl] run by metis
qed

lemma demo_event_text: "event_text demo_hook_formats demo_event"
proof -
  have "num_literal ''1''" "ParseFloat ''1'' = Some (Fin 1)" "valid_utf8 ''2026-01-01T00:00:00Z''" "valid_utf8 ''openai''"
    "valid_utf8 ''litellm''"
    unfolding num_literal_def by code_simp+
  then show ?thesis
    by (simp add: event_text_def demo_event_def demo_hook_formats_def float_text_def instant_text_def)
qed

theorem webhook_delivery_verifies_witness:
  "\<exists>plain body task. event_bytes demo_hook_formats demo_event = Some body \<and>
     Handle demo_hook_formats demo_aead (\<lambda>_. True) (hex_encode (replicate 32 (CHR ''K''))) (\<lambda>_. Some 200) task =
       Delivered (delivery_post ''https://a.io'' plain body)"
proof -
  have key: "hex_key (hex_encode (replicate 32 (CHR ''K''))) = Some (wk_secretKey demo_hooks)"
    by (simp add: hex_key_def demo_hooks_def)
  have opens: "ae_open demo_aead k n (ae_seal demo_aead k n p) = Some p" for k n p by (simp add: demo_aead_def)
  have "check_url demo_network demo_hooks demo_hook_request = Inr ''https://a.io''"
    by (simp add: check_url_def demo_network_def demo_hooks_def demo_hook_request_def)
  moreover have "\<exists>s. fst (new_secret demo_aead demo_hooks demo_hook_world) = Inr s"
    by (simp add: new_secret_def demo_hooks_def demo_hook_world_def rand_read_def encryptSecret_def aes_key_def Let_def)
  then obtain s w1 where "new_secret demo_aead demo_hooks demo_hook_world = (Inr s, w1)" by (metis eq_fst_iff)
  moreover from new_secret_frame [OF this] have "fst (CreateWebhook ''h'' u x (hw_db w1)) = Inr \<lparr> wr_ID = ''u1'', wr_URL = u, wr_CreatedAt = 0 \<rparr>" for u x
    by (simp add: demo_hook_world_def demo_hook_tables_def CreateWebhook_def create_tx_def transaction_def stmt_def pg_tick_def
        insert_hook_def active_hooks_def maxWebhooksPerKey_def db_bind_def db_return_def Let_def)
  then obtain db where "CreateWebhook ''h'' ''https://a.io'' (snd s) (hw_db w1) = (Inr \<lparr> wr_ID = ''u1'', wr_URL = ''https://a.io'', wr_CreatedAt = 0 \<rparr>, db)"
    by (metis eq_fst_iff)
  moreover have "\<exists>r. api_Created demo_hook_formats (created_json demo_hook_formats x p) zero_meta = (None, r)" for x p
    by (simp add: api_Created_def envelope_def meta_json_def created_json_def members_def json_text_def json_float_def
        demo_hook_formats_def Let_def)
  moreover have "hq_KeyHash demo_hook_request = ''h''" by (simp add: demo_hook_request_def)
  ultimately have "\<exists>r. fst (h_CreateWebhook demo_hook_formats demo_aead demo_network demo_hooks demo_hook_request demo_hook_world) = (None, r)"
    by (cases s) (simp add: h_CreateWebhook_def Let_def)
  then obtain r w' where run: "h_CreateWebhook demo_hook_formats demo_aead demo_network demo_hooks demo_hook_request demo_hook_world = ((None, r), w')"
    by (metis eq_fst_iff)
  have "valid_utf8 ''https://a.io''" "valid_utf8 ''u1''" by code_simp+
  then have "pred_option valid_utf8 (hq_URL demo_hook_request)" "\<And>n. valid_utf8 (pg_uuid (hw_db demo_hook_world) n)"
    by (simp_all add: demo_hook_request_def demo_hook_world_def)
  from webhook_delivery_verifies [OF opens key run this]
  obtain plain row where url: "hq_URL demo_hook_request = Some (wh_URL (row :: WebhookRow))"
    and all: "\<forall>event. event_text demo_hook_formats event \<longrightarrow> (\<exists>body task. event_bytes demo_hook_formats event = Some body \<and>
      (\<forall>url_ok dest. Handle demo_hook_formats demo_aead url_ok (hex_encode (replicate 32 (CHR ''K''))) dest task =
        (if url_ok (wh_URL row) then send_post dest (delivery_post (wh_URL row) plain body) else NotSent)))"
    by (elim exE conjE) (rule that, assumption, blast)
  have "wh_URL row = ''https://a.io''" using url by (simp add: demo_hook_request_def)
  moreover from all demo_event_text obtain body task where "event_bytes demo_hook_formats demo_event = Some body"
    and "\<forall>url_ok dest. Handle demo_hook_formats demo_aead url_ok (hex_encode (replicate 32 (CHR ''K''))) dest task =
      (if url_ok (wh_URL row) then send_post dest (delivery_post (wh_URL row) plain body) else NotSent)" by blast
  ultimately show ?thesis by (intro exI [of _ plain] exI [of _ body] exI [of _ task]) (simp add: send_post_def)
qed

end
