(* ===== verification/Ask_Guarantees.thy ===== *)
theory Ask_Guarantees
  imports Ask
begin

text \<open>
  What the question endpoint reads out of a question: which models, whatever the order in which Go
  ranges over the aliases, and where that order does matter.
\<close>

section \<open>Models named in a question\<close>

text \<open>An alias stands in a question on its own when no longer alias there contains it.\<close>

definition named_alone :: "string \<Rightarrow> string \<Rightarrow> bool" where
  "named_alone asked a \<longleftrightarrow> contains asked a \<and>
     \<not> (\<exists>b t. (b, t) \<in> set ModelAliases \<and> length a < length b \<and> contains b a \<and> contains asked b)"

lemma superseded_iff:
  "superseded asked a \<longleftrightarrow> (\<exists>b t. (b, t) \<in> set ModelAliases \<and> length a < length b \<and> contains b a \<and> contains asked b)"
  by (auto simp: superseded_def list_ex_iff)

lemma add_compared_all:
  assumes "distinct models"
  shows "distinct (foldl (add_compared asked) models aliases) \<and>
    set (foldl (add_compared asked) models aliases) = set models \<union> snd ` {e \<in> set aliases. named_alone asked (fst e)}"
  using assms
proof (induction aliases arbitrary: models)
  case (Cons e es)
  have step: "distinct (add_compared asked models e)"
    "set (add_compared asked models e) = set models \<union> snd ` {x \<in> {e}. named_alone asked (fst x)}"
    using Cons.prems by (auto simp: add_compared_def named_alone_def superseded_iff)
  then show ?case using Cons.IH [OF step(1)] by auto
qed simp

lemma sort_distinct: "distinct xs \<Longrightarrow> sort xs = sorted_list_of_set (set xs)"
  by (simp add: sorted_list_of_set_sort_remdups distinct_remdups_id)

text \<open>The fold keeps the slug of a longest alias seen so far, with its length.\<close>

definition longest_of :: "(string \<times> string) list \<Rightarrow> string \<Rightarrow> string \<times> nat \<Rightarrow> bool" where
  "longest_of aliases asked best \<longleftrightarrow>
     (\<forall>(a, s) \<in> set aliases. contains asked a \<longrightarrow> length a \<le> snd best) \<and>
     (best = ([], 0) \<or> (\<exists>a. (a, fst best) \<in> set aliases \<and> contains asked a \<and> length a = snd best))"

lemma longest_of_fold: "longest_of aliases asked (foldl (longer_alias asked) ([], 0) aliases)"
proof (induction aliases rule: rev_induct)
  case Nil
  show ?case by (simp add: longest_of_def)
next
  case (snoc e es)
  then show ?case
    by (cases e) (auto simp: longest_of_def longer_alias_def split: if_splits dest: less_imp_le intro: le_trans)
qed

lemma aliases_proper: "list_all (\<lambda>(a, s). a \<noteq> [] \<and> s \<noteq> []) ModelAliases"
  by code_simp

text \<open>
  Which models a question names. For a comparison these are, in alphabetical order and each
  once, the models of the aliases that stand in the question on their own, whatever the order in
  which Go ranges over the table. For the other questions it is the model of an alias in the
  question that no alias in the question exceeds in length, and none exactly when the question
  holds no alias; where all the longest aliases mean one model, the order does not matter.
\<close>

theorem models_named_in_question:
  assumes "set aliases = set ModelAliases"
  shows "compared_models aliases asked = sorted_list_of_set {s. \<exists>a. (a, s) \<in> set ModelAliases \<and> named_alone asked a} \<and>
    (resolveAlias aliases asked = [] \<longleftrightarrow> (\<nexists>a s. (a, s) \<in> set ModelAliases \<and> contains asked a)) \<and>
    (\<forall>a s. (a, s) \<in> set ModelAliases \<and> contains asked a \<and>
       (\<forall>b t. (b, t) \<in> set ModelAliases \<and> contains asked b \<and> (b, t) \<noteq> (a, s) \<longrightarrow> length b < length a \<or> (length b = length a \<and> t = s)) \<longrightarrow>
       resolveAlias aliases asked = s)"
proof (intro conjI)
  have "snd ` {e \<in> set aliases. named_alone asked (fst e)} = {s. \<exists>a. (a, s) \<in> set ModelAliases \<and> named_alone asked a}"
    using assms by force
  then show "compared_models aliases asked = sorted_list_of_set {s. \<exists>a. (a, s) \<in> set ModelAliases \<and> named_alone asked a}"
    using add_compared_all [of "[]" asked aliases] by (simp add: compared_models_def sort_distinct)
next
  let ?best = "foldl (longer_alias asked) ([], 0) aliases"
  have proper: "a \<noteq> [] \<and> s \<noteq> []" if "(a, s) \<in> set ModelAliases" for a s
    using that aliases_proper by (auto simp: list_all_iff)
  have best: "longest_of aliases asked ?best" by (rule longest_of_fold)
  show "resolveAlias aliases asked = [] \<longleftrightarrow> (\<nexists>a s. (a, s) \<in> set ModelAliases \<and> contains asked a)"
    using best proper unfolding resolveAlias_def longest_of_def assms by fastforce
  show "\<forall>a s. (a, s) \<in> set ModelAliases \<and> contains asked a \<and>
       (\<forall>b t. (b, t) \<in> set ModelAliases \<and> contains asked b \<and> (b, t) \<noteq> (a, s) \<longrightarrow> length b < length a \<or> (length b = length a \<and> t = s)) \<longrightarrow>
       resolveAlias aliases asked = s"
  proof (intro allI impI, elim conjE)
    fix a s
    assume a: "(a, s) \<in> set ModelAliases" "contains asked a"
      and longest: "\<forall>b t. (b, t) \<in> set ModelAliases \<and> contains asked b \<and> (b, t) \<noteq> (a, s) \<longrightarrow>
        length b < length a \<or> (length b = length a \<and> t = s)"
    have "length a \<le> snd ?best" using best a unfolding longest_of_def assms by auto
    moreover from this proper [OF a(1)] have "?best \<noteq> ([], 0)" by auto
    then obtain c where "(c, fst ?best) \<in> set ModelAliases" "contains asked c" "length c = snd ?best"
      using best unfolding longest_of_def assms by auto
    ultimately show "resolveAlias aliases asked = s" using longest unfolding resolveAlias_def
      by (metis leD prod.inject)
  qed
qed

section \<open>Examples and weak points\<close>

theorem models_named_in_question_witness:
  "compared_models (rev ModelAliases) ''gpt4 vs o1'' = compared_models ModelAliases ''gpt4 vs o1'' \<and>
   resolveAlias (rev ModelAliases) ''hello'' = []"
proof -
  have "\<nexists>a s. (a, s) \<in> set ModelAliases \<and> contains ''hello'' a"
  proof -
    have "list_all (\<lambda>(a, s). \<not> contains ''hello'' a) ModelAliases" by code_simp
    then show ?thesis by (auto simp: list_all_iff)
  qed
  moreover have "set (rev ModelAliases) = set ModelAliases" by simp
  note models_named_in_question [OF this] models_named_in_question [OF refl]
  ultimately show ?thesis by simp
qed

text \<open>Where two longest aliases mean different models, the order decides.\<close>

lemma tie_depends_on_order:
  "resolveAlias ModelAliases ''price of gemini pro and mistral 7b'' \<noteq>
   resolveAlias (rev ModelAliases) ''price of gemini pro and mistral 7b''"
  by code_simp

text \<open>\<open>text\<close> is in \<open>context\<close>, and \<open>generation\<close> comes before \<open>image\<close>.\<close>

lemma context_reads_as_text:
  "map_of (extractRecommendParams ModelAliases ''cheapest model with 128k context'') ''task'' = Some (PText ''text'')"
  by code_simp

lemma image_generation_task:
  "map_of (extractRecommendParams ModelAliases ''cheapest for image generation'') ''task'' = Some (PText ''generation'')"
  by code_simp

text \<open>\<open>under $5\<close> becomes a bound on the price per token, where every price is far smaller.\<close>

lemma dollars_bound_token_price:
  "ask_filter (extractRecommendParams ModelAliases ''cheapest under $5'') =
    \<lparr> rf_Task = [], rf_ContextSize = None, rf_MaxPriceInput = Some (Fin 5), rf_UseCase = [], rf_Priority = [],
      rf_RequiresTools = False, rf_RequiresStructuredOutput = False, rf_TopK = 5 \<rparr>"
  by code_simp

text \<open>A context window in thousands can leave the range of the database's integers.\<close>

lemma context_leaves_int4:
  "rf_ContextSize (ask_filter (extractRecommendParams ModelAliases ''cheapest with 3000000k'')) = Some 3000000000"
  by code_simp

text \<open>A comparison is understood alike in every run.\<close>

lemma comparison_stable:
  assumes "matches_any comparePatterns asked" "set aliases = set ModelAliases"
  shows "parseIntent aliases asked = parseIntent ModelAliases asked"
proof -
  have "compared_models xs asked = sorted_list_of_set (snd ` {e \<in> set xs. named_alone asked (fst e)})" for xs
    using add_compared_all [of "[]" asked xs] by (simp add: compared_models_def sort_distinct)
  note models = this [of aliases] this [of ModelAliases]
  have "compared_models aliases asked = compared_models ModelAliases asked" by (simp only: models assms(2))
  then have "extractCompareParams aliases asked = extractCompareParams ModelAliases asked"
    by (simp only: extractCompareParams_def)
  then show ?thesis by (simp only: parseIntent_def assms(1) if_True)
qed

end
