(* ===== verification/Spec2Isabelle.thy ===== *)
theory Spec2Isabelle
  imports Gate_Guarantees Scraper_Guarantees Worker_Pipeline Benchmark_Scrapers Signup_Guarantees Auth_Guarantees
    Read_Guarantees Webhook_Guarantees Ask_Guarantees
begin

text \<open>
  A verification library for the LLM pricing API: a worker scrapes the prices of language models,
  finds the changes and reconciles them into PostgreSQL; an API serves prices, changes and
  recommendations to the holders of keys, issues the keys by e-mail, and registers webhooks, to which
  the worker posts the changes. This theory collects the others; file names below are under
  \<open>src/internal\<close>.

  \<^bold>\<open>The language and its library.\<close> \<open>Prelude\<close> has what all share, \<open>Float64\<close> the floats of Go as
  rationals with one rounding per operation, \<open>Go_Text\<close>, \<open>Go_Codec\<close>, \<open>Go_Json\<close>, \<open>Json_Text\<close>,
  \<open>Go_Float_Text\<close>, \<open>Go_Regex\<close>, \<open>Go_Sort\<close>, \<open>Url_Query\<close> the parts of Go's standard library that the
  program uses: \<open>strings\<close> and \<open>strconv\<close>, hexadecimal, base64, SHA-256 and HMAC, \<open>encoding/json\<close>,
  \<open>ParseFloat\<close>, \<open>regexp\<close>, \<open>sort\<close>, \<open>net/url\<close>. \<open>Redis_Keys\<close> is the part of Redis with expiring keys.
  \<open>Selection\<close> is the loop that keeps the best candidate per key; \<open>Traces\<close> has the two locales
  about runs: \<open>one_shot\<close> (something happens at most once) and \<open>table_preorder\<close> (a relation that every
  statement of a database operation keeps is kept by the operation).

  \<^bold>\<open>Prices.\<close> \<open>Domain\<close> has the shared records (\<open>models\<close>, \<open>webhooks.Payload\<close>). \<open>Price_Diff\<close> is
  \<open>diff/diff.go\<close>. \<open>Reconciler\<close> is \<open>reconciler/\<close>, over a record of store operations; \<open>Reconciler_Contract\<close>
  states as the locale \<open>price_store\<close> what it needs of a store and proves that every call acts as a list of
  complete writes. \<open>Price_Tables\<close> is PostgreSQL: tables as lists of rows, a statement as one step that may
  fault, transactions, and the two stores \<open>pgxStore\<close> and \<open>pgxWorkerStore\<close>; it interprets the locale.
  \<open>Pricing_Guarantees\<close> has the properties of the reconciler (event log, two fetches, verdict of a group,
  pending entries, independence of order) and its weak points. \<open>Review_Queue\<close> is \<open>review/\<close>: store and
  handlers, a step relation, reachable states, and that an entry is actioned once and an approval
  publishes one price. \<open>Worker_Pipeline\<close> is \<open>worker/handlers.go\<close> and \<open>worker/store.go\<close>, which join a
  scraper, the diff and the reconciler.

  \<^bold>\<open>Scrapers.\<close> \<open>Web_Page\<close>, \<open>OpenAI_Scraper\<close>, \<open>Anthropic_Scraper\<close>, \<open>Gemini_Scraper\<close> and \<open>Feed_Scrapers\<close> are the six
  price scrapers under \<open>scraper/\<close>, from the answer's bytes or the parsed tree to the models;
  \<open>Scraper_Guarantees\<close> shows what they publish. \<open>Benchmark_Scrapers\<close> and \<open>Slugmap\<close> are the two benchmark
  scrapers and the resolver of names. \<open>Address_Check\<close> is \<open>scraper/ssrf.go\<close> with the addresses of
  package \<open>net\<close>: the dialer connects only to a checked public address.

  \<^bold>\<open>Intelligence.\<close> \<open>Capability_Scores\<close> and \<open>Intelligence_Store\<close> are \<open>intelligence/\<close>: aggregation of evidence,
  scores, stores and recomputation, with the bounds of the scores and the exactness of a recomputation.

  \<^bold>\<open>Signup.\<close> \<open>Signup_Store\<close>, \<open>Session_Token\<close>, \<open>Abuse_Guard\<close> are \<open>signup/\<close>, \<open>Problem_Detail\<close> is \<open>api/problem.go\<close>,
  \<open>Auth_Handlers\<close> is \<open>auth/handlers.go\<close> with \<open>signup/unkey.go\<close>. \<open>Signup_Guarantees\<close> and \<open>Auth_Guarantees\<close> show
  the constraints of the tables over every sequence of operations, single use and liveness of links, the
  round trip and soundness of cookies, the limits, and that keys and provider stay in step.

  \<^bold>\<open>The API.\<close> \<open>API_Gate\<close> is the chain of \<open>middleware/\<close> before \<open>/v1\<close>; \<open>Gate_Guarantees\<close> shows that who passes
  has a verified key and what the response cache replays. \<open>Trust_Meta\<close> is \<open>api/trust.go\<close>, \<open>Catalog_Store\<close> is
  \<open>api/handlers/store.go\<close>, \<open>Catalog_Handlers\<close>, \<open>Recommender\<close> and \<open>Context_Snapshot\<close> are the read handlers,
  \<open>Ask\<close> is \<open>ask.go\<close> and \<open>aliases.go\<close>. \<open>Catalog_Guarantees\<close> gives every query a contract (\<open>answers\<close>) and shows
  paging, agreement of list and detail, changes and their summary; \<open>Read_Guarantees\<close> the ranges
  of parameters, the budget of the snapshot and the order of recommendations; \<open>Ask_Guarantees\<close> which
  models a question names. \<open>Webhooks\<close> is registration, removal, secrets, tasks and delivery
  (\<open>webhooks.go\<close>, \<open>webhook_handler.go\<close>); \<open>Webhook_Guarantees\<close> shows the cap and the isolation of keys over
  every run, and that a delivery carries the signature that the receiver can check.

  \<^bold>\<open>Lemma groups.\<close> Each \<open>..._Guarantees\<close> theory first proves a contract per operation (frame, error
  case, success case), then the invariant over steps, then the properties. Every property with a
  hypothesis is followed, or closed at the end of its theory, by a witness that applies it to concrete data. The
  lemmas about weak points show, on concrete data, where the code and its documents part.

  \<^bold>\<open>Bounds and fuel.\<close> Recursion is structural or has a measure. Only the parser of JSON, the reader of IPv6
  groups and the cutting of a message into blocks for SHA-256 take fuel: the length of the text, eight
  groups, the length of the message. Each step uses up at least one byte, or one group of an
  address that has at most eight, so it does not run out. Integers of Go
  are \<open>int\<close> with the wrap-around written out (\<open>wrap64\<close>) where it can happen; an \<open>INTEGER\<close> column takes only
  32 bits, and the driver's refusal of more is an error (\<open>int4\<close>).

  \<^bold>\<open>Parameters.\<close> Arguments of the definitions stand for what is not under \<open>src/\<close> or not determined:
  clocks, random bytes, UUIDs and faults of statements; the orders in which Go ranges over maps; the texts of
  floats and times; \<open>ILIKE\<close>; the parsers of HTML, mail addresses and URLs; Unicode's symbols; AES-GCM, of which
  opening what was sealed is the only law; the resolver; the key provider, the mailer (arrival and
  reported outcome) and the destinations of webhooks; the handler behind the gate.

  \<^bold>\<open>Simplifications.\<close> \<open>ToLower\<close>, \<open>EqualFold\<close> and \<open>TrimSpace\<close> act on ASCII (the pages' \<open>TrimSpace\<close> on runes).
  SQL without \<open>ORDER BY\<close>, and ties of an \<open>ORDER BY\<close>, follow the order of the table; the property about paging lets
  that order differ from request to request. A failed commit counts as rolled back: a commit whose reply is
  lost is not modelled. Expiries in Redis are exact, where the client rounds durations
  below a millisecond. Row and advisory locks make an operation one step; requests run
  one after another. \<open>sort.Slice\<close> is the insertion sort it is on short slices.

  \<^bold>\<open>Not modelled.\<close> The event stream \<open>sse.go\<close> (connections, timers and pub/sub; a candidate for later work);
  start-up in \<open>cmd/\<close>, configuration, pools, the mail API's call, logs, traces and metrics, health checks and
  samplers, which are calls of libraries without state of the program's own; constant documents of \<open>discovery.go\<close>;
  the no-op Chatbot Arena scraper; deadlines of requests, so that no error of the model is a
  time-out; the frontend and the MCP server, which are TypeScript.
\<close>

end
